(* ===== verification/Prelude.thy ===== *)
theory Prelude
  imports Main "HOL-Library.AList" "HOL-Library.Word"
begin

text \<open>
  Shared foundations of the development: Rust's \<open>Result\<close> as a sum type, the
  standard library's containers as the model sees them (\<open>HashSet\<close> as a
  duplicate-free list, \<open>HashMap\<close> as an association list, \<open>iter_mut().find\<close> as
  an in-place update of the first match, \<open>min_by_key\<close>), machine integers with
  their wrap-around written out, and the lemmas about them that the component
  theories use through the simplifier.
\<close>

section \<open>Collections of facts\<close>

named_theorems frame_simps \<open>what an operation leaves unchanged\<close>
named_theorems keeps_inv \<open>an operation preserves a component invariant\<close>

section \<open>Results\<close>

type_synonym ('e, 'a) result = "'e + 'a"

abbreviation Ok :: "'a \<Rightarrow> ('e, 'a) result" where
  "Ok \<equiv> Inr"

abbreviation Err :: "'e \<Rightarrow> ('e, 'a) result" where
  "Err \<equiv> Inl"

text \<open>The \<open>?\<close> operator: stop with the error, or go on with the value.\<close>

definition and_then :: "('e, 'a) result \<Rightarrow> ('a \<Rightarrow> ('e, 'b) result) \<Rightarrow> ('e, 'b) result" where
  "and_then r f = (case r of Inl e \<Rightarrow> Err e | Inr a \<Rightarrow> f a)"

definition map_err :: "('e \<Rightarrow> 'f) \<Rightarrow> ('e, 'a) result \<Rightarrow> ('f, 'a) result" where
  "map_err f r = (case r of Inl e \<Rightarrow> Err (f e) | Inr a \<Rightarrow> Ok a)"

definition ok_or :: "'e \<Rightarrow> 'a option \<Rightarrow> ('e, 'a) result" where
  "ok_or e x = (case x of None \<Rightarrow> Err e | Some a \<Rightarrow> Ok a)"

lemma and_then_simps [simp]:
  "and_then (Err e) f = Err e"
  "and_then (Ok a) f = f a"
  by (simp_all add: and_then_def)

lemma map_err_simps [simp]:
  "map_err f (Err e) = Err (f e)"
  "map_err f (Ok a) = Ok a"
  by (simp_all add: map_err_def)

lemma ok_or_simps [simp]:
  "ok_or e None = Err e"
  "ok_or e (Some a) = Ok a"
  by (simp_all add: ok_or_def)

lemma and_then_eq_Ok:
  "and_then r f = Ok b \<longleftrightarrow> (\<exists>a. r = Ok a \<and> f a = Ok b)"
  by (cases r) auto

lemma and_then_eq_Err:
  "and_then r f = Err e \<longleftrightarrow> r = Err e \<or> (\<exists>a. r = Ok a \<and> f a = Err e)"
  by (cases r) auto

lemma map_err_eq_Ok [simp]: "map_err f r = Ok a \<longleftrightarrow> r = Ok a"
  by (cases r) auto

lemma ok_or_eq_Ok [simp]: "ok_or e x = Ok a \<longleftrightarrow> x = Some a"
  by (cases x) auto

section \<open>Options\<close>

text \<open>\<open>Option::filter\<close>, \<open>Option::is_none_or\<close>, \<open>Option::is_some_and\<close>.\<close>

definition opt_filter :: "('a \<Rightarrow> bool) \<Rightarrow> 'a option \<Rightarrow> 'a option" where
  "opt_filter p x = (case x of None \<Rightarrow> None | Some a \<Rightarrow> if p a then Some a else None)"

definition is_none_or :: "'a option \<Rightarrow> ('a \<Rightarrow> bool) \<Rightarrow> bool" where
  "is_none_or x p = (case x of None \<Rightarrow> True | Some a \<Rightarrow> p a)"

definition is_some_and :: "'a option \<Rightarrow> ('a \<Rightarrow> bool) \<Rightarrow> bool" where
  "is_some_and x p = (case x of None \<Rightarrow> False | Some a \<Rightarrow> p a)"

definition unwrap_or :: "'a \<Rightarrow> 'a option \<Rightarrow> 'a" where
  "unwrap_or d x = (case x of None \<Rightarrow> d | Some a \<Rightarrow> a)"

lemma option_op_simps [simp]:
  "opt_filter p None = None"
  "opt_filter p (Some a) = (if p a then Some a else None)"
  "is_none_or None p = True"
  "is_none_or (Some a) p = p a"
  "is_some_and None p = False"
  "is_some_and (Some a) p = p a"
  "unwrap_or d None = d"
  "unwrap_or d (Some a) = a"
  by (simp_all add: opt_filter_def is_none_or_def is_some_and_def unwrap_or_def)

lemma is_none_or_iff: "is_none_or x p \<longleftrightarrow> (\<forall>a. x = Some a \<longrightarrow> p a)"
  by (cases x) auto

lemma is_some_and_iff: "is_some_and x p \<longleftrightarrow> (\<exists>a. x = Some a \<and> p a)"
  by (cases x) auto

lemma opt_filter_eq_Some [simp]: "opt_filter p x = Some a \<longleftrightarrow> x = Some a \<and> p a"
  by (cases x) auto

section \<open>Hash sets and hash maps\<close>

text \<open>
  A \<open>HashSet\<close> is a duplicate-free list, built by \<open>extend\<close>; the order in which
  Rust iterates over it is unspecified, so code that iterates takes the order as
  an argument \<open>iter\<close>, of which only \<open>hash_order iter\<close> is known.
\<close>

definition set_extend :: "'a list \<Rightarrow> 'a list \<Rightarrow> 'a list" where
  "set_extend acc xs = fold List.insert xs acc"

definition hash_order :: "('a list \<Rightarrow> 'a list) \<Rightarrow> bool" where
  "hash_order iter \<longleftrightarrow> (\<forall>xs. set (iter xs) = set xs)"

lemma set_set_extend [simp]: "set (set_extend acc xs) = set acc \<union> set xs"
  unfolding set_extend_def by (induction xs arbitrary: acc) auto

lemma distinct_set_extend [simp]: "distinct acc \<Longrightarrow> distinct (set_extend acc xs)"
  unfolding set_extend_def by (induction xs arbitrary: acc) auto

lemma hash_order_set: "hash_order iter \<Longrightarrow> set (iter xs) = set xs"
  by (simp add: hash_order_def)

lemma hash_order_id [simp]: "hash_order (\<lambda>xs. xs)"
  by (simp add: hash_order_def)

lemma hash_order_rev [simp]: "hash_order rev"
  by (simp add: hash_order_def)

text \<open>
  A \<open>HashMap\<close> is an association list with \<open>AList.update\<close> as \<open>insert\<close>,
  \<open>AList.delete\<close> as \<open>remove\<close> and \<open>map_of\<close> as \<open>get\<close>; collecting a vector of
  pairs lets the last pair with a key win.
\<close>

definition hm_collect :: "('k \<times> 'v) list \<Rightarrow> ('k \<times> 'v) list" where
  "hm_collect kvs = fold (\<lambda>(k, v). AList.update k v) kvs []"

lemma map_of_update [simp]: "map_of (AList.update k v m) = (map_of m)(k \<mapsto> v)"
  by (rule ext) (simp add: update_conv')

lemma map_of_delete [simp]: "map_of (AList.delete k m) = (map_of m)(k := None)"
  by (rule ext) (simp add: delete_conv')

lemma map_of_fold_update:
  "map_of (fold (\<lambda>(k, v). AList.update k v) kvs m) = map_of m ++ map_of (rev kvs)"
  by (induction kvs arbitrary: m) (auto simp: map_add_def fun_eq_iff split: option.splits)

lemma map_of_hm_collect: "map_of (hm_collect kvs) = map_of (rev kvs)"
  by (simp add: hm_collect_def map_of_fold_update)

lemma distinct_hm_collect: "distinct (map fst (hm_collect kvs))"
proof -
  have "distinct (map fst m) \<Longrightarrow>
      distinct (map fst (fold (\<lambda>(k, v). AList.update k v) kvs m))" for m :: "('a \<times> 'b) list"
    by (induction kvs arbitrary: m) (auto simp: distinct_update)
  then show ?thesis by (simp add: hm_collect_def)
qed

lemma hm_collect_Nil_iff: "hm_collect kvs = [] \<longleftrightarrow> kvs = []"
proof
  assume "hm_collect kvs = []"
  then have "map_of (rev kvs) = Map.empty"
    using map_of_hm_collect [of kvs] by simp
  then show "kvs = []" by simp
qed (simp add: hm_collect_def)

section \<open>Vectors\<close>

text \<open>\<open>iter_mut().find(p)\<close> followed by a mutation of what was found.\<close>

fun update_first :: "('a \<Rightarrow> bool) \<Rightarrow> ('a \<Rightarrow> 'a) \<Rightarrow> 'a list \<Rightarrow> 'a list" where
  "update_first p f [] = []"
| "update_first p f (x # xs) = (if p x then f x # xs else x # update_first p f xs)"

lemma length_update_first [simp]: "length (update_first p f xs) = length xs"
  by (induction xs) auto

lemma map_update_first:
  "(\<And>x. g (f x) = g x) \<Longrightarrow> map g (update_first p f xs) = map g xs"
  by (induction xs) auto

lemma update_first_none: "(\<forall>x\<in>set xs. \<not> p x) \<Longrightarrow> update_first p f xs = xs"
  by (induction xs) auto

lemma set_update_first_subset:
  "set (update_first p f xs) \<subseteq> set xs \<union> f ` {x \<in> set xs. p x}"
  by (induction xs) auto

text \<open>With distinct keys, updating the entry with key \<open>k\<close> is a pointwise map.\<close>

lemma update_first_key:
  "distinct (map key xs) \<Longrightarrow>
   update_first (\<lambda>x. key x = k) f xs = map (\<lambda>x. if key x = k then f x else x) xs"
proof (induction xs)
  case (Cons x xs)
  show ?case
  proof (cases "key x = k")
    case True
    with Cons.prems have "\<forall>y\<in>set xs. key y \<noteq> k" by (auto simp: image_iff)
    then have "map (\<lambda>x. if key x = k then f x else x) xs = xs"
      by (intro map_idI) auto
    with True show ?thesis by simp
  qed (use Cons in simp)
qed simp

lemma find_key:
  "distinct (map key xs) \<Longrightarrow> x \<in> set xs \<Longrightarrow> find (\<lambda>y. key y = key x) xs = Some x"
  by (induction xs) (auto simp: image_iff)

lemma find_SomeD: "find p xs = Some x \<Longrightarrow> x \<in> set xs \<and> p x"
  by (auto simp: find_Some_iff)

lemma find_filter: "find p (filter q xs) = find (\<lambda>x. p x \<and> q x) xs"
  by (induction xs) auto

lemma filter_eq_distinct: "distinct xs \<Longrightarrow> x \<in> set xs \<Longrightarrow> filter (\<lambda>y. y = x) xs = [x]"
  by (induction xs) (auto simp: filter_empty_conv)

lemma find_hd_filter: "find p xs = (case filter p xs of [] \<Rightarrow> None | x # _ \<Rightarrow> Some x)"
  by (induction xs) auto

lemma find_cong_Some_iff:
  "distinct (map key xs) \<Longrightarrow>
   find (\<lambda>y. key y = k \<and> p y) xs = Some x \<longleftrightarrow> x \<in> set xs \<and> key x = k \<and> p x"
  by (induction xs) (auto simp: image_iff)

text \<open>\<open>Iterator::min_by_key\<close>: of several minimal elements the first is returned.\<close>

fun min_by_key :: "('a \<Rightarrow> 'k::linorder) \<Rightarrow> 'a list \<Rightarrow> 'a option" where
  "min_by_key f [] = None"
| "min_by_key f (x # xs) =
     (case min_by_key f xs of
        None \<Rightarrow> Some x
      | Some y \<Rightarrow> if f x \<le> f y then Some x else Some y)"

lemma min_by_key_None [simp]: "min_by_key f xs = None \<longleftrightarrow> xs = []"
  by (cases xs) (auto split: option.splits)

lemma min_by_key_in: "min_by_key f xs = Some x \<Longrightarrow> x \<in> set xs"
  by (induction xs arbitrary: x) (auto split: option.splits if_splits)

lemma min_by_key_le: "min_by_key f xs = Some x \<Longrightarrow> y \<in> set xs \<Longrightarrow> f x \<le> f y"
  by (induction xs arbitrary: x) (force split: option.splits if_splits)+

lemma min_by_key_sort:
  "min_by_key f xs = (case sort_key f xs of [] \<Rightarrow> None | x # _ \<Rightarrow> Some x)"
proof (induction xs)
  case (Cons x xs)
  then show ?case by (cases "sort_key f xs") simp_all
qed simp

lemma min_by_key_map: "min_by_key f (map g xs) = map_option g (min_by_key (f \<circ> g) xs)"
  by (induction xs) (auto split: option.splits)

lemma insort_key_map: "insort_key f (g x) (map g xs) = map g (insort_key (f \<circ> g) x xs)"
  by (induction xs) auto

lemma sort_key_map: "sort_key f (map g xs) = map g (sort_key (f \<circ> g) xs)"
  by (induction xs) (simp_all add: insort_key_map comp_def)

text \<open>\<open>Iterator::max_by_key\<close>: the last of the greatest elements.\<close>

fun max_by_key :: "('a \<Rightarrow> 'k::linorder) \<Rightarrow> 'a list \<Rightarrow> 'a option" where
  "max_by_key f [] = None"
| "max_by_key f (x # xs) =
    (case max_by_key f xs of None \<Rightarrow> Some x | Some y \<Rightarrow> if f x > f y then Some x else Some y)"

lemma max_by_key_None_iff: "max_by_key f xs = None \<longleftrightarrow> xs = []"
  by (cases xs) (auto split: option.splits)

lemma max_by_key_Some: "max_by_key f xs = Some x \<Longrightarrow> x \<in> set xs \<and> (\<forall>y\<in>set xs. f y \<le> f x)"
  by (induction xs arbitrary: x) (auto split: option.splits if_splits simp: max_by_key_None_iff)

section \<open>Ordered maps\<close>

text \<open>A \<open>BTreeMap\<close> is an association list in increasing key order.\<close>

fun bt_insert :: "'k::linorder \<Rightarrow> 'v \<Rightarrow> ('k \<times> 'v) list \<Rightarrow> ('k \<times> 'v) list" where
  "bt_insert k v [] = [(k, v)]"
| "bt_insert k v ((k', v') # m) =
     (if k < k' then (k, v) # (k', v') # m
      else if k = k' then (k, v) # m
      else (k', v') # bt_insert k v m)"

definition bt_sorted :: "('k::linorder \<times> 'v) list \<Rightarrow> bool" where
  "bt_sorted m = sorted_wrt (<) (map fst m)"

lemma bt_sorted_Nil [simp]: "bt_sorted []"
  by (simp add: bt_sorted_def)

lemma map_of_bt_insert [simp]: "bt_sorted m \<Longrightarrow> map_of (bt_insert k v m) = (map_of m)(k \<mapsto> v)"
proof (induction k v m rule: bt_insert.induct)
  case (2 k v k' v' m)
  then have "bt_sorted m" by (simp add: bt_sorted_def)
  with 2 show ?case by (auto simp: fun_eq_iff)
qed (simp add: fun_eq_iff)

lemma keys_bt_insert [simp]: "fst ` set (bt_insert k v m) = insert k (fst ` set m)"
  by (induction k v m rule: bt_insert.induct) auto

lemma bt_insert_subset: "set (bt_insert k v m) \<subseteq> insert (k, v) (set m)"
  by (induction k v m rule: bt_insert.induct) auto

lemma bt_sorted_insert [simp]: "bt_sorted m \<Longrightarrow> bt_sorted (bt_insert k v m)"
proof (induction k v m rule: bt_insert.induct)
  case (2 k v k' v' m)
  show ?case
  proof (cases "k \<le> k'")
    case True
    with "2.prems" show ?thesis by (auto simp: bt_sorted_def)
  next
    case False
    with "2.prems" have "bt_sorted (bt_insert k v m)"
      by (intro "2.IH") (auto simp: bt_sorted_def)
    moreover have "\<forall>x \<in> fst ` set (bt_insert k v m). k' < x"
      using "2.prems" False by (auto simp: bt_sorted_def)
    ultimately show ?thesis using False by (auto simp: bt_sorted_def)
  qed
qed (simp add: bt_sorted_def)

lemma bt_insert_overwrite [simp]: "bt_insert k v (bt_insert k w m) = bt_insert k v m"
  by (induction k w m rule: bt_insert.induct) auto

lemma bt_keys: "bt_sorted m \<Longrightarrow> map fst m = sorted_list_of_set (fst ` set m)"
  unfolding bt_sorted_def
  by (metis list.set_map sorted_list_of_set.idem_if_sorted_distinct strict_sorted_iff)

section \<open>Machine integers\<close>

text \<open>
  Rust's signed integers in a release build wrap around. An \<open>i32\<close> or \<open>i64\<close> is
  an \<open>int\<close>, and every addition of the source that could leave the range goes
  through these functions.
\<close>

definition wrap_signed :: "nat \<Rightarrow> int \<Rightarrow> int" where
  "wrap_signed w x = (x + 2 ^ (w - 1)) mod 2 ^ w - 2 ^ (w - 1)"

definition in_signed :: "nat \<Rightarrow> int \<Rightarrow> bool" where
  "in_signed w x \<longleftrightarrow> - (2 ^ (w - 1)) \<le> x \<and> x < 2 ^ (w - 1)"

abbreviation wrap_i32 :: "int \<Rightarrow> int" where "wrap_i32 \<equiv> wrap_signed 32"
abbreviation wrap_i64 :: "int \<Rightarrow> int" where "wrap_i64 \<equiv> wrap_signed 64"
abbreviation is_i32 :: "int \<Rightarrow> bool" where "is_i32 \<equiv> in_signed 32"
abbreviation is_i64 :: "int \<Rightarrow> bool" where "is_i64 \<equiv> in_signed 64"

lemma wrap_signed_id: "0 < w \<Longrightarrow> in_signed w x \<Longrightarrow> wrap_signed w x = x"
proof -
  assume "0 < w" and "in_signed w x"
  then have "(2::int) ^ w = 2 * 2 ^ (w - 1)"
    by (cases w) auto
  with \<open>in_signed w x\<close> have "(x + 2 ^ (w - 1)) mod 2 ^ w = x + 2 ^ (w - 1)"
    by (intro mod_pos_pos_trivial) (auto simp: in_signed_def)
  then show ?thesis by (simp add: wrap_signed_def)
qed

lemma wrap_signed_range: "0 < w \<Longrightarrow> in_signed w (wrap_signed w x)"
proof -
  assume "0 < w"
  then have two: "(2::int) ^ w = 2 * 2 ^ (w - 1)"
    by (cases w) auto
  have "0 \<le> (x + 2 ^ (w - 1)) mod 2 ^ w" and "(x + 2 ^ (w - 1)) mod 2 ^ w < 2 ^ w"
    by simp_all
  with two show ?thesis by (simp add: wrap_signed_def in_signed_def)
qed

text \<open>Identifiers of the \<open>uuid\<close> crate are 128-bit values compared by equality.\<close>

type_synonym uuid = "128 word"

end
