(* ===== verification/Policy.thy ===== *)
theory Policy
  imports Prelude
begin

text \<open>
  The governance policy crate \<^verbatim>\<open>src/crates/dbflux_policy\<close>: execution classes and
  their risk order (\<^verbatim>\<open>classification.rs\<close>), the classification of schema changes
  (\<^verbatim>\<open>schema_alter.rs\<close>), connection-scoped assignments (\<^verbatim>\<open>assignments.rs\<close>), the
  policy engine (\<^verbatim>\<open>engine.rs\<close>) and the trusted-client registry
  (\<^verbatim>\<open>trusted_clients.rs\<close>). The lemmas give the engine's decision declaratively,
  show that it does not depend on the iteration order of the hash set the code
  collects policy ids in, and that assignments are additive grants.
\<close>

section \<open>Execution classes\<close>

datatype execution_classification =
    Metadata | Read | Write | Destructive | Admin | AdminSafe | AdminDestructive

fun classification_rank :: "execution_classification \<Rightarrow> nat" where
  "classification_rank Metadata = 0"
| "classification_rank Read = 1"
| "classification_rank Write = 2"
| "classification_rank Destructive = 3"
| "classification_rank AdminSafe = 4"
| "classification_rank Admin = 5"
| "classification_rank AdminDestructive = 6"

definition classification_max ::
    "execution_classification \<Rightarrow> execution_classification \<Rightarrow> execution_classification" where
  "classification_max self other =
     (if classification_rank self \<ge> classification_rank other then self else other)"

lemma classification_rank_inj [simp]:
  "classification_rank a = classification_rank b \<longleftrightarrow> a = b"
  by (cases a; cases b) simp_all

instantiation execution_classification :: linorder
begin

definition less_eq_execution_classification ::
    "execution_classification \<Rightarrow> execution_classification \<Rightarrow> bool" where
  "a \<le> b \<longleftrightarrow> classification_rank a \<le> classification_rank b"

definition less_execution_classification ::
    "execution_classification \<Rightarrow> execution_classification \<Rightarrow> bool" where
  "a < b \<longleftrightarrow> classification_rank a < classification_rank b"

instance
proof
  fix x y z :: execution_classification
  show "x < y \<longleftrightarrow> x \<le> y \<and> \<not> y \<le> x"
    by (auto simp: less_eq_execution_classification_def less_execution_classification_def)
  show "x \<le> x"
    by (simp add: less_eq_execution_classification_def)
  show "x \<le> y \<Longrightarrow> y \<le> z \<Longrightarrow> x \<le> z"
    by (simp add: less_eq_execution_classification_def)
  show "x \<le> y \<Longrightarrow> y \<le> x \<Longrightarrow> x = y"
    by (simp add: less_eq_execution_classification_def flip: classification_rank_inj)
  show "x \<le> y \<or> y \<le> x"
    by (auto simp: less_eq_execution_classification_def)
qed

end

lemma classification_max_eq_max: "classification_max a b = max b a"
  by (simp add: classification_max_def max_def less_eq_execution_classification_def)

section \<open>Schema changes\<close>

datatype schema_alter_kind =
    AddColumn (safe: bool)
  | DropColumn
  | RenameColumn
  | AlterColumn
  | AddConstraint
  | DropConstraint
  | AddIndex
  | DropIndex
  | AddTable
  | DropTable

fun classify_schema_alter :: "schema_alter_kind \<Rightarrow> execution_classification" where
  "classify_schema_alter (AddColumn True) = AdminSafe"
| "classify_schema_alter (AddColumn False) = Admin"
| "classify_schema_alter DropColumn = AdminDestructive"
| "classify_schema_alter RenameColumn = AdminSafe"
| "classify_schema_alter AlterColumn = Admin"
| "classify_schema_alter AddConstraint = Admin"
| "classify_schema_alter DropConstraint = AdminDestructive"
| "classify_schema_alter AddIndex = AdminSafe"
| "classify_schema_alter DropIndex = Admin"
| "classify_schema_alter AddTable = AdminSafe"
| "classify_schema_alter DropTable = AdminDestructive"

lemma classify_schema_alter_admin: "AdminSafe \<le> classify_schema_alter k"
  by (cases k rule: classify_schema_alter.cases)
    (simp_all add: less_eq_execution_classification_def)

section \<open>Assignments\<close>

record policy_binding_scope =
  sc_connection_id :: string

record connection_policy_assignment =
  as_actor_id :: string
  as_scope :: policy_binding_scope
  as_role_ids :: "string list"
  as_policy_ids :: "string list"

definition applies_to :: "connection_policy_assignment \<Rightarrow> string \<Rightarrow> string \<Rightarrow> bool" where
  "applies_to self actor_id connection_id \<longleftrightarrow>
     as_actor_id self = actor_id \<and> sc_connection_id (as_scope self) = connection_id"

section \<open>The policy engine\<close>

record policy_evaluation_request =
  pr_actor_id :: string
  pr_connection_id :: string
  pr_tool_id :: string
  pr_classification :: execution_classification

datatype policy_decision_reason = NoAssignment | NoPolicy | ToolDenied | ClassificationDenied

datatype policy_decision = Allow | RequireApproval | Deny policy_decision_reason

record policy_role =
  ro_id :: string
  ro_policy_ids :: "string list"

datatype class_decision = ClassAllow | ClassAsk | ClassDeny

record tool_policy =
  po_id :: string
  po_allowed_tools :: "string list"
  po_allowed_classes :: "execution_classification list"
  po_approval_classes :: "execution_classification list"

definition class_decision_of :: "tool_policy \<Rightarrow> execution_classification \<Rightarrow> class_decision" where
  "class_decision_of self classification =
     (if classification \<in> set (po_approval_classes self) then ClassAsk
      else if classification \<in> set (po_allowed_classes self) then ClassAllow
      else ClassDeny)"

datatype policy_engine_error = MissingRole string

record policy_engine =
  en_assignments :: "connection_policy_assignment list"
  en_roles :: "(string \<times> policy_role) list"
  en_policies :: "(string \<times> tool_policy) list"

definition policy_engine_new ::
    "connection_policy_assignment list \<Rightarrow> policy_role list \<Rightarrow> tool_policy list \<Rightarrow> policy_engine" where
  "policy_engine_new assignments roles policies =
     \<lparr>en_assignments = assignments,
      en_roles = hm_collect (map (\<lambda>role. (ro_id role, role)) roles),
      en_policies = hm_collect (map (\<lambda>policy. (po_id policy, policy)) policies)\<rparr>"

text \<open>The inner loop of \<open>evaluate\<close>: the policies of each role join the set.\<close>

fun extend_with_roles ::
    "policy_engine \<Rightarrow> string list \<Rightarrow> string list \<Rightarrow> (policy_engine_error, string list) result" where
  "extend_with_roles self [] policy_ids = Ok policy_ids"
| "extend_with_roles self (role_id # role_ids) policy_ids =
     (case map_of (en_roles self) role_id of
        None \<Rightarrow> Err (MissingRole role_id)
      | Some role \<Rightarrow>
          extend_with_roles self role_ids (set_extend policy_ids (ro_policy_ids role)))"

text \<open>The outer loop: one pass over the assignments that apply to the request.\<close>

fun collect_policy_ids ::
    "policy_engine \<Rightarrow> policy_evaluation_request \<Rightarrow> connection_policy_assignment list \<Rightarrow>
     string list \<Rightarrow> (policy_engine_error, string list) result" where
  "collect_policy_ids self request [] policy_ids = Ok policy_ids"
| "collect_policy_ids self request (assignment # rest) policy_ids =
     (if applies_to assignment (pr_actor_id request) (pr_connection_id request)
      then and_then
             (extend_with_roles self (as_role_ids assignment)
                (set_extend policy_ids (as_policy_ids assignment)))
             (collect_policy_ids self request rest)
      else collect_policy_ids self request rest policy_ids)"

text \<open>The second loop, with its two flags, and the decision after it.\<close>

fun decide_over ::
    "policy_engine \<Rightarrow> policy_evaluation_request \<Rightarrow> string list \<Rightarrow> bool \<Rightarrow> bool \<Rightarrow> policy_decision" where
  "decide_over self request [] has_tool_match requires_approval =
     (if requires_approval then RequireApproval
      else if has_tool_match then Deny ClassificationDenied
      else if en_policies self = [] then Deny NoPolicy
      else Deny ToolDenied)"
| "decide_over self request (policy_id # rest) has_tool_match requires_approval =
     (case map_of (en_policies self) policy_id of
        None \<Rightarrow> decide_over self request rest has_tool_match requires_approval
      | Some policy \<Rightarrow>
          if pr_tool_id request \<notin> set (po_allowed_tools policy)
          then decide_over self request rest has_tool_match requires_approval
          else (case class_decision_of policy (pr_classification request) of
                  ClassAllow \<Rightarrow> Allow
                | ClassAsk \<Rightarrow> decide_over self request rest True True
                | ClassDeny \<Rightarrow> decide_over self request rest True requires_approval))"

text \<open>
  \<open>PolicyEngine::evaluate\<close>; \<open>iter\<close> is the order in which the hash set of policy
  ids is iterated.
\<close>

definition evaluate ::
    "(string list \<Rightarrow> string list) \<Rightarrow> policy_engine \<Rightarrow> policy_evaluation_request \<Rightarrow>
     (policy_engine_error, policy_decision) result" where
  "evaluate iter self request =
     and_then (collect_policy_ids self request (en_assignments self) [])
       (\<lambda>policy_ids.
          if policy_ids = [] then Ok (Deny NoAssignment)
          else Ok (decide_over self request (iter policy_ids) False False))"

subsection \<open>What the loops compute\<close>

text \<open>The applying assignments, the roles they name and the policies they reach.\<close>

definition applying ::
    "policy_engine \<Rightarrow> policy_evaluation_request \<Rightarrow> connection_policy_assignment set" where
  "applying e r =
     {a \<in> set (en_assignments e). applies_to a (pr_actor_id r) (pr_connection_id r)}"

definition roles_known :: "policy_engine \<Rightarrow> policy_evaluation_request \<Rightarrow> bool" where
  "roles_known e r \<longleftrightarrow>
     (\<forall>a \<in> applying e r. \<forall>rid \<in> set (as_role_ids a). map_of (en_roles e) rid \<noteq> None)"

definition reached_ids :: "policy_engine \<Rightarrow> policy_evaluation_request \<Rightarrow> string set" where
  "reached_ids e r =
     (\<Union>a \<in> applying e r. set (as_policy_ids a) \<union>
        (\<Union>rid \<in> set (as_role_ids a).
           case map_of (en_roles e) rid of None \<Rightarrow> {} | Some role \<Rightarrow> set (ro_policy_ids role)))"

definition listing_of ::
    "policy_engine \<Rightarrow> policy_evaluation_request \<Rightarrow> string set \<Rightarrow> tool_policy set" where
  "listing_of e r ids =
     {p. \<exists>i \<in> ids. map_of (en_policies e) i = Some p \<and>
         pr_tool_id r \<in> set (po_allowed_tools p)}"

abbreviation listing :: "policy_engine \<Rightarrow> policy_evaluation_request \<Rightarrow> tool_policy set" where
  "listing e r \<equiv> listing_of e r (reached_ids e r)"

lemma listing_of_empty [simp]: "listing_of e r {} = {}"
  by (simp add: listing_of_def)

lemma listing_of_insert:
  "listing_of e r (insert i ids) =
     (case map_of (en_policies e) i of
        None \<Rightarrow> {}
      | Some p \<Rightarrow> if pr_tool_id r \<in> set (po_allowed_tools p) then {p} else {}) \<union>
     listing_of e r ids"
  by (auto simp: listing_of_def split: option.splits)

lemma listing_of_mono: "ids \<subseteq> ids' \<Longrightarrow> listing_of e r ids \<subseteq> listing_of e r ids'"
  by (auto simp: listing_of_def)

lemma extend_with_roles_set:
  assumes "extend_with_roles e rids acc = Ok ids"
  shows "set ids = set acc \<union>
     (\<Union>rid \<in> set rids.
        case map_of (en_roles e) rid of None \<Rightarrow> {} | Some role \<Rightarrow> set (ro_policy_ids role))"
  using assms
  by (induction rids arbitrary: acc) (auto split: option.splits)

lemma collect_policy_ids_set:
  assumes "collect_policy_ids e r asg acc = Ok ids"
  shows "set ids = set acc \<union>
     (\<Union>a \<in> {a \<in> set asg. applies_to a (pr_actor_id r) (pr_connection_id r)}.
        set (as_policy_ids a) \<union>
        (\<Union>rid \<in> set (as_role_ids a).
           case map_of (en_roles e) rid of None \<Rightarrow> {} | Some role \<Rightarrow> set (ro_policy_ids role)))"
  using assms
proof (induction asg arbitrary: acc)
  case Nil
  then show ?case by simp
next
  case (Cons a asg)
  show ?case
  proof (cases "applies_to a (pr_actor_id r) (pr_connection_id r)")
    case True
    with Cons.prems obtain mid where
      mid: "extend_with_roles e (as_role_ids a) (set_extend acc (as_policy_ids a)) = Ok mid"
      and rest: "collect_policy_ids e r asg mid = Ok ids"
      by (auto simp: and_then_eq_Ok)
    have hd: "{b \<in> set (a # asg). applies_to b (pr_actor_id r) (pr_connection_id r)} =
        insert a {b \<in> set asg. applies_to b (pr_actor_id r) (pr_connection_id r)}"
      using True by auto
    show ?thesis
      unfolding Cons.IH [OF rest] extend_with_roles_set [OF mid] hd by auto
  next
    case False
    then have "{b \<in> set (a # asg). applies_to b (pr_actor_id r) (pr_connection_id r)} =
        {b \<in> set asg. applies_to b (pr_actor_id r) (pr_connection_id r)}"
      by auto
    with False Cons show ?thesis by simp
  qed
qed

lemma extend_with_roles_total:
  "(\<exists>ids. extend_with_roles e rids acc = Ok ids) \<longleftrightarrow>
   (\<forall>rid \<in> set rids. map_of (en_roles e) rid \<noteq> None)"
  by (induction rids arbitrary: acc) (auto split: option.splits)

lemma collect_policy_ids_total:
  "(\<exists>ids. collect_policy_ids e r asg acc = Ok ids) \<longleftrightarrow>
   (\<forall>a \<in> {a \<in> set asg. applies_to a (pr_actor_id r) (pr_connection_id r)}.
      \<forall>rid \<in> set (as_role_ids a). map_of (en_roles e) rid \<noteq> None)"
proof (induction asg arbitrary: acc)
  case (Cons a asg)
  show ?case
  proof (cases "applies_to a (pr_actor_id r) (pr_connection_id r)")
    case True
    have "(\<exists>ids. collect_policy_ids e r (a # asg) acc = Ok ids) \<longleftrightarrow>
        (\<exists>mid. extend_with_roles e (as_role_ids a) (set_extend acc (as_policy_ids a)) = Ok mid \<and>
           (\<exists>ids. collect_policy_ids e r asg mid = Ok ids))"
      using True by (auto simp: and_then_eq_Ok)
    then show ?thesis
      using True by (simp only: Cons.IH) (auto simp: extend_with_roles_total)
  qed (use Cons.IH in auto)
qed simp

lemma collect_policy_ids_reached:
  "collect_policy_ids e r (en_assignments e) [] = Ok ids \<Longrightarrow> set ids = reached_ids e r"
  by (drule collect_policy_ids_set) (simp add: reached_ids_def applying_def)

lemma collect_policy_ids_ok_iff:
  "(\<exists>ids. collect_policy_ids e r (en_assignments e) [] = Ok ids) \<longleftrightarrow> roles_known e r"
  by (simp add: collect_policy_ids_total roles_known_def applying_def)


lemma decide_over_eq:
  "decide_over e r ids has_match ask =
     (if \<exists>p \<in> listing_of e r (set ids). class_decision_of p (pr_classification r) = ClassAllow
      then Allow
      else if ask \<or>
        (\<exists>p \<in> listing_of e r (set ids). class_decision_of p (pr_classification r) = ClassAsk)
      then RequireApproval
      else if has_match \<or> listing_of e r (set ids) \<noteq> {} then Deny ClassificationDenied
      else if en_policies e = [] then Deny NoPolicy
      else Deny ToolDenied)"
proof (induction ids arbitrary: has_match ask)
  case Nil
  then show ?case by simp
next
  case (Cons i ids)
  show ?case
  proof (cases "\<exists>p. map_of (en_policies e) i = Some p \<and> pr_tool_id r \<in> set (po_allowed_tools p)")
    case False
    then show ?thesis
      by (auto simp: listing_of_insert Cons.IH split: option.splits)
  next
    case True
    then obtain p where p: "map_of (en_policies e) i = Some p"
      and tool: "pr_tool_id r \<in> set (po_allowed_tools p)" by blast
    then have M: "listing_of e r (set (i # ids)) = insert p (listing_of e r (set ids))"
      by (simp add: listing_of_insert)
    show ?thesis
      unfolding M using p tool
      by (cases "class_decision_of p (pr_classification r)") (auto simp: Cons.IH)
  qed
qed

subsection \<open>The decision\<close>

text \<open>
  The decision over a set of policies that list the tool: the most permissive
  class decision among them.
\<close>

definition best_decision ::
    "policy_engine \<Rightarrow> policy_evaluation_request \<Rightarrow> policy_decision" where
  "best_decision e r =
     (let d = (\<lambda>p. class_decision_of p (pr_classification r))
      in if reached_ids e r = {} then Deny NoAssignment
         else if \<exists>p \<in> listing e r. d p = ClassAllow then Allow
         else if \<exists>p \<in> listing e r. d p = ClassAsk then RequireApproval
         else if listing e r \<noteq> {} then Deny ClassificationDenied
         else if en_policies e = [] then Deny NoPolicy
         else Deny ToolDenied)"

lemma evaluate_best:
  assumes "hash_order iter" and "roles_known e r"
  shows "evaluate iter e r = Ok (best_decision e r)"
proof -
  from assms(2) obtain ids where ids: "collect_policy_ids e r (en_assignments e) [] = Ok ids"
    using collect_policy_ids_ok_iff by blast
  have reached: "set (iter ids) = reached_ids e r"
    using collect_policy_ids_reached [OF ids] hash_order_set [OF assms(1)] by simp
  have "ids = [] \<longleftrightarrow> reached_ids e r = {}"
    using collect_policy_ids_reached [OF ids] by auto
  then show ?thesis
    unfolding evaluate_def ids
    by (simp add: decide_over_eq reached best_decision_def Let_def)
qed

lemma evaluate_missing_role:
  assumes "\<not> roles_known e r"
  shows "\<exists>rid. evaluate iter e r = Err (MissingRole rid)"
proof -
  have "\<forall>ids. collect_policy_ids e r (en_assignments e) [] \<noteq> Ok ids"
    using assms collect_policy_ids_ok_iff by blast
  then obtain err where "collect_policy_ids e r (en_assignments e) [] = Err err"
    by (cases "collect_policy_ids e r (en_assignments e) []") auto
  then show ?thesis
    unfolding evaluate_def by (cases err) auto
qed

text \<open>
  C10: when every role named by an applying assignment exists, \<open>evaluate\<close> returns,
  whatever order the hash set of policy ids is iterated in, the decision read off
  the policies reached directly or through roles that list the tool: Allow if one
  of them allows the class, otherwise approval if one asks, otherwise the denial
  that names why nothing granted it.
\<close>

theorem evaluate_declarative:
  assumes "hash_order iter"
    and "\<forall>a \<in> applying e r. \<forall>rid \<in> set (as_role_ids a). map_of (en_roles e) rid \<noteq> None"
  shows "evaluate iter e r = Ok
    (if reached_ids e r = {} then Deny NoAssignment
     else if \<exists>p \<in> listing e r. class_decision_of p (pr_classification r) = ClassAllow then Allow
     else if \<exists>p \<in> listing e r. class_decision_of p (pr_classification r) = ClassAsk
       then RequireApproval
     else if listing e r \<noteq> {} then Deny ClassificationDenied
     else if en_policies e = [] then Deny NoPolicy
     else Deny ToolDenied)"
  using evaluate_best [OF assms(1), of e r] assms(2)
  by (simp add: roles_known_def best_decision_def Let_def)

text \<open>A small engine: one actor reads through a role and writes through a policy that asks.\<close>

definition sample_engine :: policy_engine where
  "sample_engine = policy_engine_new
     [\<lparr>as_actor_id = ''agent'', as_scope = \<lparr>sc_connection_id = ''db''\<rparr>,
       as_role_ids = [''reader''], as_policy_ids = [''asker'']\<rparr>]
     [\<lparr>ro_id = ''reader'', ro_policy_ids = [''reads'']\<rparr>]
     [\<lparr>po_id = ''reads'', po_allowed_tools = [''select_data''],
       po_allowed_classes = [Read], po_approval_classes = []\<rparr>,
      \<lparr>po_id = ''asker'', po_allowed_tools = [''insert_record''],
       po_allowed_classes = [], po_approval_classes = [Write]\<rparr>]"

definition sample_write :: policy_evaluation_request where
  "sample_write = \<lparr>pr_actor_id = ''agent'', pr_connection_id = ''db'',
     pr_tool_id = ''insert_record'', pr_classification = Write\<rparr>"

lemma sample_engine_known: "roles_known sample_engine sample_write"
  by (simp add: roles_known_def applying_def sample_engine_def sample_write_def
      policy_engine_new_def hm_collect_def applies_to_def)

lemma sample_engine_reached: "reached_ids sample_engine sample_write = {''asker'', ''reads''}"
proof -
  have "applying sample_engine sample_write = set (en_assignments sample_engine)"
    by (auto simp: applying_def sample_engine_def sample_write_def policy_engine_new_def applies_to_def)
  then show ?thesis
    by (auto simp: reached_ids_def sample_engine_def policy_engine_new_def hm_collect_def)
qed

theorem evaluate_declarative_witness:
  "evaluate rev sample_engine sample_write = Ok RequireApproval"
proof -
  have "listing sample_engine sample_write =
      {\<lparr>po_id = ''asker'', po_allowed_tools = [''insert_record''],
        po_allowed_classes = [], po_approval_classes = [Write]\<rparr>}"
    by (simp add: sample_engine_reached listing_of_insert)
      (simp add: sample_engine_def sample_write_def policy_engine_new_def hm_collect_def)
  then show ?thesis
    using evaluate_declarative [of rev sample_engine sample_write] sample_engine_known
    by (simp add: roles_known_def sample_engine_reached class_decision_of_def)
      (simp add: sample_write_def)
qed

text \<open>
  A request fails exactly when an applying assignment names a role that does
  not exist.
\<close>

lemma evaluate_error_iff:
  "(\<exists>err. evaluate iter e r = Err err) \<longleftrightarrow>
   (\<exists>a \<in> applying e r. \<exists>rid \<in> set (as_role_ids a). map_of (en_roles e) rid = None)"
proof (cases "roles_known e r")
  case True
  then obtain ids where "collect_policy_ids e r (en_assignments e) [] = Ok ids"
    using collect_policy_ids_ok_iff by blast
  then have "\<not> (\<exists>err. evaluate iter e r = Err err)"
    by (simp add: evaluate_def)
  with True show ?thesis by (auto simp: roles_known_def)
next
  case False
  then show ?thesis
    using evaluate_missing_role [OF False, of iter] by (auto simp: roles_known_def)
qed

subsection \<open>Grants are additive\<close>

fun permissiveness :: "policy_decision \<Rightarrow> nat" where
  "permissiveness Allow = 2"
| "permissiveness RequireApproval = 1"
| "permissiveness (Deny _) = 0"

lemma best_decision_permissiveness:
  "permissiveness (best_decision e r) =
     (if \<exists>p \<in> listing e r. class_decision_of p (pr_classification r) = ClassAllow then 2
      else if \<exists>p \<in> listing e r. class_decision_of p (pr_classification r) = ClassAsk then 1 else 0)"
  by (auto simp: best_decision_def Let_def)

lemma best_decision_mono:
  assumes "listing e r \<subseteq> listing e' r"
  shows "permissiveness (best_decision e r) \<le> permissiveness (best_decision e' r)"
  using assms unfolding best_decision_permissiveness by auto

definition with_assignment ::
    "connection_policy_assignment \<Rightarrow> policy_engine \<Rightarrow> policy_engine" where
  "with_assignment a e = e\<lparr>en_assignments := en_assignments e @ [a]\<rparr>"

lemma reached_with_assignment: "reached_ids e r \<subseteq> reached_ids (with_assignment a e) r"
  by (auto simp: reached_ids_def applying_def with_assignment_def)

lemma listing_of_with_assignment [simp]:
  "listing_of (with_assignment a e) r ids = listing_of e r ids"
  by (simp add: listing_of_def with_assignment_def)

lemma roles_known_with_assignment:
  "roles_known (with_assignment a e) r \<Longrightarrow> roles_known e r"
  by (auto simp: roles_known_def applying_def with_assignment_def)

text \<open>
  C26: policies are additive grants. If the engine decides a request, giving the
  same engine one more assignment can only make the decision more permissive
  (Deny, then approval, then Allow), as long as the new assignment's roles exist.
\<close>

lemma evaluate_additive:
  assumes "hash_order iter"
    and "evaluate iter (with_assignment a e) r = Ok d'"
  shows "\<exists>d. evaluate iter e r = Ok d \<and> permissiveness d \<le> permissiveness d'"
proof -
  have known: "roles_known (with_assignment a e) r"
  proof (rule ccontr)
    assume "\<not> roles_known (with_assignment a e) r"
    then show False
      using assms(2) evaluate_missing_role [of "with_assignment a e" r iter] by auto
  qed
  then have d': "d' = best_decision (with_assignment a e) r"
    using assms evaluate_best by fastforce
  have "listing e r \<subseteq> listing (with_assignment a e) r"
    using reached_with_assignment listing_of_mono by simp
  then have "permissiveness (best_decision e r) \<le> permissiveness d'"
    unfolding d' by (rule best_decision_mono)
  then show ?thesis
    using evaluate_best [OF assms(1) roles_known_with_assignment [OF known]] by blast
qed

definition sample_grant :: connection_policy_assignment where
  "sample_grant = \<lparr>as_actor_id = ''agent'', as_scope = \<lparr>sc_connection_id = ''db''\<rparr>,
     as_role_ids = [], as_policy_ids = [''reads'']\<rparr>"


section \<open>Trusted clients\<close>

definition UNTRUSTED_CLIENT_AUDIT_REASON :: string where
  "UNTRUSTED_CLIENT_AUDIT_REASON = ''untrusted client''"

record trusted_client =
  tc_id :: string
  tc_name :: string
  tc_issuer :: "string option"
  tc_active :: bool

record client_identity =
  ci_client_id :: string
  ci_issuer :: "string option"

definition client_matches :: "trusted_client \<Rightarrow> client_identity \<Rightarrow> bool" where
  "client_matches self identity =
     (if tc_id self \<noteq> ci_client_id identity then False
      else (case (tc_issuer self, ci_issuer identity) of
              (None, _) \<Rightarrow> True
            | (Some expected, Some actual) \<Rightarrow> expected = actual
            | (Some _, None) \<Rightarrow> False))"

datatype trusted_client_match = Trusted trusted_client | Untrusted string

type_synonym trusted_client_registry = "trusted_client list"

definition trusted_client_registry_new :: "trusted_client list \<Rightarrow> trusted_client_registry" where
  "trusted_client_registry_new clients = clients"

definition replace_clients ::
    "trusted_client_registry \<Rightarrow> trusted_client list \<Rightarrow> trusted_client_registry" where
  "replace_clients self clients = clients"

definition evaluate_client :: "trusted_client_registry \<Rightarrow> client_identity \<Rightarrow> trusted_client_match" where
  "evaluate_client self identity =
     (case find (\<lambda>client. client_matches client identity) self of
        None \<Rightarrow> Untrusted UNTRUSTED_CLIENT_AUDIT_REASON
      | Some client \<Rightarrow>
          if tc_active client then Trusted client
          else Untrusted UNTRUSTED_CLIENT_AUDIT_REASON)"

lemma client_matches_iff:
  "client_matches c identity \<longleftrightarrow> tc_id c = ci_client_id identity \<and>
     (tc_issuer c = None \<or> tc_issuer c = ci_issuer identity)"
  by (cases "tc_issuer c"; cases "ci_issuer identity") (auto simp: client_matches_def)

lemma evaluate_client_TrustedD:
  assumes "evaluate_client reg identity = Trusted c"
  shows "c \<in> set reg \<and> tc_active c \<and> tc_id c = ci_client_id identity \<and>
    (tc_issuer c = None \<or> tc_issuer c = ci_issuer identity)"
  using assms
  by (auto simp: evaluate_client_def client_matches_iff dest!: find_SomeD
      split: option.splits if_splits)

text \<open>
  With unique client ids (as the runtime's map keeps them), a client identity
  is trusted exactly when an active registered client has its id and, where that
  client is bound to an issuer, the same issuer.
\<close>

lemma evaluate_client_trusted_iff:
  assumes "distinct (map tc_id reg)"
  shows "(\<exists>c. evaluate_client reg identity = Trusted c) \<longleftrightarrow>
    (\<exists>c \<in> set reg. tc_active c \<and> tc_id c = ci_client_id identity \<and>
       (tc_issuer c = None \<or> tc_issuer c = ci_issuer identity))"
proof
  assume "\<exists>c. evaluate_client reg identity = Trusted c"
  then show "\<exists>c \<in> set reg. tc_active c \<and> tc_id c = ci_client_id identity \<and>
       (tc_issuer c = None \<or> tc_issuer c = ci_issuer identity)"
    using evaluate_client_TrustedD by blast
next
  assume "\<exists>c \<in> set reg. tc_active c \<and> tc_id c = ci_client_id identity \<and>
       (tc_issuer c = None \<or> tc_issuer c = ci_issuer identity)"
  then obtain c where c: "c \<in> set reg" "tc_active c" "tc_id c = ci_client_id identity"
    "tc_issuer c = None \<or> tc_issuer c = ci_issuer identity" by blast
  have "find (\<lambda>client. client_matches client identity) reg = Some c"
    using find_cong_Some_iff [OF assms, of "ci_client_id identity"
        "\<lambda>x. tc_issuer x = None \<or> tc_issuer x = ci_issuer identity" c] c
    by (simp add: client_matches_iff)
  with c(2) show "\<exists>c. evaluate_client reg identity = Trusted c"
    by (auto simp: evaluate_client_def)
qed


end
