(* ===== verification/Rust_Text.thy ===== *)
theory Rust_Text
  imports Prelude
begin

text \<open>
  Rust's \<open>str\<close> as the source uses it. A string is a \<open>string\<close>, one \<open>char\<close> per
  Unicode scalar value; \<open>char\<close> has 256 values, so text is modelled up to U+00FF.
  Lengths in bytes (\<open>str::len\<close>) go through \<open>utf8_len\<close>, which counts the UTF-8
  encoding; everything else works on scalar values, as \<open>chars()\<close> does. The
  second part holds decimal printing and the searches (\<open>find\<close>, \<open>split_once\<close>,
  \<open>strip_prefix\<close>, \<open>lines\<close>).
\<close>

section \<open>Characters\<close>

abbreviation code :: "char \<Rightarrow> nat" where
  "code c \<equiv> of_char c"

text \<open>\<open>char::is_whitespace\<close> (the White\_Space property) below U+0100.\<close>

definition is_whitespace :: "char \<Rightarrow> bool" where
  "is_whitespace c \<longleftrightarrow>
     (9 \<le> code c \<and> code c \<le> 13) \<or> code c = 32 \<or> code c = 133 \<or> code c = 160"

definition is_ascii_digit :: "char \<Rightarrow> bool" where
  "is_ascii_digit c \<longleftrightarrow> 48 \<le> code c \<and> code c \<le> 57"

definition is_ascii_uppercase :: "char \<Rightarrow> bool" where
  "is_ascii_uppercase c \<longleftrightarrow> 65 \<le> code c \<and> code c \<le> 90"

definition is_ascii_lowercase :: "char \<Rightarrow> bool" where
  "is_ascii_lowercase c \<longleftrightarrow> 97 \<le> code c \<and> code c \<le> 122"

definition is_ascii_alphabetic :: "char \<Rightarrow> bool" where
  "is_ascii_alphabetic c \<longleftrightarrow> is_ascii_uppercase c \<or> is_ascii_lowercase c"

definition is_ascii_alphanumeric :: "char \<Rightarrow> bool" where
  "is_ascii_alphanumeric c \<longleftrightarrow> is_ascii_alphabetic c \<or> is_ascii_digit c"

definition to_ascii_lower :: "char \<Rightarrow> char" where
  "to_ascii_lower c = (if is_ascii_uppercase c then char_of (code c + 32) else c)"

text \<open>\<open>char::to_lowercase\<close> below U+0100: ASCII letters and U+00C0 to U+00DE without U+00D7.\<close>

definition to_lower :: "char \<Rightarrow> char" where
  "to_lower c =
     (if is_ascii_uppercase c \<or> (192 \<le> code c \<and> code c \<le> 222 \<and> code c \<noteq> 215)
      then char_of (code c + 32) else c)"

definition to_lowercase :: "string \<Rightarrow> string" where
  "to_lowercase s = map to_lower s"

definition to_ascii_lowercase :: "string \<Rightarrow> string" where
  "to_ascii_lowercase s = map to_ascii_lower s"

definition eq_ignore_ascii_case :: "string \<Rightarrow> string \<Rightarrow> bool" where
  "eq_ignore_ascii_case a b \<longleftrightarrow> map to_ascii_lower a = map to_ascii_lower b"

definition len_utf8 :: "char \<Rightarrow> nat" where
  "len_utf8 c = (if code c < 128 then 1 else 2)"

definition utf8_len :: "string \<Rightarrow> nat" where
  "utf8_len s = sum_list (map len_utf8 s)"

lemma len_utf8_pos [simp]: "0 < len_utf8 c"
  by (simp add: len_utf8_def)

lemma utf8_len_simps [simp]:
  "utf8_len [] = 0"
  "utf8_len (c # s) = len_utf8 c + utf8_len s"
  "utf8_len (s @ t) = utf8_len s + utf8_len t"
  by (simp_all add: utf8_len_def)

lemma length_le_utf8_len: "length s \<le> utf8_len s"
  by (induction s) (auto simp: len_utf8_def)

lemma utf8_len_le: "utf8_len s \<le> 2 * length s"
  by (induction s) (auto simp: len_utf8_def)

text \<open>The slice \<open>s[..n]\<close> up to a byte offset that is a character boundary.\<close>

fun slice_to :: "nat \<Rightarrow> string \<Rightarrow> string" where
  "slice_to n [] = []"
| "slice_to n (c # s) = (if n < len_utf8 c then [] else c # slice_to (n - len_utf8 c) s)"

lemma slice_to_boundary: "slice_to (utf8_len (take n s)) s = take n s"
proof (induction s arbitrary: n)
  case (Cons c s)
  then show ?case by (cases n) simp_all
qed simp

section \<open>Trimming\<close>

definition trim_start :: "string \<Rightarrow> string" where
  "trim_start s = dropWhile is_whitespace s"

definition trim_end :: "string \<Rightarrow> string" where
  "trim_end s = rev (dropWhile is_whitespace (rev s))"

definition trim :: "string \<Rightarrow> string" where
  "trim s = trim_end (trim_start s)"

lemma trim_start_Nil [simp]: "trim_start [] = []"
  by (simp add: trim_start_def)

lemma trim_end_Nil [simp]: "trim_end [] = []"
  by (simp add: trim_end_def)

lemma trim_Nil [simp]: "trim [] = []"
  by (simp add: trim_def)

lemma trim_start_Nil_iff: "trim_start s = [] \<longleftrightarrow> (\<forall>c \<in> set s. is_whitespace c)"
  by (simp add: trim_start_def dropWhile_eq_Nil_conv)

lemma trim_end_Nil_iff: "trim_end s = [] \<longleftrightarrow> (\<forall>c \<in> set s. is_whitespace c)"
  by (simp add: trim_end_def dropWhile_eq_Nil_conv)

lemma trim_eq_Nil_iff: "trim s = [] \<longleftrightarrow> (\<forall>c \<in> set s. is_whitespace c)"
proof
  assume "trim s = []"
  then have "\<forall>c \<in> set (trim_start s). is_whitespace c"
    by (simp add: trim_def trim_end_Nil_iff)
  moreover have "trim_start s = [] \<or> \<not> is_whitespace (hd (trim_start s))"
    unfolding trim_start_def using hd_dropWhile by blast
  ultimately have "trim_start s = []"
    using list.set_sel(1) by blast
  then show "\<forall>c \<in> set s. is_whitespace c"
    by (simp add: trim_start_Nil_iff)
next
  assume "\<forall>c \<in> set s. is_whitespace c"
  then show "trim s = []"
    by (simp add: trim_def trim_start_Nil_iff [THEN iffD2])
qed

text \<open>\<open>trim_end\<close> removes a suffix of white space and leaves no white space at the end.\<close>

lemma trim_end_split: "\<exists>w. s = trim_end s @ w \<and> (\<forall>c \<in> set w. is_whitespace c)"
proof -
  have "rev s = takeWhile is_whitespace (rev s) @ dropWhile is_whitespace (rev s)"
    by simp
  then have "s = trim_end s @ rev (takeWhile is_whitespace (rev s))"
    unfolding trim_end_def by (metis rev_append rev_rev_ident)
  moreover have "\<forall>c \<in> set (rev (takeWhile is_whitespace (rev s))). is_whitespace c"
    by (auto dest: set_takeWhileD)
  ultimately show ?thesis by blast
qed

lemma trim_end_last: "trim_end s \<noteq> [] \<Longrightarrow> \<not> is_whitespace (last (trim_end s))"
proof -
  assume "trim_end s \<noteq> []"
  then have "dropWhile is_whitespace (rev s) \<noteq> []"
    by (simp add: trim_end_def)
  then have "\<not> is_whitespace (hd (dropWhile is_whitespace (rev s)))"
    by (rule hd_dropWhile)
  then show ?thesis by (simp add: trim_end_def last_rev)
qed

lemma trim_start_hd: "trim_start s \<noteq> [] \<Longrightarrow> \<not> is_whitespace (hd (trim_start s))"
  unfolding trim_start_def by (rule hd_dropWhile)

lemma trim_start_id: "s = [] \<or> \<not> is_whitespace (hd s) \<Longrightarrow> trim_start s = s"
  unfolding trim_start_def by (cases s) auto

lemma trim_end_id: "s = [] \<or> \<not> is_whitespace (last s) \<Longrightarrow> trim_end s = s"
  unfolding trim_end_def by (cases s rule: rev_cases) auto

lemma trim_end_hd: "trim_end s \<noteq> [] \<Longrightarrow> hd (trim_end s) = hd s"
proof -
  assume ne: "trim_end s \<noteq> []"
  obtain w where "s = trim_end s @ w" using trim_end_split by blast
  with ne show ?thesis by (metis hd_append2)
qed

lemma trim_trim [simp]: "trim (trim s) = trim s"
proof (cases "trim s = []")
  case False
  then have "\<not> is_whitespace (hd (trim s))"
    unfolding trim_def by (metis trim_end_Nil trim_end_hd trim_start_hd)
  moreover have "\<not> is_whitespace (last (trim s))"
    using False unfolding trim_def by (rule trim_end_last)
  ultimately show ?thesis by (simp add: trim_def trim_start_id trim_end_id)
qed simp

lemma length_trim_end: "length (trim_end s) \<le> length s"
proof -
  obtain w where "s = trim_end s @ w" using trim_end_split by blast
  then show ?thesis by (metis le_add1 length_append)
qed

lemma length_trim_start: "length (trim_start s) \<le> length s"
  by (simp add: trim_start_def length_dropWhile_le)

section \<open>Searching\<close>

definition starts_with :: "string \<Rightarrow> string \<Rightarrow> bool" where
  "starts_with s p \<longleftrightarrow> take (length p) s = p"

definition strip_prefix :: "string \<Rightarrow> string \<Rightarrow> string option" where
  "strip_prefix p s = (if starts_with s p then Some (drop (length p) s) else None)"

lemma starts_with_iff: "starts_with s p \<longleftrightarrow> (\<exists>t. s = p @ t)"
  unfolding starts_with_def by (metis append_eq_conv_conj append_take_drop_id)

lemma starts_with_Nil [simp]: "starts_with s []"
  by (simp add: starts_with_def)

lemma strip_prefix_Some_iff: "strip_prefix p s = Some t \<longleftrightarrow> s = p @ t"
  by (auto simp: strip_prefix_def starts_with_iff)

lemma strip_prefix_append [simp]: "strip_prefix p (p @ t) = Some t"
  by (simp add: strip_prefix_Some_iff)

text \<open>\<open>str::find\<close> on a pattern string: the text before the first occurrence and the rest after it.\<close>

fun split_at_sub :: "string \<Rightarrow> string \<Rightarrow> (string \<times> string) option" where
  "split_at_sub p [] = (if p = [] then Some ([], []) else None)"
| "split_at_sub p (c # s) =
     (case strip_prefix p (c # s) of
        Some rest \<Rightarrow> Some ([], rest)
      | None \<Rightarrow> map_option (\<lambda>(a, b). (c # a, b)) (split_at_sub p s))"

lemma split_at_sub_Some: "split_at_sub p s = Some (a, b) \<Longrightarrow> s = a @ p @ b"
proof (induction s arbitrary: a)
  case Nil
  then show ?case by (simp split: if_splits)
next
  case (Cons c s)
  show ?case
  proof (cases "strip_prefix p (c # s)")
    case None
    with Cons.prems obtain a' where "a = c # a'" and "split_at_sub p s = Some (a', b)"
      by auto
    with Cons.IH show ?thesis by simp
  next
    case (Some rest)
    with Cons.prems show ?thesis by (simp add: strip_prefix_Some_iff)
  qed
qed

text \<open>\<open>str::split_once\<close> on a character.\<close>

fun split_once :: "char \<Rightarrow> string \<Rightarrow> (string \<times> string) option" where
  "split_once c [] = None"
| "split_once c (x # xs) =
     (if x = c then Some ([], xs) else map_option (\<lambda>(a, b). (x # a, b)) (split_once c xs))"

lemma split_once_Some_iff: "split_once c s = Some (a, b) \<longleftrightarrow> s = a @ c # b \<and> c \<notin> set a"
proof (induction s arbitrary: a)
  case Nil
  then show ?case by simp
next
  case (Cons x s)
  show ?case
  proof (cases a)
    case Nil
    then show ?thesis by auto
  next
    case (Cons y a')
    with Cons.IH [of a'] show ?thesis by auto
  qed
qed

lemma split_once_None_iff: "split_once c s = None \<longleftrightarrow> c \<notin> set s"
  by (induction s) auto

lemma split_once_append [simp]: "c \<notin> set a \<Longrightarrow> split_once c (a @ c # b) = Some (a, b)"
  by (simp add: split_once_Some_iff)

text \<open>\<open>str::rsplit_once\<close> on a character.\<close>

definition rsplit_once :: "char \<Rightarrow> string \<Rightarrow> (string \<times> string) option" where
  "rsplit_once c s = map_option (\<lambda>(a, b). (rev b, rev a)) (split_once c (rev s))"

lemma rsplit_once_Some_iff: "rsplit_once c s = Some (a, b) \<longleftrightarrow> s = a @ c # b \<and> c \<notin> set b"
proof -
  have "rsplit_once c s = Some (a, b) \<longleftrightarrow> split_once c (rev s) = Some (rev b, rev a)"
    unfolding rsplit_once_def by (cases "split_once c (rev s)") auto
  also have "\<dots> \<longleftrightarrow> rev s = rev b @ c # rev a \<and> c \<notin> set b"
    by (simp add: split_once_Some_iff)
  also have "rev b @ c # rev a = rev (a @ c # b)"
    by simp
  finally show ?thesis by (simp only: rev_is_rev_conv)
qed

text \<open>
  \<open>str::lines\<close>: pieces ended by a line feed, a carriage return before the line feed
  dropped, no empty piece after a final line feed.
\<close>

fun split_lf :: "string \<Rightarrow> string \<Rightarrow> string list" where
  "split_lf acc [] = (if acc = [] then [] else [rev acc])"
| "split_lf acc (c # s) =
     (if c = CHR 0x0A
      then rev (case acc of [] \<Rightarrow> [] | x # xs \<Rightarrow> if x = CHR 0x0D then xs else acc) # split_lf [] s
      else split_lf (c # acc) s)"

definition lines :: "string \<Rightarrow> string list" where
  "lines s = split_lf [] s"

section \<open>Decimal numbers\<close>

definition digit_char :: "nat \<Rightarrow> char" where
  "digit_char d = char_of (48 + d)"

fun show_nat :: "nat \<Rightarrow> string" where
  "show_nat n =
     (if n < 10 then [digit_char n] else show_nat (n div 10) @ [digit_char (n mod 10)])"

declare show_nat.simps [simp del]

definition show_int :: "int \<Rightarrow> string" where
  "show_int i = (if i < 0 then CHR ''-'' # show_nat (nat (- i)) else show_nat (nat i))"

fun read_nat :: "nat \<Rightarrow> string \<Rightarrow> nat" where
  "read_nat acc [] = acc"
| "read_nat acc (c # s) = read_nat (10 * acc + (code c - 48)) s"

lemma code_digit_char: "d < 10 \<Longrightarrow> code (digit_char d) = 48 + d"
  by (simp add: digit_char_def of_char_of)

lemma read_nat_append: "read_nat acc (s @ t) = read_nat (read_nat acc s) t"
  by (induction s arbitrary: acc) auto

lemma read_show_nat: "read_nat 0 (show_nat n) = n"
proof (induction n rule: show_nat.induct)
  case (1 n)
  show ?case
  proof (cases "n < 10")
    case True
    then show ?thesis by (simp add: show_nat.simps [of n] code_digit_char)
  next
    case False
    with 1 have "read_nat 0 (show_nat (n div 10)) = n div 10" by simp
    with False show ?thesis
      by (simp add: show_nat.simps [of n] read_nat_append code_digit_char)
  qed
qed

lemma show_nat_inject [simp]: "show_nat m = show_nat n \<longleftrightarrow> m = n"
  by (metis read_show_nat)

lemma show_nat_digits: "\<forall>c \<in> set (show_nat n). is_ascii_digit c"
proof (induction n rule: show_nat.induct)
  case (1 n)
  have d: "k < 10 \<Longrightarrow> is_ascii_digit (digit_char k)" for k
    by (simp add: is_ascii_digit_def code_digit_char)
  show ?case
  proof (cases "n < 10")
    case True
    then show ?thesis by (simp add: show_nat.simps [of n] d)
  next
    case False
    with 1 have "\<forall>c \<in> set (show_nat (n div 10)). is_ascii_digit c" by simp
    with False show ?thesis by (simp add: show_nat.simps [of n] d)
  qed
qed

lemma show_nat_nonempty [simp]: "show_nat n \<noteq> []"
  by (simp add: show_nat.simps [of n])

text \<open>\<open>[String]::join\<close>.\<close>

fun join :: "string \<Rightarrow> string list \<Rightarrow> string" where
  "join sep [] = []"
| "join sep [s] = s"
| "join sep (s # t # ss) = s @ sep @ join sep (t # ss)"

end
