(* ===== verification/Json.thy ===== *)
theory Json
  imports Rust_Text "HOL-Library.List_Lexorder" "HOL-Library.Char_ord"
begin

text \<open>
  The value type of \<open>serde_json\<close>, which the audit and governance code passes
  around: \<open>Value\<close> with its six constructors, and its \<open>Map\<close>, a \<open>BTreeMap\<close> from
  strings, as an association list in increasing key order. Numbers keep their
  literal text. Parsing and printing are the library's own and stay parameters
  of the definitions that call them.
\<close>

datatype json =
    JNull
  | JBool bool
  | JNumber string
  | JString string
  | JArray "json list"
  | JObject "(string \<times> json) list"

type_synonym json_map = "(string \<times> json) list"

fun is_object :: "json \<Rightarrow> bool" where
  "is_object (JObject _) = True"
| "is_object _ = False"

text \<open>\<open>Value::get\<close> with a string key, and \<open>Value::as_str\<close>.\<close>

fun json_get :: "string \<Rightarrow> json \<Rightarrow> json option" where
  "json_get k (JObject m) = map_of m k"
| "json_get k _ = None"

fun json_as_str :: "json \<Rightarrow> string option" where
  "json_as_str (JString s) = Some s"
| "json_as_str _ = None"

text \<open>\<open>Map::insert\<close>, keeping the keys in order, and \<open>collect\<close> into a \<open>Map\<close>.\<close>

abbreviation obj_insert :: "string \<Rightarrow> json \<Rightarrow> json_map \<Rightarrow> json_map" where
  "obj_insert \<equiv> bt_insert"

abbreviation obj_sorted :: "json_map \<Rightarrow> bool" where
  "obj_sorted \<equiv> bt_sorted"

definition obj_of :: "(string \<times> json) list \<Rightarrow> json_map" where
  "obj_of kvs = fold (\<lambda>(k, v). obj_insert k v) kvs []"

lemma obj_of_sorted_aux: "obj_sorted m \<Longrightarrow> obj_sorted (fold (\<lambda>(k, v). obj_insert k v) kvs m)"
  by (induction kvs arbitrary: m) (auto split: prod.splits)

lemma obj_of_sorted [simp]: "obj_sorted (obj_of kvs)"
  unfolding obj_of_def by (rule obj_of_sorted_aux) simp

lemma map_of_obj_of: "map_of (obj_of kvs) k = map_of (rev kvs) k"
proof -
  have "obj_sorted m \<Longrightarrow>
      map_of (fold (\<lambda>(k, v). obj_insert k v) kvs m) k = (map_of m ++ map_of (rev kvs)) k" for m
    by (induction kvs arbitrary: m) (auto simp: map_add_def split: prod.splits option.splits)
  from this [of "[]"] show ?thesis by (simp add: obj_of_def)
qed

end
