(* ===== verification/Approval.thy ===== *)
theory Approval
  imports Policy Json
begin

text \<open>
  The approval queue (crate \<open>dbflux_approval\<close>): pending executions, the
  in-memory store behind the \<open>PendingExecutionStore\<close> trait, and
  \<open>ApprovalService\<close>, which works on any store. A \<open>Box<dyn PendingExecutionStore>\<close>
  is a record of the trait's operations; wall-clock readings and fresh
  identifiers are arguments. The locale \<open>pending_store\<close> states what the trait
  promises, in terms of the entry each identifier has; the lemmas about the
  service, up to the life cycle of a request over a whole run, are proved in it
  once and hold of every store that meets the contract.
\<close>

section \<open>Data\<close>

record execution_plan =
  ep_connection_id :: string
  ep_actor_id :: string
  ep_tool_id :: string
  ep_classification :: execution_classification
  ep_payload :: json

datatype pending_status = Pending | Approved | Rejected | Consumed

record pending_execution =
  pe_id :: uuid
  pe_status :: pending_status
  pe_plan :: execution_plan
  pe_created_at :: int
  pe_expires_at :: "int option"
  pe_rejection_reason :: "string option"

datatype pending_store_error = Backend string | Serialization string

text \<open>
  The trait object. An operation that takes \<open>&mut self\<close> returns the new store;
  \<open>create_pending\<close> takes the fresh identifier and the clock, the others that read
  the clock take it first.
\<close>

record 's pending_store_ops =
  op_create_pending ::
    "uuid \<Rightarrow> int \<Rightarrow> execution_plan \<Rightarrow> int option \<Rightarrow> 's \<Rightarrow>
     's \<times> (pending_store_error, pending_execution) result"
  op_get_pending :: "int \<Rightarrow> uuid \<Rightarrow> 's \<Rightarrow> (pending_store_error, pending_execution option) result"
  op_get_execution :: "uuid \<Rightarrow> 's \<Rightarrow> (pending_store_error, pending_execution option) result"
  op_update_status ::
    "uuid \<Rightarrow> pending_status \<Rightarrow> 's \<Rightarrow> 's \<times> (pending_store_error, pending_execution option) result"
  op_record_rejection ::
    "uuid \<Rightarrow> string option \<Rightarrow> 's \<Rightarrow> 's \<times> (pending_store_error, pending_execution option) result"
  op_list_pending :: "int \<Rightarrow> 's \<Rightarrow> (pending_store_error, pending_execution list) result"
  op_consume_approved ::
    "int \<Rightarrow> execution_plan \<Rightarrow> 's \<Rightarrow> 's \<times> (pending_store_error, pending_execution option) result"
  op_purge_terminal_and_expired :: "int \<Rightarrow> 's \<Rightarrow> 's \<times> (pending_store_error, nat) result"

definition approval_matches_plan :: "execution_plan \<Rightarrow> execution_plan \<Rightarrow> bool" where
  "approval_matches_plan approved plan \<longleftrightarrow>
     ep_actor_id approved = ep_actor_id plan \<and>
     ep_connection_id approved = ep_connection_id plan \<and>
     ep_tool_id approved = ep_tool_id plan \<and>
     ep_payload approved = ep_payload plan"

section \<open>The in-memory store\<close>

text \<open>\<open>InMemoryPendingExecutionStore\<close> is its vector of entries.\<close>

type_synonym in_memory_store = "pending_execution list"

definition unexpired :: "int \<Rightarrow> pending_execution \<Rightarrow> bool" where
  "unexpired now e \<longleftrightarrow> is_none_or (pe_expires_at e) (\<lambda>exp. exp > now)"

definition create_pending ::
  "uuid \<Rightarrow> int \<Rightarrow> execution_plan \<Rightarrow> int option \<Rightarrow> in_memory_store \<Rightarrow>
   in_memory_store \<times> (pending_store_error, pending_execution) result" where
  "create_pending new_id now plan expires_at entries =
     (let pending = \<lparr>pe_id = new_id, pe_status = Pending, pe_plan = plan, pe_created_at = now,
                     pe_expires_at = expires_at, pe_rejection_reason = None\<rparr>
      in (entries @ [pending], Ok pending))"

definition get_pending ::
  "int \<Rightarrow> uuid \<Rightarrow> in_memory_store \<Rightarrow> (pending_store_error, pending_execution option) result" where
  "get_pending now i entries =
     Ok (find (\<lambda>e. pe_id e = i \<and> pe_status e = Pending \<and> unexpired now e) entries)"

definition update_status ::
  "uuid \<Rightarrow> pending_status \<Rightarrow> in_memory_store \<Rightarrow>
   in_memory_store \<times> (pending_store_error, pending_execution option) result" where
  "update_status i st entries =
     (update_first (\<lambda>e. pe_id e = i) (\<lambda>e. e\<lparr>pe_status := st\<rparr>) entries,
      Ok (map_option (\<lambda>e. e\<lparr>pe_status := st\<rparr>) (find (\<lambda>e. pe_id e = i) entries)))"

definition get_execution ::
  "uuid \<Rightarrow> in_memory_store \<Rightarrow> (pending_store_error, pending_execution option) result" where
  "get_execution i entries = Ok (find (\<lambda>e. pe_id e = i) entries)"

definition record_rejection ::
  "uuid \<Rightarrow> string option \<Rightarrow> in_memory_store \<Rightarrow>
   in_memory_store \<times> (pending_store_error, pending_execution option) result" where
  "record_rejection i reason entries =
     (let reject_entry = (\<lambda>e. e\<lparr>pe_status := Rejected, pe_rejection_reason := reason\<rparr>)
      in (update_first (\<lambda>e. pe_id e = i) reject_entry entries,
          Ok (map_option reject_entry (find (\<lambda>e. pe_id e = i) entries))))"

definition list_pending ::
  "int \<Rightarrow> in_memory_store \<Rightarrow> (pending_store_error, pending_execution list) result" where
  "list_pending now entries = Ok (filter (\<lambda>e. pe_status e = Pending \<and> unexpired now e) entries)"

text \<open>
  \<open>consume_approved\<close> mutates the entry the iterator found, so the model keeps the
  position of each candidate.
\<close>

definition consume_approved ::
  "int \<Rightarrow> execution_plan \<Rightarrow> in_memory_store \<Rightarrow>
   in_memory_store \<times> (pending_store_error, pending_execution option) result" where
  "consume_approved now plan entries =
     (case min_by_key (\<lambda>(n, e). pe_created_at e)
             (filter (\<lambda>(n, e). pe_status e = Approved \<and> unexpired now e \<and>
                               approval_matches_plan (pe_plan e) plan)
                     (enumerate 0 entries)) of
        None \<Rightarrow> (entries, Ok None)
      | Some (n, e) \<Rightarrow>
          (let consumed = e\<lparr>pe_status := Consumed\<rparr>
           in (entries[n := consumed], Ok (Some consumed))))"

definition purge_terminal_and_expired ::
  "int \<Rightarrow> in_memory_store \<Rightarrow> in_memory_store \<times> (pending_store_error, nat) result" where
  "purge_terminal_and_expired now_ms entries =
     (let kept = filter (\<lambda>e.
                   let is_finished = pe_status e \<in> {Rejected, Consumed};
                       is_expired = is_some_and (pe_expires_at e) (\<lambda>exp. exp \<le> now_ms)
                   in \<not> is_finished \<and> \<not> is_expired) entries
      in (kept, Ok (length entries - length kept)))"

definition in_memory_ops :: "in_memory_store pending_store_ops" where
  "in_memory_ops =
     \<lparr>op_create_pending = create_pending,
      op_get_pending = get_pending,
      op_get_execution = get_execution,
      op_update_status = update_status,
      op_record_rejection = record_rejection,
      op_list_pending = list_pending,
      op_consume_approved = consume_approved,
      op_purge_terminal_and_expired = purge_terminal_and_expired\<rparr>"

section \<open>The service\<close>

definition DEFAULT_APPROVAL_TTL_MS :: int where
  "DEFAULT_APPROVAL_TTL_MS = 86400000"

definition MAX_REJECTION_REASON_CHARS :: nat where
  "MAX_REJECTION_REASON_CHARS = 500"

definition normalize_rejection_reason :: "string option \<Rightarrow> string option" where
  "normalize_rejection_reason reason =
     (case reason of
        None \<Rightarrow> None
      | Some r \<Rightarrow>
          (let trimmed = trim r
           in if trimmed = [] then None
              else Some (trim_end (take MAX_REJECTION_REASON_CHARS trimmed))))"

record approved_execution =
  ae_pending :: pending_execution
  ae_replay_plan :: execution_plan

record rejected_execution =
  re_pending :: pending_execution

datatype approval_error =
    PendingNotFound uuid
  | InvalidTransition uuid
  | Store pending_store_error

record 's approval_service =
  as_store :: 's
  as_ttl_ms :: int

definition approval_service_new :: "'s \<Rightarrow> 's approval_service" where
  "approval_service_new s = \<lparr>as_store = s, as_ttl_ms = DEFAULT_APPROVAL_TTL_MS\<rparr>"

definition approval_service_with_ttl :: "'s \<Rightarrow> int \<Rightarrow> 's approval_service" where
  "approval_service_with_ttl s ttl_ms = \<lparr>as_store = s, as_ttl_ms = ttl_ms\<rparr>"

definition set_ttl_ms :: "int \<Rightarrow> 's approval_service \<Rightarrow> 's approval_service" where
  "set_ttl_ms ttl_ms sv = sv\<lparr>as_ttl_ms := ttl_ms\<rparr>"

text \<open>\<open>now_ms\<close> is the service's own clock reading, \<open>now'\<close> the one the store takes.\<close>

definition svc_request_execution ::
  "'s pending_store_ops \<Rightarrow> int \<Rightarrow> uuid \<Rightarrow> int \<Rightarrow> execution_plan \<Rightarrow> 's approval_service \<Rightarrow>
   's approval_service \<times> (approval_error, pending_execution) result" where
  "svc_request_execution ops now_ms new_id now' plan sv =
     (let expires_at = Some (wrap_i64 (now_ms + as_ttl_ms sv));
          (store', r) = op_create_pending ops new_id now' plan expires_at (as_store sv)
      in (sv\<lparr>as_store := store'\<rparr>, map_err Store r))"

definition svc_list_pending ::
  "'s pending_store_ops \<Rightarrow> int \<Rightarrow> 's approval_service \<Rightarrow>
   (approval_error, pending_execution list) result" where
  "svc_list_pending ops now sv = map_err Store (op_list_pending ops now (as_store sv))"

definition svc_get_execution ::
  "'s pending_store_ops \<Rightarrow> uuid \<Rightarrow> 's approval_service \<Rightarrow>
   (approval_error, pending_execution option) result" where
  "svc_get_execution ops i sv = map_err Store (op_get_execution ops i (as_store sv))"

definition svc_consume_approved ::
  "'s pending_store_ops \<Rightarrow> int \<Rightarrow> execution_plan \<Rightarrow> 's approval_service \<Rightarrow>
   's approval_service \<times> (approval_error, pending_execution option) result" where
  "svc_consume_approved ops now plan sv =
     (let (store', r) = op_consume_approved ops now plan (as_store sv)
      in (sv\<lparr>as_store := store'\<rparr>, map_err Store r))"

definition svc_purge_terminal_and_expired ::
  "'s pending_store_ops \<Rightarrow> int \<Rightarrow> 's approval_service \<Rightarrow>
   's approval_service \<times> (approval_error, nat) result" where
  "svc_purge_terminal_and_expired ops now_ms sv =
     (let (store', r) = op_purge_terminal_and_expired ops now_ms (as_store sv)
      in (sv\<lparr>as_store := store'\<rparr>, map_err Store r))"

definition svc_approve ::
  "'s pending_store_ops \<Rightarrow> int \<Rightarrow> uuid \<Rightarrow> 's approval_service \<Rightarrow>
   's approval_service \<times> (approval_error, approved_execution) result" where
  "svc_approve ops now i sv =
     (case op_get_pending ops now i (as_store sv) of
        Inl e \<Rightarrow> (sv, Err (Store e))
      | Inr None \<Rightarrow> (sv, Err (PendingNotFound i))
      | Inr (Some pending) \<Rightarrow>
          if pe_status pending \<noteq> Pending then (sv, Err (InvalidTransition i))
          else
            (let replay_plan = pe_plan pending;
                 (store', r) = op_update_status ops i Approved (as_store sv);
                 sv' = sv\<lparr>as_store := store'\<rparr>
             in case r of
                  Inl e \<Rightarrow> (sv', Err (Store e))
                | Inr None \<Rightarrow> (sv', Err (PendingNotFound i))
                | Inr (Some updated) \<Rightarrow>
                    (sv', Ok \<lparr>ae_pending = updated, ae_replay_plan = replay_plan\<rparr>)))"

definition svc_reject ::
  "'s pending_store_ops \<Rightarrow> int \<Rightarrow> uuid \<Rightarrow> string option \<Rightarrow> 's approval_service \<Rightarrow>
   's approval_service \<times> (approval_error, rejected_execution) result" where
  "svc_reject ops now i reason sv =
     (case op_get_pending ops now i (as_store sv) of
        Inl e \<Rightarrow> (sv, Err (Store e))
      | Inr None \<Rightarrow> (sv, Err (PendingNotFound i))
      | Inr (Some pending) \<Rightarrow>
          if pe_status pending \<noteq> Pending then (sv, Err (InvalidTransition i))
          else
            (let reason' = normalize_rejection_reason reason;
                 (store', r) = op_record_rejection ops i reason' (as_store sv);
                 sv' = sv\<lparr>as_store := store'\<rparr>
             in case r of
                  Inl e \<Rightarrow> (sv', Err (Store e))
                | Inr None \<Rightarrow> (sv', Err (PendingNotFound i))
                | Inr (Some updated) \<Rightarrow> (sv', Ok \<lparr>re_pending = updated\<rparr>)))"


section \<open>Runs of the service\<close>

text \<open>
  The calls that change the queue, with the clock readings and fresh identifiers
  they take, and what a caller sees of each: the identifier that was requested,
  approved, rejected or consumed.
\<close>

datatype svc_call =
    CallRequest int uuid int execution_plan
  | CallApprove int uuid
  | CallReject int uuid "string option"
  | CallConsume int execution_plan
  | CallPurge int
  | CallSetTtl int

datatype svc_event =
    EvRequested uuid
  | EvApproved uuid
  | EvRejected uuid
  | EvConsumed uuid

fun event_id :: "svc_event \<Rightarrow> uuid" where
  "event_id (EvRequested i) = i"
| "event_id (EvApproved i) = i"
| "event_id (EvRejected i) = i"
| "event_id (EvConsumed i) = i"

fun svc_exec ::
  "'s pending_store_ops \<Rightarrow> svc_call \<Rightarrow> 's approval_service \<Rightarrow>
   's approval_service \<times> svc_event list" where
  "svc_exec ops (CallRequest now_ms i now' plan) sv =
     (let (sv', r) = svc_request_execution ops now_ms i now' plan sv
      in (sv', case r of Inl _ \<Rightarrow> [] | Inr e \<Rightarrow> [EvRequested (pe_id e)]))"
| "svc_exec ops (CallApprove now i) sv =
     (let (sv', r) = svc_approve ops now i sv
      in (sv', case r of Inl _ \<Rightarrow> [] | Inr a \<Rightarrow> [EvApproved (pe_id (ae_pending a))]))"
| "svc_exec ops (CallReject now i why) sv =
     (let (sv', r) = svc_reject ops now i why sv
      in (sv', case r of Inl _ \<Rightarrow> [] | Inr a \<Rightarrow> [EvRejected (pe_id (re_pending a))]))"
| "svc_exec ops (CallConsume now plan) sv =
     (let (sv', r) = svc_consume_approved ops now plan sv
      in (sv', case r of Inr (Some e) \<Rightarrow> [EvConsumed (pe_id e)] | _ \<Rightarrow> []))"
| "svc_exec ops (CallPurge now) sv = (fst (svc_purge_terminal_and_expired ops now sv), [])"
| "svc_exec ops (CallSetTtl ttl) sv = (set_ttl_ms ttl sv, [])"

fun svc_run ::
  "'s pending_store_ops \<Rightarrow> svc_call list \<Rightarrow> 's approval_service \<Rightarrow>
   's approval_service \<times> svc_event list" where
  "svc_run ops [] sv = (sv, [])"
| "svc_run ops (c # cs) sv =
     (let (sv1, ev1) = svc_exec ops c sv;
          (sv2, ev2) = svc_run ops cs sv1
      in (sv2, ev1 @ ev2))"

fun requested_ids :: "svc_call list \<Rightarrow> uuid list" where
  "requested_ids [] = []"
| "requested_ids (CallRequest _ i _ _ # cs) = i # requested_ids cs"
| "requested_ids (_ # cs) = requested_ids cs"

definition events_of :: "uuid \<Rightarrow> svc_event list \<Rightarrow> svc_event list" where
  "events_of i evs = filter (\<lambda>ev. event_id ev = i) evs"

text \<open>What may ever be observed of one identifier, and how far its status says it got.\<close>

definition life_cycles :: "uuid \<Rightarrow> svc_event list set" where
  "life_cycles i =
     {[],
      [EvRequested i],
      [EvRequested i, EvRejected i],
      [EvRequested i, EvApproved i],
      [EvRequested i, EvApproved i, EvConsumed i]}"

fun life_of :: "pending_status \<Rightarrow> uuid \<Rightarrow> svc_event list" where
  "life_of Pending i = [EvRequested i]"
| "life_of Approved i = [EvRequested i, EvApproved i]"
| "life_of Rejected i = [EvRequested i, EvRejected i]"
| "life_of Consumed i = [EvRequested i, EvApproved i, EvConsumed i]"

section \<open>The contract of a store\<close>

text \<open>
  \<open>view\<close> gives the entry an identifier has in the store and \<open>sinv\<close> is the store's
  own invariant. The laws are those the trait's comments promise.
\<close>

definition consumable :: "int \<Rightarrow> execution_plan \<Rightarrow> pending_execution \<Rightarrow> bool" where
  "consumable now plan e \<longleftrightarrow>
     pe_status e = Approved \<and> unexpired now e \<and> approval_matches_plan (pe_plan e) plan"

definition purged :: "int \<Rightarrow> pending_execution \<Rightarrow> bool" where
  "purged now e \<longleftrightarrow> pe_status e \<in> {Rejected, Consumed} \<or> \<not> unexpired now e"

text \<open>
  The invariant of a run: \<open>req\<close> are the identifiers requested so far and \<open>evs\<close>
  the events; each stored entry is where its own events say it is.
\<close>

definition on_course ::
  "pending_execution option \<Rightarrow> bool \<Rightarrow> svc_event list \<Rightarrow> uuid \<Rightarrow> bool" where
  "on_course entry requested evs i \<longleftrightarrow>
     (case entry of
        None \<Rightarrow> evs \<in> life_cycles i
      | Some e \<Rightarrow> requested \<and> evs = life_of (pe_status e) i) \<and>
     (\<not> requested \<longrightarrow> evs = [])"

definition run_inv ::
  "('s \<Rightarrow> uuid \<rightharpoonup> pending_execution) \<Rightarrow> ('s \<Rightarrow> bool) \<Rightarrow>
   's approval_service \<Rightarrow> uuid set \<Rightarrow> svc_event list \<Rightarrow> bool" where
  "run_inv view sinv sv req evs \<longleftrightarrow>
     sinv (as_store sv) \<and>
     (\<forall>i. on_course (view (as_store sv) i) (i \<in> req) (events_of i evs) i)"

lemma events_of_append [simp]: "events_of i (xs @ ys) = events_of i xs @ events_of i ys"
  by (simp add: events_of_def)

lemma events_of_simps [simp]:
  "events_of i [] = []"
  "events_of i (ev # evs) = (if event_id ev = i then ev # events_of i evs else events_of i evs)"
  by (simp_all add: events_of_def)

lemma life_of_in_life_cycles [simp]: "life_of st i \<in> life_cycles i"
  by (cases st) (simp_all add: life_cycles_def)

lemma life_cycles_Nil [simp]: "[] \<in> life_cycles i"
  by (simp add: life_cycles_def)

lemma on_course_simps [simp]:
  "on_course None r evs i \<longleftrightarrow> evs \<in> life_cycles i \<and> (\<not> r \<longrightarrow> evs = [])"
  "on_course (Some e) r evs i \<longleftrightarrow> r \<and> evs = life_of (pe_status e) i"
  by (auto simp: on_course_def)

lemma on_course_life_cycle: "on_course x r evs i \<Longrightarrow> evs \<in> life_cycles i"
  by (cases x) auto

lemma on_course_gone: "on_course x r evs i \<Longrightarrow> on_course None r evs i"
  by (cases x) auto

lemma run_invD:
  assumes "run_inv view sinv sv req evs"
  shows "sinv (as_store sv)" and "on_course (view (as_store sv) i) (i \<in> req) (events_of i evs) i"
  using assms by (simp_all add: run_inv_def)

text \<open>One entry moves on by one event; or nothing is observed and entries only disappear.\<close>

lemma run_inv_advance:
  assumes "run_inv view sinv sv req evs" and "sinv s'"
    and "view (as_store sv) i = Some e" and "view s' = (view (as_store sv))(i \<mapsto> e')"
    and "life_of (pe_status e') i = life_of (pe_status e) i @ [ev]" and "event_id ev = i"
  shows "run_inv view sinv (sv\<lparr>as_store := s'\<rparr>) req (evs @ [ev])"
  unfolding run_inv_def
proof (intro conjI allI)
  fix k
  show "on_course (view (as_store (sv\<lparr>as_store := s'\<rparr>)) k) (k \<in> req) (events_of k (evs @ [ev])) k"
    using run_invD(2) [OF assms(1), of k] assms(3-6) by (cases "k = i") simp_all
qed (simp add: assms(2))

lemma run_inv_shrink:
  assumes "run_inv view sinv sv req evs" and "sinv s'"
    and "\<And>i. view s' i = None \<or> view s' i = view (as_store sv) i"
  shows "run_inv view sinv (sv\<lparr>as_store := s'\<rparr>) req evs"
  unfolding run_inv_def
proof (intro conjI allI)
  fix k
  show "on_course (view (as_store (sv\<lparr>as_store := s'\<rparr>)) k) (k \<in> req) (events_of k evs) k"
    using run_invD(2) [OF assms(1), of k] assms(3) [of k] on_course_gone by auto
qed (simp add: assms(2))

locale pending_store =
  fixes ops :: "'s pending_store_ops"
    and view :: "'s \<Rightarrow> uuid \<rightharpoonup> pending_execution"
    and sinv :: "'s \<Rightarrow> bool"
  assumes view_id: "sinv s \<Longrightarrow> view s i = Some e \<Longrightarrow> pe_id e = i"
    and create_ok:
      "sinv s \<Longrightarrow> view s i = None \<Longrightarrow>
       \<exists>s'. op_create_pending ops i now plan ex s =
              (s', Ok \<lparr>pe_id = i, pe_status = Pending, pe_plan = plan, pe_created_at = now,
                       pe_expires_at = ex, pe_rejection_reason = None\<rparr>) \<and>
            sinv s' \<and>
            view s' = (view s)(i \<mapsto>
              \<lparr>pe_id = i, pe_status = Pending, pe_plan = plan, pe_created_at = now,
               pe_expires_at = ex, pe_rejection_reason = None\<rparr>)"
    and get_pending_ok:
      "sinv s \<Longrightarrow>
       op_get_pending ops now i s =
         Ok (opt_filter (\<lambda>e. pe_status e = Pending \<and> unexpired now e) (view s i))"
    and get_execution_ok: "sinv s \<Longrightarrow> op_get_execution ops i s = Ok (view s i)"
    and update_status_ok:
      "sinv s \<Longrightarrow>
       \<exists>s'. op_update_status ops i st s =
              (s', Ok (map_option (\<lambda>e. e\<lparr>pe_status := st\<rparr>) (view s i))) \<and>
            sinv s' \<and>
            view s' = (view s)(i := map_option (\<lambda>e. e\<lparr>pe_status := st\<rparr>) (view s i))"
    and record_rejection_ok:
      "sinv s \<Longrightarrow>
       \<exists>s'. op_record_rejection ops i why s =
              (s', Ok (map_option (\<lambda>e. e\<lparr>pe_status := Rejected, pe_rejection_reason := why\<rparr>)
                         (view s i))) \<and>
            sinv s' \<and>
            view s' = (view s)(i :=
              map_option (\<lambda>e. e\<lparr>pe_status := Rejected, pe_rejection_reason := why\<rparr>) (view s i))"
    and list_pending_ok:
      "sinv s \<Longrightarrow>
       \<exists>es. op_list_pending ops now s = Ok es \<and>
            set es = {e \<in> ran (view s). pe_status e = Pending \<and> unexpired now e}"
    and consume_none:
      "sinv s \<Longrightarrow> \<forall>e \<in> ran (view s). \<not> consumable now plan e \<Longrightarrow>
       \<exists>s'. op_consume_approved ops now plan s = (s', Ok None) \<and> sinv s' \<and> view s' = view s"
    and consume_some:
      "sinv s \<Longrightarrow> \<exists>e \<in> ran (view s). consumable now plan e \<Longrightarrow>
       \<exists>s' e. op_consume_approved ops now plan s = (s', Ok (Some (e\<lparr>pe_status := Consumed\<rparr>))) \<and>
              sinv s' \<and> view s (pe_id e) = Some e \<and> consumable now plan e \<and>
              (\<forall>e' \<in> ran (view s). consumable now plan e' \<longrightarrow> pe_created_at e \<le> pe_created_at e') \<and>
              view s' = (view s)(pe_id e \<mapsto> e\<lparr>pe_status := Consumed\<rparr>)"
    and purge_ok:
      "sinv s \<Longrightarrow>
       \<exists>s' n. op_purge_terminal_and_expired ops now s = (s', Ok n) \<and> sinv s' \<and>
              view s' = (\<lambda>i. opt_filter (\<lambda>e. \<not> purged now e) (view s i))"
begin

text \<open>The operations of the service on a store that meets the contract.\<close>

lemma approve_spec:
  assumes "sinv (as_store sv)"
  shows "case view (as_store sv) i of
           Some e \<Rightarrow>
             if pe_status e = Pending \<and> unexpired now e
             then (\<exists>s'. svc_approve ops now i sv =
                     (sv\<lparr>as_store := s'\<rparr>,
                      Ok \<lparr>ae_pending = e\<lparr>pe_status := Approved\<rparr>, ae_replay_plan = pe_plan e\<rparr>) \<and>
                   sinv s' \<and> view s' = (view (as_store sv))(i \<mapsto> e\<lparr>pe_status := Approved\<rparr>))
             else svc_approve ops now i sv = (sv, Err (PendingNotFound i))
         | None \<Rightarrow> svc_approve ops now i sv = (sv, Err (PendingNotFound i))"
proof (cases "view (as_store sv) i")
  case None
  then show ?thesis by (simp add: svc_approve_def get_pending_ok [OF assms])
next
  case (Some e)
  obtain s' where
    "op_update_status ops i Approved (as_store sv) = (s', Ok (Some (e\<lparr>pe_status := Approved\<rparr>)))"
    "sinv s'" "view s' = (view (as_store sv))(i \<mapsto> e\<lparr>pe_status := Approved\<rparr>)"
    using update_status_ok [OF assms, where i = i and st = Approved] Some by auto
  with Some show ?thesis
    by (auto simp: svc_approve_def get_pending_ok [OF assms])
qed

lemma reject_spec:
  assumes "sinv (as_store sv)"
  shows "case view (as_store sv) i of
           Some e \<Rightarrow>
             if pe_status e = Pending \<and> unexpired now e
             then (\<exists>s'. let e' = e\<lparr>pe_status := Rejected,
                                 pe_rejection_reason := normalize_rejection_reason why\<rparr>
                   in svc_reject ops now i why sv = (sv\<lparr>as_store := s'\<rparr>, Ok \<lparr>re_pending = e'\<rparr>) \<and>
                      sinv s' \<and> view s' = (view (as_store sv))(i \<mapsto> e'))
             else svc_reject ops now i why sv = (sv, Err (PendingNotFound i))
         | None \<Rightarrow> svc_reject ops now i why sv = (sv, Err (PendingNotFound i))"
proof (cases "view (as_store sv) i")
  case None
  then show ?thesis by (simp add: svc_reject_def get_pending_ok [OF assms])
next
  case (Some e)
  let ?e' = "e\<lparr>pe_status := Rejected, pe_rejection_reason := normalize_rejection_reason why\<rparr>"
  obtain s' where
    "op_record_rejection ops i (normalize_rejection_reason why) (as_store sv) = (s', Ok (Some ?e'))"
    "sinv s'" "view s' = (view (as_store sv))(i \<mapsto> ?e')"
    using record_rejection_ok [OF assms, where i = i and why = "normalize_rejection_reason why"] Some by auto
  with Some show ?thesis
    by (auto simp: svc_reject_def get_pending_ok [OF assms] Let_def)
qed

text \<open>Every call keeps the invariant of a run.\<close>

lemma exec_request:
  assumes "run_inv view sinv sv req evs" and "i \<notin> req"
    and "svc_exec ops (CallRequest now_ms i now' plan) sv = (sv', ev)"
  shows "run_inv view sinv sv' (insert i req) (evs @ ev)"
proof -
  have sinv: "sinv (as_store sv)" and fresh: "view (as_store sv) i = None"
    and none: "events_of i evs = []"
    using run_invD(1) [OF assms(1)] run_invD(2) [OF assms(1), of i] assms(2)
    by (cases "view (as_store sv) i"; simp)+
  let ?e = "\<lparr>pe_id = i, pe_status = Pending, pe_plan = plan, pe_created_at = now',
             pe_expires_at = Some (wrap_i64 (now_ms + as_ttl_ms sv)), pe_rejection_reason = None\<rparr>"
  obtain s' where
    "op_create_pending ops i now' plan (Some (wrap_i64 (now_ms + as_ttl_ms sv))) (as_store sv) =
       (s', Ok ?e)"
    and s': "sinv s'" "view s' = (view (as_store sv))(i \<mapsto> ?e)"
    using create_ok [OF sinv fresh] by blast
  with assms(3) have "sv' = sv\<lparr>as_store := s'\<rparr>" "ev = [EvRequested i]"
    by (auto simp: svc_request_execution_def)
  moreover have
    "on_course (view s' k) (k \<in> insert i req) (events_of k (evs @ [EvRequested i])) k" for k
    using run_invD(2) [OF assms(1), of k] s'(2) none by (cases "k = i") simp_all
  ultimately show ?thesis using s'(1) by (simp add: run_inv_def)
qed

lemma exec_approve:
  assumes "run_inv view sinv sv req evs" and "svc_exec ops (CallApprove now i) sv = (sv', ev)"
  shows "run_inv view sinv sv' req (evs @ ev)"
proof -
  have sinv: "sinv (as_store sv)" using assms(1) by (simp add: run_inv_def)
  show ?thesis
  proof (cases "\<exists>e. view (as_store sv) i = Some e \<and> pe_status e = Pending \<and> unexpired now e")
    case True
    then obtain e where e: "view (as_store sv) i = Some e" "pe_status e = Pending" "unexpired now e"
      by blast
    with approve_spec [OF sinv, where i = i and now = now] obtain s' where
      "svc_approve ops now i sv =
         (sv\<lparr>as_store := s'\<rparr>,
          Ok \<lparr>ae_pending = e\<lparr>pe_status := Approved\<rparr>, ae_replay_plan = pe_plan e\<rparr>)"
      and s': "sinv s'" "view s' = (view (as_store sv))(i \<mapsto> e\<lparr>pe_status := Approved\<rparr>)"
      by auto
    with assms(2) view_id [OF sinv e(1)] have "sv' = sv\<lparr>as_store := s'\<rparr>" "ev = [EvApproved i]"
      by auto
    with run_inv_advance [OF assms(1) s'(1) e(1) s'(2)] e(2) show ?thesis by simp
  next
    case False
    with approve_spec [OF sinv, where i = i and now = now]
    have "svc_approve ops now i sv = (sv, Err (PendingNotFound i))"
      by (auto split: option.splits if_splits)
    with assms show ?thesis by auto
  qed
qed

lemma exec_reject:
  assumes "run_inv view sinv sv req evs" and "svc_exec ops (CallReject now i why) sv = (sv', ev)"
  shows "run_inv view sinv sv' req (evs @ ev)"
proof -
  have sinv: "sinv (as_store sv)" using assms(1) by (simp add: run_inv_def)
  show ?thesis
  proof (cases "\<exists>e. view (as_store sv) i = Some e \<and> pe_status e = Pending \<and> unexpired now e")
    case True
    then obtain e where e: "view (as_store sv) i = Some e" "pe_status e = Pending" "unexpired now e"
      by blast
    let ?e' = "e\<lparr>pe_status := Rejected, pe_rejection_reason := normalize_rejection_reason why\<rparr>"
    from e reject_spec [OF sinv, where i = i and now = now and why = why] obtain s' where
      "svc_reject ops now i why sv = (sv\<lparr>as_store := s'\<rparr>, Ok \<lparr>re_pending = ?e'\<rparr>)"
      and s': "sinv s'" "view s' = (view (as_store sv))(i \<mapsto> ?e')"
      by (auto simp: Let_def)
    with assms(2) view_id [OF sinv e(1)] have "sv' = sv\<lparr>as_store := s'\<rparr>" "ev = [EvRejected i]"
      by auto
    with run_inv_advance [OF assms(1) s'(1) e(1) s'(2)] e(2) show ?thesis by simp
  next
    case False
    with reject_spec [OF sinv, where i = i and now = now and why = why]
    have "svc_reject ops now i why sv = (sv, Err (PendingNotFound i))"
      by (auto split: option.splits if_splits)
    with assms show ?thesis by auto
  qed
qed

lemma exec_consume:
  assumes "run_inv view sinv sv req evs" and "svc_exec ops (CallConsume now plan) sv = (sv', ev)"
  shows "run_inv view sinv sv' req (evs @ ev)"
proof -
  have sinv: "sinv (as_store sv)" using assms(1) by (simp add: run_inv_def)
  show ?thesis
  proof (cases "\<exists>e \<in> ran (view (as_store sv)). consumable now plan e")
    case True
    from consume_some [OF sinv True] obtain s' e where
      "op_consume_approved ops now plan (as_store sv) = (s', Ok (Some (e\<lparr>pe_status := Consumed\<rparr>)))"
      and s': "sinv s'" "view s' = (view (as_store sv))(pe_id e \<mapsto> e\<lparr>pe_status := Consumed\<rparr>)"
      and e: "view (as_store sv) (pe_id e) = Some e" "consumable now plan e"
      by blast
    with assms(2) have "sv' = sv\<lparr>as_store := s'\<rparr>" "ev = [EvConsumed (pe_id e)]"
      by (auto simp: svc_consume_approved_def)
    with run_inv_advance [OF assms(1) s'(1) e(1) s'(2)] e(2) show ?thesis
      by (simp add: consumable_def)
  next
    case False
    then obtain s' where
      "op_consume_approved ops now plan (as_store sv) = (s', Ok None)" "sinv s'"
      "view s' = view (as_store sv)"
      using consume_none [OF sinv] by blast
    with assms show ?thesis
      by (auto simp: svc_consume_approved_def intro!: run_inv_shrink [OF assms(1)])
  qed
qed

lemma exec_purge:
  assumes "run_inv view sinv sv req evs" and "svc_exec ops (CallPurge now) sv = (sv', ev)"
  shows "run_inv view sinv sv' req (evs @ ev)"
proof -
  have sinv: "sinv (as_store sv)" using assms(1) by (simp add: run_inv_def)
  obtain s' n where "op_purge_terminal_and_expired ops now (as_store sv) = (s', Ok n)" "sinv s'"
    and "view s' = (\<lambda>i. opt_filter (\<lambda>e. \<not> purged now e) (view (as_store sv) i))"
    using purge_ok [OF sinv] by blast
  moreover then have "view s' i = None \<or> view s' i = view (as_store sv) i" for i
    by (cases "view (as_store sv) i") auto
  ultimately have "run_inv view sinv (sv\<lparr>as_store := s'\<rparr>) req evs"
    by (intro run_inv_shrink [OF assms(1)]) auto
  with assms(2) \<open>op_purge_terminal_and_expired ops now (as_store sv) = (s', Ok n)\<close> show ?thesis
    by (auto simp: svc_purge_terminal_and_expired_def)
qed

lemma exec_keeps_run_inv:
  assumes "run_inv view sinv sv req evs" and "set (requested_ids [c]) \<inter> req = {}"
    and "svc_exec ops c sv = (sv', ev)"
  shows "run_inv view sinv sv' (req \<union> set (requested_ids [c])) (evs @ ev)"
proof (cases c)
  case (CallRequest a b c' d)
  with assms exec_request show ?thesis by auto
next
  case (CallSetTtl ttl)
  with assms have "sv' = sv\<lparr>as_ttl_ms := ttl\<rparr>" "ev = []" by (auto simp: set_ttl_ms_def)
  with assms(1) CallSetTtl show ?thesis by (simp add: run_inv_def)
qed (use assms exec_approve exec_reject exec_consume exec_purge in auto)

lemma run_keeps_run_inv:
  assumes "run_inv view sinv sv req evs" and "set (requested_ids cs) \<inter> req = {}"
    and "distinct (requested_ids cs)" and "svc_run ops cs sv = (sv', ev)"
  shows "run_inv view sinv sv' (req \<union> set (requested_ids cs)) (evs @ ev)"
  using assms
proof (induction cs arbitrary: sv sv' req evs ev)
  case (Cons c cs)
  obtain sv1 ev1 where 1: "svc_exec ops c sv = (sv1, ev1)" by fastforce
  obtain sv2 ev2 where 2: "svc_run ops cs sv1 = (sv2, ev2)" by fastforce
  have ids: "requested_ids (c # cs) = requested_ids [c] @ requested_ids cs"
    by (cases c) simp_all
  from Cons.prems 1 have "run_inv view sinv sv1 (req \<union> set (requested_ids [c])) (evs @ ev1)"
    by (intro exec_keeps_run_inv) (auto simp: ids)
  from Cons.IH [OF this _ _ 2] Cons.prems
  have "run_inv view sinv sv2 (req \<union> set (requested_ids [c]) \<union> set (requested_ids cs))
          ((evs @ ev1) @ ev2)"
    by (auto simp: ids)
  with Cons.prems 1 2 show ?case by (simp add: ids Un_assoc)
qed simp

lemma run_life_cycle:
  assumes "sinv s" and "view s = Map.empty" and "distinct (requested_ids cs)"
    and "svc_run ops cs (approval_service_with_ttl s ttl) = (sv, evs)"
  shows "events_of i evs \<in> life_cycles i"
proof -
  have "run_inv view sinv (approval_service_with_ttl s ttl) {} []"
    using assms by (simp add: run_inv_def approval_service_with_ttl_def)
  from run_keeps_run_inv [OF this _ assms(3,4)] show ?thesis
    using run_invD(2) on_course_life_cycle by fastforce
qed

text \<open>An approved, unexpired entry can be used exactly when a call matches its plan.\<close>

lemma consume_result:
  assumes "sinv (as_store sv)" and "svc_consume_approved ops now plan sv = (sv', r)"
  shows "case r of
           Inl _ \<Rightarrow> False
         | Inr None \<Rightarrow> (\<forall>e \<in> ran (view (as_store sv)). \<not> consumable now plan e) \<and>
             view (as_store sv') = view (as_store sv)
         | Inr (Some e') \<Rightarrow>
             (\<exists>e. view (as_store sv) (pe_id e) = Some e \<and> consumable now plan e \<and>
                e' = e\<lparr>pe_status := Consumed\<rparr> \<and>
                view (as_store sv') = (view (as_store sv))(pe_id e \<mapsto> e'))"
proof (cases "\<exists>e \<in> ran (view (as_store sv)). consumable now plan e")
  case True
  from consume_some [OF assms(1) True] assms(2) show ?thesis
    by (fastforce simp: svc_consume_approved_def)
next
  case False
  with consume_none [OF assms(1)] assms(2) show ?thesis
    by (fastforce simp: svc_consume_approved_def)
qed

text \<open>A request that is approved and then called before it expires is served.\<close>

lemma request_approve_consume:
  assumes "sinv (as_store sv)" and "view (as_store sv) i = None"
    and "svc_request_execution ops t0 i t1 plan sv = (sv1, r1)"
    and "svc_approve ops t2 i sv1 = (sv2, r2)"
    and "svc_consume_approved ops t3 plan sv2 = (sv3, r3)"
    and "t2 < wrap_i64 (t0 + as_ttl_ms sv)" and "t3 < wrap_i64 (t0 + as_ttl_ms sv)"
  shows "(\<exists>p. r1 = Ok p) \<and> (\<exists>a. r2 = Ok a \<and> ae_replay_plan a = plan) \<and> (\<exists>e. r3 = Ok (Some e))"
proof -
  let ?e = "\<lparr>pe_id = i, pe_status = Pending, pe_plan = plan, pe_created_at = t1,
             pe_expires_at = Some (wrap_i64 (t0 + as_ttl_ms sv)), pe_rejection_reason = None\<rparr>"
  obtain s1 where
    "op_create_pending ops i t1 plan (Some (wrap_i64 (t0 + as_ttl_ms sv))) (as_store sv) =
       (s1, Ok ?e)"
    and s1: "sinv s1" "view s1 = (view (as_store sv))(i \<mapsto> ?e)"
    using create_ok [OF assms(1,2)] by blast
  with assms(3) have sv1: "sv1 = sv\<lparr>as_store := s1\<rparr>" "r1 = Ok ?e"
    by (auto simp: svc_request_execution_def)
  with approve_spec [of sv1, where i = i and now = t2] assms(4,6) s1 obtain s2 where
    sv2: "sv2 = sv1\<lparr>as_store := s2\<rparr>" "sinv s2"
    "r2 = Ok \<lparr>ae_pending = ?e\<lparr>pe_status := Approved\<rparr>, ae_replay_plan = plan\<rparr>"
    "view s2 = (view s1)(i \<mapsto> ?e\<lparr>pe_status := Approved\<rparr>)"
    by (auto simp: unexpired_def)
  then have "view (as_store sv2) i = Some (?e\<lparr>pe_status := Approved\<rparr>)" by simp
  then have "?e\<lparr>pe_status := Approved\<rparr> \<in> ran (view (as_store sv2))" by (rule ranI)
  moreover have "consumable t3 plan (?e\<lparr>pe_status := Approved\<rparr>)"
    using assms(7) by (simp add: consumable_def unexpired_def approval_matches_plan_def)
  ultimately have "\<exists>e. r3 = Ok (Some e)"
    using consume_result [OF _ assms(5)] sv2(1,2)
    by (auto split: sum.splits option.splits)
  with sv1 sv2 show ?thesis by simp
qed

end

section \<open>The in-memory store meets the contract\<close>

definition entry_view :: "in_memory_store \<Rightarrow> uuid \<rightharpoonup> pending_execution" where
  "entry_view entries i = find (\<lambda>e. pe_id e = i) entries"

definition ids_distinct :: "in_memory_store \<Rightarrow> bool" where
  "ids_distinct entries = distinct (map pe_id entries)"

lemma entry_view_Some: "ids_distinct es \<Longrightarrow> entry_view es i = Some e \<longleftrightarrow> e \<in> set es \<and> pe_id e = i"
  unfolding entry_view_def ids_distinct_def
  using find_cong_Some_iff [of pe_id es i "\<lambda>_. True" e] by simp

lemma entry_view_None: "entry_view es i = None \<longleftrightarrow> i \<notin> pe_id ` set es"
  by (auto simp: entry_view_def find_None_iff)

lemma ran_entry_view: "ids_distinct es \<Longrightarrow> ran (entry_view es) = set es"
  by (auto simp: ran_def entry_view_Some)

lemma find_filtered:
  assumes "ids_distinct es"
  shows "find (\<lambda>e. pe_id e = i \<and> P e) es = opt_filter P (entry_view es i)"
proof (cases "entry_view es i")
  case None
  then have "find (\<lambda>e. pe_id e = i \<and> P e) es = None"
    by (auto simp: entry_view_None find_None_iff)
  with None show ?thesis by simp
next
  case (Some e)
  then have e: "e \<in> set es" "pe_id e = i" by (simp_all add: entry_view_Some assms)
  show ?thesis
  proof (cases "P e")
    case True
    with e Some show ?thesis
      using find_cong_Some_iff [of pe_id es i P e] assms by (simp add: ids_distinct_def)
  next
    case False
    have "x = e" if "x \<in> set es" "pe_id x = i" for x
      using that e assms by (auto simp: ids_distinct_def distinct_map dest: inj_onD)
    with False Some show ?thesis by (auto simp: find_None_iff)
  qed
qed

lemma entry_view_update:
  assumes "ids_distinct es" and "\<And>e. pe_id (f e) = pe_id e"
  shows "ids_distinct (update_first (\<lambda>e. pe_id e = i) f es)"
    and "entry_view (update_first (\<lambda>e. pe_id e = i) f es) =
           (entry_view es)(i := map_option f (entry_view es i))"
proof -
  show "ids_distinct (update_first (\<lambda>e. pe_id e = i) f es)"
    using assms by (simp add: ids_distinct_def map_update_first)
  show "entry_view (update_first (\<lambda>e. pe_id e = i) f es) =
          (entry_view es)(i := map_option f (entry_view es i))"
    unfolding entry_view_def
    by (rule ext, induction es) (simp_all add: assms(2))
qed

lemma entry_view_list_update:
  assumes "ids_distinct es" and "n < length es" and "pe_id e' = pe_id (es ! n)"
  shows "ids_distinct (es[n := e'])"
    and "entry_view (es[n := e']) = (entry_view es)(pe_id e' \<mapsto> e')"
proof -
  have "map pe_id (es[n := e']) = map pe_id es"
    using assms(2,3) by (simp add: map_update list_update_same_conv)
  then show d: "ids_distinct (es[n := e'])" using assms(1) by (simp add: ids_distinct_def)
  show "entry_view (es[n := e']) = (entry_view es)(pe_id e' \<mapsto> e')"
  proof
    fix i
    show "entry_view (es[n := e']) i = ((entry_view es)(pe_id e' \<mapsto> e')) i"
    proof (cases "i = pe_id e'")
      case True
      moreover have "e' \<in> set (es[n := e'])" using assms(2) by (rule set_update_memI)
      ultimately show ?thesis by (simp add: entry_view_Some [OF d])
    next
      case False
      then show ?thesis
        using assms(2,3) unfolding entry_view_def
        by (induction es arbitrary: n) (auto split: nat.splits)
    qed
  qed
qed

lemma entry_view_filter:
  "ids_distinct es \<Longrightarrow> entry_view (filter P es) i = opt_filter P (entry_view es i)"
  using find_filtered [of es i P] by (simp add: entry_view_def find_filter)

lemma ids_distinct_filter: "ids_distinct es \<Longrightarrow> ids_distinct (filter P es)"
  by (simp add: ids_distinct_def distinct_map_filter)

text \<open>What \<open>consume_approved\<close> finds.\<close>

lemma consume_approved_None:
  assumes "\<forall>e \<in> set es. \<not> consumable now plan e"
  shows "consume_approved now plan es = (es, Ok None)"
proof -
  have "filter (\<lambda>(n, e). pe_status e = Approved \<and> unexpired now e \<and>
                         approval_matches_plan (pe_plan e) plan) (enumerate 0 es) = []"
    using assms by (auto simp: filter_empty_conv in_set_enumerate_eq consumable_def)
  then show ?thesis by (simp add: consume_approved_def)
qed

lemma consume_approved_Some:
  assumes "e0 \<in> set es" and "consumable now plan e0"
  obtains n where "n < length es" and "consumable now plan (es ! n)"
    and "\<And>e. e \<in> set es \<Longrightarrow> consumable now plan e \<Longrightarrow> pe_created_at (es ! n) \<le> pe_created_at e"
    and "consume_approved now plan es =
           (es[n := (es ! n)\<lparr>pe_status := Consumed\<rparr>],
            Ok (Some ((es ! n)\<lparr>pe_status := Consumed\<rparr>)))"
proof -
  let ?cs = "filter (\<lambda>(n, e). pe_status e = Approved \<and> unexpired now e \<and>
                         approval_matches_plan (pe_plan e) plan) (enumerate 0 es)"
  have in_cs: "(n, e) \<in> set ?cs \<longleftrightarrow> n < length es \<and> es ! n = e \<and> consumable now plan e" for n e
    by (auto simp: in_set_enumerate_eq consumable_def)
  have in_cs': "\<exists>n. (n, e) \<in> set ?cs" if "e \<in> set es" "consumable now plan e" for e
  proof -
    from that(1) obtain n where "n < length es" "es ! n = e" by (auto simp: in_set_conv_nth)
    with that(2) in_cs [of n e] show ?thesis by blast
  qed
  from assms obtain n0 where "(n0, e0) \<in> set ?cs"
    using in_cs' by blast
  then have "?cs \<noteq> []" by force
  then obtain n e where m: "min_by_key (\<lambda>(n, e). pe_created_at e) ?cs = Some (n, e)"
    using min_by_key_None [of "\<lambda>(n, e). pe_created_at e" ?cs]
    by (cases "min_by_key (\<lambda>(n, e). pe_created_at e) ?cs") auto
  from min_by_key_in [OF m] have n: "n < length es" "es ! n = e" "consumable now plan e"
    unfolding in_cs by auto
  have "pe_created_at (es ! n) \<le> pe_created_at e'" if "e' \<in> set es" "consumable now plan e'" for e'
  proof -
    from that obtain n' where "(n', e') \<in> set ?cs" using in_cs' by blast
    from min_by_key_le [OF m this] n(2) show ?thesis by simp
  qed
  with that [OF n(1)] n m show thesis by (simp add: consume_approved_def Let_def)
qed

lemma purge_keeps:
  "purge_terminal_and_expired now es =
     (filter (\<lambda>e. \<not> purged now e) es, Ok (length (filter (purged now) es)))"
proof -
  have "(\<lambda>e. pe_status e \<noteq> Rejected \<and> pe_status e \<noteq> Consumed \<and>
      \<not> is_some_and (pe_expires_at e) (\<lambda>exp. exp \<le> now)) = (\<lambda>e. \<not> purged now e)"
  proof
    fix e
    show "(pe_status e \<noteq> Rejected \<and> pe_status e \<noteq> Consumed \<and>
        \<not> is_some_and (pe_expires_at e) (\<lambda>exp. exp \<le> now)) = (\<not> purged now e)"
      by (cases "pe_expires_at e") (auto simp: purged_def unexpired_def)
  qed
  then show ?thesis
    using sum_length_filter_compl [of "purged now" es]
    by (simp add: purge_terminal_and_expired_def Let_def)
qed

lemmas in_memory_defs =
  in_memory_ops_def create_pending_def get_pending_def get_execution_def update_status_def
  record_rejection_def list_pending_def Let_def

interpretation im: pending_store in_memory_ops entry_view ids_distinct
proof
  fix s :: in_memory_store and i e
  assume "ids_distinct s" and "entry_view s i = Some e"
  then show "pe_id e = i" by (simp add: entry_view_Some)
next
  fix s :: in_memory_store and i now plan ex
  assume d: "ids_distinct s" and fresh: "entry_view s i = None"
  let ?e = "\<lparr>pe_id = i, pe_status = Pending, pe_plan = plan, pe_created_at = now,
             pe_expires_at = ex, pe_rejection_reason = None\<rparr>"
  have d': "ids_distinct (s @ [?e])"
    using d fresh by (auto simp: ids_distinct_def entry_view_None)
  have "entry_view (s @ [?e]) = (entry_view s)(i \<mapsto> ?e)"
  proof
    fix k
    show "entry_view (s @ [?e]) k = ((entry_view s)(i \<mapsto> ?e)) k"
      using fresh unfolding entry_view_def by (induction s) auto
  qed
  with d' show "\<exists>s'. op_create_pending in_memory_ops i now plan ex s = (s', Ok ?e) \<and>
      ids_distinct s' \<and> entry_view s' = (entry_view s)(i \<mapsto> ?e)"
    by (simp add: in_memory_defs)
next
  fix s :: in_memory_store and now i
  assume "ids_distinct s"
  then show "op_get_pending in_memory_ops now i s =
      Ok (opt_filter (\<lambda>e. pe_status e = Pending \<and> unexpired now e) (entry_view s i))"
    by (simp add: in_memory_defs find_filtered)
next
  fix s :: in_memory_store and i
  show "op_get_execution in_memory_ops i s = Ok (entry_view s i)"
    by (simp add: in_memory_defs entry_view_def)
next
  fix s :: in_memory_store and i st
  assume "ids_distinct s"
  then show "\<exists>s'. op_update_status in_memory_ops i st s =
      (s', Ok (map_option (\<lambda>e. e\<lparr>pe_status := st\<rparr>) (entry_view s i))) \<and> ids_distinct s' \<and>
      entry_view s' = (entry_view s)(i := map_option (\<lambda>e. e\<lparr>pe_status := st\<rparr>) (entry_view s i))"
    by (simp add: in_memory_defs entry_view_update) (simp add: entry_view_def)
next
  fix s :: in_memory_store and i why
  assume "ids_distinct s"
  then show "\<exists>s'. op_record_rejection in_memory_ops i why s =
      (s', Ok (map_option (\<lambda>e. e\<lparr>pe_status := Rejected, pe_rejection_reason := why\<rparr>)
                 (entry_view s i))) \<and> ids_distinct s' \<and>
      entry_view s' = (entry_view s)(i :=
        map_option (\<lambda>e. e\<lparr>pe_status := Rejected, pe_rejection_reason := why\<rparr>) (entry_view s i))"
    by (simp add: in_memory_defs entry_view_update) (simp add: entry_view_def)
next
  fix s :: in_memory_store and now
  assume "ids_distinct s"
  then show "\<exists>es. op_list_pending in_memory_ops now s = Ok es \<and>
      set es = {e \<in> ran (entry_view s). pe_status e = Pending \<and> unexpired now e}"
    by (simp add: in_memory_defs ran_entry_view)
next
  fix s :: in_memory_store and now plan
  assume "ids_distinct s" and "\<forall>e \<in> ran (entry_view s). \<not> consumable now plan e"
  then show "\<exists>s'. op_consume_approved in_memory_ops now plan s = (s', Ok None) \<and>
      ids_distinct s' \<and> entry_view s' = entry_view s"
    by (simp add: in_memory_ops_def consume_approved_None ran_entry_view)
next
  fix s :: in_memory_store and now plan
  assume d: "ids_distinct s" and "\<exists>e \<in> ran (entry_view s). consumable now plan e"
  then obtain e0 where "e0 \<in> set s" "consumable now plan e0" by (auto simp: ran_entry_view)
  then obtain n where n: "n < length s" "consumable now plan (s ! n)"
    "\<And>e. e \<in> set s \<Longrightarrow> consumable now plan e \<Longrightarrow> pe_created_at (s ! n) \<le> pe_created_at e"
    "consume_approved now plan s =
       (s[n := (s ! n)\<lparr>pe_status := Consumed\<rparr>], Ok (Some ((s ! n)\<lparr>pe_status := Consumed\<rparr>)))"
    using consume_approved_Some by metis
  have "entry_view s (pe_id (s ! n)) = Some (s ! n)"
    using n(1) d by (simp add: entry_view_Some)
  with n d entry_view_list_update [OF d n(1), of "(s ! n)\<lparr>pe_status := Consumed\<rparr>"]
  show "\<exists>s' e. op_consume_approved in_memory_ops now plan s =
         (s', Ok (Some (e\<lparr>pe_status := Consumed\<rparr>))) \<and>
       ids_distinct s' \<and> entry_view s (pe_id e) = Some e \<and> consumable now plan e \<and>
       (\<forall>e' \<in> ran (entry_view s). consumable now plan e' \<longrightarrow> pe_created_at e \<le> pe_created_at e') \<and>
       entry_view s' = (entry_view s)(pe_id e \<mapsto> e\<lparr>pe_status := Consumed\<rparr>)"
    by (intro exI [of _ "s[n := (s ! n)\<lparr>pe_status := Consumed\<rparr>]"] exI [of _ "s ! n"])
       (simp add: in_memory_ops_def ran_entry_view)
next
  fix s :: in_memory_store and now
  assume "ids_distinct s"
  then show "\<exists>s' n. op_purge_terminal_and_expired in_memory_ops now s = (s', Ok n) \<and>
      ids_distinct s' \<and> entry_view s' = (\<lambda>i. opt_filter (\<lambda>e. \<not> purged now e) (entry_view s i))"
    by (simp add: in_memory_ops_def purge_keeps ids_distinct_filter entry_view_filter fun_eq_iff)
qed

section \<open>Properties\<close>

definition sample_plan :: execution_plan where
  "sample_plan =
     \<lparr>ep_connection_id = ''conn-a'', ep_actor_id = ''alice'', ep_tool_id = ''request_execution'',
      ep_classification = Write, ep_payload = JObject [(''query'', JString ''update'')]\<rparr>"

definition sample_calls :: "svc_call list" where
  "sample_calls =
     [CallRequest 100 1 100 sample_plan, CallRequest 101 2 101 sample_plan, CallApprove 110 1,
      CallReject 111 2 None, CallConsume 120 sample_plan, CallConsume 121 sample_plan,
      CallApprove 122 2, CallPurge 130]"

text \<open>
  C4. Over any sequence of queue calls on an empty in-memory store, with fresh
  identifiers for the requests, what is observed of one identifier is a prefix of
  requested, approved, consumed, or requested, rejected: an approval is granted
  at most once, only to a request, it authorises at most one call, and a rejected
  request never authorises any.
\<close>

theorem approval_life_cycle:
  assumes "distinct (requested_ids cs)"
    and "svc_run in_memory_ops cs (approval_service_with_ttl [] ttl) = (sv, evs)"
  shows "events_of i evs \<in> life_cycles i"
proof -
  have "ids_distinct []" and "entry_view [] = Map.empty"
    by (simp_all add: ids_distinct_def entry_view_def fun_eq_iff)
  from im.run_life_cycle [OF this assms] show ?thesis .
qed

lemmas approval_eval =
  svc_request_execution_def svc_approve_def svc_reject_def svc_consume_approved_def
  svc_purge_terminal_and_expired_def in_memory_defs consume_approved_def
  purge_terminal_and_expired_def approval_matches_plan_def unexpired_def
  approval_service_with_ttl_def wrap_signed_def normalize_rejection_reason_def

lemma sample_calls_events:
  "snd (svc_run in_memory_ops sample_calls (approval_service_with_ttl [] 1000)) =
     [EvRequested 1, EvRequested 2, EvApproved 1, EvRejected 2, EvConsumed 1]"
  by (simp add: sample_calls_def approval_eval)

theorem approval_life_cycle_witness:
  "events_of 1 (snd (svc_run in_memory_ops sample_calls (approval_service_with_ttl [] 1000))) =
     [EvRequested 1, EvApproved 1, EvConsumed 1] \<and>
   [EvRequested 1, EvApproved 1, EvConsumed 1] \<in> life_cycles 1"
proof -
  have "distinct (requested_ids sample_calls)" by (simp add: sample_calls_def)
  from approval_life_cycle [OF this surjective_pairing, where i = 1 and ttl = 1000] show ?thesis
    by (simp add: sample_calls_events)
qed

text \<open>
  Using an approval on the in-memory store never fails; it returns nothing,
  and changes nothing, when no approved, unexpired entry has the call's actor,
  connection, tool and payload; otherwise it returns the oldest such entry, marked
  consumed, and changes only that entry.
\<close>

lemma consume_approved_outcome:
  assumes "distinct (map pe_id entries)"
  shows "if \<forall>e \<in> set entries. \<not> consumable now plan e
         then consume_approved now plan entries = (entries, Ok None)
         else (\<exists>n < length entries.
                 let e = entries ! n; e' = e\<lparr>pe_status := Consumed\<rparr>
                 in consumable now plan e \<and>
                    (\<forall>x \<in> set entries. consumable now plan x \<longrightarrow> pe_created_at e \<le> pe_created_at x) \<and>
                    consume_approved now plan entries = (entries[n := e'], Ok (Some e')) \<and>
                    (\<forall>i. entry_view (entries[n := e']) i =
                           (if i = pe_id e then Some e' else entry_view entries i)))"
proof (cases "\<forall>e \<in> set entries. \<not> consumable now plan e")
  case True
  then show ?thesis by (simp add: consume_approved_None)
next
  case False
  then obtain e0 where "e0 \<in> set entries" "consumable now plan e0" by blast
  then obtain n where n: "n < length entries" "consumable now plan (entries ! n)"
    "\<And>e. e \<in> set entries \<Longrightarrow> consumable now plan e \<Longrightarrow>
       pe_created_at (entries ! n) \<le> pe_created_at e"
    "consume_approved now plan entries =
       (entries[n := (entries ! n)\<lparr>pe_status := Consumed\<rparr>],
        Ok (Some ((entries ! n)\<lparr>pe_status := Consumed\<rparr>)))"
    by (rule consume_approved_Some) auto
  moreover have "ids_distinct entries" using assms by (simp add: ids_distinct_def)
  from entry_view_list_update(2) [OF this n(1), of "(entries ! n)\<lparr>pe_status := Consumed\<rparr>"]
  have "entry_view (entries[n := (entries ! n)\<lparr>pe_status := Consumed\<rparr>]) i =
      (if i = pe_id (entries ! n) then Some ((entries ! n)\<lparr>pe_status := Consumed\<rparr>)
       else entry_view entries i)" for i
    by simp
  ultimately show ?thesis
    using False by (auto simp: Let_def intro!: exI [of _ n])
qed

definition sample_entry :: "uuid \<Rightarrow> int \<Rightarrow> pending_execution" where
  "sample_entry i created =
     \<lparr>pe_id = i, pe_status = Approved, pe_plan = sample_plan, pe_created_at = created,
      pe_expires_at = None, pe_rejection_reason = None\<rparr>"


text \<open>
  The queue serves what was approved: on any in-memory store, a plan that is
  requested under a fresh identifier, approved and then called, both before the
  time to live has passed, gets an approval for the call, and the approved plan is
  the requested one unchanged.
\<close>

lemma approved_plan_is_served:
  assumes "distinct (map pe_id (as_store sv))" and "i \<notin> pe_id ` set (as_store sv)"
    and "svc_request_execution in_memory_ops t0 i t1 plan sv = (sv1, r1)"
    and "svc_approve in_memory_ops t2 i sv1 = (sv2, r2)"
    and "svc_consume_approved in_memory_ops t3 plan sv2 = (sv3, r3)"
    and "t2 < wrap_i64 (t0 + as_ttl_ms sv)" and "t3 < wrap_i64 (t0 + as_ttl_ms sv)"
  shows "(\<exists>p. r1 = Ok p) \<and> (\<exists>a. r2 = Ok a \<and> ae_replay_plan a = plan) \<and> (\<exists>e. r3 = Ok (Some e))"
  using im.request_approve_consume [OF _ _ assms(3-7)] assms(1,2)
  by (simp add: ids_distinct_def entry_view_None)

definition sample_service :: "in_memory_store approval_service" where
  "sample_service = approval_service_new []"


text \<open>
  C28. A stored rejection reason is absent exactly when the person gave none or
  only white space; otherwise it is not empty, has at most 500 characters and no
  white space at either end, and normalising it again changes nothing.
\<close>

theorem normalize_rejection_reason_spec:
  "(case normalize_rejection_reason why of
      None \<Rightarrow> is_none_or why (\<lambda>r. list_all is_whitespace r)
    | Some t \<Rightarrow> is_some_and why (\<lambda>r. \<not> list_all is_whitespace r) \<and> t \<noteq> [] \<and>
        length t \<le> MAX_REJECTION_REASON_CHARS \<and>
        \<not> is_whitespace (hd t) \<and> \<not> is_whitespace (last t)) \<and>
   normalize_rejection_reason (normalize_rejection_reason why) = normalize_rejection_reason why"
proof (cases "\<exists>r. why = Some r \<and> trim r \<noteq> []")
  case False
  then show ?thesis
    by (cases why) (auto simp: normalize_rejection_reason_def trim_eq_Nil_iff list_all_iff)
next
  case True
  then obtain r where r: "why = Some r" "trim r \<noteq> []" by blast
  let ?u = "take MAX_REJECTION_REASON_CHARS (trim r)"
  have n: "normalize_rejection_reason why = Some (trim_end ?u)"
    using r by (simp add: normalize_rejection_reason_def)
  have hd_r: "\<not> is_whitespace (hd (trim r))"
    using r(2) unfolding trim_def by (metis trim_end_Nil trim_end_hd trim_start_hd)
  have u: "?u \<noteq> []" "hd ?u = hd (trim r)"
    using r(2) by (auto simp: MAX_REJECTION_REASON_CHARS_def)
  with hd_r have ne: "trim_end ?u \<noteq> []"
    by (metis hd_in_set trim_end_Nil_iff)
  have h: "\<not> is_whitespace (hd (trim_end ?u))" using trim_end_hd [OF ne] u hd_r by simp
  have l: "\<not> is_whitespace (last (trim_end ?u))" using ne by (rule trim_end_last)
  have len: "length (trim_end ?u) \<le> MAX_REJECTION_REASON_CHARS"
    using length_trim_end [of ?u] by simp
  have "trim (trim_end ?u) = trim_end ?u"
    using h l by (simp add: trim_def trim_start_id trim_end_id)
  then have "normalize_rejection_reason (Some (trim_end ?u)) = Some (trim_end ?u)"
    using ne len l by (simp add: normalize_rejection_reason_def trim_end_id)
  with n r ne h l len trim_eq_Nil_iff [of r] show ?thesis by (auto simp: list_all_iff)
qed

end
