(* ===== verification/Pending_Sqlite.thy ===== *)
theory Pending_Sqlite
  imports Approval
begin

text \<open>
  \<open>SqlitePendingExecutionStore\<close> of \<open>dbflux_storage\<close>: the same trait over the
  table \<open>app_pending_executions\<close>. The table is the list of its rows and each SQL
  statement of the source is the list operation its text denotes. What belongs to
  other crates (the text form of identifiers and of JSON, the errors SQLite and
  the mutex may report) is the record \<open>pending_ext\<close>. The store is shown to
  simulate the in-memory one step by step, and a model of several processes
  consuming approvals statement by statement shows that the status guard of the
  \<open>UPDATE\<close> gives an approval to one of them only.
\<close>

section \<open>Rows\<close>

fun status_to_str :: "pending_status \<Rightarrow> string" where
  "status_to_str Pending = ''pending''"
| "status_to_str Approved = ''approved''"
| "status_to_str Rejected = ''rejected''"
| "status_to_str Consumed = ''consumed''"

definition status_from_str :: "string \<Rightarrow> (pending_store_error, pending_status) result" where
  "status_from_str s =
     (if s = ''pending'' then Ok Pending
      else if s = ''approved'' then Ok Approved
      else if s = ''rejected'' then Ok Rejected
      else if s = ''consumed'' then Ok Consumed
      else Err (Serialization (''unknown pending status: '' @ s)))"

record pending_row =
  pw_id :: string
  pw_tool_id :: string
  pw_connection_id :: string
  pw_actor_id :: string
  pw_classification :: string
  pw_payload_json :: string
  pw_status :: string
  pw_created_at :: int
  pw_expires_at :: "int option"
  pw_rejection_reason :: "string option"

datatype pending_stmt =
    InsertPending | SelectPendingById | UpdateStatus | SelectById | UpdateRejection
  | SelectPending | SelectApproved | UpdateConsumed | DeleteFinished

record pending_ext =
  px_uuid_to_string :: "uuid \<Rightarrow> string"
  px_uuid_parse :: "string \<Rightarrow> (string, uuid) result"
  px_class_to_json :: "execution_classification \<Rightarrow> (string, string) result"
  px_class_from_json :: "string \<Rightarrow> (string, execution_classification) result"
  px_json_to_string :: "json \<Rightarrow> (string, string) result"
  px_json_from_str :: "string \<Rightarrow> (string, json) result"
  px_lock_error :: "string option"
  px_stmt_error :: "pending_stmt \<Rightarrow> pending_row list \<Rightarrow> string option"

definition row_to_execution ::
  "pending_ext \<Rightarrow> pending_row \<Rightarrow> (pending_store_error, pending_execution) result" where
  "row_to_execution x raw =
     and_then (map_err (\<lambda>e. Serialization (''invalid uuid in store: '' @ e))
                (px_uuid_parse x (pw_id raw))) (\<lambda>i.
     and_then (map_err (\<lambda>e. Serialization (''classification parse error: '' @ e))
                (px_class_from_json x (pw_classification raw))) (\<lambda>classification.
     and_then (map_err (\<lambda>e. Serialization (''payload parse error: '' @ e))
                (px_json_from_str x (pw_payload_json raw))) (\<lambda>payload.
     and_then (status_from_str (pw_status raw)) (\<lambda>status.
     Ok \<lparr>pe_id = i, pe_status = status,
         pe_plan = \<lparr>ep_connection_id = pw_connection_id raw, ep_actor_id = pw_actor_id raw,
                    ep_tool_id = pw_tool_id raw, ep_classification = classification,
                    ep_payload = payload\<rparr>,
         pe_created_at = pw_created_at raw, pe_expires_at = pw_expires_at raw,
         pe_rejection_reason = pw_rejection_reason raw\<rparr>))))"

text \<open>The loop that decodes the rows of a query, stopping at the first error.\<close>

fun rows_to_executions ::
  "pending_ext \<Rightarrow> pending_row list \<Rightarrow> (pending_store_error, pending_execution list) result" where
  "rows_to_executions x [] = Ok []"
| "rows_to_executions x (raw # raws) =
     and_then (row_to_execution x raw) (\<lambda>e.
     and_then (rows_to_executions x raws) (\<lambda>es. Ok (e # es)))"

section \<open>The store\<close>

text \<open>Taking the connection's mutex, and running one statement, which changes nothing when it fails.\<close>

definition with_lock ::
  "pending_ext \<Rightarrow> 't \<Rightarrow> 't \<times> (pending_store_error, 'a) result \<Rightarrow>
   't \<times> (pending_store_error, 'a) result" where
  "with_lock x rows body =
     (case px_lock_error x of Some e \<Rightarrow> (rows, Err (Backend e)) | None \<Rightarrow> body)"

definition exec_stmt ::
  "pending_ext \<Rightarrow> pending_stmt \<Rightarrow> pending_row list \<Rightarrow> pending_row list \<times> 'a \<Rightarrow>
   (pending_row list \<Rightarrow> 'a \<Rightarrow> pending_row list \<times> (pending_store_error, 'b) result) \<Rightarrow>
   pending_row list \<times> (pending_store_error, 'b) result" where
  "exec_stmt x stmt rows effect k =
     (case px_stmt_error x stmt rows of
        Some e \<Rightarrow> (rows, Err (Backend e))
      | None \<Rightarrow> k (fst effect) (snd effect))"

text \<open>\<open>UPDATE ... SET ... WHERE\<close> with the number of rows changed.\<close>

definition sql_update ::
  "(pending_row \<Rightarrow> bool) \<Rightarrow> (pending_row \<Rightarrow> pending_row) \<Rightarrow> pending_row list \<Rightarrow>
   pending_row list \<times> nat" where
  "sql_update p f rows = (map (\<lambda>r. if p r then f r else r) rows, length (filter p rows))"

definition row_unexpired :: "int \<Rightarrow> pending_row \<Rightarrow> bool" where
  "row_unexpired now r \<longleftrightarrow>
     (case pw_expires_at r of None \<Rightarrow> True | Some expires_at \<Rightarrow> expires_at > now)"

definition sq_create_pending ::
  "pending_ext \<Rightarrow> uuid \<Rightarrow> int \<Rightarrow> execution_plan \<Rightarrow> int option \<Rightarrow> pending_row list \<Rightarrow>
   pending_row list \<times> (pending_store_error, pending_execution) result" where
  "sq_create_pending x new_id created_at plan expires_at rows =
     (case px_class_to_json x (ep_classification plan) of
        Inl e \<Rightarrow> (rows, Err (Serialization e))
      | Inr classification_json \<Rightarrow>
     (case px_json_to_string x (ep_payload plan) of
        Inl e \<Rightarrow> (rows, Err (Serialization e))
      | Inr payload_json \<Rightarrow>
     with_lock x rows
       (if \<exists>r \<in> set rows. pw_id r = px_uuid_to_string x new_id
        then (rows, Err (Backend ''UNIQUE constraint failed: app_pending_executions.id''))
        else exec_stmt x InsertPending rows
          (rows @ [\<lparr>pw_id = px_uuid_to_string x new_id, pw_tool_id = ep_tool_id plan,
                    pw_connection_id = ep_connection_id plan, pw_actor_id = ep_actor_id plan,
                    pw_classification = classification_json, pw_payload_json = payload_json,
                    pw_status = ''pending'', pw_created_at = created_at,
                    pw_expires_at = expires_at, pw_rejection_reason = None\<rparr>], ())
          (\<lambda>rows' _. (rows',
             Ok \<lparr>pe_id = new_id, pe_status = Pending, pe_plan = plan, pe_created_at = created_at,
                 pe_expires_at = expires_at, pe_rejection_reason = None\<rparr>)))))"

text \<open>\<open>query_row\<close> with the match on its result: the first row, decoded, or no row.\<close>

definition first_execution ::
  "pending_ext \<Rightarrow> pending_row list \<Rightarrow> (pending_store_error, pending_execution option) result" where
  "first_execution x result =
     (case result of [] \<Rightarrow> Ok None | r # _ \<Rightarrow> and_then (row_to_execution x r) (\<lambda>e. Ok (Some e)))"

definition sq_get_pending ::
  "pending_ext \<Rightarrow> int \<Rightarrow> uuid \<Rightarrow> pending_row list \<Rightarrow>
   (pending_store_error, pending_execution option) result" where
  "sq_get_pending x now i rows =
     snd (with_lock x rows
       (exec_stmt x SelectPendingById rows
         (rows, filter (\<lambda>r. pw_id r = px_uuid_to_string x i \<and> pw_status r = ''pending'' \<and>
                            row_unexpired now r) rows)
         (\<lambda>rows' result. (rows', first_execution x result))))"

definition sq_get_execution ::
  "pending_ext \<Rightarrow> uuid \<Rightarrow> pending_row list \<Rightarrow>
   (pending_store_error, pending_execution option) result" where
  "sq_get_execution x i rows =
     snd (with_lock x rows
       (exec_stmt x SelectById rows
         (rows, filter (\<lambda>r. pw_id r = px_uuid_to_string x i) rows)
         (\<lambda>rows' result. (rows', first_execution x result))))"

definition sq_update_status ::
  "pending_ext \<Rightarrow> uuid \<Rightarrow> pending_status \<Rightarrow> pending_row list \<Rightarrow>
   pending_row list \<times> (pending_store_error, pending_execution option) result" where
  "sq_update_status x i status rows =
     (let status_str = status_to_str status
      in with_lock x rows
        (exec_stmt x UpdateStatus rows
          (sql_update (\<lambda>r. pw_id r = px_uuid_to_string x i) (\<lambda>r. r\<lparr>pw_status := status_str\<rparr>) rows)
          (\<lambda>rows' rows_changed.
             if rows_changed = 0 then (rows', Ok None)
             else exec_stmt x SelectById rows'
               (rows', filter (\<lambda>r. pw_id r = px_uuid_to_string x i) rows')
               (\<lambda>rows'' result.
                  case result of
                    [] \<Rightarrow> (rows'', Err (Backend ''Query returned no rows''))
                  | r # _ \<Rightarrow> (rows'', and_then (row_to_execution x r) (\<lambda>e. Ok (Some e)))))))"

definition sq_record_rejection ::
  "pending_ext \<Rightarrow> uuid \<Rightarrow> string option \<Rightarrow> pending_row list \<Rightarrow>
   pending_row list \<times> (pending_store_error, pending_execution option) result" where
  "sq_record_rejection x i why rows =
     with_lock x rows
       (exec_stmt x UpdateRejection rows
         (sql_update (\<lambda>r. pw_id r = px_uuid_to_string x i)
            (\<lambda>r. r\<lparr>pw_status := ''rejected'', pw_rejection_reason := why\<rparr>) rows)
         (\<lambda>rows' rows_changed.
            if rows_changed = 0 then (rows', Ok None)
            else (rows', sq_get_execution x i rows')))"

definition sq_list_pending ::
  "pending_ext \<Rightarrow> int \<Rightarrow> pending_row list \<Rightarrow>
   (pending_store_error, pending_execution list) result" where
  "sq_list_pending x now rows =
     snd (with_lock x rows
       (exec_stmt x SelectPending rows
         (rows, filter (\<lambda>r. pw_status r = ''pending'' \<and> row_unexpired now r) rows)
         (\<lambda>rows' result. (rows', rows_to_executions x result))))"

text \<open>
  \<open>consume_approved\<close> reads the candidates, oldest first, then claims the first
  that matches and is still approved.
\<close>

definition select_approved :: "int \<Rightarrow> execution_plan \<Rightarrow> pending_row list \<Rightarrow> pending_row list" where
  "select_approved now plan rows =
     sort_key pw_created_at
       (filter (\<lambda>r. pw_status r = ''approved'' \<and> pw_actor_id r = ep_actor_id plan \<and>
                    pw_connection_id r = ep_connection_id plan \<and>
                    pw_tool_id r = ep_tool_id plan \<and> row_unexpired now r) rows)"

definition claim_row :: "pending_ext \<Rightarrow> uuid \<Rightarrow> pending_row list \<Rightarrow> pending_row list \<times> nat" where
  "claim_row x i rows =
     sql_update (\<lambda>r. pw_id r = px_uuid_to_string x i \<and> pw_status r = ''approved'')
       (\<lambda>r. r\<lparr>pw_status := ''consumed''\<rparr>) rows"

fun claim_candidates ::
  "pending_ext \<Rightarrow> execution_plan \<Rightarrow> pending_execution list \<Rightarrow> pending_row list \<Rightarrow>
   pending_row list \<times> (pending_store_error, pending_execution option) result" where
  "claim_candidates x plan [] rows = (rows, Ok None)"
| "claim_candidates x plan (candidate # candidates) rows =
     (if \<not> approval_matches_plan (pe_plan candidate) plan
      then claim_candidates x plan candidates rows
      else exec_stmt x UpdateConsumed rows (claim_row x (pe_id candidate) rows)
        (\<lambda>rows' rows_changed.
           if rows_changed = 1 then (rows', Ok (Some (candidate\<lparr>pe_status := Consumed\<rparr>)))
           else claim_candidates x plan candidates rows'))"

definition sq_consume_approved ::
  "pending_ext \<Rightarrow> int \<Rightarrow> execution_plan \<Rightarrow> pending_row list \<Rightarrow>
   pending_row list \<times> (pending_store_error, pending_execution option) result" where
  "sq_consume_approved x now plan rows =
     with_lock x rows
       (exec_stmt x SelectApproved rows (rows, select_approved now plan rows)
         (\<lambda>rows' result.
            case rows_to_executions x result of
              Inl e \<Rightarrow> (rows', Err e)
            | Inr candidates \<Rightarrow> claim_candidates x plan candidates rows'))"

definition sq_purge_terminal_and_expired ::
  "pending_ext \<Rightarrow> int \<Rightarrow> pending_row list \<Rightarrow>
   pending_row list \<times> (pending_store_error, nat) result" where
  "sq_purge_terminal_and_expired x now_ms rows =
     (let deleted = (\<lambda>r. pw_status r \<in> {''rejected'', ''consumed''} \<or>
                         is_some_and (pw_expires_at r) (\<lambda>expires_at. expires_at \<le> now_ms))
      in with_lock x rows
        (exec_stmt x DeleteFinished rows
          (filter (\<lambda>r. \<not> deleted r) rows, length (filter deleted rows))
          (\<lambda>rows' rows_deleted. (rows', Ok rows_deleted))))"

definition sqlite_ops :: "pending_ext \<Rightarrow> pending_row list pending_store_ops" where
  "sqlite_ops x =
     \<lparr>op_create_pending = sq_create_pending x,
      op_get_pending = sq_get_pending x,
      op_get_execution = sq_get_execution x,
      op_update_status = sq_update_status x,
      op_record_rejection = sq_record_rejection x,
      op_list_pending = sq_list_pending x,
      op_consume_approved = sq_consume_approved x,
      op_purge_terminal_and_expired = sq_purge_terminal_and_expired x\<rparr>"

section \<open>Simulation of the in-memory store\<close>

text \<open>The hypotheses on the other crates: the text forms can be read back and no statement fails.\<close>

definition uuid_codec :: "pending_ext \<Rightarrow> bool" where
  "uuid_codec x \<longleftrightarrow> (\<forall>u. px_uuid_parse x (px_uuid_to_string x u) = Ok u)"

definition storable :: "pending_ext \<Rightarrow> execution_plan \<Rightarrow> bool" where
  "storable x plan \<longleftrightarrow>
     (\<exists>c p. px_class_to_json x (ep_classification plan) = Ok c \<and>
            px_class_from_json x c = Ok (ep_classification plan) \<and>
            px_json_to_string x (ep_payload plan) = Ok p \<and>
            px_json_from_str x p = Ok (ep_payload plan))"

definition fault_free :: "pending_ext \<Rightarrow> bool" where
  "fault_free x \<longleftrightarrow> px_lock_error x = None \<and> (\<forall>stmt rows. px_stmt_error x stmt rows = None)"

definition row_of :: "pending_ext \<Rightarrow> pending_execution \<Rightarrow> pending_row" where
  "row_of x e =
     \<lparr>pw_id = px_uuid_to_string x (pe_id e), pw_tool_id = ep_tool_id (pe_plan e),
      pw_connection_id = ep_connection_id (pe_plan e), pw_actor_id = ep_actor_id (pe_plan e),
      pw_classification = projr (px_class_to_json x (ep_classification (pe_plan e))),
      pw_payload_json = projr (px_json_to_string x (ep_payload (pe_plan e))),
      pw_status = status_to_str (pe_status e), pw_created_at = pe_created_at e,
      pw_expires_at = pe_expires_at e, pw_rejection_reason = pe_rejection_reason e\<rparr>"

definition all_storable :: "pending_ext \<Rightarrow> pending_execution list \<Rightarrow> bool" where
  "all_storable x es \<longleftrightarrow> (\<forall>e \<in> set es. storable x (pe_plan e))"

lemma status_to_str_inject [simp]: "status_to_str a = status_to_str b \<longleftrightarrow> a = b"
  by (cases a; cases b) simp_all

lemma status_from_to_str [simp]: "status_from_str (status_to_str st) = Ok st"
  by (cases st) (simp_all add: status_from_str_def)

lemma status_to_str_eq [simp]:
  "status_to_str st = ''pending'' \<longleftrightarrow> st = Pending"
  "status_to_str st = ''approved'' \<longleftrightarrow> st = Approved"
  "status_to_str st = ''rejected'' \<longleftrightarrow> st = Rejected"
  "status_to_str st = ''consumed'' \<longleftrightarrow> st = Consumed"
  by (cases st; simp)+

lemma uuid_to_string_inject:
  assumes "uuid_codec x"
  shows "px_uuid_to_string x u = px_uuid_to_string x v \<longleftrightarrow> u = v"
  using assms unfolding uuid_codec_def by (metis sum.inject(2))

lemma row_of_simps [simp]:
  "pw_id (row_of x e) = px_uuid_to_string x (pe_id e)"
  "pw_tool_id (row_of x e) = ep_tool_id (pe_plan e)"
  "pw_connection_id (row_of x e) = ep_connection_id (pe_plan e)"
  "pw_actor_id (row_of x e) = ep_actor_id (pe_plan e)"
  "pw_status (row_of x e) = status_to_str (pe_status e)"
  "pw_created_at (row_of x e) = pe_created_at e"
  "pw_expires_at (row_of x e) = pe_expires_at e"
  by (simp_all add: row_of_def)

lemma row_unexpired_row_of [simp]: "row_unexpired now (row_of x e) = unexpired now e"
  by (simp add: row_unexpired_def unexpired_def is_none_or_def split: option.splits)

lemma row_of_update:
  "(row_of x e)\<lparr>pw_status := status_to_str st\<rparr> = row_of x (e\<lparr>pe_status := st\<rparr>)"
  "(row_of x e)\<lparr>pw_status := ''rejected'', pw_rejection_reason := why\<rparr> =
     row_of x (e\<lparr>pe_status := Rejected, pe_rejection_reason := why\<rparr>)"
  "(row_of x e)\<lparr>pw_status := ''consumed''\<rparr> = row_of x (e\<lparr>pe_status := Consumed\<rparr>)"
  by (simp_all add: row_of_def)

lemma row_to_execution_row_of:
  assumes "uuid_codec x" and "storable x (pe_plan e)"
  shows "row_to_execution x (row_of x e) = Ok e"
  using assms by (auto simp: row_to_execution_def row_of_def uuid_codec_def storable_def)

lemma rows_to_executions_row_of:
  assumes "uuid_codec x" and "all_storable x es"
  shows "rows_to_executions x (map (row_of x) es) = Ok es"
  using assms by (induction es) (simp_all add: row_to_execution_row_of all_storable_def)

lemma first_execution_row_of:
  assumes "uuid_codec x" and "all_storable x es"
  shows "first_execution x (filter P (map (row_of x) es)) = Ok (find (P \<circ> row_of x) es)"
proof (cases "filter (P \<circ> row_of x) es")
  case Nil
  then show ?thesis by (simp add: first_execution_def filter_map find_hd_filter)
next
  case (Cons e es')
  then have "e \<in> set (filter (P \<circ> row_of x) es)" by simp
  then have "e \<in> set es" by simp
  with assms Cons show ?thesis
    by (simp add: first_execution_def filter_map find_hd_filter all_storable_def
        row_to_execution_row_of)
qed

lemma fault_free_simps:
  assumes "fault_free x"
  shows "with_lock x rows body = body"
    and "exec_stmt x stmt rows effect k = k (fst effect) (snd effect)"
  using assms by (simp_all add: fault_free_def with_lock_def exec_stmt_def)

text \<open>An update by identifier is the in-place update of the first such entry.\<close>

lemma sql_update_row_of:
  assumes "uuid_codec x" and "ids_distinct es" and "\<And>e. f (row_of x e) = row_of x (g e)"
  shows "sql_update (\<lambda>r. pw_id r = px_uuid_to_string x i) f (map (row_of x) es) =
           (map (row_of x) (update_first (\<lambda>e. pe_id e = i) g es),
            if i \<in> pe_id ` set es then 1 else 0)"
proof -
  have "length (filter (\<lambda>e. pe_id e = i) es) = (if i \<in> pe_id ` set es then 1 else 0)"
    using assms(2) unfolding ids_distinct_def
    by (induction es) (auto simp: filter_empty_conv)
  then show ?thesis
    using assms
    by (simp add: sql_update_def ids_distinct_def update_first_key uuid_to_string_inject
        filter_map comp_def)
qed

lemma all_storable_update:
  "all_storable x es \<Longrightarrow> (\<And>e. pe_plan (g e) = pe_plan e) \<Longrightarrow> all_storable x (update_first p g es)"
  unfolding all_storable_def by (induction es) auto

lemma find_update_first:
  "(\<And>e. pe_id (g e) = pe_id e) \<Longrightarrow>
   find (\<lambda>e. pe_id e = i) (update_first (\<lambda>e. pe_id e = i) g es) =
     map_option g (find (\<lambda>e. pe_id e = i) es)"
  by (induction es) auto

text \<open>The claiming loop takes the first candidate that matches.\<close>

definition consume_id :: "uuid \<Rightarrow> pending_execution list \<Rightarrow> pending_execution list" where
  "consume_id i es = map (\<lambda>e. if pe_id e = i then e\<lparr>pe_status := Consumed\<rparr> else e) es"

lemma claim_row_row_of:
  assumes "uuid_codec x" and "ids_distinct es" and "c \<in> set es" and "pe_status c = Approved"
  shows "claim_row x (pe_id c) (map (row_of x) es) = (map (row_of x) (consume_id (pe_id c) es), 1)"
proof -
  have same: "e = c" if "e \<in> set es" "pe_id e = pe_id c" for e
    using that assms(2,3) by (auto simp: ids_distinct_def distinct_map dest: inj_onD)
  have "map (\<lambda>e. if pe_id e = pe_id c \<and> pe_status e = Approved
                  then row_of x (e\<lparr>pe_status := Consumed\<rparr>) else row_of x e) es =
        map (\<lambda>e. row_of x (if pe_id e = pe_id c then e\<lparr>pe_status := Consumed\<rparr> else e)) es"
    using same assms(4) by (intro map_cong) auto
  moreover have "filter (\<lambda>e. pe_id e = pe_id c \<and> pe_status e = Approved) es = [c]"
  proof -
    have "filter (\<lambda>e. pe_id e = pe_id c \<and> pe_status e = Approved) es = filter (\<lambda>e. e = c) es"
      using same assms(4) by (intro filter_cong) auto
    moreover have "distinct es" using assms(2) by (simp add: ids_distinct_def distinct_map)
    ultimately show ?thesis using assms(3) by (simp add: filter_eq_distinct)
  qed
  ultimately show ?thesis
    using assms(1)
    by (simp add: claim_row_def sql_update_def filter_map comp_def uuid_to_string_inject
        row_of_update consume_id_def cong: if_cong)
qed

lemma claim_candidates_row_of:
  assumes "uuid_codec x" and "fault_free x" and "ids_distinct es"
    and "\<forall>c \<in> set cs. c \<in> set es \<and> pe_status c = Approved"
  shows "claim_candidates x plan cs (map (row_of x) es) =
           (case find (\<lambda>c. approval_matches_plan (pe_plan c) plan) cs of
              None \<Rightarrow> (map (row_of x) es, Ok None)
            | Some c \<Rightarrow> (map (row_of x) (consume_id (pe_id c) es),
                         Ok (Some (c\<lparr>pe_status := Consumed\<rparr>))))"
  using assms(4)
  by (induction cs) (simp_all add: fault_free_simps [OF assms(2)] claim_row_row_of assms(1,3))

text \<open>The in-memory search, in the same terms.\<close>

lemma consume_approved_eq:
  assumes "ids_distinct es"
  shows "consume_approved now plan es =
           (case min_by_key pe_created_at (filter (consumable now plan) es) of
              None \<Rightarrow> (es, Ok None)
            | Some c \<Rightarrow> (consume_id (pe_id c) es, Ok (Some (c\<lparr>pe_status := Consumed\<rparr>))))"
proof -
  let ?ps = "filter (\<lambda>(n, e). pe_status e = Approved \<and> unexpired now e \<and>
                       approval_matches_plan (pe_plan e) plan) (enumerate 0 es)"
  have "map snd ?ps = filter (consumable now plan) es"
  proof -
    have "map snd (filter (Q \<circ> snd) ps) = filter Q (map snd ps)"
      for Q :: "pending_execution \<Rightarrow> bool" and ps :: "(nat \<times> pending_execution) list"
      by (simp add: filter_map)
    moreover have "?ps = filter (consumable now plan \<circ> snd) (enumerate 0 es)"
      by (intro filter_cong) (auto simp: consumable_def)
    ultimately show ?thesis by simp
  qed
  then have min: "min_by_key pe_created_at (filter (consumable now plan) es) =
      map_option snd (min_by_key (\<lambda>(n, e). pe_created_at e) ?ps)"
  proof -
    have "pe_created_at \<circ> snd = (\<lambda>(n :: nat, e :: pending_execution). pe_created_at e)" by auto
    with \<open>map snd ?ps = filter (consumable now plan) es\<close> show ?thesis
      using min_by_key_map [of pe_created_at snd ?ps] by simp
  qed
  have upd: "es[n := e\<lparr>pe_status := Consumed\<rparr>] = consume_id (pe_id e) es"
    if "min_by_key (\<lambda>(n, e). pe_created_at e) ?ps = Some (n, e)" for n e
  proof -
    from min_by_key_in [OF that] have n: "n < length es" "es ! n = e"
      by (auto simp: in_set_enumerate_eq)
    have "pe_id (es ! k) \<noteq> pe_id (es ! n)" if "k < length es" "k \<noteq> n" for k
      using that n(1) assms by (simp add: ids_distinct_def distinct_conv_nth)
    with n show ?thesis
      unfolding consume_id_def by (intro nth_equalityI) (auto simp: nth_list_update)
  qed
  show ?thesis
    using upd min by (auto simp: consume_approved_def Let_def split: option.splits)
qed

lemma sq_consume_row_of:
  assumes "uuid_codec x" and "fault_free x" and "ids_distinct es" and "all_storable x es"
  shows "sq_consume_approved x now plan (map (row_of x) es) =
           map_prod (map (row_of x)) id (consume_approved now plan es)"
proof -
  let ?Q = "\<lambda>e. pe_status e = Approved \<and> ep_actor_id (pe_plan e) = ep_actor_id plan \<and>
      ep_connection_id (pe_plan e) = ep_connection_id plan \<and>
      ep_tool_id (pe_plan e) = ep_tool_id plan \<and> unexpired now e"
  let ?cs = "sort_key pe_created_at (filter ?Q es)"
  have sel: "select_approved now plan (map (row_of x) es) = map (row_of x) ?cs"
    by (simp add: select_approved_def filter_map comp_def sort_key_map)
  have "filter (\<lambda>c. approval_matches_plan (pe_plan c) plan) ?cs =
      sort_key pe_created_at (filter (consumable now plan) es)"
    by (simp add: filter_sort) (rule arg_cong [where f = "sort_key pe_created_at"],
        auto simp: consumable_def approval_matches_plan_def intro!: filter_cong)
  then have "find (\<lambda>c. approval_matches_plan (pe_plan c) plan) ?cs =
      min_by_key pe_created_at (filter (consumable now plan) es)"
    by (simp add: find_hd_filter min_by_key_sort)
  moreover have "all_storable x ?cs"
    using assms(4) by (auto simp: all_storable_def)
  ultimately show ?thesis
    using claim_candidates_row_of [OF assms(1-3), of ?cs plan]
    by (simp add: sq_consume_approved_def fault_free_simps [OF assms(2)] sel
        rows_to_executions_row_of [OF assms(1)] consume_approved_eq [OF assms(3)]
        split: option.splits)
qed

lemma sq_purge_row_of:
  assumes "fault_free x"
  shows "sq_purge_terminal_and_expired x now (map (row_of x) es) =
           map_prod (map (row_of x)) id (purge_terminal_and_expired now es)"
proof -
  have "(pe_status e = Rejected \<or> pe_status e = Consumed \<or>
      is_some_and (pe_expires_at e) (\<lambda>t. t \<le> now)) = purged now e" for e
    by (cases "pe_expires_at e") (auto simp: purged_def unexpired_def)
  then show ?thesis
    by (simp add: sq_purge_terminal_and_expired_def fault_free_simps [OF assms] purge_keeps
        filter_map comp_def disj_assoc)
qed

text \<open>
  A second implementation of the trait that commutes with the first under an
  encoding of its states: the service cannot tell them apart. \<open>good\<close> is what the
  encoding needs of a state and \<open>okp\<close> of a requested plan.
\<close>

definition enc_service :: "('s \<Rightarrow> 't) \<Rightarrow> 's approval_service \<Rightarrow> 't approval_service" where
  "enc_service enc sv = \<lparr>as_store = enc (as_store sv), as_ttl_ms = as_ttl_ms sv\<rparr>"

fun call_ok :: "(execution_plan \<Rightarrow> bool) \<Rightarrow> svc_call \<Rightarrow> bool" where
  "call_ok okp (CallRequest _ _ _ plan) = okp plan"
| "call_ok okp _ = True"

lemma enc_service_simps [simp]:
  "as_store (enc_service enc sv) = enc (as_store sv)"
  "as_ttl_ms (enc_service enc sv) = as_ttl_ms sv"
  "(enc_service enc sv)\<lparr>as_store := enc s\<rparr> = enc_service enc (sv\<lparr>as_store := s\<rparr>)"
  "(enc_service enc sv)\<lparr>as_ttl_ms := ttl\<rparr> = enc_service enc (sv\<lparr>as_ttl_ms := ttl\<rparr>)"
  by (simp_all add: enc_service_def)

locale store_simulation = pending_store ops view sinv
  for ops :: "'s pending_store_ops" and view and sinv +
  fixes ops2 :: "'t pending_store_ops"
    and enc :: "'s \<Rightarrow> 't"
    and good :: "'s \<Rightarrow> bool"
    and okp :: "execution_plan \<Rightarrow> bool"
  assumes sim_create:
      "sinv s \<Longrightarrow> good s \<Longrightarrow> okp plan \<Longrightarrow> view s i = None \<Longrightarrow>
       op_create_pending ops2 i now plan ex (enc s) =
         map_prod enc id (op_create_pending ops i now plan ex s) \<and>
       good (fst (op_create_pending ops i now plan ex s))"
    and sim_get_pending:
      "sinv s \<Longrightarrow> good s \<Longrightarrow> op_get_pending ops2 now i (enc s) = op_get_pending ops now i s"
    and sim_get_execution:
      "sinv s \<Longrightarrow> good s \<Longrightarrow> op_get_execution ops2 i (enc s) = op_get_execution ops i s"
    and sim_update_status:
      "sinv s \<Longrightarrow> good s \<Longrightarrow>
       op_update_status ops2 i st (enc s) = map_prod enc id (op_update_status ops i st s) \<and>
       good (fst (op_update_status ops i st s))"
    and sim_record_rejection:
      "sinv s \<Longrightarrow> good s \<Longrightarrow>
       op_record_rejection ops2 i why (enc s) = map_prod enc id (op_record_rejection ops i why s) \<and>
       good (fst (op_record_rejection ops i why s))"
    and sim_list_pending:
      "sinv s \<Longrightarrow> good s \<Longrightarrow> op_list_pending ops2 now (enc s) = op_list_pending ops now s"
    and sim_consume:
      "sinv s \<Longrightarrow> good s \<Longrightarrow>
       op_consume_approved ops2 now plan (enc s) =
         map_prod enc id (op_consume_approved ops now plan s) \<and>
       good (fst (op_consume_approved ops now plan s))"
    and sim_purge:
      "sinv s \<Longrightarrow> good s \<Longrightarrow>
       op_purge_terminal_and_expired ops2 now (enc s) =
         map_prod enc id (op_purge_terminal_and_expired ops now s) \<and>
       good (fst (op_purge_terminal_and_expired ops now s))"
begin

lemma sim_approve:
  assumes "sinv (as_store sv)" and "good (as_store sv)"
  shows "svc_approve ops2 now i (enc_service enc sv) =
           map_prod (enc_service enc) id (svc_approve ops now i sv) \<and>
         good (as_store (fst (svc_approve ops now i sv)))"
  using sim_get_pending [OF assms, of now i] sim_update_status [OF assms, of i Approved] assms(2)
  unfolding svc_approve_def
  by (cases "op_update_status ops i Approved (as_store sv)")
     (auto simp: Let_def split: sum.splits option.splits)

lemma sim_reject:
  assumes "sinv (as_store sv)" and "good (as_store sv)"
  shows "svc_reject ops2 now i why (enc_service enc sv) =
           map_prod (enc_service enc) id (svc_reject ops now i why sv) \<and>
         good (as_store (fst (svc_reject ops now i why sv)))"
  using sim_get_pending [OF assms, of now i] assms(2)
    sim_record_rejection [OF assms, of i "normalize_rejection_reason why"]
  unfolding svc_reject_def
  by (cases "op_record_rejection ops i (normalize_rejection_reason why) (as_store sv)")
     (auto simp: Let_def split: sum.splits option.splits)

lemma sim_exec:
  assumes "run_inv view sinv sv req evs" and "good (as_store sv)" and "call_ok okp c"
    and "set (requested_ids [c]) \<inter> req = {}"
  shows "svc_exec ops2 c (enc_service enc sv) = map_prod (enc_service enc) id (svc_exec ops c sv) \<and>
         good (as_store (fst (svc_exec ops c sv)))"
proof -
  have inv: "sinv (as_store sv)" using assms(1) by (rule run_invD)
  show ?thesis
  proof (cases c)
    case (CallRequest t0 i t1 plan)
    with assms(4) have "view (as_store sv) i = None"
      using run_invD(2) [OF assms(1), of i] by (cases "view (as_store sv) i") simp_all
    with CallRequest assms(2,3) show ?thesis
      using sim_create [OF inv assms(2), of plan i t1 "Some (wrap_i64 (t0 + as_ttl_ms sv))"]
      by (cases "op_create_pending ops i t1 plan (Some (wrap_i64 (t0 + as_ttl_ms sv))) (as_store sv)")
         (auto simp: svc_request_execution_def)
  next
    case (CallApprove now i)
    with sim_approve [OF inv assms(2), of now i] show ?thesis
      by (cases "svc_approve ops now i sv") auto
  next
    case (CallReject now i why)
    with sim_reject [OF inv assms(2), of now i why] show ?thesis
      by (cases "svc_reject ops now i why sv") auto
  next
    case (CallConsume now plan)
    with sim_consume [OF inv assms(2), of now plan] show ?thesis
      by (cases "op_consume_approved ops now plan (as_store sv)")
         (auto simp: svc_consume_approved_def)
  next
    case (CallPurge now)
    with sim_purge [OF inv assms(2), of now] show ?thesis
      by (cases "op_purge_terminal_and_expired ops now (as_store sv)")
         (auto simp: svc_purge_terminal_and_expired_def)
  next
    case (CallSetTtl ttl)
    with assms(2) show ?thesis by (simp add: set_ttl_ms_def)
  qed
qed

lemma sim_run:
  assumes "run_inv view sinv sv req evs" and "good (as_store sv)" and "\<forall>c \<in> set cs. call_ok okp c"
    and "set (requested_ids cs) \<inter> req = {}" and "distinct (requested_ids cs)"
  shows "svc_run ops2 cs (enc_service enc sv) = map_prod (enc_service enc) id (svc_run ops cs sv)"
  using assms
proof (induction cs arbitrary: sv req evs)
  case (Cons c cs)
  obtain sv1 ev1 where 1: "svc_exec ops c sv = (sv1, ev1)" by fastforce
  have ids: "requested_ids (c # cs) = requested_ids [c] @ requested_ids cs"
    by (cases c) simp_all
  have sim: "svc_exec ops2 c (enc_service enc sv) = (enc_service enc sv1, ev1)"
    "good (as_store sv1)"
    using sim_exec [OF Cons.prems(1,2), of c] Cons.prems(3,4) 1 by (auto simp: ids)
  have "run_inv view sinv sv1 (req \<union> set (requested_ids [c])) (evs @ ev1)"
    using Cons.prems 1 by (intro exec_keeps_run_inv) (auto simp: ids)
  moreover have "set (requested_ids cs) \<inter> (req \<union> set (requested_ids [c])) = {}"
    using Cons.prems(4,5) unfolding ids by auto
  ultimately have "svc_run ops2 cs (enc_service enc sv1) =
      map_prod (enc_service enc) id (svc_run ops cs sv1)"
    using Cons.prems(3,5) by (intro Cons.IH [OF _ sim(2)]) (auto simp: ids)
  with 1 sim(1) show ?case by (cases "svc_run ops cs sv1") simp
qed simp

lemma sim_run_empty:
  assumes "sinv s" and "good s" and "view s = Map.empty"
    and "\<forall>c \<in> set cs. call_ok okp c" and "distinct (requested_ids cs)"
  shows "svc_run ops2 cs (approval_service_with_ttl (enc s) ttl) =
           map_prod (enc_service enc) id (svc_run ops cs (approval_service_with_ttl s ttl))"
proof -
  have "run_inv view sinv (approval_service_with_ttl s ttl) {} []"
    using assms by (simp add: run_inv_def approval_service_with_ttl_def)
  from sim_run [OF this _ assms(4) _ assms(5)] assms(2) show ?thesis
    by (simp add: approval_service_with_ttl_def enc_service_def)
qed

end

section \<open>The SQLite store simulates the in-memory store\<close>

lemma sq_create_row_of:
  assumes "uuid_codec x" and "fault_free x" and "storable x plan" and "entry_view es i = None"
  shows "sq_create_pending x i now plan ex (map (row_of x) es) =
           map_prod (map (row_of x)) id (create_pending i now plan ex es)"
proof -
  obtain c p where "px_class_to_json x (ep_classification plan) = Ok c"
    "px_json_to_string x (ep_payload plan) = Ok p"
    using assms(3) by (auto simp: storable_def)
  moreover have "\<forall>e \<in> set es. pe_id e \<noteq> i" using assms(4) by (auto simp: entry_view_None)
  ultimately show ?thesis
    using assms(1,2)
    by (auto simp: sq_create_pending_def fault_free_simps uuid_to_string_inject create_pending_def
        Let_def row_of_def)
qed

lemma sq_get_pending_row_of:
  assumes "uuid_codec x" and "fault_free x" and "all_storable x es"
  shows "sq_get_pending x now i (map (row_of x) es) = get_pending now i es"
  using assms
  by (simp add: sq_get_pending_def fault_free_simps first_execution_row_of comp_def
      uuid_to_string_inject get_pending_def)

lemma sq_get_execution_row_of:
  assumes "uuid_codec x" and "fault_free x" and "all_storable x es"
  shows "sq_get_execution x i (map (row_of x) es) = get_execution i es"
  using assms
  by (simp add: sq_get_execution_def fault_free_simps first_execution_row_of comp_def
      uuid_to_string_inject get_execution_def)

lemma find_id_None: "find (\<lambda>e. pe_id e = i) es = None \<longleftrightarrow> i \<notin> pe_id ` set es"
  by (auto simp: find_None_iff)

lemma sq_update_status_row_of:
  assumes "uuid_codec x" and "fault_free x" and "ids_distinct es" and "all_storable x es"
  shows "sq_update_status x i st (map (row_of x) es) =
           map_prod (map (row_of x)) id (update_status i st es)"
proof -
  let ?es' = "update_first (\<lambda>e. pe_id e = i) (\<lambda>e. e\<lparr>pe_status := st\<rparr>) es"
  have upd: "sql_update (\<lambda>r. pw_id r = px_uuid_to_string x i)
      (\<lambda>r. r\<lparr>pw_status := status_to_str st\<rparr>) (map (row_of x) es) =
      (map (row_of x) ?es', if i \<in> pe_id ` set es then 1 else 0)"
    using assms by (intro sql_update_row_of) (auto simp: row_of_update)
  have st: "all_storable x ?es'" using assms(4) by (intro all_storable_update) auto
  from first_execution_row_of [OF assms(1) st, of "\<lambda>r. pw_id r = px_uuid_to_string x i"] assms(1)
  have "first_execution x (filter (\<lambda>r. pw_id r = px_uuid_to_string x i) (map (row_of x) ?es')) =
      Ok (map_option (\<lambda>e. e\<lparr>pe_status := st\<rparr>) (find (\<lambda>e. pe_id e = i) es))"
    by (simp add: comp_def uuid_to_string_inject find_update_first)
  then show ?thesis
    using find_id_None [of i es]
    by (auto simp: sq_update_status_def fault_free_simps [OF assms(2)] upd update_status_def
        first_execution_def Let_def and_then_eq_Ok split: list.splits if_splits)
qed

lemma sq_record_rejection_row_of:
  assumes "uuid_codec x" and "fault_free x" and "ids_distinct es" and "all_storable x es"
  shows "sq_record_rejection x i why (map (row_of x) es) =
           map_prod (map (row_of x)) id (record_rejection i why es)"
proof -
  let ?g = "\<lambda>e. e\<lparr>pe_status := Rejected, pe_rejection_reason := why\<rparr>"
  let ?es' = "update_first (\<lambda>e. pe_id e = i) ?g es"
  have upd: "sql_update (\<lambda>r. pw_id r = px_uuid_to_string x i)
      (\<lambda>r. r\<lparr>pw_status := ''rejected'', pw_rejection_reason := why\<rparr>) (map (row_of x) es) =
      (map (row_of x) ?es', if i \<in> pe_id ` set es then 1 else 0)"
    using assms by (intro sql_update_row_of) (auto simp: row_of_update)
  have st: "all_storable x ?es'" using assms(4) by (intro all_storable_update) auto
  show ?thesis
    using find_id_None [of i es] sq_get_execution_row_of [OF assms(1,2) st]
    by (auto simp: sq_record_rejection_def fault_free_simps [OF assms(2)] upd record_rejection_def
        Let_def get_execution_def find_update_first)
qed

lemma sq_list_pending_row_of:
  assumes "uuid_codec x" and "fault_free x" and "all_storable x es"
  shows "sq_list_pending x now (map (row_of x) es) = list_pending now es"
proof -
  have "all_storable x (filter P es)" for P using assms(3) by (auto simp: all_storable_def)
  with assms show ?thesis
    by (simp add: sq_list_pending_def fault_free_simps filter_map comp_def
        rows_to_executions_row_of list_pending_def)
qed

lemma all_storable_ops:
  assumes "all_storable x es"
  shows "storable x plan \<Longrightarrow> all_storable x (fst (create_pending i now plan ex es))"
    and "all_storable x (fst (update_status i st es))"
    and "all_storable x (fst (record_rejection i why es))"
    and "ids_distinct es \<Longrightarrow> all_storable x (fst (consume_approved now plan es))"
    and "all_storable x (fst (purge_terminal_and_expired now es))"
proof -
  show "storable x plan \<Longrightarrow> all_storable x (fst (create_pending i now plan ex es))"
    using assms by (auto simp: all_storable_def create_pending_def Let_def)
  show "all_storable x (fst (update_status i st es))"
    using assms by (auto simp: update_status_def intro!: all_storable_update)
  show "all_storable x (fst (record_rejection i why es))"
    using assms by (auto simp: record_rejection_def Let_def intro!: all_storable_update)
  show "all_storable x (fst (purge_terminal_and_expired now es))"
    using assms by (auto simp: all_storable_def purge_keeps)
  show "ids_distinct es \<Longrightarrow> all_storable x (fst (consume_approved now plan es))"
    using assms
    by (auto simp: all_storable_def consume_approved_eq consume_id_def split: option.splits)
qed

lemma sqlite_simulates:
  assumes "uuid_codec x" and "fault_free x"
  shows "store_simulation in_memory_ops entry_view ids_distinct (sqlite_ops x)
           (map (row_of x)) (all_storable x) (storable x)"
  by unfold_locales
     (simp_all add: in_memory_ops_def sqlite_ops_def assms sq_create_row_of sq_get_pending_row_of
        sq_get_execution_row_of sq_update_status_row_of sq_record_rejection_row_of
        sq_list_pending_row_of sq_consume_row_of sq_purge_row_of all_storable_ops)

text \<open>A concrete instance of the other crates' functions, for the examples.\<close>

definition class_names :: "(execution_classification \<times> string) list" where
  "class_names =
     [(Metadata, ''metadata''), (Read, ''read''), (Write, ''write''), (Destructive, ''destructive''),
      (Admin, ''admin''), (AdminSafe, ''admin_safe''), (AdminDestructive, ''admin_destructive'')]"

definition sample_ext :: pending_ext where
  "sample_ext =
     \<lparr>px_uuid_to_string = (\<lambda>u. show_nat (unat u)),
      px_uuid_parse = (\<lambda>s. Ok (word_of_nat (read_nat 0 s))),
      px_class_to_json = (\<lambda>c. ok_or ''class'' (map_of class_names c)),
      px_class_from_json =
        (\<lambda>s. ok_or ''class'' (map_of (map (\<lambda>(c, n). (n, c)) class_names) s)),
      px_json_to_string =
        (\<lambda>j. if j = ep_payload sample_plan then Ok ''update'' else Err ''json''),
      px_json_from_str =
        (\<lambda>s. if s = ''update'' then Ok (ep_payload sample_plan) else Err ''json''),
      px_lock_error = None,
      px_stmt_error = (\<lambda>_ _. None)\<rparr>"

lemma sample_ext_ok:
  "uuid_codec sample_ext" "fault_free sample_ext" "storable sample_ext sample_plan"
  by (simp_all add: uuid_codec_def fault_free_def storable_def sample_ext_def read_show_nat
      class_names_def sample_plan_def)

interpretation sq: store_simulation in_memory_ops entry_view ids_distinct "sqlite_ops sample_ext"
  "map (row_of sample_ext)" "all_storable sample_ext" "storable sample_ext"
  using sample_ext_ok(1,2) by (rule sqlite_simulates)

section \<open>Several processes\<close>

text \<open>
  Each process has its own connection to the database file, so the statements of
  two calls of \<open>consume_approved\<close> interleave. A consumer is waiting to run its
  \<open>SELECT\<close>, working through its candidates, or finished. Meanwhile rows may be
  purged and new requests inserted.
\<close>

datatype consumer =
    Waiting execution_plan
  | Claiming execution_plan "pending_execution list"
  | Finished "pending_execution option"

type_synonym claim_world = "pending_row list \<times> (nat \<Rightarrow> consumer)"

inductive claim_step :: "pending_ext \<Rightarrow> claim_world \<Rightarrow> claim_world \<Rightarrow> bool" for x where
  cs_read:
    "procs p = Waiting plan \<Longrightarrow>
     rows_to_executions x (select_approved now plan rows) = Ok cs \<Longrightarrow>
     claim_step x (rows, procs) (rows, procs(p := Claiming plan cs))"
| cs_skip:
    "procs p = Claiming plan (c # cs) \<Longrightarrow> \<not> approval_matches_plan (pe_plan c) plan \<Longrightarrow>
     claim_step x (rows, procs) (rows, procs(p := Claiming plan cs))"
| cs_won:
    "procs p = Claiming plan (c # cs) \<Longrightarrow> approval_matches_plan (pe_plan c) plan \<Longrightarrow>
     claim_row x (pe_id c) rows = (rows', 1) \<Longrightarrow>
     claim_step x (rows, procs) (rows', procs(p := Finished (Some (c\<lparr>pe_status := Consumed\<rparr>))))"
| cs_lost:
    "procs p = Claiming plan (c # cs) \<Longrightarrow> approval_matches_plan (pe_plan c) plan \<Longrightarrow>
     claim_row x (pe_id c) rows = (rows', n) \<Longrightarrow> n \<noteq> 1 \<Longrightarrow>
     claim_step x (rows, procs) (rows', procs(p := Claiming plan cs))"
| cs_none:
    "procs p = Claiming plan [] \<Longrightarrow>
     claim_step x (rows, procs) (rows, procs(p := Finished None))"
| cs_purge:
    "sq_purge_terminal_and_expired x now rows = (rows', r) \<Longrightarrow>
     claim_step x (rows, procs) (rows', procs)"
| cs_insert:
    "sq_create_pending x i now plan ex rows = (rows', r) \<Longrightarrow>
     claim_step x (rows, procs) (rows', procs)"

inductive_cases claim_stepE: "claim_step x w w'"

definition approved_row :: "pending_ext \<Rightarrow> uuid \<Rightarrow> pending_row list \<Rightarrow> bool" where
  "approved_row x i rows \<longleftrightarrow>
     (\<exists>r \<in> set rows. pw_id r = px_uuid_to_string x i \<and> pw_status r = ''approved'')"

definition claim_inv :: "pending_ext \<Rightarrow> claim_world \<Rightarrow> bool" where
  "claim_inv x w \<longleftrightarrow>
     (\<forall>p e. snd w p = Finished (Some e) \<longrightarrow> \<not> approved_row x (pe_id e) (fst w)) \<and>
     (\<forall>p q e e'. snd w p = Finished (Some e) \<and> snd w q = Finished (Some e') \<and> p \<noteq> q \<longrightarrow>
        pe_id e \<noteq> pe_id e')"

lemma claim_row_approved:
  assumes "claim_row x i rows = (rows', n)"
  shows "n \<noteq> 0 \<Longrightarrow> approved_row x i rows" and "\<not> approved_row x i rows'"
    and "approved_row x k rows' \<Longrightarrow> approved_row x k rows"
  using assms
  by (auto simp: claim_row_def sql_update_def approved_row_def filter_empty_conv split: if_splits)

lemma sq_purge_subset:
  "sq_purge_terminal_and_expired x now rows = (rows', r) \<Longrightarrow> set rows' \<subseteq> set rows"
  by (auto simp: sq_purge_terminal_and_expired_def with_lock_def exec_stmt_def Let_def
      split: option.splits)

lemma sq_create_approved:
  "sq_create_pending x i now plan ex rows = (rows', r) \<Longrightarrow>
   approved_row x k rows' \<Longrightarrow> approved_row x k rows"
  by (auto simp: sq_create_pending_def with_lock_def exec_stmt_def approved_row_def
      split: option.splits sum.splits if_splits)

lemma claim_step_inv [keeps_inv]:
  assumes "claim_step x w w'" and "claim_inv x w"
  shows "claim_inv x w'"
  using assms
proof (induction rule: claim_step.induct)
  case (cs_won procs p plan c cs rows rows')
  have was: "approved_row x (pe_id c) rows" and gone: "\<not> approved_row x (pe_id c) rows'"
    using claim_row_approved [OF cs_won.hyps(3)] by simp_all
  from cs_won.prems was have "pe_id e \<noteq> pe_id c" if "procs q = Finished (Some e)" for q e
    using that unfolding claim_inv_def by (metis fst_conv snd_conv)
  with gone cs_won.prems claim_row_approved(3) [OF cs_won.hyps(3)] show ?case
    by (auto simp: claim_inv_def) metis+
next
  case (cs_lost procs p plan c cs rows rows' n)
  with claim_row_approved(3) [OF cs_lost.hyps(3)] show ?case
    by (auto simp: claim_inv_def)
next
  case (cs_purge now rows rows' r procs)
  with sq_purge_subset [OF cs_purge.hyps] show ?case
    by (fastforce simp: claim_inv_def approved_row_def)
next
  case (cs_insert i now plan ex rows rows' r procs)
  with sq_create_approved [OF cs_insert.hyps] show ?case
    by (auto simp: claim_inv_def)
qed (auto simp: claim_inv_def)

lemma claim_reachable_inv:
  assumes "(claim_step x)\<^sup>*\<^sup>* w w'" and "claim_inv x w"
  shows "claim_inv x w'"
  using assms by (induction rule: rtranclp_induct) (auto intro: keeps_inv)

text \<open>A process that runs alone takes exactly the steps of the claiming loop.\<close>

lemma claim_candidates_steps:
  assumes "fault_free x" and "procs p = Claiming plan cs"
    and "claim_candidates x plan cs rows = (rows', Ok r)"
  shows "(claim_step x)\<^sup>*\<^sup>* (rows, procs) (rows', procs(p := Finished r))"
  using assms(2,3)
proof (induction cs arbitrary: rows procs)
  case Nil
  then have "rows' = rows" "r = None" by simp_all
  then have "claim_step x (rows, procs) (rows', procs(p := Finished r))"
    using cs_none [of procs p plan x rows] Nil.prems(1) by blast
  then show ?case by (rule r_into_rtranclp)
next
  case (Cons c cs)
  obtain rows1 n where claim: "claim_row x (pe_id c) rows = (rows1, n)" by fastforce
  let ?procs' = "procs(p := Claiming plan cs)"
  consider "\<not> approval_matches_plan (pe_plan c) plan"
    | "approval_matches_plan (pe_plan c) plan" "n = 1"
    | "approval_matches_plan (pe_plan c) plan" "n \<noteq> 1"
    by blast
  then show ?case
  proof cases
    case 1
    then have "claim_step x (rows, procs) (rows, ?procs')"
      using Cons.prems(1) by (intro cs_skip)
    moreover have "(claim_step x)\<^sup>*\<^sup>* (rows, ?procs') (rows', procs(p := Finished r))"
      using Cons.IH [of ?procs' rows] Cons.prems(2) 1 by (simp add: fun_upd_def cong: if_cong)
    ultimately show ?thesis by (rule converse_rtranclp_into_rtranclp)
  next
    case 2
    with Cons.prems(2) claim
    have "rows' = rows1" "r = Some (c\<lparr>pe_status := Consumed\<rparr>)"
      by (simp_all add: fault_free_simps [OF assms(1)])
    then have "claim_step x (rows, procs) (rows', procs(p := Finished r))"
      using cs_won [of procs p plan c cs x rows rows1] Cons.prems(1) claim 2 by blast
    then show ?thesis by (rule r_into_rtranclp)
  next
    case 3
    then have "claim_step x (rows, procs) (rows1, ?procs')"
      using Cons.prems(1) claim by (intro cs_lost)
    moreover have "(claim_step x)\<^sup>*\<^sup>* (rows1, ?procs') (rows', procs(p := Finished r))"
      using Cons.IH [of ?procs' rows1] Cons.prems(2) 3 claim
      by (simp add: fault_free_simps [OF assms(1)] fun_upd_def cong: if_cong)
    ultimately show ?thesis by (rule converse_rtranclp_into_rtranclp)
  qed
qed

section \<open>Properties\<close>

text \<open>
  C5. The SQLite store refines the in-memory store: when identifiers and stored
  plans can be read back and no statement fails, any sequence of queue calls with
  fresh identifiers gives the same events, and leaves the table that encodes the
  in-memory entries row by row.
\<close>

theorem sqlite_run_refines_in_memory:
  assumes "uuid_codec x" and "fault_free x" and "distinct (requested_ids cs)"
    and "\<forall>c \<in> set cs. call_ok (storable x) c"
  shows "svc_run (sqlite_ops x) cs (approval_service_with_ttl [] ttl) =
           map_prod (enc_service (map (row_of x))) id
             (svc_run in_memory_ops cs (approval_service_with_ttl [] ttl))"
proof -
  have "ids_distinct []" "all_storable x []" "entry_view [] = Map.empty"
    by (simp_all add: ids_distinct_def all_storable_def entry_view_def fun_eq_iff)
  from store_simulation.sim_run_empty [OF sqlite_simulates [OF assms(1,2)] this assms(4,3)]
  show ?thesis by simp
qed

theorem sqlite_run_refines_in_memory_witness:
  "snd (svc_run (sqlite_ops sample_ext) sample_calls (approval_service_with_ttl [] 1000)) =
     [EvRequested 1, EvRequested 2, EvApproved 1, EvRejected 2, EvConsumed 1]"
proof -
  have "distinct (requested_ids sample_calls)"
    "\<forall>c \<in> set sample_calls. call_ok (storable sample_ext) c"
    by (simp_all add: sample_calls_def sample_ext_ok)
  from sqlite_run_refines_in_memory [OF sample_ext_ok(1,2) this, of 1000] show ?thesis
    by (simp add: sample_calls_events)
qed

text \<open>
  C6. Whatever the interleaving of the statements of any number of processes that
  consume approvals, while rows are purged and requests are added, two processes
  never obtain the same approval.
\<close>

theorem approval_won_once:
  assumes "(claim_step x)\<^sup>*\<^sup>* (rows, procs) (rows', procs')"
    and "\<forall>p. \<exists>plan. procs p = Waiting plan"
    and "procs' p = Finished (Some e)" and "procs' q = Finished (Some e')" and "p \<noteq> q"
  shows "pe_id e \<noteq> pe_id e'"
proof -
  have "claim_inv x (rows, procs)"
    using assms(2) by (metis claim_inv_def consumer.distinct(3) snd_conv)
  with claim_reachable_inv [OF assms(1)] assms(3-5) show ?thesis
    by (simp add: claim_inv_def)
qed

definition race_rows :: "pending_row list" where
  "race_rows = map (row_of sample_ext) [sample_entry 1 7, sample_entry 2 3]"

definition race_procs :: "nat \<Rightarrow> consumer" where
  "race_procs p = Waiting sample_plan"

definition race_after :: "pending_status \<Rightarrow> pending_status \<Rightarrow> pending_row list" where
  "race_after st1 st2 =
     map (row_of sample_ext)
       [(sample_entry 1 7)\<lparr>pe_status := st1\<rparr>, (sample_entry 2 3)\<lparr>pe_status := st2\<rparr>]"

lemma race_read:
  "rows_to_executions sample_ext (select_approved 0 sample_plan race_rows) =
     Ok [sample_entry 2 3, sample_entry 1 7]"
proof -
  have "select_approved 0 sample_plan race_rows =
      map (row_of sample_ext) [sample_entry 2 3, sample_entry 1 7]"
    by (simp add: select_approved_def race_rows_def sample_entry_def sample_plan_def unexpired_def)
  moreover have "all_storable sample_ext [sample_entry 2 3, sample_entry 1 7]"
    by (simp add: all_storable_def sample_entry_def sample_ext_ok)
  ultimately show ?thesis
    using rows_to_executions_row_of [OF sample_ext_ok(1)] by metis
qed

lemma race_claims:
  "claim_row sample_ext 2 race_rows = (race_after Approved Consumed, 1)"
  "claim_row sample_ext 2 (race_after Approved Consumed) = (race_after Approved Consumed, 0)"
  "claim_row sample_ext 1 (race_after Approved Consumed) = (race_after Consumed Consumed, 1)"
  by (simp_all add: claim_row_def sql_update_def race_rows_def race_after_def row_of_update
      uuid_to_string_inject [OF sample_ext_ok(1)] sample_entry_def)

lemma race_run:
  "\<exists>procs'. (claim_step sample_ext)\<^sup>*\<^sup>* (race_rows, race_procs) (race_after Consumed Consumed, procs') \<and>
     procs' 0 = Finished (Some ((sample_entry 2 3)\<lparr>pe_status := Consumed\<rparr>)) \<and>
     procs' 1 = Finished (Some ((sample_entry 1 7)\<lparr>pe_status := Consumed\<rparr>))"
proof -
  let ?cs = "[sample_entry 2 3, sample_entry 1 7]"
  let ?won0 = "Finished (Some ((sample_entry 2 3)\<lparr>pe_status := Consumed\<rparr>))"
  let ?won1 = "Finished (Some ((sample_entry 1 7)\<lparr>pe_status := Consumed\<rparr>))"
  let ?p1 = "race_procs(0 := Claiming sample_plan ?cs)"
  let ?p2 = "?p1(1 := Claiming sample_plan ?cs)"
  let ?p3 = "?p2(0 := ?won0)"
  let ?p4 = "?p3(1 := Claiming sample_plan [sample_entry 1 7])"
  have m: "approval_matches_plan (pe_plan (sample_entry i t)) sample_plan" for i t
    by (simp add: sample_entry_def approval_matches_plan_def)
  have i: "pe_id (sample_entry k t) = k" for k t by (simp add: sample_entry_def)
  have "claim_step sample_ext (race_rows, race_procs) (race_rows, ?p1)"
    by (rule cs_read [OF _ race_read]) (simp add: race_procs_def)
  moreover have "claim_step sample_ext (race_rows, ?p1) (race_rows, ?p2)"
    by (rule cs_read [OF _ race_read]) (simp add: race_procs_def)
  moreover have "claim_step sample_ext (race_rows, ?p2) (race_after Approved Consumed, ?p3)"
    by (rule cs_won [where c = "sample_entry 2 3" and plan = sample_plan]) (simp_all add: m i race_claims)
  moreover have "claim_step sample_ext (race_after Approved Consumed, ?p3)
      (race_after Approved Consumed, ?p4)"
    by (rule cs_lost [where c = "sample_entry 2 3" and plan = sample_plan and n = 0]) (simp_all add: m i race_claims)
  moreover have "claim_step sample_ext (race_after Approved Consumed, ?p4)
      (race_after Consumed Consumed, ?p4(1 := ?won1))"
    by (rule cs_won [where c = "sample_entry 1 7" and plan = sample_plan]) (simp_all add: m i race_claims)
  ultimately have "(claim_step sample_ext)\<^sup>*\<^sup>* (race_rows, race_procs)
      (race_after Consumed Consumed, ?p4(1 := ?won1))"
    by (meson rtranclp.rtrancl_into_rtrancl rtranclp.rtrancl_refl)
  then show ?thesis by (intro exI [of _ "?p4(1 := ?won1)"]) simp
qed

theorem approval_won_once_witness:
  "\<exists>procs' e e'. (claim_step sample_ext)\<^sup>*\<^sup>* (race_rows, race_procs)
                   (race_after Consumed Consumed, procs') \<and>
     procs' 0 = Finished (Some e) \<and> procs' 1 = Finished (Some e') \<and> pe_id e \<noteq> pe_id e'"
proof -
  from race_run obtain procs' where run: "(claim_step sample_ext)\<^sup>*\<^sup>* (race_rows, race_procs)
      (race_after Consumed Consumed, procs')"
    "procs' 0 = Finished (Some ((sample_entry 2 3)\<lparr>pe_status := Consumed\<rparr>))"
    "procs' 1 = Finished (Some ((sample_entry 1 7)\<lparr>pe_status := Consumed\<rparr>))"
    by blast
  have "\<forall>p. \<exists>plan. race_procs p = Waiting plan" by (simp add: race_procs_def)
  from approval_won_once [OF run(1) this run(2,3)] run show ?thesis by auto
qed

text \<open>
  \<open>ApprovalService::approve\<close> reads the entry and writes the new status in two
  statements, and the write has no status guard. When two people approve the same
  request from two processes, both may read it as pending; the first approval is
  consumed, and the second write makes the consumed entry approved again, so the
  request authorises two calls.
\<close>

definition pending_entry :: pending_execution where
  "pending_entry = (sample_entry 1 7)\<lparr>pe_status := Pending\<rparr>"

lemma approve_write_revives_consumed:
  "sq_get_pending sample_ext 0 1 (map (row_of sample_ext) [pending_entry]) =
     Ok (Some pending_entry) \<and>
   (let rows1 = fst (sq_update_status sample_ext 1 Approved
                      (map (row_of sample_ext) [pending_entry]));
        (rows2, first_use) = sq_consume_approved sample_ext 0 sample_plan rows1;
        rows3 = fst (sq_update_status sample_ext 1 Approved rows2);
        (_, second_use) = sq_consume_approved sample_ext 0 sample_plan rows3
    in first_use = Ok (Some (pending_entry\<lparr>pe_status := Consumed\<rparr>)) \<and> second_use = first_use)"
proof -
  have st: "all_storable sample_ext [e]" if "pe_plan e = sample_plan" for e
    using that by (simp add: all_storable_def sample_ext_ok)
  have d: "ids_distinct [e]" for e by (simp add: ids_distinct_def)
  note sim = sq_get_pending_row_of [OF sample_ext_ok(1,2) st]
    sq_update_status_row_of [OF sample_ext_ok(1,2) d st]
    sq_consume_row_of [OF sample_ext_ok(1,2) d st]
  have e: "pe_plan pending_entry = sample_plan" "pe_id pending_entry = 1"
    "pe_status pending_entry = Pending" "pe_expires_at pending_entry = None"
    by (simp_all add: pending_entry_def sample_entry_def)
  have 1: "fst (sq_update_status sample_ext 1 Approved [row_of sample_ext (pending_entry\<lparr>pe_status := st\<rparr>)])
      = [row_of sample_ext (pending_entry\<lparr>pe_status := Approved\<rparr>)]" for st
    using sim(2) [of "pending_entry\<lparr>pe_status := st\<rparr>" 1 Approved] e by (simp add: update_status_def)
  have 2: "sq_consume_approved sample_ext 0 sample_plan
        [row_of sample_ext (pending_entry\<lparr>pe_status := Approved\<rparr>)] =
      ([row_of sample_ext (pending_entry\<lparr>pe_status := Consumed\<rparr>)],
       Ok (Some (pending_entry\<lparr>pe_status := Consumed\<rparr>)))"
    using sim(3) [of "pending_entry\<lparr>pe_status := Approved\<rparr>" 0 sample_plan] e
    by (simp add: consume_approved_def unexpired_def approval_matches_plan_def Let_def)
  have p: "pending_entry\<lparr>pe_status := Pending\<rparr> = pending_entry"
    using e(3) by (cases pending_entry) simp
  have 3: "sq_get_pending sample_ext 0 1 [row_of sample_ext pending_entry] = Ok (Some pending_entry)"
    using sim(1) [OF e(1), of 0 1] e by (simp add: get_pending_def unexpired_def)
  show ?thesis
    using 1 [of Pending] 1 [of Consumed] 2 3 by (simp add: p Let_def)
qed

end
