(* ===== verification/Events.thy ===== *)
theory Events
  imports Json
begin

text \<open>
  The audit event model of \<open>dbflux_core\<close> (\<open>observability/types.rs\<close>,
  \<open>context.rs\<close>, \<open>source.rs\<close>, \<open>actions.rs\<close>): the enumerations with their storage
  text, the event record with its builders, the audit context that stamps
  correlation data on an event, and the retention and capture policies. Each
  enumeration has a pair \<open>as_str\<close>, \<open>from_str_repr\<close>; the locale \<open>text_codec\<close> is
  what readers of stored events rely on, and every pair interprets it.
\<close>

section \<open>Enumerations\<close>

text \<open>Constructors carry a prefix, because the enumerations of the source share names.\<close>

datatype event_severity =
    SevTrace | SevDebug | SevInfo | SevWarn | SevError | SevFatal

fun severity_as_str :: "event_severity \<Rightarrow> string" where
  "severity_as_str SevTrace = ''trace''"
| "severity_as_str SevDebug = ''debug''"
| "severity_as_str SevInfo = ''info''"
| "severity_as_str SevWarn = ''warn''"
| "severity_as_str SevError = ''error''"
| "severity_as_str SevFatal = ''fatal''"

definition severity_from_str_repr :: "string \<Rightarrow> event_severity option" where
  "severity_from_str_repr s =
     (if s = ''trace'' then Some SevTrace
      else if s = ''debug'' then Some SevDebug
      else if s = ''info'' then Some SevInfo
      else if s = ''warn'' then Some SevWarn
      else if s = ''error'' then Some SevError
      else if s = ''fatal'' then Some SevFatal
      else None)"

datatype event_category =
    CatConfig | CatConnection | CatQuery | CatHook | CatScript | CatSystem | CatMcp
   | CatGovernance | CatObjectStorage | CatSecretStore

fun category_as_str :: "event_category \<Rightarrow> string" where
  "category_as_str CatConfig = ''config''"
| "category_as_str CatConnection = ''connection''"
| "category_as_str CatQuery = ''query''"
| "category_as_str CatHook = ''hook''"
| "category_as_str CatScript = ''script''"
| "category_as_str CatSystem = ''system''"
| "category_as_str CatMcp = ''mcp''"
| "category_as_str CatGovernance = ''governance''"
| "category_as_str CatObjectStorage = ''object_storage''"
| "category_as_str CatSecretStore = ''secret_store''"

definition category_from_str_repr :: "string \<Rightarrow> event_category option" where
  "category_from_str_repr s =
     (if s = ''config'' then Some CatConfig
      else if s = ''connection'' then Some CatConnection
      else if s = ''query'' then Some CatQuery
      else if s = ''hook'' then Some CatHook
      else if s = ''script'' then Some CatScript
      else if s = ''system'' then Some CatSystem
      else if s = ''mcp'' then Some CatMcp
      else if s = ''governance'' then Some CatGovernance
      else if s = ''object_storage'' then Some CatObjectStorage
      else if s = ''secret_store'' then Some CatSecretStore
      else None)"

datatype event_outcome =
    OutSuccess | OutFailure | OutCancelled | OutPending

fun outcome_as_str :: "event_outcome \<Rightarrow> string" where
  "outcome_as_str OutSuccess = ''success''"
| "outcome_as_str OutFailure = ''failure''"
| "outcome_as_str OutCancelled = ''cancelled''"
| "outcome_as_str OutPending = ''pending''"

definition outcome_from_str_repr :: "string \<Rightarrow> event_outcome option" where
  "outcome_from_str_repr s =
     (if s = ''success'' then Some OutSuccess
      else if s = ''failure'' then Some OutFailure
      else if s = ''cancelled'' then Some OutCancelled
      else if s = ''pending'' then Some OutPending
      else None)"

datatype event_actor_type =
    ActUser | ActSystem | ActApp | ActMcpClient | ActHook | ActScript | ActExternalDriver
   | ActExternalAuthProvider

fun actor_type_as_str :: "event_actor_type \<Rightarrow> string" where
  "actor_type_as_str ActUser = ''user''"
| "actor_type_as_str ActSystem = ''system''"
| "actor_type_as_str ActApp = ''app''"
| "actor_type_as_str ActMcpClient = ''mcp_client''"
| "actor_type_as_str ActHook = ''hook''"
| "actor_type_as_str ActScript = ''script''"
| "actor_type_as_str ActExternalDriver = ''external_driver''"
| "actor_type_as_str ActExternalAuthProvider = ''external_auth_provider''"

definition actor_type_from_str_repr :: "string \<Rightarrow> event_actor_type option" where
  "actor_type_from_str_repr s =
     (if s = ''user'' then Some ActUser
      else if s = ''system'' then Some ActSystem
      else if s = ''app'' then Some ActApp
      else if s = ''mcp_client'' then Some ActMcpClient
      else if s = ''hook'' then Some ActHook
      else if s = ''script'' then Some ActScript
      else if s = ''external_driver'' then Some ActExternalDriver
      else if s = ''external_auth_provider'' then Some ActExternalAuthProvider
      else None)"

datatype event_source_id =
    SrcLocal | SrcMcp | SrcHook | SrcScript | SrcSystem | SrcExternalDriver
   | SrcExternalAuthProvider

fun source_id_as_str :: "event_source_id \<Rightarrow> string" where
  "source_id_as_str SrcLocal = ''local''"
| "source_id_as_str SrcMcp = ''mcp''"
| "source_id_as_str SrcHook = ''hook''"
| "source_id_as_str SrcScript = ''script''"
| "source_id_as_str SrcSystem = ''system''"
| "source_id_as_str SrcExternalDriver = ''external_driver''"
| "source_id_as_str SrcExternalAuthProvider = ''external_auth_provider''"

definition source_id_from_str_repr :: "string \<Rightarrow> event_source_id option" where
  "source_id_from_str_repr s =
     (if s = ''local'' then Some SrcLocal
      else if s = ''mcp'' then Some SrcMcp
      else if s = ''hook'' then Some SrcHook
      else if s = ''script'' then Some SrcScript
      else if s = ''system'' then Some SrcSystem
      else if s = ''external_driver'' then Some SrcExternalDriver
      else if s = ''external_auth_provider'' then Some SrcExternalAuthProvider
      else None)"

datatype audit_query_source =
    QsInternal | QsCloudWatch | QsLoki

fun query_source_as_str :: "audit_query_source \<Rightarrow> string" where
  "query_source_as_str QsInternal = ''internal''"
| "query_source_as_str QsCloudWatch = ''cloudwatch''"
| "query_source_as_str QsLoki = ''loki''"

definition query_source_from_str_repr :: "string \<Rightarrow> audit_query_source option" where
  "query_source_from_str_repr s =
     (if s = ''internal'' then Some QsInternal
      else if s = ''cloudwatch'' then Some QsCloudWatch
      else if s = ''loki'' then Some QsLoki
      else None)"

definition is_available :: "audit_query_source \<Rightarrow> bool" where
  "is_available q \<longleftrightarrow> q = QsInternal"

fun query_source_description :: "audit_query_source \<Rightarrow> string" where
  "query_source_description QsInternal = ''Local SQLite''"
| "query_source_description QsCloudWatch = ''CloudWatch (future)''"
| "query_source_description QsLoki = ''Loki (future)''"

section \<open>Records\<close>

record event_object_ref =
  eo_object_type :: string
  eo_object_id :: string

definition event_object_ref_new :: "string \<Rightarrow> string \<Rightarrow> event_object_ref" where
  "event_object_ref_new object_type object_id =
     \<lparr>eo_object_type = object_type, eo_object_id = object_id\<rparr>"

record event_record =
  ev_id :: "int option"
  ev_ts_ms :: int
  ev_level :: event_severity
  ev_category :: event_category
  ev_action :: string
  ev_outcome :: event_outcome
  ev_actor_type :: event_actor_type
  ev_actor_id :: "string option"
  ev_source_id :: event_source_id
  ev_connection_id :: "string option"
  ev_database_name :: "string option"
  ev_driver_id :: "string option"
  ev_object_type :: "string option"
  ev_object_id :: "string option"
  ev_summary :: string
  ev_details_json :: "string option"
  ev_error_code :: "string option"
  ev_error_message :: "string option"
  ev_duration_ms :: "int option"
  ev_session_id :: "string option"
  ev_correlation_id :: "string option"

definition event_record_new ::
  "int \<Rightarrow> event_severity \<Rightarrow> event_category \<Rightarrow> event_outcome \<Rightarrow> event_record" where
  "event_record_new ts_ms level category outcome =
     \<lparr>ev_id = None, ev_ts_ms = ts_ms, ev_level = level, ev_category = category, ev_action = [],
      ev_outcome = outcome, ev_actor_type = ActSystem, ev_actor_id = None,
      ev_source_id = SrcSystem, ev_connection_id = None, ev_database_name = None,
      ev_driver_id = None, ev_object_type = None, ev_object_id = None, ev_summary = [],
      ev_details_json = None, ev_error_code = None, ev_error_message = None,
      ev_duration_ms = None, ev_session_id = None, ev_correlation_id = None\<rparr>"

definition with_action :: "string \<Rightarrow> event_record \<Rightarrow> event_record" where
  "with_action action ev = ev\<lparr>ev_action := action\<rparr>"

definition with_summary :: "string \<Rightarrow> event_record \<Rightarrow> event_record" where
  "with_summary summary ev = ev\<lparr>ev_summary := summary\<rparr>"

definition with_actor_id :: "string \<Rightarrow> event_record \<Rightarrow> event_record" where
  "with_actor_id actor_id ev = ev\<lparr>ev_actor_id := Some actor_id\<rparr>"

definition with_connection_context ::
  "string \<Rightarrow> string \<Rightarrow> string \<Rightarrow> event_record \<Rightarrow> event_record" where
  "with_connection_context connection_id database_name driver_id ev =
     ev\<lparr>ev_connection_id := Some connection_id, ev_database_name := Some database_name,
        ev_driver_id := Some driver_id\<rparr>"

definition with_object_ref :: "string \<Rightarrow> string \<Rightarrow> event_record \<Rightarrow> event_record" where
  "with_object_ref object_type object_id ev =
     ev\<lparr>ev_object_type := Some object_type, ev_object_id := Some object_id\<rparr>"

definition with_details_json :: "string \<Rightarrow> event_record \<Rightarrow> event_record" where
  "with_details_json details ev = ev\<lparr>ev_details_json := Some details\<rparr>"

definition with_error :: "string \<Rightarrow> string \<Rightarrow> event_record \<Rightarrow> event_record" where
  "with_error err_code message ev =
     ev\<lparr>ev_error_code := Some err_code, ev_error_message := Some message\<rparr>"

definition with_duration_ms :: "int \<Rightarrow> event_record \<Rightarrow> event_record" where
  "with_duration_ms duration_ms ev = ev\<lparr>ev_duration_ms := Some duration_ms\<rparr>"

definition with_session_id :: "string \<Rightarrow> event_record \<Rightarrow> event_record" where
  "with_session_id session_id ev = ev\<lparr>ev_session_id := Some session_id\<rparr>"

definition with_correlation_id :: "string \<Rightarrow> event_record \<Rightarrow> event_record" where
  "with_correlation_id correlation_id ev = ev\<lparr>ev_correlation_id := Some correlation_id\<rparr>"

text \<open>An \<open>AuditAction\<close> is its text.\<close>

type_synonym audit_action = string

definition with_typed_action :: "audit_action \<Rightarrow> event_record \<Rightarrow> event_record" where
  "with_typed_action action ev = ev\<lparr>ev_action := action\<rparr>"

definition MCP_AUTHORIZE :: audit_action where
  "MCP_AUTHORIZE = ''mcp_authorize''"

definition MCP_APPROVE_EXECUTION :: audit_action where
  "MCP_APPROVE_EXECUTION = ''mcp_approve_execution''"

definition MCP_REJECT_EXECUTION :: audit_action where
  "MCP_REJECT_EXECUTION = ''mcp_reject_execution''"

section \<open>Origins and contexts\<close>

record event_origin =
  or_actor_type :: event_actor_type
  or_source_id :: event_source_id

definition origin_mcp :: event_origin where
  "origin_mcp = \<lparr>or_actor_type = ActMcpClient, or_source_id = SrcMcp\<rparr>"

definition origin_local :: event_origin where
  "origin_local = \<lparr>or_actor_type = ActUser, or_source_id = SrcLocal\<rparr>"

definition origin_hook :: event_origin where
  "origin_hook = \<lparr>or_actor_type = ActHook, or_source_id = SrcHook\<rparr>"

definition origin_script :: event_origin where
  "origin_script = \<lparr>or_actor_type = ActScript, or_source_id = SrcScript\<rparr>"

definition origin_system :: event_origin where
  "origin_system = \<lparr>or_actor_type = ActSystem, or_source_id = SrcSystem\<rparr>"

definition origin_app :: event_origin where
  "origin_app = \<lparr>or_actor_type = ActApp, or_source_id = SrcSystem\<rparr>"

definition with_origin :: "event_origin \<Rightarrow> event_record \<Rightarrow> event_record" where
  "with_origin origin ev =
     ev\<lparr>ev_actor_type := or_actor_type origin, ev_source_id := or_source_id origin\<rparr>"

record audit_context =
  ac_origin :: event_origin
  ac_session_id :: "string option"
  ac_correlation_id :: "string option"
  ac_connection_id :: "string option"
  ac_database_name :: "string option"
  ac_driver_id :: "string option"
  ac_object_type :: "string option"
  ac_object_id :: "string option"

definition audit_context_new :: audit_context where
  "audit_context_new =
     \<lparr>ac_origin = origin_system, ac_session_id = None, ac_correlation_id = None,
      ac_connection_id = None, ac_database_name = None, ac_driver_id = None,
      ac_object_type = None, ac_object_id = None\<rparr>"

definition ctx_with_origin :: "event_origin \<Rightarrow> audit_context \<Rightarrow> audit_context" where
  "ctx_with_origin origin ctx = ctx\<lparr>ac_origin := origin\<rparr>"

definition ctx_with_session_id :: "string \<Rightarrow> audit_context \<Rightarrow> audit_context" where
  "ctx_with_session_id session_id ctx = ctx\<lparr>ac_session_id := Some session_id\<rparr>"

definition ctx_with_correlation_id :: "string \<Rightarrow> audit_context \<Rightarrow> audit_context" where
  "ctx_with_correlation_id correlation_id ctx = ctx\<lparr>ac_correlation_id := Some correlation_id\<rparr>"

definition ctx_with_connection ::
  "string \<Rightarrow> string \<Rightarrow> string \<Rightarrow> audit_context \<Rightarrow> audit_context" where
  "ctx_with_connection connection_id database_name driver_id ctx =
     ctx\<lparr>ac_connection_id := Some connection_id, ac_database_name := Some database_name,
         ac_driver_id := Some driver_id\<rparr>"

definition ctx_with_connection_id :: "string \<Rightarrow> audit_context \<Rightarrow> audit_context" where
  "ctx_with_connection_id connection_id ctx = ctx\<lparr>ac_connection_id := Some connection_id\<rparr>"

definition ctx_with_object :: "string \<Rightarrow> string \<Rightarrow> audit_context \<Rightarrow> audit_context" where
  "ctx_with_object object_type object_id ctx =
     ctx\<lparr>ac_object_type := Some object_type, ac_object_id := Some object_id\<rparr>"

text \<open>\<open>if let Some(v) = self.f { event.f = Some(v) }\<close>.\<close>

definition or_keep :: "'a option \<Rightarrow> 'a option \<Rightarrow> 'a option" where
  "or_keep new old = (case new of Some v \<Rightarrow> Some v | None \<Rightarrow> old)"

definition apply_to :: "audit_context \<Rightarrow> event_record \<Rightarrow> event_record" where
  "apply_to ctx ev =
     ev\<lparr>ev_actor_type := or_actor_type (ac_origin ctx),
        ev_source_id := or_source_id (ac_origin ctx),
        ev_session_id := or_keep (ac_session_id ctx) (ev_session_id ev),
        ev_correlation_id := or_keep (ac_correlation_id ctx) (ev_correlation_id ev),
        ev_connection_id := or_keep (ac_connection_id ctx) (ev_connection_id ev),
        ev_database_name := or_keep (ac_database_name ctx) (ev_database_name ev),
        ev_driver_id := or_keep (ac_driver_id ctx) (ev_driver_id ev),
        ev_object_type := or_keep (ac_object_type ctx) (ev_object_type ev),
        ev_object_id := or_keep (ac_object_id ctx) (ev_object_id ev)\<rparr>"

section \<open>Sink errors and policies\<close>

datatype event_sink_error =
    MissingRequiredField string
  | SinkSerialization string
  | SinkStorage string
  | SinkInternal string

fun event_sink_error_display :: "event_sink_error \<Rightarrow> string" where
  "event_sink_error_display (MissingRequiredField field) = ''missing required field: '' @ field"
| "event_sink_error_display (SinkSerialization msg) = ''serialization error: '' @ msg"
| "event_sink_error_display (SinkStorage msg) = ''storage error: '' @ msg"
| "event_sink_error_display (SinkInternal msg) = ''internal error: '' @ msg"

record event_retention_policy =
  rp_retention_days :: nat
  rp_purge_on_startup :: bool
  rp_purge_interval_secs :: nat

definition event_retention_policy_default :: event_retention_policy where
  "event_retention_policy_default =
     \<lparr>rp_retention_days = 90, rp_purge_on_startup = False, rp_purge_interval_secs = 21600\<rparr>"

definition event_retention_policy_validate ::
  "event_retention_policy \<Rightarrow> (string, unit) result" where
  "event_retention_policy_validate self =
     (if rp_retention_days self = 0 then Err ''retention_days must be at least 1''
      else if rp_retention_days self > 3650
      then Err ''retention_days must not exceed 3650 (10 years)''
      else if rp_purge_interval_secs self < 300 \<and> rp_purge_interval_secs self \<noteq> 0
      then Err ''purge_interval_secs must be at least 300 (5 minutes)''
      else Ok ())"

record event_capture_policy =
  cp_capture_user_actions :: bool
  cp_capture_system_events :: bool
  cp_capture_query_text :: bool
  cp_capture_hook_output_metadata :: bool
  cp_redact_sensitive :: bool
  cp_max_detail_bytes :: nat

definition event_capture_policy_default :: event_capture_policy where
  "event_capture_policy_default =
     \<lparr>cp_capture_user_actions = True, cp_capture_system_events = True,
      cp_capture_query_text = False, cp_capture_hook_output_metadata = True,
      cp_redact_sensitive = True, cp_max_detail_bytes = 65536\<rparr>"

section \<open>The text of the enumerations\<close>

locale text_codec =
  fixes as_str :: "'a \<Rightarrow> string"
    and from_str_repr :: "string \<Rightarrow> 'a option"
  assumes parse_print: "from_str_repr (as_str a) = Some a"
    and print_parse: "from_str_repr s = Some a \<Longrightarrow> as_str a = s"
begin

lemma as_str_inject: "as_str a = as_str b \<longleftrightarrow> a = b"
  by (metis option.inject parse_print)

lemma parse_iff: "from_str_repr s = Some a \<longleftrightarrow> s = as_str a"
  using parse_print print_parse by metis

lemma parse_None_iff: "from_str_repr s = None \<longleftrightarrow> s \<notin> range as_str"
  using parse_iff by (metis not_None_eq range_eqI imageE)

lemma map_option_parse: "map_option as_str (from_str_repr s) = Some t \<Longrightarrow> t = s"
  using print_parse by auto

end

interpretation sev: text_codec severity_as_str severity_from_str_repr
proof
  fix a :: event_severity
  show "severity_from_str_repr (severity_as_str a) = Some a"
    by (cases a) (simp_all add: severity_from_str_repr_def)
next
  fix s :: string and a :: event_severity
  assume "severity_from_str_repr s = Some a"
  then show "severity_as_str a = s"
    by (auto simp: severity_from_str_repr_def split: if_splits)
qed

interpretation cat: text_codec category_as_str category_from_str_repr
proof
  fix a :: event_category
  show "category_from_str_repr (category_as_str a) = Some a"
    by (cases a) (simp_all add: category_from_str_repr_def)
next
  fix s :: string and a :: event_category
  assume "category_from_str_repr s = Some a"
  then show "category_as_str a = s"
    by (auto simp: category_from_str_repr_def split: if_splits)
qed

interpretation outc: text_codec outcome_as_str outcome_from_str_repr
proof
  fix a :: event_outcome
  show "outcome_from_str_repr (outcome_as_str a) = Some a"
    by (cases a) (simp_all add: outcome_from_str_repr_def)
next
  fix s :: string and a :: event_outcome
  assume "outcome_from_str_repr s = Some a"
  then show "outcome_as_str a = s"
    by (auto simp: outcome_from_str_repr_def split: if_splits)
qed

interpretation actt: text_codec actor_type_as_str actor_type_from_str_repr
proof
  fix a :: event_actor_type
  show "actor_type_from_str_repr (actor_type_as_str a) = Some a"
    by (cases a) (simp_all add: actor_type_from_str_repr_def)
next
  fix s :: string and a :: event_actor_type
  assume "actor_type_from_str_repr s = Some a"
  then show "actor_type_as_str a = s"
    by (auto simp: actor_type_from_str_repr_def split: if_splits)
qed

interpretation srci: text_codec source_id_as_str source_id_from_str_repr
proof
  fix a :: event_source_id
  show "source_id_from_str_repr (source_id_as_str a) = Some a"
    by (cases a) (simp_all add: source_id_from_str_repr_def)
next
  fix s :: string and a :: event_source_id
  assume "source_id_from_str_repr s = Some a"
  then show "source_id_as_str a = s"
    by (auto simp: source_id_from_str_repr_def split: if_splits)
qed

interpretation qsrc: text_codec query_source_as_str query_source_from_str_repr
proof
  fix a :: audit_query_source
  show "query_source_from_str_repr (query_source_as_str a) = Some a"
    by (cases a) (simp_all add: query_source_from_str_repr_def)
next
  fix s :: string and a :: audit_query_source
  assume "query_source_from_str_repr s = Some a"
  then show "query_source_as_str a = s"
    by (auto simp: query_source_from_str_repr_def split: if_splits)
qed

end
