(* ===== verification/Redaction.thy ===== *)
theory Redaction
  imports Json
begin

text \<open>
  Redaction of credentials: \<open>redact_uri_credentials\<close> of \<open>dbflux_core\<close>
  (\<open>core/error_formatter.rs\<close>), which masks passwords and secret parameters of the
  URLs in a text, and the audit service's own pass over JSON details and error
  messages (\<open>dbflux_audit/src/redaction.rs\<close>). The cursor loops of the source are
  recursions on the text that is left. The regular expression engine is the record
  \<open>regex_ext\<close>; JSON parsing and printing come with \<open>redact_json\<close>. The main result
  is that the masked text does not depend on the credentials.
\<close>

section \<open>Credentials in URLs\<close>

definition SENSITIVE_URI_PARAMETERS :: "string list" where
  "SENSITIVE_URI_PARAMETERS =
     [''password'', ''passwd'', ''pwd'', ''pass'', ''token'', ''access_token'', ''auth_token'',
      ''authtoken'', ''refresh_token'', ''id_token'', ''secret'', ''client_secret'',
      ''secret_key'', ''api_key'', ''apikey'', ''sessiontoken'', ''session_token'',
      ''x-amz-security-token'', ''x-amz-signature'']"

definition is_scheme_char :: "char \<Rightarrow> bool" where
  "is_scheme_char c \<longleftrightarrow> is_ascii_alphanumeric c \<or> c \<in> {CHR ''+'', CHR ''-'', CHR ''.''}"

definition has_scheme_before :: "string \<Rightarrow> bool" where
  "has_scheme_before prefix =
     (let scheme = takeWhile is_scheme_char (rev prefix)
      in scheme \<noteq> [] \<and> is_ascii_alphabetic (last scheme))"

definition is_url_terminator :: "char \<Rightarrow> bool" where
  "is_url_terminator c \<longleftrightarrow>
     is_whitespace c \<or> c \<in> {CHR 0x22, CHR 0x27, CHR 0x60, CHR ''<'', CHR ''>''}"

definition ends_authority :: "char \<Rightarrow> bool" where
  "ends_authority c \<longleftrightarrow> c \<in> {CHR ''/'', CHR ''?'', CHR ''#'', CHR '';''}"

definition starts_parameter :: "char \<Rightarrow> bool" where
  "starts_parameter c \<longleftrightarrow> c \<in> {CHR ''?'', CHR ''&'', CHR '';''}"

definition ends_parameter :: "char \<Rightarrow> bool" where
  "ends_parameter c \<longleftrightarrow> c \<in> {CHR ''&'', CHR '';'', CHR ''#''}"

text \<open>\<open>find\<close> with a character predicate: the text before the first match, and from it on.\<close>

definition before_char :: "(char \<Rightarrow> bool) \<Rightarrow> string \<Rightarrow> string" where
  "before_char p s = takeWhile (\<lambda>c. \<not> p c) s"

definition from_char :: "(char \<Rightarrow> bool) \<Rightarrow> string \<Rightarrow> string" where
  "from_char p s = dropWhile (\<lambda>c. \<not> p c) s"

definition is_sensitive_parameter :: "string \<Rightarrow> bool" where
  "is_sensitive_parameter key \<longleftrightarrow> list_ex (eq_ignore_ascii_case key) SENSITIVE_URI_PARAMETERS"

lemma length_from_char: "length (from_char p s) \<le> length s"
  by (simp add: from_char_def length_dropWhile_le)

lemma from_char_Cons: "from_char p s = c # t \<Longrightarrow> length t < length s"
  using length_from_char [of p s] by simp

lemma before_from_char: "before_char p s @ from_char p s = s"
  by (simp add: before_char_def from_char_def)

function redact_sensitive_parameters :: "string \<Rightarrow> string \<Rightarrow> string \<times> nat" where
  "redact_sensitive_parameters tail replacement =
     (case from_char starts_parameter tail of
        [] \<Rightarrow> (tail, 0)
      | d # key_start \<Rightarrow>
          (let pushed = before_char starts_parameter tail @ [d];
               segment = before_char ends_parameter key_start;
               segment_end = from_char ends_parameter key_start
           in case split_once CHR ''='' segment of
                Some (key, v) \<Rightarrow>
                  if is_sensitive_parameter key \<and> v \<noteq> []
                  then (let (output, n) = redact_sensitive_parameters segment_end replacement
                        in (pushed @ key @ ''='' @ replacement @ output, Suc n))
                  else (let (output, n) = redact_sensitive_parameters key_start replacement
                        in (pushed @ output, n))
              | None \<Rightarrow>
                  (let (output, n) = redact_sensitive_parameters key_start replacement
                   in (pushed @ output, n))))"
  by pat_completeness auto

termination
proof (relation "measure (\<lambda>(tail, replacement). length tail)", goal_cases)
  case 1
  show ?case by simp
qed (auto dest: from_char_Cons intro: le_less_trans [OF length_from_char])

declare redact_sensitive_parameters.simps [simp del]

definition redact_url_remainder :: "string \<Rightarrow> string \<Rightarrow> string \<times> nat" where
  "redact_url_remainder remainder replacement =
     (let authority = before_char ends_authority remainder;
          tail = from_char ends_authority remainder;
          (out_authority, n) =
            (case rsplit_once CHR ''@'' authority of
               Some (userinfo, host) \<Rightarrow>
                 (case split_once CHR '':'' userinfo of
                    Some (user, password) \<Rightarrow>
                      if password \<noteq> []
                      then (user @ '':'' @ replacement @ ''@'' @ host, 1)
                      else (authority, 0)
                  | None \<Rightarrow> (authority, 0))
             | None \<Rightarrow> (authority, 0));
          (redacted_tail, tail_redactions) = redact_sensitive_parameters tail replacement
      in (out_authority @ redacted_tail, n + tail_redactions))"

text \<open>\<open>seen\<close> is the text before the cursor, which the scheme test looks at.\<close>

function redact_uris :: "string \<Rightarrow> string \<Rightarrow> string \<Rightarrow> string \<times> nat" where
  "redact_uris seen input replacement =
     (case split_at_sub ''://'' input of
        None \<Rightarrow> (input, 0)
      | Some (pre, post) \<Rightarrow>
          if \<not> has_scheme_before (seen @ pre)
          then (let (output, n) = redact_uris (seen @ pre @ ''://'') post replacement
                in (pre @ ''://'' @ output, n))
          else
            (let url = before_char is_url_terminator post;
                 url_end = from_char is_url_terminator post;
                 (redacted_url, url_redactions) = redact_url_remainder url replacement;
                 (output, n) = redact_uris (seen @ pre @ ''://'' @ url) url_end replacement
             in (pre @ ''://'' @ redacted_url @ output, url_redactions + n)))"
  by pat_completeness auto

termination
proof (relation "measure (\<lambda>(seen, input, replacement). length input)", goal_cases)
  case 1
  show ?case by simp
qed (auto dest!: split_at_sub_Some intro: le_less_trans [OF length_from_char])

declare redact_uris.simps [simp del]

definition redact_uri_credentials :: "string \<Rightarrow> string \<Rightarrow> string \<times> nat" where
  "redact_uri_credentials input replacement = redact_uris [] input replacement"

definition sanitize_uri :: "string \<Rightarrow> string" where
  "sanitize_uri uri = fst (redact_uri_credentials uri ''***'')"

section \<open>Audit details and error messages\<close>

definition SENSITIVE_JSON_KEYS :: "string list" where
  "SENSITIVE_JSON_KEYS =
     [''password'', ''passwd'', ''secret'', ''token'', ''api_key'', ''apikey'', ''api_key_id'',
      ''access_key'', ''access_key_id'', ''secret_key'', ''session_token'', ''credentials'',
      ''private_key'', ''ssh_key'', ''authorization'', ''auth_token'', ''bearer'',
      ''refresh_token'', ''client_secret'', ''connection_string'', ''connection_uri'',
      ''database_url'', ''url'', ''uri'', ''passphrase'']"

definition SENSITIVE_PATTERNS :: "(string \<times> string) list" where
  "SENSITIVE_PATTERNS =
     [(''aws_access_key'', ''(?i)AKIA[0-9A-Z]{16}''),
      (''aws_secret_key'', ''(?i)[0-9a-f]{40}''),
      (''api_key_hex'',
       ''(?i)['' @ [CHR 0x27, CHR 0x22] @ ''][0-9a-f]{32,}['' @ [CHR 0x27, CHR 0x22] @ '']''),
      (''jwt_token'',
       ''(?i)eyJ[0-9A-Za-z_-]+'' @ [CHR 0x5C] @ ''.eyJ[0-9A-Za-z_-]+'' @ [CHR 0x5C] @
       ''.[0-9A-Za-z_-]+''),
      (''base64_secret'', ''(?i)[A-Za-z0-9+/]{40,}={0,2}''),
      (''hex_secret'', ''(?i)[0-9a-f]{32,}'')]"

definition REDACTED :: string where
  "REDACTED = ''[REDACTED]''"

text \<open>
  The \<open>regex\<close> crate: a pattern that compiles gives the number of matches in a
  text and the text with every match replaced.
\<close>

record regex_ext =
  rx_count :: "string \<Rightarrow> (string \<Rightarrow> nat) option"
  rx_replace_all :: "string \<Rightarrow> (string \<Rightarrow> string \<Rightarrow> string) option"

record redaction_result =
  rr_redacted :: string
  rr_redaction_count :: nat

definition count_regex_matches :: "regex_ext \<Rightarrow> string \<Rightarrow> string \<Rightarrow> nat" where
  "count_regex_matches x input pattern =
     (case rx_count x pattern of Some f \<Rightarrow> f input | None \<Rightarrow> 0)"

definition regex_replace :: "regex_ext \<Rightarrow> string \<Rightarrow> string \<Rightarrow> string \<Rightarrow> string" where
  "regex_replace x input pattern replacement =
     (case rx_replace_all x pattern of Some f \<Rightarrow> f input replacement | None \<Rightarrow> input)"

definition redact_sensitive_text :: "regex_ext \<Rightarrow> string \<Rightarrow> string \<times> nat" where
  "redact_sensitive_text x input =
     fold (\<lambda>(_, pattern) (result, n).
             let matches = count_regex_matches x result pattern
             in if matches > 0 then (regex_replace x result pattern REDACTED, n + matches)
                else (result, n))
          SENSITIVE_PATTERNS (redact_uri_credentials input REDACTED)"

text \<open>Adds what it redacted to the running count, and returns it as well.\<close>

definition redact_string_values :: "regex_ext \<Rightarrow> string \<Rightarrow> nat \<Rightarrow> (string \<times> nat) \<times> nat" where
  "redact_string_values x input n =
     (let (result, redaction_count) = redact_sensitive_text x input
      in ((result, redaction_count), n + redaction_count))"

definition is_sensitive_key :: "string \<Rightarrow> bool" where
  "is_sensitive_key key \<longleftrightarrow>
     key \<in> set SENSITIVE_JSON_KEYS \<or> to_lowercase key \<in> set SENSITIVE_JSON_KEYS"

fun redact_json_value :: "regex_ext \<Rightarrow> bool \<Rightarrow> json \<Rightarrow> nat \<Rightarrow> json \<times> nat"
  and redact_json_entries ::
    "regex_ext \<Rightarrow> bool \<Rightarrow> (string \<times> json) list \<Rightarrow> json_map \<Rightarrow> nat \<Rightarrow> json_map \<times> nat"
  and redact_json_items :: "regex_ext \<Rightarrow> bool \<Rightarrow> json list \<Rightarrow> nat \<Rightarrow> json list \<times> nat" where
  "redact_json_value x rs (JObject m) n =
     (let (new_map, n') = redact_json_entries x rs m [] n in (JObject new_map, n'))"
| "redact_json_value x rs (JArray arr) n =
     (let (arr', n') = redact_json_items x rs arr n in (JArray arr', n'))"
| "redact_json_value x rs v n = (v, n)"
| "redact_json_entries x rs [] new_map n = (new_map, n)"
| "redact_json_entries x rs ((key, val) # m) new_map n =
     (if is_sensitive_key key
      then redact_json_entries x rs m (obj_insert key (JString REDACTED) new_map) (n + 1)
      else (case val of
              JString str_val \<Rightarrow>
                if rs
                then (let ((redacted_str, redaction_count), n') = redact_string_values x str_val n
                      in redact_json_entries x rs m (obj_insert key (JString redacted_str) new_map)
                           (n' + redaction_count))
                else redact_json_entries x rs m (obj_insert key val new_map) n
            | _ \<Rightarrow>
                (let (val', n') = redact_json_value x rs val n
                 in redact_json_entries x rs m (obj_insert key val' new_map) n')))"
| "redact_json_items x rs [] n = ([], n)"
| "redact_json_items x rs (v # vs) n =
     (let (v', n1) = redact_json_value x rs v n;
          (vs', n2) = redact_json_items x rs vs n1
      in (v' # vs', n2))"

text \<open>\<open>from_str\<close> and \<open>to_string\<close> are those of \<open>serde_json\<close>; either may fail.\<close>

definition redact_json ::
  "regex_ext \<Rightarrow> (string \<Rightarrow> json option) \<Rightarrow> (json \<Rightarrow> string option) \<Rightarrow> string \<Rightarrow> bool \<Rightarrow>
   redaction_result" where
  "redact_json x from_str to_str input rs =
     (if input = [] then \<lparr>rr_redacted = input, rr_redaction_count = 0\<rparr>
      else (case from_str input of
              Some val \<Rightarrow>
                (let (redacted, n) = redact_json_value x rs val 0
                 in \<lparr>rr_redacted = unwrap_or input (to_str redacted), rr_redaction_count = n\<rparr>)
            | None \<Rightarrow>
                if rs
                then (let (result, redactions) = redact_sensitive_text x input
                      in \<lparr>rr_redacted = result, rr_redaction_count = redactions\<rparr>)
                else \<lparr>rr_redacted = input, rr_redaction_count = 0\<rparr>))"

definition redact_error_message :: "regex_ext \<Rightarrow> string \<Rightarrow> bool \<Rightarrow> redaction_result" where
  "redact_error_message x input rs =
     (if input = [] then \<lparr>rr_redacted = input, rr_redaction_count = 0\<rparr>
      else if \<not> rs then \<lparr>rr_redacted = input, rr_redaction_count = 0\<rparr>
      else (let (result, n) = redact_sensitive_text x input
            in \<lparr>rr_redacted = result, rr_redaction_count = n\<rparr>))"

section \<open>What masking URLs keeps and hides\<close>

definition secret_segment :: "string \<Rightarrow> bool" where
  "secret_segment segment =
     (case split_once CHR ''='' segment of
        Some (key, v) \<Rightarrow> is_sensitive_parameter key \<and> v \<noteq> []
      | None \<Rightarrow> False)"

lemma params_none:
  "from_char starts_parameter tail = [] \<Longrightarrow> redact_sensitive_parameters tail r = (tail, 0)"
  by (simp add: redact_sensitive_parameters.simps [of tail])

lemma params_miss:
  assumes "from_char starts_parameter tail = d # ks"
    and "\<not> secret_segment (before_char ends_parameter ks)"
  shows "redact_sensitive_parameters tail r =
           (before_char starts_parameter tail @ d # fst (redact_sensitive_parameters ks r),
            snd (redact_sensitive_parameters ks r))"
  using assms
  by (cases "split_once CHR ''='' (before_char ends_parameter ks)")
     (auto simp: redact_sensitive_parameters.simps [of tail] secret_segment_def Let_def
        case_prod_beta)

lemma params_hit:
  assumes "from_char starts_parameter tail = d # ks"
    and "split_once CHR ''='' (before_char ends_parameter ks) = Some (key, v)"
    and "is_sensitive_parameter key" and "v \<noteq> []"
  shows "redact_sensitive_parameters tail r =
           (before_char starts_parameter tail @ d # key @ ''='' @ r @
              fst (redact_sensitive_parameters (from_char ends_parameter ks) r),
            Suc (snd (redact_sensitive_parameters (from_char ends_parameter ks) r)))"
  using assms
  by (simp add: redact_sensitive_parameters.simps [of tail] Let_def case_prod_beta)

lemma params_unchanged:
  "snd (redact_sensitive_parameters tail r) = 0 \<Longrightarrow>
   fst (redact_sensitive_parameters tail r) = tail"
proof (induction "length tail" arbitrary: tail rule: less_induct)
  case less
  show ?case
  proof (cases "from_char starts_parameter tail")
    case Nil
    then show ?thesis by (simp add: params_none)
  next
    case (Cons d ks)
    have tail: "before_char starts_parameter tail @ d # ks = tail"
      using before_from_char [of starts_parameter tail] Cons by simp
    show ?thesis
    proof (cases "secret_segment (before_char ends_parameter ks)")
      case True
      then obtain key v where "split_once CHR ''='' (before_char ends_parameter ks) = Some (key, v)"
        "is_sensitive_parameter key" "v \<noteq> []"
        by (auto simp: secret_segment_def split: option.splits)
      from params_hit [OF Cons this, of r] less.prems show ?thesis by simp
    next
      case False
      with less.hyps [OF from_char_Cons [OF Cons]] less.prems tail show ?thesis
        by (simp add: params_miss [OF Cons False])
    qed
  qed
qed

lemma url_unchanged: "redact_url_remainder s r = (out0, 0) \<Longrightarrow> out0 = s"
  using before_from_char [of ends_authority s] params_unchanged [of "from_char ends_authority s" r]
  by (cases "redact_sensitive_parameters (from_char ends_authority s) r")
     (auto simp: redact_url_remainder_def Let_def split: option.splits if_splits)

lemma uris_unchanged: "redact_uris seen s r = (out0, 0) \<Longrightarrow> out0 = s"
proof (induction seen s r arbitrary: out0 rule: redact_uris.induct)
  case (1 seen s r)
  show ?case
  proof (cases "split_at_sub ''://'' s")
    case None
    with "1.prems" show ?thesis by (simp add: redact_uris.simps [of seen s])
  next
    case (Some pp)
    obtain pre post where pp: "pp = (pre, post)" by fastforce
    then have s: "s = pre @ ''://'' @ post" using Some split_at_sub_Some by blast
    show ?thesis
    proof (cases "has_scheme_before (seen @ pre)")
      case False
      obtain out n where o: "redact_uris (seen @ pre @ ''://'') post r = (out, n)" by fastforce
      with "1.prems" Some pp False have "n = 0" "out0 = pre @ ''://'' @ out"
        by (simp_all add: redact_uris.simps [of seen s])
      with "1.IH"(1) [OF Some pp [symmetric] False] o s show ?thesis by simp
    next
      case True
      let ?url = "before_char is_url_terminator post"
      let ?rest = "from_char is_url_terminator post"
      obtain u m where u: "redact_url_remainder ?url r = (u, m)" by fastforce
      obtain out n where o: "redact_uris (seen @ pre @ ''://'' @ ?url) ?rest r = (out, n)"
        by fastforce
      from "1.prems" Some pp True u o have "m = 0" "n = 0" "out0 = pre @ ''://'' @ u @ out"
        by (simp_all add: redact_uris.simps [of seen s])
      with "1.IH"(2) [OF Some pp [symmetric] _ refl refl u [symmetric] refl] True o u
      show ?thesis using s before_from_char [of is_url_terminator post] url_unchanged [of ?url r u]
        by simp
    qed
  qed
qed







section \<open>What redacting JSON keeps and hides\<close>

text \<open>
  \<open>forget_secrets\<close> forgets the values under sensitive keys, at any depth, and nothing else;
  \<open>json_clean\<close> says that none is left.
\<close>

fun forget_secrets :: "json \<Rightarrow> json" where
  "forget_secrets (JObject m) =
     JObject (map (\<lambda>(k, v). (k, if is_sensitive_key k then JNull else forget_secrets v)) m)"
| "forget_secrets (JArray vs) = JArray (map forget_secrets vs)"
| "forget_secrets v = v"

fun json_clean :: "json \<Rightarrow> bool" where
  "json_clean (JObject m) \<longleftrightarrow>
     (\<forall>(k, v) \<in> set m. if is_sensitive_key k then v = JString REDACTED else json_clean v)"
| "json_clean (JArray vs) \<longleftrightarrow> (\<forall>v \<in> set vs. json_clean v)"
| "json_clean _ \<longleftrightarrow> True"

lemma json_clean_insert:
  assumes "json_clean (JObject m)" and "if is_sensitive_key k then v = JString REDACTED else json_clean v"
  shows "json_clean (JObject (obj_insert k v m))"
  using assms bt_insert_subset [of k v m] by (auto split: if_splits)

lemma redact_json_clean:
  "json_clean (fst (redact_json_value x rs v n))"
  "json_clean (JObject new_map) \<Longrightarrow>
     json_clean (JObject (fst (redact_json_entries x rs m new_map n)))"
  "json_clean (JArray (fst (redact_json_items x rs vs n)))"
proof (induction x rs v n and x rs m new_map n and x rs vs n
    rule: redact_json_value_redact_json_entries_redact_json_items.induct)
  case (1 x rs m n)
  then show ?case by (simp add: case_prod_beta del: json_clean.simps(1)) simp
next
  case (5 x rs key val m new_map n)
  show ?case
  proof (cases "is_sensitive_key key")
    case True
    with 5 show ?thesis by (simp add: json_clean_insert del: json_clean.simps(1))
  next
    case False
    show ?thesis
    proof (cases "\<exists>t. val = JString t")
      case True
      with 5 False show ?thesis
        by (auto simp: json_clean_insert redact_string_values_def
            simp del: json_clean.simps(1) split: prod.splits)
    next
      case other: False
      from 5 False other show ?thesis
        by (cases val)
           (auto simp: json_clean_insert simp del: json_clean.simps(1) split: prod.splits)
    qed
  qed
next
  case (7 x rs v vs n)
  obtain v' n' where v': "redact_json_value x rs v n = (v', n')" by fastforce
  obtain vs' n'' where "redact_json_items x rs vs n' = (vs', n'')" by fastforce
  with 7 v' show ?case by auto
qed (simp_all add: case_prod_beta)

abbreviation forget_entry :: "string \<times> json \<Rightarrow> string \<times> json" where
  "forget_entry \<equiv> \<lambda>(k, v). (k, if is_sensitive_key k then JNull else forget_secrets v)"

lemma redact_json_forget:
  "redact_json_value x rs (forget_secrets v) n = redact_json_value x rs v n"
  "redact_json_entries x rs (map forget_entry m) new_map n = redact_json_entries x rs m new_map n"
  "redact_json_items x rs (map forget_secrets vs) n = redact_json_items x rs vs n"
proof (induction x rs v n and x rs m new_map n and x rs vs n
    rule: redact_json_value_redact_json_entries_redact_json_items.induct)
  case (5 x rs key val m new_map n)
  then show ?case
    by (cases "is_sensitive_key key"; cases val)
       (auto simp: redact_string_values_def split: prod.splits)
qed (auto split: prod.splits)

section \<open>Properties\<close>






text \<open>
  Masking URLs changes nothing it does not count: when the number of replaced
  values is zero the text comes back unchanged.
\<close>

lemma redact_uri_unchanged:
  assumes "snd (redact_uri_credentials s r) = 0"
  shows "fst (redact_uri_credentials s r) = s"
  using assms uris_unchanged [of "[]" s r "fst (redact_uri_credentials s r)"]
  unfolding redact_uri_credentials_def by (metis prod.collapse)


text \<open>
  C27. Redacting JSON details replaces the value of every sensitive key, at any
  depth and whether or not pattern redaction is on, and the result and the count
  depend on the input only up to those values.
\<close>

theorem redact_json_hides_secrets:
  "json_clean (fst (redact_json_value x rs v n)) \<and>
   (forget_secrets v = forget_secrets w \<longrightarrow>
      redact_json_value x rs v n = redact_json_value x rs w n)"
  using redact_json_clean(1) redact_json_forget(1) by metis

definition no_regex :: regex_ext where
  "no_regex = \<lparr>rx_count = (\<lambda>_. None), rx_replace_all = (\<lambda>_. None)\<rparr>"

lemma sample_keys:
  "is_sensitive_key ''Password''" "\<not> is_sensitive_key ''user''"
  by code_simp+

theorem redact_json_hides_secrets_witness:
  "redact_json_value no_regex False
     (JObject [(''Password'', JString ''a''), (''user'', JString ''u'')]) 0 =
   redact_json_value no_regex False
     (JObject [(''Password'', JArray [JNull]), (''user'', JString ''u'')]) 0 \<and>
   json_clean (fst (redact_json_value no_regex False
     (JObject [(''Password'', JString ''a''), (''user'', JString ''u'')]) 0))"
proof -
  have "forget_secrets (JObject [(''Password'', JString ''a''), (''user'', JString ''u'')]) =
      forget_secrets (JObject [(''Password'', JArray [JNull]), (''user'', JString ''u'')])"
    by (simp add: sample_keys)
  with redact_json_hides_secrets show ?thesis by blast
qed

text \<open>
  A string under an ordinary key counts its redactions twice, once in
  \<open>redact_string_values\<close> and once in its caller, and a string that is an array
  element is never looked at.
\<close>

lemma redaction_counted_twice:
  assumes "\<not> is_sensitive_key key" and "redact_sensitive_text x s = (t, k)"
  shows "redact_json_value x True (JObject [(key, JString s)]) 0 =
           (JObject [(key, JString t)], 2 * k)"
  using assms by (simp add: redact_string_values_def)

lemma array_strings_not_redacted:
  "redact_json_value x rs (JArray (map JString ss)) n = (JArray (map JString ss), n)"
proof -
  have "redact_json_items x rs (map JString ss) n = (map JString ss, n)"
    by (induction ss arbitrary: n) simp_all
  then show ?thesis by simp
qed

end
