(* ===== verification/Audit_Store.thy ===== *)
theory Audit_Store
  imports Events
begin

text \<open>
  The audit repository (\<open>dbflux_storage/src/repositories/audit.rs\<close>) and the store
  on top of it (\<open>dbflux_audit/src/store/sqlite.rs\<close>, \<open>purge.rs\<close>): rows of
  \<open>aud_audit_events\<close>, the legacy projections of action and outcome, the \<open>WHERE\<close>
  clause with its bound values, appending, deleting in batches and the purge loop. Whether
  SQLite accepts the statement that deletes a batch depends on how it was built.
  The table is the list of its rows. SQLite's part (the row identifier and the
  default \<open>created_at\<close> of an insert, its errors, the answer to a query text) is the
  record \<open>audit_db_ext\<close>.
\<close>

section \<open>Rows\<close>

record audit_event_dto =
  dt_id :: int
  dt_actor_id :: string
  dt_tool_id :: string
  dt_decision :: string
  dt_reason :: "string option"
  dt_profile_id :: "string option"
  dt_classification :: "string option"
  dt_duration_ms :: "int option"
  dt_created_at :: string
  dt_created_at_epoch_ms :: int
  dt_level :: "string option"
  dt_category :: "string option"
  dt_action :: "string option"
  dt_outcome :: "string option"
  dt_actor_type :: "string option"
  dt_source_id :: "string option"
  dt_summary :: "string option"
  dt_connection_id :: "string option"
  dt_database_name :: "string option"
  dt_driver_id :: "string option"
  dt_object_type :: "string option"
  dt_object_id :: "string option"
  dt_details_json :: "string option"
  dt_error_code :: "string option"
  dt_error_message :: "string option"
  dt_session_id :: "string option"
  dt_correlation_id :: "string option"

record append_audit_event_extended =
  ap_actor_id :: string
  ap_tool_id :: string
  ap_decision :: string
  ap_reason :: "string option"
  ap_profile_id :: "string option"
  ap_classification :: "string option"
  ap_duration_ms :: "int option"
  ap_created_at_epoch_ms :: int
  ap_level :: "string option"
  ap_category :: "string option"
  ap_action :: "string option"
  ap_outcome :: "string option"
  ap_actor_type :: "string option"
  ap_source_id :: "string option"
  ap_summary :: "string option"
  ap_connection_id :: "string option"
  ap_database_name :: "string option"
  ap_driver_id :: "string option"
  ap_object_type :: "string option"
  ap_object_id :: "string option"
  ap_details_json :: "string option"
  ap_error_code :: "string option"
  ap_error_message :: "string option"
  ap_session_id :: "string option"
  ap_correlation_id :: "string option"

definition project_legacy_tool_id :: "string option \<Rightarrow> string option \<Rightarrow> string" where
  "project_legacy_tool_id action tool_id =
     (case opt_filter (\<lambda>v. v \<noteq> []) action of
        Some a \<Rightarrow>
          if a = ''mcp_approve_execution'' then ''approve_execution''
          else if a = ''mcp_reject_execution'' then ''reject_execution''
          else a
      | None \<Rightarrow> unwrap_or [] tool_id)"

definition project_legacy_decision ::
  "string option \<Rightarrow> string option \<Rightarrow> string option \<Rightarrow> string" where
  "project_legacy_decision action outcome decision =
     (case (opt_filter (\<lambda>v. v \<noteq> []) action, opt_filter (\<lambda>v. v \<noteq> []) outcome) of
        (a, Some out) \<Rightarrow>
          if a = Some ''mcp_approve_execution'' \<and> out = ''success'' then ''allow''
          else if a = Some ''mcp_reject_execution'' \<and> out = ''failure'' then ''deny''
          else if out = ''cancelled'' then ''failure''
          else if out = ''pending'' then ''failure''
          else out
      | (_, None) \<Rightarrow> unwrap_or [] decision)"

definition legacy_tool_id :: "audit_event_dto \<Rightarrow> string" where
  "legacy_tool_id d = project_legacy_tool_id (dt_action d) (Some (dt_tool_id d))"

definition legacy_decision :: "audit_event_dto \<Rightarrow> string" where
  "legacy_decision d =
     project_legacy_decision (dt_action d) (dt_outcome d) (Some (dt_decision d))"

section \<open>Filters\<close>

record storage_filter =
  sf_id :: "int option"
  sf_actor_id :: "string option"
  sf_tool_id :: "string option"
  sf_decision :: "string option"
  sf_profile_id :: "string option"
  sf_classification :: "string option"
  sf_start_epoch_ms :: "int option"
  sf_end_epoch_ms :: "int option"
  sf_limit :: "nat option"
  sf_offset :: "nat option"
  sf_level :: "string option"
  sf_levels :: "string list option"
  sf_category :: "string option"
  sf_action :: "string option"
  sf_categories :: "string list option"
  sf_source_id :: "string option"
  sf_outcome :: "string option"
  sf_outcomes :: "string list option"
  sf_connection_id :: "string option"
  sf_driver_id :: "string option"
  sf_actor_type :: "string option"
  sf_object_type :: "string option"
  sf_free_text :: "string option"
  sf_correlation_id :: "string option"
  sf_session_id :: "string option"

definition storage_filter_default :: storage_filter where
  "storage_filter_default =
     \<lparr>sf_id = None, sf_actor_id = None, sf_tool_id = None, sf_decision = None,
      sf_profile_id = None, sf_classification = None, sf_start_epoch_ms = None,
      sf_end_epoch_ms = None, sf_limit = None, sf_offset = None, sf_level = None,
      sf_levels = None, sf_category = None, sf_action = None, sf_categories = None,
      sf_source_id = None, sf_outcome = None, sf_outcomes = None, sf_connection_id = None,
      sf_driver_id = None, sf_actor_type = None, sf_object_type = None, sf_free_text = None,
      sf_correlation_id = None, sf_session_id = None\<rparr>"

text \<open>A value bound to a placeholder (\<open>Box<dyn ToSql>\<close>).\<close>

datatype sql_value = SqlInt int | SqlText string

definition canonical_tool_alias :: "string \<Rightarrow> string option" where
  "canonical_tool_alias tool_id =
     (if tool_id = ''approve_execution'' then Some ''mcp_approve_execution''
      else if tool_id = ''reject_execution'' then Some ''mcp_reject_execution''
      else if tool_id = ''mcp_approve_execution'' then Some ''approve_execution''
      else if tool_id = ''mcp_reject_execution'' then Some ''reject_execution''
      else None)"

definition canonical_decision_alias :: "string \<Rightarrow> string option" where
  "canonical_decision_alias decision =
     (if decision = ''allow'' then Some ''success''
      else if decision = ''success'' then Some ''allow''
      else if decision = ''deny'' then Some ''failure''
      else if decision = ''failure'' then Some ''deny''
      else None)"

text \<open>One condition of the clause with the values it binds.\<close>

type_synonym condition = "string \<times> sql_value list"

definition text_condition :: "string \<Rightarrow> string option \<Rightarrow> condition list" where
  "text_condition cond field =
     (case field of None \<Rightarrow> [] | Some v \<Rightarrow> [(cond, [SqlText v])])"

definition int_condition :: "string \<Rightarrow> int option \<Rightarrow> condition list" where
  "int_condition cond field =
     (case field of None \<Rightarrow> [] | Some v \<Rightarrow> [(cond, [SqlInt v])])"

definition tool_condition :: "string option \<Rightarrow> condition list" where
  "tool_condition field =
     (case field of
        None \<Rightarrow> []
      | Some tool_id \<Rightarrow>
          (case canonical_tool_alias tool_id of
             Some alias \<Rightarrow>
               [(''(tool_id = ? OR action = ? OR tool_id = ? OR action = ?)'',
                 [SqlText tool_id, SqlText tool_id, SqlText alias, SqlText alias])]
           | None \<Rightarrow>
               [(''(tool_id = ? OR action = ?)'', [SqlText tool_id, SqlText tool_id])]))"

definition DENY_CONDITION :: string where
  "DENY_CONDITION =
     ''(decision = ? OR ((decision = ? OR outcome = ?) AND (COALESCE(tool_id, '' @
     [CHR 0x27, CHR 0x27] @ '') IN (?, ?) OR COALESCE(action, '' @ [CHR 0x27, CHR 0x27] @
     '') IN (?, ?))))''"

definition ALLOW_CONDITION :: string where
  "ALLOW_CONDITION =
     ''(decision = ? OR ((outcome = ? OR decision = ?) AND (COALESCE(tool_id, '' @
     [CHR 0x27, CHR 0x27] @ '') IN (?, ?) OR COALESCE(action, '' @ [CHR 0x27, CHR 0x27] @
     '') IN (?, ?))))''"

definition FAILURE_CONDITION :: string where
  "FAILURE_CONDITION =
     ''(decision = ? OR (outcome = ? AND COALESCE(tool_id, '' @ [CHR 0x27, CHR 0x27] @
     '') NOT IN (?, ?) AND COALESCE(action, '' @ [CHR 0x27, CHR 0x27] @ '') NOT IN (?, ?)))''"

definition decision_condition :: "string option \<Rightarrow> condition list" where
  "decision_condition field =
     (case field of
        None \<Rightarrow> []
      | Some decision \<Rightarrow>
          if decision = ''deny''
          then [(DENY_CONDITION,
                 map SqlText [decision, ''failure'', ''failure'', ''reject_execution'',
                   ''mcp_reject_execution'', ''reject_execution'', ''mcp_reject_execution''])]
          else if decision = ''allow''
          then [(ALLOW_CONDITION,
                 map SqlText [decision, ''success'', ''success'', ''approve_execution'',
                   ''mcp_approve_execution'', ''approve_execution'', ''mcp_approve_execution''])]
          else if decision = ''failure''
          then [(FAILURE_CONDITION,
                 map SqlText [decision, decision, ''reject_execution'',
                   ''mcp_reject_execution'', ''reject_execution'', ''mcp_reject_execution''])]
          else (case canonical_decision_alias decision of
                  Some alias \<Rightarrow>
                    [(''(decision = ? OR outcome = ? OR decision = ? OR outcome = ?)'',
                      map SqlText [decision, decision, alias, alias])]
                | None \<Rightarrow>
                    [(''(decision = ? OR outcome = ?)'', map SqlText [decision, decision])]))"

text \<open>A list filter takes precedence over the single value when it is not empty.\<close>

definition list_condition ::
  "string \<Rightarrow> string list option \<Rightarrow> string option \<Rightarrow> condition list" where
  "list_condition column many single =
     (if is_some_and many (\<lambda>vs. vs \<noteq> [])
      then (let vs = the many
            in [(column @ '' IN ('' @ join '', '' (map (\<lambda>_. ''?'') vs) @ '')'', map SqlText vs)])
      else text_condition (column @ '' = ?'') single)"

definition FREE_TEXT_COLUMNS :: "string list" where
  "FREE_TEXT_COLUMNS =
     [''summary'', ''action'', ''error_message'', ''details_json'', ''driver_id'',
      ''database_name'', ''connection_id'', ''object_id'']"

definition free_text_condition :: "string option \<Rightarrow> condition list" where
  "free_text_condition field =
     (case field of
        None \<Rightarrow> []
      | Some free_text \<Rightarrow>
          [(''('' @ join '' OR '' (map (\<lambda>column. column @ '' LIKE ?'') FREE_TEXT_COLUMNS) @ '')'',
            map (\<lambda>_. SqlText (''%'' @ free_text @ ''%'')) FREE_TEXT_COLUMNS)])"

definition filter_conditions :: "storage_filter \<Rightarrow> condition list" where
  "filter_conditions f =
     int_condition ''id = ?'' (sf_id f) @
     text_condition ''actor_id = ?'' (sf_actor_id f) @
     tool_condition (sf_tool_id f) @
     decision_condition (sf_decision f) @
     text_condition ''profile_id = ?'' (sf_profile_id f) @
     text_condition ''classification = ?'' (sf_classification f) @
     int_condition ''created_at_epoch_ms >= ?'' (sf_start_epoch_ms f) @
     int_condition ''created_at_epoch_ms <= ?'' (sf_end_epoch_ms f) @
     list_condition ''level'' (sf_levels f) (sf_level f) @
     text_condition ''action = ?'' (sf_action f) @
     list_condition ''category'' (sf_categories f) (sf_category f) @
     text_condition ''source_id = ?'' (sf_source_id f) @
     list_condition ''outcome'' (sf_outcomes f) (sf_outcome f) @
     text_condition ''connection_id = ?'' (sf_connection_id f) @
     text_condition ''driver_id = ?'' (sf_driver_id f) @
     text_condition ''actor_type = ?'' (sf_actor_type f) @
     text_condition ''object_type = ?'' (sf_object_type f) @
     text_condition ''correlation_id = ?'' (sf_correlation_id f) @
     text_condition ''session_id = ?'' (sf_session_id f) @
     free_text_condition (sf_free_text f)"

definition build_where_clause :: "storage_filter \<Rightarrow> string \<times> sql_value list" where
  "build_where_clause f =
     (let conditions = map fst (filter_conditions f);
          values = concat (map snd (filter_conditions f));
          where_clause = (if conditions = [] then [] else '' WHERE '' @ join '' AND '' conditions)
      in (where_clause, values))"

section \<open>The repository\<close>

datatype repository_error =
    RepoSqlite string
  | RepoNotFound string
  | RepoValidation string
  | RepoSerialization string

text \<open>
  What SQLite does: an insert gives the identifier and the default \<open>created_at\<close> of
  the new row; a query text with its values gives rows; the batched \<open>DELETE\<close> gives
  the rows it leaves. \<open>adb_now_rfc3339\<close> is the clock read after an insert.
\<close>

datatype try_lock = LockAcquired | LockWouldBlock | LockPoisoned

record audit_db_ext =
  adb_lock_error :: "string option"
  adb_try_lock :: try_lock
  adb_insert ::
    "append_audit_event_extended \<Rightarrow> audit_event_dto list \<Rightarrow> (string, int \<times> string) result"
  adb_now_rfc3339 :: string
  adb_select ::
    "string \<Rightarrow> sql_value list \<Rightarrow> audit_event_dto list \<Rightarrow> (string, audit_event_dto list) result"
  adb_count :: "string \<Rightarrow> sql_value list \<Rightarrow> audit_event_dto list \<Rightarrow> (string, int) result"
  adb_aggregate ::
    "string \<Rightarrow> sql_value list \<Rightarrow> audit_event_dto list \<Rightarrow>
     (string, (int \<times> string \<times> int) list) result"
  adb_delete :: "int \<Rightarrow> int \<Rightarrow> audit_event_dto list \<Rightarrow> (string, audit_event_dto list) result"
  adb_clear_error :: "string option"

definition dto_of_append ::
  "int \<Rightarrow> string \<Rightarrow> append_audit_event_extended \<Rightarrow> audit_event_dto" where
  "dto_of_append row_id created_at ev =
     \<lparr>dt_id = row_id, dt_actor_id = ap_actor_id ev, dt_tool_id = ap_tool_id ev,
      dt_decision = ap_decision ev, dt_reason = ap_reason ev, dt_profile_id = ap_profile_id ev,
      dt_classification = ap_classification ev, dt_duration_ms = ap_duration_ms ev,
      dt_created_at = created_at, dt_created_at_epoch_ms = ap_created_at_epoch_ms ev,
      dt_level = ap_level ev, dt_category = ap_category ev, dt_action = ap_action ev,
      dt_outcome = ap_outcome ev, dt_actor_type = ap_actor_type ev,
      dt_source_id = ap_source_id ev, dt_summary = ap_summary ev,
      dt_connection_id = ap_connection_id ev, dt_database_name = ap_database_name ev,
      dt_driver_id = ap_driver_id ev, dt_object_type = ap_object_type ev,
      dt_object_id = ap_object_id ev, dt_details_json = ap_details_json ev,
      dt_error_code = ap_error_code ev, dt_error_message = ap_error_message ev,
      dt_session_id = ap_session_id ev, dt_correlation_id = ap_correlation_id ev\<rparr>"

definition append_extended ::
  "audit_db_ext \<Rightarrow> append_audit_event_extended \<Rightarrow> audit_event_dto list \<Rightarrow>
   audit_event_dto list \<times> (repository_error, audit_event_dto) result" where
  "append_extended x ev rows =
     (case adb_lock_error x of
        Some e \<Rightarrow> (rows, Err (RepoSqlite e))
      | None \<Rightarrow>
          (case adb_insert x ev rows of
             Inl e \<Rightarrow> (rows, Err (RepoSqlite e))
           | Inr (row_id, created_at) \<Rightarrow>
               (rows @ [dto_of_append row_id created_at ev],
                Ok (dto_of_append row_id (adb_now_rfc3339 x) ev))))"

definition SELECT_COLUMNS :: string where
  "SELECT_COLUMNS =
     ''SELECT id, actor_id, tool_id, decision, reason, profile_id, classification, duration_ms, '' @
     ''created_at, created_at_epoch_ms, level, category, action, outcome, actor_type, source_id, '' @
     ''summary, connection_id, database_name, driver_id, object_type, object_id, '' @
     ''details_json, error_code, error_message, session_id, correlation_id '' @
     ''FROM aud_audit_events''"

definition query_sql :: "storage_filter \<Rightarrow> string" where
  "query_sql f =
     SELECT_COLUMNS @ fst (build_where_clause f) @
     '' ORDER BY created_at_epoch_ms DESC, id DESC'' @
     (case sf_limit f of Some n \<Rightarrow> '' LIMIT '' @ show_nat n | None \<Rightarrow> []) @
     (case sf_offset f of
        Some n \<Rightarrow> (if sf_limit f = None then '' LIMIT -1'' else []) @ '' OFFSET '' @ show_nat n
      | None \<Rightarrow> [])"

definition repo_query ::
  "audit_db_ext \<Rightarrow> storage_filter \<Rightarrow> audit_event_dto list \<Rightarrow>
   (repository_error, audit_event_dto list) result" where
  "repo_query x f rows =
     (case adb_lock_error x of
        Some e \<Rightarrow> Err (RepoSqlite e)
      | None \<Rightarrow> map_err RepoSqlite (adb_select x (query_sql f) (snd (build_where_clause f)) rows))"

definition count_filtered ::
  "audit_db_ext \<Rightarrow> storage_filter \<Rightarrow> audit_event_dto list \<Rightarrow> (repository_error, int) result" where
  "count_filtered x f rows =
     (case adb_lock_error x of
        Some e \<Rightarrow> Err (RepoSqlite e)
      | None \<Rightarrow>
          (let (where_clause, values) = build_where_clause f;
               sql = ''SELECT COUNT(*) FROM aud_audit_events'' @ where_clause
           in map_err RepoSqlite (adb_count x sql values rows)))"

definition audit_count ::
  "audit_db_ext \<Rightarrow> audit_event_dto list \<Rightarrow> (repository_error, int) result" where
  "audit_count x rows = count_filtered x storage_filter_default rows"

definition audit_clear ::
  "audit_db_ext \<Rightarrow> audit_event_dto list \<Rightarrow>
   audit_event_dto list \<times> (repository_error, unit) result" where
  "audit_clear x rows =
     (case adb_lock_error x of
        Some e \<Rightarrow> (rows, Err (RepoSqlite e))
      | None \<Rightarrow>
          (case adb_clear_error x of
             Some e \<Rightarrow> (rows, Err (RepoSqlite e))
           | None \<Rightarrow> ([], Ok ())))"

definition delete_older_than ::
  "audit_db_ext \<Rightarrow> int \<Rightarrow> nat \<Rightarrow> audit_event_dto list \<Rightarrow>
   audit_event_dto list \<times> (repository_error, int) result" where
  "delete_older_than x cutoff_ms limit rows =
     (case adb_lock_error x of
        Some e \<Rightarrow> (rows, Err (RepoSqlite e))
      | None \<Rightarrow>
          (case adb_delete x cutoff_ms (wrap_i64 (int limit)) rows of
             Inl e \<Rightarrow> (rows, Err (RepoSqlite e))
           | Inr left \<Rightarrow> (left, Ok (int (length rows - length left)))))"

definition find_by_id ::
  "audit_db_ext \<Rightarrow> int \<Rightarrow> audit_event_dto list \<Rightarrow>
   (repository_error, audit_event_dto option) result" where
  "find_by_id x i rows =
     and_then (repo_query x (storage_filter_default\<lparr>sf_id := Some i\<rparr>) rows) (\<lambda>events.
       case events of [] \<Rightarrow> Ok None | e # _ \<Rightarrow> Ok (Some e))"

definition try_record_panic ::
  "audit_db_ext \<Rightarrow> append_audit_event_extended \<Rightarrow> audit_event_dto list \<Rightarrow>
   audit_event_dto list \<times> (repository_error, int option) result" where
  "try_record_panic x ev rows =
     (case adb_try_lock x of
        LockAcquired \<Rightarrow>
          (case adb_insert x ev rows of
             Inl e \<Rightarrow> (rows, Err (RepoSqlite e))
           | Inr (row_id, created_at) \<Rightarrow>
               (rows @ [dto_of_append row_id created_at ev], Ok (Some row_id)))
      | LockWouldBlock \<Rightarrow> (rows, Ok None)
      | LockPoisoned \<Rightarrow> (rows, Ok None))"

datatype audit_group_column = GroupCategory | GroupOutcome | GroupLevel

fun group_column_name :: "audit_group_column \<Rightarrow> string" where
  "group_column_name GroupCategory = ''category''"
| "group_column_name GroupOutcome = ''outcome''"
| "group_column_name GroupLevel = ''level''"

record audit_aggregate_params =
  ag_bucket_ms :: int
  ag_group_by :: audit_group_column
  ag_filter :: storage_filter

definition aggregate_sql :: "audit_aggregate_params \<Rightarrow> string" where
  "aggregate_sql ps =
     ''SELECT (created_at_epoch_ms / ?) * ? AS bucket_ms, COALESCE('' @
     group_column_name (ag_group_by ps) @ '', '' @ [CHR 0x27] @ ''unknown'' @ [CHR 0x27] @
     '') AS group_label, COUNT(*) AS count FROM aud_audit_events'' @
     fst (build_where_clause (ag_filter ps)) @
     '' GROUP BY bucket_ms, group_label ORDER BY bucket_ms ASC, group_label ASC''"

definition repo_aggregate ::
  "audit_db_ext \<Rightarrow> audit_aggregate_params \<Rightarrow> audit_event_dto list \<Rightarrow>
   (repository_error, (int \<times> string \<times> int) list) result" where
  "repo_aggregate x ps rows =
     (if ag_bucket_ms ps \<le> 0
      then Err (RepoValidation (''bucket_ms must be > 0, got '' @ show_int (ag_bucket_ms ps)))
      else
        (case adb_lock_error x of
           Some e \<Rightarrow> Err (RepoSqlite e)
         | None \<Rightarrow>
             map_err RepoSqlite
               (adb_aggregate x (aggregate_sql ps)
                  ([SqlInt (ag_bucket_ms ps), SqlInt (ag_bucket_ms ps)] @
                   snd (build_where_clause (ag_filter ps))) rows)))"

section \<open>The store\<close>

datatype audit_error =
    AuSqlite string
  | AuSerialization string
  | AuIo string
  | AuConfigDirUnavailable
  | AuEventSink event_sink_error
  | AuNotFound string
  | AuValidation string

fun to_audit_error :: "repository_error \<Rightarrow> audit_error" where
  "to_audit_error (RepoSqlite e) = AuSqlite e"
| "to_audit_error (RepoNotFound msg) = AuNotFound msg"
| "to_audit_error (RepoValidation msg) = AuValidation msg"
| "to_audit_error (RepoSerialization _) = AuSqlite ''Query is not read-only''"

record audit_query_filter =
  qf_actor_id :: "string option"
  qf_tool_id :: "string option"
  qf_decision :: "string option"
  qf_start_epoch_ms :: "int option"
  qf_end_epoch_ms :: "int option"
  qf_limit :: "nat option"
  qf_level :: "string option"
  qf_category :: "string option"
  qf_action :: "string option"
  qf_source_id :: "string option"
  qf_outcome :: "string option"
  qf_object_type :: "string option"
  qf_free_text :: "string option"
  qf_correlation_id :: "string option"

definition to_storage_filter :: "audit_query_filter \<Rightarrow> storage_filter" where
  "to_storage_filter f =
     \<lparr>sf_id = None, sf_actor_id = qf_actor_id f, sf_tool_id = qf_tool_id f,
      sf_decision = qf_decision f, sf_profile_id = None, sf_classification = None,
      sf_start_epoch_ms = qf_start_epoch_ms f, sf_end_epoch_ms = qf_end_epoch_ms f,
      sf_limit = qf_limit f, sf_offset = None, sf_level = qf_level f, sf_levels = None,
      sf_category = qf_category f, sf_action = qf_action f, sf_categories = None,
      sf_source_id = qf_source_id f, sf_outcome = qf_outcome f, sf_outcomes = None,
      sf_connection_id = None, sf_driver_id = None, sf_actor_type = None,
      sf_object_type = qf_object_type f, sf_free_text = qf_free_text f,
      sf_correlation_id = qf_correlation_id f, sf_session_id = None\<rparr>"

record audit_event =
  ae_id :: int
  ae_actor_id :: string
  ae_tool_id :: string
  ae_decision :: string
  ae_reason :: "string option"
  ae_created_at_epoch_ms :: int

definition audit_event_of_dto :: "audit_event_dto \<Rightarrow> audit_event" where
  "audit_event_of_dto d =
     \<lparr>ae_id = dt_id d, ae_actor_id = dt_actor_id d, ae_tool_id = legacy_tool_id d,
      ae_decision = legacy_decision d, ae_reason = dt_reason d,
      ae_created_at_epoch_ms = dt_created_at_epoch_ms d\<rparr>"

definition store_get ::
  "audit_db_ext \<Rightarrow> int \<Rightarrow> audit_event_dto list \<Rightarrow> (audit_error, audit_event option) result" where
  "store_get x i rows =
     and_then (map_err to_audit_error (find_by_id x i rows)) (\<lambda>dto.
       Ok (map_option audit_event_of_dto dto))"

definition store_get_extended ::
  "audit_db_ext \<Rightarrow> int \<Rightarrow> audit_event_dto list \<Rightarrow>
   (audit_error, audit_event_dto option) result" where
  "store_get_extended x i rows =
     (case find_by_id x i rows of
        Inr dto \<Rightarrow> Ok dto
      | Inl (RepoNotFound _) \<Rightarrow> Ok None
      | Inl e \<Rightarrow> Err (to_audit_error e))"

definition store_query_extended ::
  "audit_db_ext \<Rightarrow> audit_query_filter \<Rightarrow> audit_event_dto list \<Rightarrow>
   (audit_error, audit_event_dto list) result" where
  "store_query_extended x f rows =
     and_then (map_err to_audit_error (repo_query x (to_storage_filter f) rows)) (\<lambda>dtos.
       Ok (rev dtos))"

definition store_query ::
  "audit_db_ext \<Rightarrow> audit_query_filter \<Rightarrow> audit_event_dto list \<Rightarrow>
   (audit_error, audit_event list) result" where
  "store_query x f rows =
     and_then (map_err to_audit_error (repo_query x (to_storage_filter f) rows)) (\<lambda>dtos.
       Ok (map audit_event_of_dto (rev dtos)))"

definition projected_legacy_tool_id :: "event_record \<Rightarrow> string" where
  "projected_legacy_tool_id ev = project_legacy_tool_id (Some (ev_action ev)) None"

definition projected_legacy_decision :: "event_record \<Rightarrow> string" where
  "projected_legacy_decision ev =
     project_legacy_decision (Some (ev_action ev)) (Some (outcome_as_str (ev_outcome ev))) None"

definition append_of_event :: "event_record \<Rightarrow> append_audit_event_extended" where
  "append_of_event ev =
     \<lparr>ap_actor_id = unwrap_or ''system'' (ev_actor_id ev),
      ap_tool_id = projected_legacy_tool_id ev, ap_decision = projected_legacy_decision ev,
      ap_reason = (if ev_action ev = ''mcp_reject_execution'' then ev_error_message ev else None),
      ap_profile_id = None, ap_classification = None, ap_duration_ms = ev_duration_ms ev,
      ap_created_at_epoch_ms = ev_ts_ms ev, ap_level = Some (severity_as_str (ev_level ev)),
      ap_category = Some (category_as_str (ev_category ev)), ap_action = Some (ev_action ev),
      ap_outcome = Some (outcome_as_str (ev_outcome ev)),
      ap_actor_type = Some (actor_type_as_str (ev_actor_type ev)),
      ap_source_id = Some (source_id_as_str (ev_source_id ev)),
      ap_summary = Some (ev_summary ev), ap_connection_id = ev_connection_id ev,
      ap_database_name = ev_database_name ev, ap_driver_id = ev_driver_id ev,
      ap_object_type = ev_object_type ev, ap_object_id = ev_object_id ev,
      ap_details_json = ev_details_json ev, ap_error_code = ev_error_code ev,
      ap_error_message = ev_error_message ev, ap_session_id = ev_session_id ev,
      ap_correlation_id = ev_correlation_id ev\<rparr>"

definition append_of_panic :: "event_record \<Rightarrow> append_audit_event_extended" where
  "append_of_panic ev =
     \<lparr>ap_actor_id = unwrap_or ''system'' (ev_actor_id ev),
      ap_tool_id = projected_legacy_tool_id ev, ap_decision = projected_legacy_decision ev,
      ap_reason = None, ap_profile_id = None, ap_classification = None,
      ap_duration_ms = ev_duration_ms ev, ap_created_at_epoch_ms = ev_ts_ms ev,
      ap_level = Some (severity_as_str (ev_level ev)),
      ap_category = Some (category_as_str (ev_category ev)), ap_action = Some (ev_action ev),
      ap_outcome = Some (outcome_as_str (ev_outcome ev)),
      ap_actor_type = Some (actor_type_as_str (ev_actor_type ev)),
      ap_source_id = Some (source_id_as_str (ev_source_id ev)),
      ap_summary = Some (ev_summary ev), ap_connection_id = ev_connection_id ev,
      ap_database_name = ev_database_name ev, ap_driver_id = ev_driver_id ev,
      ap_object_type = ev_object_type ev, ap_object_id = ev_object_id ev,
      ap_details_json = ev_details_json ev, ap_error_code = ev_error_code ev,
      ap_error_message = ev_error_message ev, ap_session_id = ev_session_id ev,
      ap_correlation_id = ev_correlation_id ev\<rparr>"

definition store_record ::
  "audit_db_ext \<Rightarrow> event_record \<Rightarrow> audit_event_dto list \<Rightarrow>
   audit_event_dto list \<times> (audit_error, event_record) result" where
  "store_record x ev rows =
     (let (rows', r) = append_extended x (append_of_event ev) rows
      in (rows', case r of
                   Inl e \<Rightarrow> Err (to_audit_error e)
                 | Inr dto \<Rightarrow> Ok (ev\<lparr>ev_id := Some (dt_id dto)\<rparr>)))"

definition store_record_panic_best_effort ::
  "audit_db_ext \<Rightarrow> event_record \<Rightarrow> audit_event_dto list \<Rightarrow>
   audit_event_dto list \<times> (audit_error, event_record option) result" where
  "store_record_panic_best_effort x ev rows =
     (let (rows', r) = try_record_panic x (append_of_panic ev) rows
      in (rows', case r of
                   Inr (Some i) \<Rightarrow> Ok (Some (ev\<lparr>ev_id := Some i\<rparr>))
                 | Inr None \<Rightarrow> Ok None
                 | Inl _ \<Rightarrow> Ok None))"

definition store_aggregate ::
  "audit_db_ext \<Rightarrow> audit_aggregate_params \<Rightarrow> audit_event_dto list \<Rightarrow>
   (audit_error, (int \<times> string \<times> int) list) result" where
  "store_aggregate x ps rows = map_err to_audit_error (repo_aggregate x ps rows)"

definition store_delete_older_than ::
  "audit_db_ext \<Rightarrow> int \<Rightarrow> nat \<Rightarrow> audit_event_dto list \<Rightarrow>
   audit_event_dto list \<times> (audit_error, int) result" where
  "store_delete_older_than x cutoff_ms limit rows =
     (let (rows', r) = delete_older_than x cutoff_ms limit rows
      in (rows', map_err to_audit_error r))"

section \<open>Purging\<close>

record purge_stats =
  ps_deleted_count :: int
  ps_batches :: nat
  ps_duration_ms :: nat

text \<open>The clock is read in milliseconds since the epoch; the retention is whole seconds.\<close>

definition calculate_cutoff_ms :: "nat \<Rightarrow> nat \<Rightarrow> int" where
  "calculate_cutoff_ms now_ms retention_days =
     wrap_i64 (int (now_ms - 1000 * (60 * 60 * 24 * retention_days)))"

text \<open>
  The loop goes on while the batch was full, which a batch size outside the range
  of \<open>i64\<close> always is; a loop that does not end is the value \<open>None\<close>.
\<close>

partial_function (option) purge_loop ::
  "audit_db_ext \<Rightarrow> int \<Rightarrow> nat \<Rightarrow> int \<Rightarrow> nat \<Rightarrow> audit_event_dto list \<Rightarrow>
   (audit_event_dto list \<times> (audit_error, int \<times> nat) result) option" where
  "purge_loop x cutoff_ms batch_size total_deleted batches rows =
     (case store_delete_older_than x cutoff_ms batch_size rows of
        (rows', Inl e) \<Rightarrow> Some (rows', Err e)
      | (rows', Inr deleted) \<Rightarrow>
          (let total_deleted' = wrap_i64 (total_deleted + deleted);
               batches' = Suc batches
           in if deleted \<ge> wrap_i64 (int batch_size)
              then purge_loop x cutoff_ms batch_size total_deleted' batches' rows'
              else Some (rows', Ok (total_deleted', batches'))))"

definition purge_old_events ::
  "audit_db_ext \<Rightarrow> nat \<Rightarrow> nat \<Rightarrow> nat \<Rightarrow> nat \<Rightarrow> audit_event_dto list \<Rightarrow>
   (audit_event_dto list \<times> (audit_error, purge_stats) result) option" where
  "purge_old_events x now_ms elapsed_ms retention_days batch_size rows =
     (let cutoff_ms = calculate_cutoff_ms now_ms retention_days;
          batch_size' = max batch_size 1
      in case purge_loop x cutoff_ms batch_size' 0 0 rows of
           None \<Rightarrow> None
         | Some (rows', Inl e) \<Rightarrow> Some (rows', Err e)
         | Some (rows', Inr (total_deleted, batches)) \<Rightarrow>
             Some (rows', Ok \<lparr>ps_deleted_count = total_deleted, ps_batches = batches,
                              ps_duration_ms = elapsed_ms\<rparr>))"

section \<open>The clause binds what it mentions\<close>

definition balanced :: "condition \<Rightarrow> bool" where
  "balanced c \<longleftrightarrow> count_list (fst c) CHR ''?'' = length (snd c)"

lemma count_list_join:
  "count_list (join sep ss) c =
     sum_list (map (\<lambda>s. count_list s c) ss) + (length ss - 1) * count_list sep c"
  by (induction sep ss rule: join.induct) (simp_all add: algebra_simps)

lemma balanced_text: "count_list cond CHR ''?'' = 1 \<Longrightarrow> list_all balanced (text_condition cond v)"
  by (cases v) (simp_all add: text_condition_def balanced_def)

lemma balanced_int: "count_list cond CHR ''?'' = 1 \<Longrightarrow> list_all balanced (int_condition cond v)"
  by (cases v) (simp_all add: int_condition_def balanced_def)

lemma balanced_tool: "list_all balanced (tool_condition v)"
  by (auto simp: tool_condition_def balanced_def split: option.splits)

lemma balanced_decision: "list_all balanced (decision_condition v)"
  by (auto simp: decision_condition_def balanced_def DENY_CONDITION_def ALLOW_CONDITION_def
      FAILURE_CONDITION_def split: option.splits)

lemma balanced_list:
  assumes "count_list column CHR ''?'' = 0"
  shows "list_all balanced (list_condition column many single)"
proof -
  have "count_list (join '', '' (map (\<lambda>_. ''?'') vs)) CHR ''?'' = length vs" for vs :: "string list"
    by (simp add: count_list_join comp_def sum_list_triv)
  then show ?thesis
    using assms by (auto simp: list_condition_def balanced_def Let_def intro!: balanced_text)
qed

lemma balanced_free_text: "list_all balanced (free_text_condition v)"
  by (auto simp: free_text_condition_def balanced_def FREE_TEXT_COLUMNS_def split: option.splits)

lemma balanced_filter_conditions: "list_all balanced (filter_conditions f)"
  unfolding filter_conditions_def list_all_append
  by (intro conjI balanced_text balanced_int balanced_tool balanced_decision balanced_list
      balanced_free_text) simp_all

lemma balanced_concat:
  "list_all balanced cs \<Longrightarrow>
   sum_list (map (\<lambda>s. count_list s CHR ''?'') (map fst cs)) = length (concat (map snd cs))"
  by (induction cs) (simp_all add: balanced_def)

text \<open>
  \<open>blank\<close> forgets the texts of a filter, keeping which fields are set, how many
  values a list has, and the few tool and decision names the clause treats apart.
\<close>

definition blank :: "storage_filter \<Rightarrow> storage_filter" where
  "blank f =
     (let hide = map_option (\<lambda>_ :: string. []); hides = map_option (map (\<lambda>_ :: string. []))
      in f\<lparr>sf_id := map_option (\<lambda>_. 0) (sf_id f),
           sf_actor_id := hide (sf_actor_id f),
           sf_tool_id := map_option (\<lambda>t. if canonical_tool_alias t = None then [] else t) (sf_tool_id f),
           sf_decision := map_option (\<lambda>d. if canonical_decision_alias d = None then [] else d)
                            (sf_decision f),
           sf_profile_id := hide (sf_profile_id f),
           sf_classification := hide (sf_classification f),
           sf_start_epoch_ms := map_option (\<lambda>_. 0) (sf_start_epoch_ms f),
           sf_end_epoch_ms := map_option (\<lambda>_. 0) (sf_end_epoch_ms f),
           sf_level := hide (sf_level f), sf_levels := hides (sf_levels f),
           sf_category := hide (sf_category f), sf_categories := hides (sf_categories f),
           sf_action := hide (sf_action f), sf_source_id := hide (sf_source_id f),
           sf_outcome := hide (sf_outcome f), sf_outcomes := hides (sf_outcomes f),
           sf_connection_id := hide (sf_connection_id f), sf_driver_id := hide (sf_driver_id f),
           sf_actor_type := hide (sf_actor_type f), sf_object_type := hide (sf_object_type f),
           sf_free_text := hide (sf_free_text f),
           sf_correlation_id := hide (sf_correlation_id f),
           sf_session_id := hide (sf_session_id f)\<rparr>)"

lemma blank_conditions [simp]:
  "map fst (text_condition cond (map_option g v)) = map fst (text_condition cond v)"
  "map fst (int_condition cond (map_option h w)) = map fst (int_condition cond w)"
  "map fst (free_text_condition (map_option g v)) = map fst (free_text_condition v)"
  by (cases v; cases w; simp add: text_condition_def int_condition_def free_text_condition_def)+

lemma blank_list_condition [simp]:
  "map fst (list_condition column (map_option (map g) vs) (map_option h v)) =
   map fst (list_condition column vs v)"
  by (cases vs) (auto simp: list_condition_def Let_def comp_def)

lemma blank_tool_condition [simp]:
  "map fst (tool_condition (map_option (\<lambda>t. if canonical_tool_alias t = None then [] else t) v)) =
   map fst (tool_condition v)"
  by (cases v) (auto simp: tool_condition_def canonical_tool_alias_def)

lemma blank_decision_condition [simp]:
  "map fst (decision_condition
     (map_option (\<lambda>d. if canonical_decision_alias d = None then [] else d) v)) =
   map fst (decision_condition v)"
  by (cases v) (auto simp: decision_condition_def canonical_decision_alias_def)

lemma map_fst_filter_conditions_blank:
  "map fst (filter_conditions (blank f)) = map fst (filter_conditions f)"
  by (simp add: filter_conditions_def blank_def Let_def)

section \<open>Purging ends and removes only old rows\<close>

text \<open>
  What SQLite documents of \<open>DELETE ... WHERE created_at_epoch_ms < ? LIMIT ?\<close>: a
  build with the option \<open>SQLITE_ENABLE_UPDATE_DELETE_LIMIT\<close> deletes at most the
  limit of the rows selected when the statement succeeds; in a build without it the statement
  is a syntax error. The crate builds the bundled SQLite, which does not set the option.
\<close>

definition old_row :: "int \<Rightarrow> audit_event_dto \<Rightarrow> bool" where
  "old_row cutoff_ms r \<longleftrightarrow> dt_created_at_epoch_ms r < cutoff_ms"

definition delete_documented :: "bool \<Rightarrow> audit_db_ext \<Rightarrow> bool" where
  "delete_documented update_delete_limit x \<longleftrightarrow>
     (\<forall>cutoff_ms limit rows left. 0 \<le> limit \<and> adb_delete x cutoff_ms limit rows = Ok left \<longrightarrow>
        update_delete_limit \<and>
        filter (\<lambda>r. \<not> old_row cutoff_ms r) left = filter (\<lambda>r. \<not> old_row cutoff_ms r) rows \<and>
        length (filter (old_row cutoff_ms) left) =
          length (filter (old_row cutoff_ms) rows) - nat limit)"

text \<open>The message of a failure of the database while rows are deleted.\<close>

definition delete_fails :: "audit_db_ext \<Rightarrow> int \<Rightarrow> nat \<Rightarrow> string \<Rightarrow> bool" where
  "delete_fails x cutoff_ms batch e \<longleftrightarrow>
     adb_lock_error x = Some e \<or> (\<exists>rows. adb_delete x cutoff_ms (int batch) rows = Err e)"

lemma length_split: "length rows = length (filter P rows) + length (filter (\<lambda>r. \<not> P r) rows)"
  by (rule sum_length_filter_compl [symmetric])

lemma store_delete_cases:
  assumes "0 < batch" and "batch < 2 ^ 63"
  obtains (failed) e where "store_delete_older_than x cutoff batch rows = (rows, Err (to_audit_error (RepoSqlite e)))"
      and "delete_fails x cutoff batch e"
  | (deleted) left where "adb_delete x cutoff (int batch) rows = Ok left"
      and "store_delete_older_than x cutoff batch rows = (left, Ok (int (length rows - length left)))"
proof -
  have "wrap_i64 (int batch) = int batch"
    using assms by (intro wrap_signed_id) (auto simp: in_signed_def)
  then show thesis
    using failed deleted
    by (cases "adb_lock_error x"; cases "adb_delete x cutoff (int batch) rows")
       (auto simp: store_delete_older_than_def delete_older_than_def delete_fails_def)
qed

lemma purge_loop_spec:
  fixes rows :: "audit_event_dto list"
  assumes "delete_documented opt x" and "0 < batch" and "batch < 2 ^ 63"
    and "0 \<le> tot" and "tot + int (length rows) < 2 ^ 63"
  shows "\<exists>rows' r. purge_loop x cutoff batch tot batches rows = Some (rows', r) \<and>
    filter (\<lambda>r. \<not> old_row cutoff r) rows' = filter (\<lambda>r. \<not> old_row cutoff r) rows \<and>
    (case r of
       Inl e \<Rightarrow> \<exists>m. e = to_audit_error (RepoSqlite m) \<and> delete_fails x cutoff batch m
     | Inr (cnt, n) \<Rightarrow> opt \<and> rows' = filter (\<lambda>r. \<not> old_row cutoff r) rows \<and>
         cnt = tot + int (length (filter (old_row cutoff) rows)) \<and>
         n = batches + length (filter (old_row cutoff) rows) div batch + 1)"
  using assms(4,5)
proof (induction "length rows" arbitrary: rows tot batches rule: less_induct)
  case less
  let ?old = "old_row cutoff"
  note unfold_loop = purge_loop.simps [of x cutoff batch tot batches rows]
  have w: "wrap_i64 (int batch) = int batch"
    using assms(2,3) by (intro wrap_signed_id) (auto simp: in_signed_def)
  show ?case
    using assms(2,3)
  proof (cases rule: store_delete_cases [of batch x cutoff rows])
    case failed
    then show ?thesis by (auto simp: unfold_loop)
  next
    case (deleted left)
    have keep: "filter (\<lambda>r. \<not> ?old r) left = filter (\<lambda>r. \<not> ?old r) rows"
      and len: "length (filter ?old left) = length (filter ?old rows) - batch" and opt: opt
      using assms(1) deleted(1) unfolding delete_documented_def by (metis nat_int of_nat_0_le_iff)+
    let ?deleted = "length rows - length left"
    have deleted_rows: "?deleted = min batch (length (filter ?old rows))"
      using length_split [of rows ?old] length_split [of left ?old] keep len by simp
    have tots: "wrap_i64 (tot + int ?deleted) = tot + int ?deleted"
      using less.prems by (intro wrap_signed_id) (auto simp: in_signed_def)
    show ?thesis
    proof (cases "batch \<le> length (filter ?old rows)")
      case True
      then have d: "?deleted = batch" using deleted_rows by simp
      then have shorter: "length left < length rows" using assms(2) by simp
      moreover have "0 \<le> tot + int ?deleted" "tot + int ?deleted + int (length left) < 2 ^ 63"
        using less.prems calculation by (auto simp: of_nat_diff)
      ultimately obtain rows' r where "purge_loop x cutoff batch (tot + int ?deleted) (Suc batches) left = Some (rows', r)"
        and "filter (\<lambda>r. \<not> ?old r) rows' = filter (\<lambda>r. \<not> ?old r) left"
        and "case r of
             Inl e \<Rightarrow> \<exists>m. e = to_audit_error (RepoSqlite m) \<and> delete_fails x cutoff batch m
           | Inr (cnt, n) \<Rightarrow> opt \<and> rows' = filter (\<lambda>r. \<not> ?old r) left \<and>
               cnt = tot + int ?deleted + int (length (filter ?old left)) \<and>
               n = Suc batches + length (filter ?old left) div batch + 1"
        using less.hyps by blast
      moreover have "length (filter ?old rows) div batch = Suc ((length (filter ?old rows) - batch) div batch)"
        using True assms(2) by (simp add: le_div_geq)
      ultimately show ?thesis
        using True d tots by (auto simp: unfold_loop deleted(2) w keep len Let_def split: sum.splits)
    next
      case False
      then have d: "?deleted = length (filter ?old rows)" using deleted_rows by simp
      have "filter ?old left = []" using len False by simp
      then have "filter (\<lambda>r. \<not> ?old r) left = left"
        unfolding filter_empty_conv filter_id_conv by blast
      with keep have "left = filter (\<lambda>r. \<not> ?old r) rows" by simp
      with d False tots opt show ?thesis by (simp add: unfold_loop deleted(2) w Let_def)
    qed
  qed
qed

lemma purge_loop_rejected:
  assumes "delete_documented False x" and "0 < batch" and "batch < 2 ^ 63"
  shows "\<exists>m. purge_loop x cutoff batch tot batches rows = Some (rows, Err (to_audit_error (RepoSqlite m)))"
  using assms(2,3)
proof (cases rule: store_delete_cases [of batch x cutoff rows])
  case failed
  then show ?thesis by (auto simp: purge_loop.simps [of x cutoff batch tot batches rows])
next
  case (deleted left)
  then show ?thesis using assms(1) unfolding delete_documented_def by (metis of_nat_0_le_iff)
qed

section \<open>Properties\<close>

text \<open>
  Text supplied in an audit filter never becomes SQL: the \<open>WHERE\<close> clause is the
  one of the filter with its texts forgotten, and it has exactly one placeholder
  for every bound value.
\<close>

lemma where_clause_binds_all_text:
  "fst (build_where_clause f) = fst (build_where_clause (blank f)) \<and>
   count_list (fst (build_where_clause f)) CHR ''?'' = length (snd (build_where_clause f))"
proof -
  have "filter_conditions (blank f) = [] \<longleftrightarrow> filter_conditions f = []"
    using map_fst_filter_conditions_blank [of f] by (metis map_is_Nil_conv)
  moreover have "count_list (join '' AND '' (map fst (filter_conditions f))) CHR ''?'' =
      length (concat (map snd (filter_conditions f)))"
    using balanced_concat [OF balanced_filter_conditions [of f]]
    by (simp add: count_list_join)
  ultimately show ?thesis
    by (simp add: build_where_clause_def Let_def map_fst_filter_conditions_blank)
qed

text \<open>
  C24. Purging returns, whatever the build of SQLite, for every batch size in the range of
  \<open>i64\<close>, and never loses a row at or after the cutoff. When it succeeds it has deleted
  exactly the rows older than the cutoff and reports the number of deleted rows and of
  batches, one more than the full ones; when it fails the error is the database's own, so
  with a database whose deletions succeed it succeeds. In a build of SQLite without
  \<open>DELETE ... LIMIT\<close>, as the bundled one is, it deletes nothing and fails.
\<close>

theorem purge_old_events_outcome:
  assumes "delete_documented update_delete_limit x" and "batch_size < 2 ^ 63" and "length rows < 2 ^ 63"
  shows "let cutoff = calculate_cutoff_ms now_ms retention_days;
             old = filter (\<lambda>r. dt_created_at_epoch_ms r < cutoff) rows;
             kept = filter (\<lambda>r. \<not> dt_created_at_epoch_ms r < cutoff) rows
         in \<exists>rows' r. purge_old_events x now_ms elapsed retention_days batch_size rows = Some (rows', r) \<and>
              filter (\<lambda>r. \<not> dt_created_at_epoch_ms r < cutoff) rows' = kept \<and>
              (case r of
                 Inl e \<Rightarrow> \<exists>m. e = to_audit_error (RepoSqlite m) \<and> delete_fails x cutoff (max batch_size 1) m
               | Inr stats \<Rightarrow> update_delete_limit \<and> rows' = kept \<and>
                   stats = \<lparr>ps_deleted_count = int (length old),
                            ps_batches = length old div max batch_size 1 + 1, ps_duration_ms = elapsed\<rparr>) \<and>
              (\<not> update_delete_limit \<longrightarrow> rows' = rows \<and> (\<exists>e. r = Err e))"
proof -
  let ?cutoff = "calculate_cutoff_ms now_ms retention_days" and ?batch = "max batch_size 1"
  have small: "0 + int (length rows) < 2 ^ 63"
    using assms(3) by (metis add_0 of_nat_less_iff of_nat_numeral of_nat_power)
  have batch: "0 < ?batch" "?batch < 2 ^ 63" using assms(2) by simp_all
  obtain rows' r where run: "purge_loop x ?cutoff ?batch 0 0 rows = Some (rows', r)"
    and kept: "filter (\<lambda>r. \<not> old_row ?cutoff r) rows' = filter (\<lambda>r. \<not> old_row ?cutoff r) rows"
    and outcome: "case r of
       Inl e \<Rightarrow> \<exists>m. e = to_audit_error (RepoSqlite m) \<and> delete_fails x ?cutoff ?batch m
     | Inr (cnt, n) \<Rightarrow> update_delete_limit \<and> rows' = filter (\<lambda>r. \<not> old_row ?cutoff r) rows \<and>
         cnt = 0 + int (length (filter (old_row ?cutoff) rows)) \<and>
         n = 0 + length (filter (old_row ?cutoff) rows) div ?batch + 1"
    using purge_loop_spec [OF assms(1) batch _ small] by blast
  have rejected: "\<not> update_delete_limit \<longrightarrow> rows' = rows \<and> (\<exists>e. r = Err e)"
    using purge_loop_rejected [OF _ batch, of x ?cutoff 0 0 rows] assms(1) run by fastforce
  show ?thesis
    using run kept outcome rejected
    by (cases r) (auto simp: purge_old_events_def Let_def old_row_def [abs_def])
qed

fun drop_old :: "int \<Rightarrow> nat \<Rightarrow> audit_event_dto list \<Rightarrow> audit_event_dto list" where
  "drop_old cutoff n [] = []"
| "drop_old cutoff n (r # rows) =
     (if n = 0 then r # rows
      else if old_row cutoff r then drop_old cutoff (n - 1) rows
      else r # drop_old cutoff n rows)"

lemma drop_old_law:
  "filter (\<lambda>r. \<not> old_row cutoff r) (drop_old cutoff n rows) = filter (\<lambda>r. \<not> old_row cutoff r) rows"
  "length (filter (old_row cutoff) (drop_old cutoff n rows)) =
     length (filter (old_row cutoff) rows) - n"
  by (induction cutoff n rows rule: drop_old.induct) auto

definition sample_db :: audit_db_ext where
  "sample_db =
     \<lparr>adb_lock_error = None, adb_try_lock = LockAcquired,
      adb_insert = (\<lambda>_ rows. Ok (int (length rows) + 1, ''now'')), adb_now_rfc3339 = ''now'',
      adb_select = (\<lambda>_ _ rows. Ok rows), adb_count = (\<lambda>_ _ rows. Ok (int (length rows))),
      adb_aggregate = (\<lambda>_ _ _. Ok []),
      adb_delete = (\<lambda>cutoff limit rows. Ok (drop_old cutoff (nat limit) rows)),
      adb_clear_error = None\<rparr>"

lemma sample_db_delete: "delete_documented True sample_db"
  by (auto simp: delete_documented_def sample_db_def drop_old_law)

text \<open>The same database in a build without the option.\<close>

definition bundled_db :: audit_db_ext where
  "bundled_db = sample_db\<lparr>adb_delete := (\<lambda>_ _ _. Err ''near LIMIT: syntax error'')\<rparr>"

definition sample_event :: "int \<Rightarrow> event_record" where
  "sample_event ts =
     with_summary ''s'' (with_action ''a'' (event_record_new ts SevInfo CatSystem OutSuccess))"

definition sample_row :: "int \<Rightarrow> int \<Rightarrow> audit_event_dto" where
  "sample_row i ts = dto_of_append i ''now'' (append_of_event (sample_event ts))"

lemma sample_row_ts [simp]: "dt_created_at_epoch_ms (sample_row i ts) = ts"
  by (simp add: sample_row_def dto_of_append_def append_of_event_def sample_event_def
      with_summary_def with_action_def event_record_new_def)

theorem purge_old_events_outcome_witness:
  "purge_old_events sample_db (86400000 + 50) 7 1 2
     [sample_row 1 10, sample_row 2 90, sample_row 3 20, sample_row 4 30] =
   Some ([sample_row 2 90], Ok \<lparr>ps_deleted_count = 3, ps_batches = 2, ps_duration_ms = 7\<rparr>) \<and>
   (\<exists>e. purge_old_events bundled_db (86400000 + 50) 7 1 2 [sample_row 1 10, sample_row 2 90] =
      Some ([sample_row 1 10, sample_row 2 90], Err e))"
proof
  have "\<not> delete_fails sample_db c n e" for c n e by (simp add: delete_fails_def sample_db_def)
  then show "purge_old_events sample_db (86400000 + 50) 7 1 2
      [sample_row 1 10, sample_row 2 90, sample_row 3 20, sample_row 4 30] =
    Some ([sample_row 2 90], Ok \<lparr>ps_deleted_count = 3, ps_batches = 2, ps_duration_ms = 7\<rparr>)"
    using purge_old_events_outcome [OF sample_db_delete, of 2
        "[sample_row 1 10, sample_row 2 90, sample_row 3 20, sample_row 4 30]" "86400000 + 50" 1 7]
    apply (simp only: Let_def)
    apply (drule meta_mp, simp)
    apply (drule meta_mp, simp)
    apply (elim exE)
    subgoal for rows' r by (cases r) (auto simp: calculate_cutoff_ms_def wrap_signed_def div_if)
    done
  have "delete_documented False bundled_db" by (simp add: delete_documented_def bundled_db_def)
  from purge_old_events_outcome [OF this, of 2 "[sample_row 1 10, sample_row 2 90]" "86400000 + 50" 1 7]
  show "\<exists>e. purge_old_events bundled_db (86400000 + 50) 7 1 2 [sample_row 1 10, sample_row 2 90] =
      Some ([sample_row 1 10, sample_row 2 90], Err e)"
    by (auto simp: Let_def)
qed

end
