(* ===== verification/Audit_Service.thy ===== *)
theory Audit_Service
  imports Audit_Store Redaction
begin

text \<open>
  The audit service (\<open>dbflux_audit/src/lib.rs\<close>): what happens to an event between
  a caller and the table. \<open>record\<close> normalises the JSON details, validates the
  fields its category requires, fills in the actor, replaces query text by a
  fingerprint, redacts credentials, caps the size of the details and appends one
  row. JSON text, SHA-256 and regular expressions belong to other crates and are
  fields of \<open>audit_ext\<close>, which extends the database's record.
\<close>

section \<open>Data\<close>

record audit_ext = audit_db_ext +
  ax_json_from_str :: "string \<Rightarrow> (string, json) result"
  ax_json_to_string :: "json \<Rightarrow> (string, string) result"
  ax_json_display :: "json \<Rightarrow> string"
  ax_sha256_hex :: "string \<Rightarrow> string"
  ax_regex :: regex_ext
  ax_update_level_error :: "string option"

record audit_service =
  au_rows :: "audit_event_dto list"
  au_redact_sensitive :: bool
  au_enabled :: bool
  au_capture_query_text :: bool
  au_max_detail_bytes :: nat
  au_bridge_min_level :: "nat option"
  au_bridge_drop_counter :: "nat option"
  au_external_audit_dropped :: nat

record panic_report =
  pn_message :: string
  pn_location :: "string option"
  pn_thread :: "string option"

definition panic_combined :: "panic_report \<Rightarrow> string" where
  "panic_combined self =
     (case pn_location self of
        Some location \<Rightarrow> pn_message self @ '' at '' @ location
      | None \<Rightarrow> pn_message self)"

definition DEFAULT_MAX_DETAIL_BYTES :: nat where "DEFAULT_MAX_DETAIL_BYTES = 65536"

definition UNKNOWN_ACTOR_ID :: string where "UNKNOWN_ACTOR_ID = ''unknown''"

definition LOCAL_ACTOR_ID :: string where "LOCAL_ACTOR_ID = ''local''"

text \<open>\<open>From<RepositoryError> for AuditError\<close> and \<open>From<AuditError> for EventSinkError\<close>.\<close>

fun audit_error_from_repository :: "repository_error \<Rightarrow> audit_error" where
  "audit_error_from_repository (RepoSqlite source) = AuSqlite source"
| "audit_error_from_repository (RepoNotFound msg) = AuNotFound msg"
| "audit_error_from_repository (RepoValidation msg) = AuValidation msg"
| "audit_error_from_repository (RepoSerialization source) = AuSerialization source"

fun audit_error_display :: "audit_error \<Rightarrow> string" where
  "audit_error_display (AuSqlite e) = ''audit database error: '' @ e"
| "audit_error_display (AuSerialization e) = ''audit serialization error: '' @ e"
| "audit_error_display (AuIo e) = ''audit io error: '' @ e"
| "audit_error_display AuConfigDirUnavailable = ''home config directory not found''"
| "audit_error_display (AuEventSink e) = ''event sink error: '' @ event_sink_error_display e"
| "audit_error_display (AuNotFound e) = ''entity not found: '' @ e"
| "audit_error_display (AuValidation e) = ''invalid parameter: '' @ e"

fun event_sink_error_from_audit :: "audit_error \<Rightarrow> event_sink_error" where
  "event_sink_error_from_audit (AuSqlite e) = SinkStorage (audit_error_display (AuSqlite e))"
| "event_sink_error_from_audit (AuSerialization e) =
     SinkSerialization (audit_error_display (AuSerialization e))"
| "event_sink_error_from_audit (AuIo e) = SinkStorage (audit_error_display (AuIo e))"
| "event_sink_error_from_audit AuConfigDirUnavailable =
     SinkInternal (audit_error_display AuConfigDirUnavailable)"
| "event_sink_error_from_audit (AuEventSink e) = e"
| "event_sink_error_from_audit (AuNotFound e) = SinkStorage (audit_error_display (AuNotFound e))"
| "event_sink_error_from_audit (AuValidation e) =
     SinkInternal (audit_error_display (AuValidation e))"

definition audit_service_new :: "audit_event_dto list \<Rightarrow> audit_service" where
  "audit_service_new rows =
     \<lparr>au_rows = rows, au_redact_sensitive = True, au_enabled = True,
      au_capture_query_text = False, au_max_detail_bytes = DEFAULT_MAX_DETAIL_BYTES,
      au_bridge_min_level = None, au_bridge_drop_counter = None, au_external_audit_dropped = 0\<rparr>"

definition attach_bridge :: "nat \<Rightarrow> nat \<Rightarrow> audit_service \<Rightarrow> audit_service" where
  "attach_bridge min_level drop_counter sv =
     sv\<lparr>au_bridge_min_level := Some min_level, au_bridge_drop_counter := Some drop_counter\<rparr>"

fun severity_to_level_code :: "event_severity \<Rightarrow> nat" where
  "severity_to_level_code SevTrace = 0"
| "severity_to_level_code SevDebug = 1"
| "severity_to_level_code SevInfo = 2"
| "severity_to_level_code SevWarn = 3"
| "severity_to_level_code SevError = 4"
| "severity_to_level_code SevFatal = 4"

text \<open>The shared level changes before the new value is persisted.\<close>

definition set_log_capture_min_level ::
  "audit_ext \<Rightarrow> event_severity \<Rightarrow> audit_service \<Rightarrow>
   audit_service \<times> (audit_error, unit) result" where
  "set_log_capture_min_level x level sv =
     (let sv' = (case au_bridge_min_level sv of
                   Some _ \<Rightarrow> sv\<lparr>au_bridge_min_level := Some (severity_to_level_code level)\<rparr>
                 | None \<Rightarrow> sv)
      in case ax_update_level_error x of
           Some e \<Rightarrow> (sv', Err (AuSqlite e))
         | None \<Rightarrow> (sv', Ok ()))"

definition dropped_log_event_count :: "audit_service \<Rightarrow> nat" where
  "dropped_log_event_count sv = unwrap_or 0 (au_bridge_drop_counter sv)"

definition set_redact_sensitive :: "bool \<Rightarrow> audit_service \<Rightarrow> audit_service" where
  "set_redact_sensitive b sv = sv\<lparr>au_redact_sensitive := b\<rparr>"

definition set_enabled :: "bool \<Rightarrow> audit_service \<Rightarrow> audit_service" where
  "set_enabled b sv = sv\<lparr>au_enabled := b\<rparr>"

definition set_capture_query_text :: "bool \<Rightarrow> audit_service \<Rightarrow> audit_service" where
  "set_capture_query_text b sv = sv\<lparr>au_capture_query_text := b\<rparr>"

definition set_max_detail_bytes :: "nat \<Rightarrow> audit_service \<Rightarrow> audit_service" where
  "set_max_detail_bytes n sv = sv\<lparr>au_max_detail_bytes := n\<rparr>"

section \<open>Validation\<close>

definition has_required_text :: "string option \<Rightarrow> bool" where
  "has_required_text v = is_some_and v (\<lambda>t. trim t \<noteq> [])"

definition query_action_requires_duration :: "string \<Rightarrow> bool" where
  "query_action_requires_duration action \<longleftrightarrow>
     action \<in> {''query_execute'', ''query_execute_failed''}"

abbreviation missing :: "string \<Rightarrow> (audit_error, unit) result" where
  "missing field \<equiv> Err (AuEventSink (MissingRequiredField field))"

definition validate_event :: "event_record \<Rightarrow> (audit_error, unit) result" where
  "validate_event ev =
     (if \<not> has_required_text (Some (ev_action ev)) then missing ''action''
      else if \<not> has_required_text (Some (ev_summary ev)) then missing ''summary''
      else (case ev_category ev of
        CatQuery \<Rightarrow>
          (let is_external = ev_actor_type ev \<in> {ActExternalDriver, ActExternalAuthProvider}
           in if \<not> is_external \<and> \<not> has_required_text (ev_connection_id ev)
              then missing ''connection_id''
              else if \<not> is_external \<and> \<not> has_required_text (ev_driver_id ev)
              then missing ''driver_id''
              else if query_action_requires_duration (ev_action ev) \<and> ev_duration_ms ev = None
              then missing ''duration_ms''
              else Ok ())
      | CatConnection \<Rightarrow>
          (let is_external_auth = (ev_actor_type ev = ActExternalAuthProvider)
           in if \<not> is_external_auth \<and> \<not> has_required_text (ev_connection_id ev)
              then missing ''connection_id'' else Ok ())
      | CatHook \<Rightarrow>
          if \<not> has_required_text (ev_object_type ev) then missing ''object_type''
          else if \<not> has_required_text (ev_object_id ev) then missing ''object_id''
          else if \<not> has_required_text (ev_connection_id ev) then missing ''connection_id''
          else Ok ()
      | CatScript \<Rightarrow>
          if \<not> has_required_text (ev_object_type ev) then missing ''object_type''
          else if \<not> has_required_text (ev_object_id ev) then missing ''object_id''
          else Ok ()
      | CatMcp \<Rightarrow>
          if \<not> has_required_text (ev_actor_id ev) then missing ''actor_id''
          else if \<not> has_required_text (ev_object_id ev) then missing ''object_id''
          else Ok ()
      | CatConfig \<Rightarrow>
          if \<not> has_required_text (ev_object_type ev) then missing ''object_type''
          else if \<not> has_required_text (ev_object_id ev) then missing ''object_id''
          else Ok ()
      | CatObjectStorage \<Rightarrow>
          if \<not> has_required_text (ev_connection_id ev) then missing ''connection_id''
          else if \<not> has_required_text (ev_object_type ev) then missing ''object_type''
          else if \<not> has_required_text (ev_object_id ev) then missing ''object_id''
          else Ok ()
      | CatSecretStore \<Rightarrow>
          if \<not> has_required_text (ev_connection_id ev) then missing ''connection_id''
          else if \<not> has_required_text (ev_object_type ev) then missing ''object_type''
          else if \<not> has_required_text (ev_object_id ev) then missing ''object_id''
          else Ok ()
      | CatGovernance \<Rightarrow> Ok ()
      | CatSystem \<Rightarrow> Ok ()))"

section \<open>Preparing an event\<close>

definition normalize_details_json ::
  "audit_ext \<Rightarrow> event_record \<Rightarrow> (audit_error, event_record) result" where
  "normalize_details_json x ev =
     (case ev_details_json ev of
        None \<Rightarrow> Ok ev
      | Some details \<Rightarrow>
          and_then (map_err (\<lambda>e. AuEventSink (SinkSerialization
                       (''details_json must be valid JSON: '' @ e)))
                     (ax_json_from_str x details)) (\<lambda>val.
          if \<not> is_object val
          then Err (AuEventSink (SinkSerialization ''details_json must be a JSON object''))
          else and_then (map_err AuSerialization (ax_json_to_string x val)) (\<lambda>s.
               Ok (ev\<lparr>ev_details_json := Some s\<rparr>))))"

definition sha256_fingerprint :: "audit_ext \<Rightarrow> string \<Rightarrow> string" where
  "sha256_fingerprint x s = ax_sha256_hex x (to_lowercase (trim s))"

definition apply_query_fingerprint :: "audit_ext \<Rightarrow> event_record \<Rightarrow> event_record" where
  "apply_query_fingerprint x ev =
     (case ev_details_json ev of
        None \<Rightarrow> ev
      | Some details \<Rightarrow>
          (case ax_json_from_str x details of
             Inr (JObject m) \<Rightarrow>
               (case map_of m ''query'' of
                  Some (JString query) \<Rightarrow>
                    (let fingerprint = sha256_fingerprint x query;
                         m1 = obj_insert ''query''
                                (JString (''[FINGERPRINT:'' @ take 16 fingerprint @ '']'')) m;
                         m2 = obj_insert ''query_length'' (JNumber (show_nat (utf8_len query))) m1
                     in case ax_json_to_string x (JObject m2) of
                          Inr new_details \<Rightarrow> ev\<lparr>ev_details_json := Some new_details\<rparr>
                        | Inl _ \<Rightarrow> ev)
                | _ \<Rightarrow> ev)
           | _ \<Rightarrow> ev))"

definition ok_opt :: "('e, 'a) result \<Rightarrow> 'a option" where
  "ok_opt r = (case r of Inl _ \<Rightarrow> None | Inr a \<Rightarrow> Some a)"

definition audit_redact_json :: "audit_ext \<Rightarrow> string \<Rightarrow> redaction_result" where
  "audit_redact_json x details =
     redact_json (ax_regex x) (\<lambda>s. ok_opt (ax_json_from_str x s))
       (\<lambda>v. ok_opt (ax_json_to_string x v)) details True"

definition apply_redaction :: "audit_ext \<Rightarrow> event_record \<Rightarrow> event_record" where
  "apply_redaction x ev =
     (let ev1 = (case ev_details_json ev of
                   None \<Rightarrow> ev
                 | Some details \<Rightarrow>
                     (let r = audit_redact_json x details
                      in if rr_redaction_count r > 0
                         then ev\<lparr>ev_details_json := Some (rr_redacted r)\<rparr> else ev))
      in case ev_error_message ev1 of
           None \<Rightarrow> ev1
         | Some error_msg \<Rightarrow>
             (let r = redact_error_message (ax_regex x) error_msg True
              in if rr_redaction_count r > 0
                 then ev1\<lparr>ev_error_message := Some (rr_redacted r)\<rparr> else ev1))"

definition MINIMAL_ENVELOPE :: string where
  "MINIMAL_ENVELOPE =
     ''{'' @ [CHR 0x22] @ ''__truncated'' @ [CHR 0x22] @ '':true,'' @ [CHR 0x22] @ ''partial'' @
     [CHR 0x22] @ '':'' @ [CHR 0x22, CHR 0x22] @ ''}''"

text \<open>Byte offsets of the characters (\<open>char_indices\<close>), and the offset the slice ends at.\<close>

fun char_offsets :: "nat \<Rightarrow> string \<Rightarrow> nat list" where
  "char_offsets i [] = []"
| "char_offsets i (c # s) = i # char_offsets (i + len_utf8 c) s"

definition slice_end :: "nat \<Rightarrow> string \<Rightarrow> nat" where
  "slice_end budget s =
     (let is = takeWhile (\<lambda>i. i < budget) (char_offsets 0 s) in if is = [] then 0 else last is)"

definition envelope :: "string \<Rightarrow> json" where
  "envelope sliced = JObject (obj_of [(''__truncated'', JBool True), (''partial'', JString sliced)])"

function envelope_loop ::
  "audit_ext \<Rightarrow> string \<Rightarrow> nat \<Rightarrow> nat \<Rightarrow> (audit_error, string option) result" where
  "envelope_loop x candidate max_bytes budget =
     (case ax_json_to_string x (envelope (slice_to (slice_end budget candidate) candidate)) of
        Inl e \<Rightarrow> Err (AuEventSink (SinkSerialization e))
      | Inr serialized \<Rightarrow>
          if utf8_len serialized \<le> max_bytes then Ok (Some serialized)
          else if budget = 0 then Ok (Some MINIMAL_ENVELOPE)
          else envelope_loop x candidate max_bytes
                 (budget - ((utf8_len serialized - max_bytes) + 1)))"
  by pat_completeness auto

termination
  by (relation "measure (\<lambda>(x, candidate, max_bytes, budget). budget)") auto

declare envelope_loop.simps [simp del]

definition build_truncated_envelope ::
  "audit_ext \<Rightarrow> string \<Rightarrow> nat \<Rightarrow> (audit_error, string option) result" where
  "build_truncated_envelope x details max_bytes =
     (if max_bytes < utf8_len MINIMAL_ENVELOPE then Ok None
      else envelope_loop x details max_bytes max_bytes)"

definition enforce_max_detail_bytes ::
  "audit_ext \<Rightarrow> audit_service \<Rightarrow> event_record \<Rightarrow> (audit_error, event_record) result" where
  "enforce_max_detail_bytes x sv ev =
     (case ev_details_json ev of
        None \<Rightarrow> Ok ev
      | Some details \<Rightarrow>
          if utf8_len details \<le> au_max_detail_bytes sv then Ok ev
          else and_then (build_truncated_envelope x details (au_max_detail_bytes sv)) (\<lambda>d.
               Ok (ev\<lparr>ev_details_json := d\<rparr>)))"

definition default_actor_id :: "event_record \<Rightarrow> event_record" where
  "default_actor_id ev =
     (if ev_actor_id ev = None
      then (let is_local_user = ev_actor_type ev = ActUser \<and> ev_source_id ev = SrcLocal;
                actor_id = (if is_local_user then LOCAL_ACTOR_ID else UNKNOWN_ACTOR_ID)
            in ev\<lparr>ev_actor_id := Some actor_id\<rparr>)
      else ev)"

definition preprocess_event_for_storage ::
  "audit_ext \<Rightarrow> audit_service \<Rightarrow> event_record \<Rightarrow> (audit_error, event_record) result" where
  "preprocess_event_for_storage x sv ev =
     (let ev1 = default_actor_id ev;
          ev2 = (if au_capture_query_text sv then ev1 else apply_query_fingerprint x ev1);
          ev3 = (if au_redact_sensitive sv then apply_redaction x ev2 else ev2)
      in enforce_max_detail_bytes x sv ev3)"

section \<open>Recording\<close>

abbreviation db_ext :: "audit_ext \<Rightarrow> audit_db_ext" where
  "db_ext x \<equiv> audit_db_ext.truncate x"

definition audit_record ::
  "audit_ext \<Rightarrow> event_record \<Rightarrow> audit_service \<Rightarrow>
   audit_service \<times> (audit_error, event_record) result" where
  "audit_record x event0 sv =
     (if \<not> au_enabled sv then (sv, Ok event0)
      else
        (case normalize_details_json x event0 of
           Inl e \<Rightarrow> (sv, Err e)
         | Inr event1 \<Rightarrow>
             (case validate_event event1 of
                Inl e \<Rightarrow> (sv, Err e)
              | Inr _ \<Rightarrow>
                  (case preprocess_event_for_storage x sv event1 of
                     Inl e \<Rightarrow> (sv, Err e)
                   | Inr event2 \<Rightarrow>
                       (let (rows', r) = store_record (db_ext x) event2 (au_rows sv)
                        in (sv\<lparr>au_rows := rows'\<rparr>, r))))))"

text \<open>\<open>EventSink::record\<close> of the service.\<close>

definition sink_record ::
  "audit_ext \<Rightarrow> event_record \<Rightarrow> audit_service \<Rightarrow>
   audit_service \<times> (event_sink_error, event_record) result" where
  "sink_record x ev sv =
     (let (sv', r) = audit_record x ev sv in (sv', map_err event_sink_error_from_audit r))"

definition SYSTEM_PANIC :: audit_action where "SYSTEM_PANIC = ''system_panic''"

definition panic_details :: "(string \<Rightarrow> string) \<Rightarrow> panic_report \<Rightarrow> json" where
  "panic_details sanitize report =
     JObject (obj_of
       ([(''panic_info'', JString (sanitize (panic_combined report))),
         (''message'', JString (sanitize (pn_message report)))] @
        (case pn_location report of Some l \<Rightarrow> [(''location'', JString l)] | None \<Rightarrow> []) @
        (case pn_thread report of Some t \<Rightarrow> [(''thread'', JString t)] | None \<Rightarrow> [])))"

definition record_panic_report_best_effort ::
  "audit_ext \<Rightarrow> int \<Rightarrow> panic_report \<Rightarrow> audit_service \<Rightarrow> audit_service \<times> event_record option" where
  "record_panic_report_best_effort x ts_ms report sv =
     (if \<not> au_enabled sv then (sv, None)
      else
        (let sanitize = (\<lambda>s. if au_redact_sensitive sv
                             then rr_redacted (redact_error_message (ax_regex x) s True) else s);
             sanitized = sanitize (panic_combined report);
             summary = (case pn_location report of
                          Some location \<Rightarrow> ''Application panic at '' @ location
                        | None \<Rightarrow> ''Application panic captured'');
             ev0 = with_error ''panic'' sanitized
                     (with_actor_id ''system''
                       (with_summary summary
                         (with_typed_action SYSTEM_PANIC
                           (event_record_new ts_ms SevFatal CatSystem OutFailure))));
             ev1 = with_details_json (ax_json_display x (panic_details sanitize report)) ev0
         in case and_then (normalize_details_json x ev1) (preprocess_event_for_storage x sv) of
              Inl _ \<Rightarrow> (sv, None)
            | Inr ev2 \<Rightarrow>
                (let (rows', r) =
                       store_record_panic_best_effort (db_ext x) ev2 (au_rows sv)
                 in (sv\<lparr>au_rows := rows'\<rparr>, case r of Inr (Some ev3) \<Rightarrow> Some ev3 | _ \<Rightarrow> None))))"

definition record_panic_best_effort ::
  "audit_ext \<Rightarrow> int \<Rightarrow> string \<Rightarrow> audit_service \<Rightarrow> audit_service \<times> event_record option" where
  "record_panic_best_effort x ts_ms panic_info sv =
     record_panic_report_best_effort x ts_ms
       \<lparr>pn_message = panic_info, pn_location = None, pn_thread = None\<rparr> sv"

section \<open>Reading\<close>

definition audit_query ::
  "audit_ext \<Rightarrow> audit_query_filter \<Rightarrow> audit_service \<Rightarrow> (audit_error, audit_event list) result" where
  "audit_query x f sv = store_query (db_ext x) f (au_rows sv)"

definition audit_query_extended ::
  "audit_ext \<Rightarrow> audit_query_filter \<Rightarrow> audit_service \<Rightarrow>
   (audit_error, audit_event_dto list) result" where
  "audit_query_extended x f sv = store_query_extended (db_ext x) f (au_rows sv)"

definition audit_get ::
  "audit_ext \<Rightarrow> int \<Rightarrow> audit_service \<Rightarrow> (audit_error, audit_event option) result" where
  "audit_get x i sv = store_get (db_ext x) i (au_rows sv)"

definition audit_get_extended ::
  "audit_ext \<Rightarrow> int \<Rightarrow> audit_service \<Rightarrow> (audit_error, audit_event_dto option) result" where
  "audit_get_extended x i sv = store_get_extended (db_ext x) i (au_rows sv)"

definition audit_purge_old_events ::
  "audit_ext \<Rightarrow> nat \<Rightarrow> nat \<Rightarrow> nat \<Rightarrow> nat \<Rightarrow> audit_service \<Rightarrow>
   (audit_service \<times> (audit_error, purge_stats) result) option" where
  "audit_purge_old_events x now_ms elapsed_ms retention_days batch_size sv =
     (case purge_old_events (db_ext x) now_ms elapsed_ms retention_days batch_size (au_rows sv) of
        None \<Rightarrow> None
      | Some (rows', r) \<Rightarrow> Some (sv\<lparr>au_rows := rows'\<rparr>, r))"

section \<open>The size of stored details\<close>

lemma utf8_len_MINIMAL_ENVELOPE: "utf8_len MINIMAL_ENVELOPE = 33"
  by (simp add: MINIMAL_ENVELOPE_def len_utf8_def)

lemma envelope_loop_bound:
  assumes "envelope_loop x candidate max_bytes budget = Ok d" and "33 \<le> max_bytes"
  shows "\<exists>t. d = Some t \<and> utf8_len t \<le> max_bytes"
  using assms
proof (induction x candidate max_bytes budget rule: envelope_loop.induct)
  case (1 x candidate max_bytes budget)
  show ?case
  proof (cases "ax_json_to_string x (envelope (slice_to (slice_end budget candidate) candidate))")
    case (Inl e)
    with 1 show ?thesis by (simp add: envelope_loop.simps [of x candidate])
  next
    case (Inr t)
    consider "utf8_len t \<le> max_bytes" | "\<not> utf8_len t \<le> max_bytes" "budget = 0"
      | "\<not> utf8_len t \<le> max_bytes" "budget \<noteq> 0" by blast
    then show ?thesis
    proof cases
      case 1
      with "1.prems" Inr show ?thesis by (auto simp: envelope_loop.simps [of x candidate])
    next
      case 2
      with "1.prems" Inr utf8_len_MINIMAL_ENVELOPE show ?thesis
        by (auto simp: envelope_loop.simps [of x candidate max_bytes 0])
    next
      case 3
      with "1.prems" Inr "1.IH" [OF Inr] show ?thesis
        by (simp add: envelope_loop.simps [of x candidate max_bytes budget])
    qed
  qed
qed

lemma build_truncated_envelope_bound:
  "build_truncated_envelope x details max_bytes = Ok (Some t) \<Longrightarrow> utf8_len t \<le> max_bytes"
  using envelope_loop_bound [of x details max_bytes max_bytes "Some t"]
  by (auto simp: build_truncated_envelope_def utf8_len_MINIMAL_ENVELOPE split: if_splits)

lemma enforce_bound:
  assumes "enforce_max_detail_bytes x sv ev = Ok ev'"
  shows "is_none_or (ev_details_json ev') (\<lambda>d. utf8_len d \<le> au_max_detail_bytes sv)"
  using assms
  by (auto simp: enforce_max_detail_bytes_def and_then_eq_Ok is_none_or_iff
      dest: build_truncated_envelope_bound split: option.splits if_splits)

text \<open>The slice of the details ends between two characters, so taking it cannot fail.\<close>

lemma char_offsets_boundary:
  "j \<in> set (char_offsets i s) \<Longrightarrow> \<exists>n. j = i + utf8_len (take n s)"
proof (induction s arbitrary: i)
  case (Cons c s)
  show ?case
  proof (cases "j = i")
    case True
    then show ?thesis by (metis add.right_neutral take0 utf8_len_simps(1))
  next
    case False
    with Cons.prems obtain n where "j = i + len_utf8 c + utf8_len (take n s)"
      using Cons.IH by auto
    then have "j = i + utf8_len (take (Suc n) (c # s))" by simp
    then show ?thesis by blast
  qed
qed simp

lemma slice_at_boundary: "\<exists>n. slice_to (slice_end budget s) s = take n s"
proof -
  have "slice_end budget s = 0 \<or> slice_end budget s \<in> set (char_offsets 0 s)"
    unfolding slice_end_def Let_def using last_in_set set_takeWhileD by fastforce
  then obtain n where "slice_end budget s = utf8_len (take n s)"
    using char_offsets_boundary [of _ 0 s] by (metis add_0 take0 utf8_len_simps(1))
  then show ?thesis by (metis slice_to_boundary)
qed

section \<open>What the preparation of an event changes\<close>

lemma normalize_frame:
  assumes "normalize_details_json x ev = Ok ev'"
  shows "\<exists>d. ev' = ev\<lparr>ev_details_json := d\<rparr>"
proof (cases "ev_details_json ev")
  case None
  with assms have "ev' = ev\<lparr>ev_details_json := ev_details_json ev\<rparr>"
    by (simp add: normalize_details_json_def)
  then show ?thesis by blast
next
  case (Some d)
  with assms show ?thesis
    by (auto simp: normalize_details_json_def and_then_eq_Ok split: if_splits)
qed

lemma frame_id: "\<exists>d. ev = ev\<lparr>ev_details_json := d\<rparr>"
  by (rule exI [of _ "ev_details_json ev"]) simp

lemma fingerprint_frame: "\<exists>d. apply_query_fingerprint x ev = ev\<lparr>ev_details_json := d\<rparr>"
proof (cases "ev_details_json ev")
  case None
  then show ?thesis by (simp add: apply_query_fingerprint_def frame_id)
next
  case (Some details)
  show ?thesis
  proof (cases "\<exists>m q. ax_json_from_str x details = Ok (JObject m) \<and> map_of m ''query'' = Some (JString q)")
    case True
    with Some show ?thesis
      by (auto simp: apply_query_fingerprint_def Let_def frame_id split: sum.splits)
  next
    case False
    with Some have "apply_query_fingerprint x ev = ev"
      by (auto simp: apply_query_fingerprint_def split: sum.splits json.splits option.splits)
    then show ?thesis by (simp add: frame_id)
  qed
qed

lemma redaction_frame:
  "\<exists>d m. apply_redaction x ev = ev\<lparr>ev_details_json := d, ev_error_message := m\<rparr>"
proof -
  have id: "\<exists>d m. ev\<lparr>ev_details_json := d0\<rparr> = ev\<lparr>ev_details_json := d, ev_error_message := m\<rparr>" for d0
    by (rule exI [of _ d0], rule exI [of _ "ev_error_message ev"]) simp
  have id': "\<exists>d m. ev = ev\<lparr>ev_details_json := d, ev_error_message := m\<rparr>"
    by (rule exI [of _ "ev_details_json ev"], rule exI [of _ "ev_error_message ev"]) simp
  have id'': "\<exists>d m. ev\<lparr>ev_error_message := m0\<rparr> = ev\<lparr>ev_details_json := d, ev_error_message := m\<rparr>" for m0
    by (rule exI [of _ "ev_details_json ev"], rule exI [of _ m0]) simp
  show ?thesis
    by (cases "ev_details_json ev"; cases "ev_error_message ev")
       (auto simp: apply_redaction_def Let_def id id' id'')
qed

lemma maybe_fingerprint_frame:
  "\<exists>d. (if b then ev else apply_query_fingerprint x ev) = ev\<lparr>ev_details_json := d\<rparr>"
  using fingerprint_frame [of x ev] frame_id [of ev] by (cases b) simp_all

lemma maybe_redaction_frame:
  "\<exists>d m. (if b then apply_redaction x ev else ev) = ev\<lparr>ev_details_json := d, ev_error_message := m\<rparr>"
proof (cases b)
  case True
  with redaction_frame show ?thesis by simp
next
  case False
  then show ?thesis
    by (intro exI [of _ "ev_details_json ev"] exI [of _ "ev_error_message ev"]) simp
qed

lemma enforce_frame:
  assumes "enforce_max_detail_bytes x sv ev = Ok ev'"
  shows "\<exists>d. ev' = ev\<lparr>ev_details_json := d\<rparr>"
  using assms frame_id [of ev]
  by (auto simp: enforce_max_detail_bytes_def and_then_eq_Ok split: option.splits if_splits)

lemma preprocess_frame:
  assumes "preprocess_event_for_storage x sv ev = Ok ev'"
  shows "\<exists>d m. ev' = (default_actor_id ev)\<lparr>ev_details_json := d, ev_error_message := m\<rparr>"
proof -
  let ?ev1 = "default_actor_id ev"
  let ?ev2 = "if au_capture_query_text sv then ?ev1 else apply_query_fingerprint x ?ev1"
  let ?ev3 = "if au_redact_sensitive sv then apply_redaction x ?ev2 else ?ev2"
  obtain d2 where d2: "?ev2 = ?ev1\<lparr>ev_details_json := d2\<rparr>"
    using maybe_fingerprint_frame by blast
  obtain d3 m3 where d3: "?ev3 = ?ev2\<lparr>ev_details_json := d3, ev_error_message := m3\<rparr>"
    using maybe_redaction_frame by blast
  from assms have "enforce_max_detail_bytes x sv ?ev3 = Ok ev'"
    by (simp add: preprocess_event_for_storage_def Let_def)
  then obtain d where "ev' = ?ev3\<lparr>ev_details_json := d\<rparr>" using enforce_frame by blast
  with d2 d3 have "ev' = ?ev1\<lparr>ev_details_json := d, ev_error_message := m3\<rparr>"
    by simp
  then show ?thesis by blast
qed

lemma default_actor_id_simps [simp]:
  "ev_action (default_actor_id ev) = ev_action ev"
  "ev_category (default_actor_id ev) = ev_category ev"
  "ev_outcome (default_actor_id ev) = ev_outcome ev"
  "ev_ts_ms (default_actor_id ev) = ev_ts_ms ev"
  "ev_connection_id (default_actor_id ev) = ev_connection_id ev"
  "ev_object_id (default_actor_id ev) = ev_object_id ev"
  "ev_error_code (default_actor_id ev) = ev_error_code ev"
  "ev_correlation_id (default_actor_id ev) = ev_correlation_id ev"
  "ev_actor_id ev = Some a \<Longrightarrow> ev_actor_id (default_actor_id ev) = Some a"
  "ev_actor_id (default_actor_id ev) \<noteq> None"
  by (simp_all add: default_actor_id_def Let_def)

lemma preprocess_bound:
  "preprocess_event_for_storage x sv ev = Ok ev' \<Longrightarrow>
   is_none_or (ev_details_json ev') (\<lambda>d. utf8_len d \<le> au_max_detail_bytes sv)"
  unfolding preprocess_event_for_storage_def Let_def by (rule enforce_bound)

lemma validate_event_frame [simp]:
  "validate_event (ev\<lparr>ev_details_json := d\<rparr>) = validate_event ev"
  by (cases "ev_category ev") (simp_all add: validate_event_def Let_def)

lemma append_extended_cases:
  assumes "append_extended x a rows = (rows', r)"
  obtains e where "rows' = rows" "r = Err e"
  | i created where "rows' = rows @ [dto_of_append i created a]"
      "r = Ok (dto_of_append i (adb_now_rfc3339 x) a)"
  using assms by (auto simp: append_extended_def split: option.splits sum.splits)

lemma dt_id_dto: "dt_id (dto_of_append i created a) = i"
  by (simp add: dto_of_append_def)

text \<open>What \<open>record\<close> does, by cases.\<close>

lemma audit_record_cases:
  assumes "audit_record x ev sv = (sv', r)"
  obtains (disabled) "\<not> au_enabled sv" and "sv' = sv" and "r = Ok ev"
  | (failed) e where "au_enabled sv" and "sv' = sv" and "r = Err e"
  | (stored) i created d m ev' where "au_enabled sv" and "validate_event ev = Ok ()"
      and "ev' = (default_actor_id ev)\<lparr>ev_details_json := d, ev_error_message := m\<rparr>"
      and "is_none_or d (\<lambda>t. utf8_len t \<le> au_max_detail_bytes sv)"
      and "sv' = sv\<lparr>au_rows := au_rows sv @ [dto_of_append i created (append_of_event ev')]\<rparr>"
      and "r = Ok (ev'\<lparr>ev_id := Some i\<rparr>)"
proof (cases "au_enabled sv \<and> (\<exists>ev1 ev2. normalize_details_json x ev = Ok ev1 \<and>
    validate_event ev1 = Ok () \<and> preprocess_event_for_storage x sv ev1 = Ok ev2)")
  case False
  with assms have "\<not> au_enabled sv \<and> sv' = sv \<and> r = Ok ev \<or>
      au_enabled sv \<and> sv' = sv \<and> (\<exists>e. r = Err e)"
    by (auto simp: audit_record_def split: sum.splits if_splits) metis+
  with disabled failed show thesis by blast
next
  case True
  then obtain ev1 ev2 where 1: "normalize_details_json x ev = Ok ev1"
    "validate_event ev1 = Ok ()" "preprocess_event_for_storage x sv ev1 = Ok ev2"
    by blast
  obtain rows' r' where app: "append_extended (db_ext x) (append_of_event ev2) (au_rows sv) = (rows', r')"
    by fastforce
  with assms True 1 have res: "sv' = sv\<lparr>au_rows := rows'\<rparr>"
    "r = (case r' of Inl e \<Rightarrow> Err (to_audit_error e) | Inr dto \<Rightarrow> Ok (ev2\<lparr>ev_id := Some (dt_id dto)\<rparr>))"
    by (simp_all add: audit_record_def store_record_def)
  obtain d where d: "ev1 = ev\<lparr>ev_details_json := d\<rparr>" using normalize_frame [OF 1(1)] by blast
  moreover obtain d' m where "ev2 = (default_actor_id ev1)\<lparr>ev_details_json := d', ev_error_message := m\<rparr>"
    using preprocess_frame [OF 1(3)] by blast
  moreover have "default_actor_id (ev\<lparr>ev_details_json := d\<rparr>) = (default_actor_id ev)\<lparr>ev_details_json := d\<rparr>"
    by (simp add: default_actor_id_def Let_def)
  ultimately have 2: "ev2 = (default_actor_id ev)\<lparr>ev_details_json := d', ev_error_message := m\<rparr>"
    by simp
  have v: "validate_event ev = Ok ()" using 1(2) d by simp
  from app show thesis
  proof (cases rule: append_extended_cases)
    case (1 e)
    with res True failed show thesis by simp
  next
    case 3: (2 i created)
    with res True v 2 preprocess_bound [OF \<open>preprocess_event_for_storage x sv ev1 = Ok ev2\<close>]
    show thesis by (intro stored [of ev2 m d' i created]) (simp_all add: dt_id_dto)
  qed
qed

section \<open>When recording cannot fail\<close>

text \<open>
  What recording relies on: printing a JSON object gives text that reads back as an
  object, values can be serialised, the database takes the lock and the row.
\<close>

definition json_objects_read_back :: "audit_ext \<Rightarrow> bool" where
  "json_objects_read_back x \<longleftrightarrow>
     (\<forall>m. \<exists>m'. ax_json_from_str x (ax_json_display x (JObject m)) = Ok (JObject m')) \<and>
     (\<forall>v. \<exists>t. ax_json_to_string x v = Ok t)"

definition audit_db_up :: "audit_ext \<Rightarrow> bool" where
  "audit_db_up x \<longleftrightarrow>
     adb_lock_error x = None \<and> (\<forall>a rows. \<exists>i created. adb_insert x a rows = Ok (i, created))"

lemma envelope_loop_total:
  assumes "\<forall>v. \<exists>t. ax_json_to_string x v = Ok t"
  shows "\<exists>d. envelope_loop x candidate max_bytes budget = Ok d"
  using assms
proof (induction x candidate max_bytes budget rule: envelope_loop.induct)
  case (1 x candidate max_bytes budget)
  then obtain t where t:
    "ax_json_to_string x (envelope (slice_to (slice_end budget candidate) candidate)) = Ok t"
    by blast
  show ?case
    using "1.IH" [OF t] "1.prems" t
    by (cases "utf8_len t \<le> max_bytes"; cases "budget = 0")
       (simp_all add: envelope_loop.simps [of x candidate max_bytes budget]
          envelope_loop.simps [of x candidate max_bytes 0])
qed

lemma preprocess_total:
  assumes "\<forall>v. \<exists>t. ax_json_to_string x v = Ok t"
  shows "\<exists>ev'. preprocess_event_for_storage x sv ev = Ok ev'"
proof -
  have "\<exists>d. build_truncated_envelope x details n = Ok d" for details n
    using envelope_loop_total [OF assms] by (simp add: build_truncated_envelope_def)
  then show ?thesis
    by (auto simp: preprocess_event_for_storage_def enforce_max_detail_bytes_def and_then_eq_Ok Let_def
        split: option.splits)
qed

lemma audit_record_total:
  assumes "json_objects_read_back x" and "audit_db_up x" and "validate_event ev = Ok ()"
    and "ev_details_json ev = Some (ax_json_display x (JObject m))"
  shows "\<exists>ev'. snd (audit_record x ev sv) = Ok ev'"
proof -
  obtain m' t where m': "ax_json_from_str x (ax_json_display x (JObject m)) = Ok (JObject m')"
    "ax_json_to_string x (JObject m') = Ok t"
    using assms(1) unfolding json_objects_read_back_def by metis
  then have n: "normalize_details_json x ev = Ok (ev\<lparr>ev_details_json := Some t\<rparr>)"
    using assms(4) by (simp add: normalize_details_json_def)
  obtain ev2 where ev2: "preprocess_event_for_storage x sv (ev\<lparr>ev_details_json := Some t\<rparr>) = Ok ev2"
    using preprocess_total assms(1) unfolding json_objects_read_back_def by blast
  obtain i created where "adb_insert x (append_of_event ev2) (au_rows sv) = Ok (i, created)"
    using assms(2) unfolding audit_db_up_def by blast
  then have "append_extended (db_ext x) (append_of_event ev2) (au_rows sv) =
      (au_rows sv @ [dto_of_append i created (append_of_event ev2)],
       Ok (dto_of_append i (adb_now_rfc3339 x) (append_of_event ev2)))"
    using assms(2) by (simp add: append_extended_def audit_db_up_def audit_db_ext.defs)
  with n ev2 assms(3) show ?thesis by (simp add: audit_record_def store_record_def)
qed

section \<open>Properties\<close>

text \<open>
  The required fields of an event, in the order they are looked at: the name and
  whether the event has it.
\<close>

definition required_fields :: "event_record \<Rightarrow> (string \<times> bool) list" where
  "required_fields ev =
     (let connection = (''connection_id'', has_required_text (ev_connection_id ev));
          object_type = (''object_type'', has_required_text (ev_object_type ev));
          object_id = (''object_id'', has_required_text (ev_object_id ev))
      in [(''action'', has_required_text (Some (ev_action ev))),
          (''summary'', has_required_text (Some (ev_summary ev)))] @
         (case ev_category ev of
            CatQuery \<Rightarrow>
              (if ev_actor_type ev \<in> {ActExternalDriver, ActExternalAuthProvider} then []
               else [connection, (''driver_id'', has_required_text (ev_driver_id ev))]) @
              (if query_action_requires_duration (ev_action ev)
               then [(''duration_ms'', ev_duration_ms ev \<noteq> None)] else [])
          | CatConnection \<Rightarrow>
              (if ev_actor_type ev = ActExternalAuthProvider then [] else [connection])
          | CatHook \<Rightarrow> [object_type, object_id, connection]
          | CatScript \<Rightarrow> [object_type, object_id]
          | CatMcp \<Rightarrow> [(''actor_id'', has_required_text (ev_actor_id ev)), object_id]
          | CatConfig \<Rightarrow> [object_type, object_id]
          | CatObjectStorage \<Rightarrow> [connection, object_type, object_id]
          | CatSecretStore \<Rightarrow> [connection, object_type, object_id]
          | CatGovernance \<Rightarrow> []
          | CatSystem \<Rightarrow> []))"

text \<open>
  Validation is the table of required fields: it fails with the name of the
  first required field of the event's category that is absent or blank, and
  succeeds exactly when there is none.
\<close>

lemma validate_event_table:
  "validate_event ev =
     (case find (\<lambda>(name, present). \<not> present) (required_fields ev) of
        None \<Rightarrow> Ok ()
      | Some (name, _) \<Rightarrow> Err (AuEventSink (MissingRequiredField name)))"
  by (cases "ev_category ev") (simp_all add: validate_event_def required_fields_def Let_def)

text \<open>
  C14. Recording is all or nothing: a disabled service changes nothing and returns
  the event as it is; an error changes nothing; success means the event passed
  validation and exactly one row was appended, which carries the event's action,
  category, outcome and time, an actor, details no longer than the configured
  maximum, and the identifier returned to the caller.
\<close>

theorem audit_record_outcome:
  assumes "audit_record x ev sv = (sv', r)"
  shows "if \<not> au_enabled sv then sv' = sv \<and> r = Ok ev
         else (case r of
                 Inl _ \<Rightarrow> sv' = sv
               | Inr ev' \<Rightarrow>
                   validate_event ev = Ok () \<and>
                   (\<exists>row. sv' = sv\<lparr>au_rows := au_rows sv @ [row]\<rparr> \<and>
                      ev_id ev' = Some (dt_id row) \<and> ev_actor_id ev' = Some (dt_actor_id row) \<and>
                      dt_action row = Some (ev_action ev) \<and>
                      dt_category row = Some (category_as_str (ev_category ev)) \<and>
                      dt_outcome row = Some (outcome_as_str (ev_outcome ev)) \<and>
                      dt_created_at_epoch_ms row = ev_ts_ms ev \<and>
                      is_none_or (dt_details_json row)
                        (\<lambda>d. utf8_len d \<le> au_max_detail_bytes sv)))"
  using assms
proof (cases rule: audit_record_cases)
  case (stored i created d m ev')
  obtain a where "ev_actor_id (default_actor_id ev) = Some a"
    using default_actor_id_simps(10) by blast
  with stored show ?thesis by (auto simp: dto_of_append_def append_of_event_def)
qed simp_all

definition sample_json_from_str :: "string \<Rightarrow> (string, json) result" where
  "sample_json_from_str s =
     (if s = ''one'' then Ok (JObject [(''query'', JString ''select 1'')])
      else if s = ''two'' then Ok (JObject [(''query'', JString ''select 2'')])
      else Err ''expected value'')"

definition sample_audit_ext :: audit_ext where
  "sample_audit_ext =
     audit_db_ext.extend sample_db
       (audit_ext.fields sample_json_from_str (\<lambda>_. Ok ''{}'') (\<lambda>_. ''{}'')
          (\<lambda>_. replicate 64 CHR ''0'') no_regex None)"

lemma sample_audit_ext_simps [simp]:
  "db_ext sample_audit_ext = sample_db"
  "ax_json_from_str sample_audit_ext = sample_json_from_str"
  "ax_json_to_string sample_audit_ext = (\<lambda>_. Ok ''{}'')"
  "ax_sha256_hex sample_audit_ext = (\<lambda>_. replicate 64 CHR ''0'')"
  by (simp_all add: sample_audit_ext_def audit_db_ext.defs audit_ext.defs sample_db_def)

lemma sample_record_ok:
  "\<exists>ev'. audit_record sample_audit_ext (sample_event 5) (audit_service_new []) =
     ((audit_service_new [])\<lparr>au_rows :=
        [dto_of_append 1 ''now'' (append_of_event ((sample_event 5)\<lparr>ev_actor_id := Some ''unknown''\<rparr>))]\<rparr>,
      Ok ev') \<and> ev_id ev' = Some 1"
  by (simp add: audit_record_def sample_event_def event_record_new_def with_action_def
      with_summary_def audit_service_new_def normalize_details_json_def validate_event_def
      has_required_text_def trim_eq_Nil_iff is_whitespace_def preprocess_event_for_storage_def
      default_actor_id_def apply_query_fingerprint_def apply_redaction_def
      enforce_max_detail_bytes_def store_record_def append_extended_def UNKNOWN_ACTOR_ID_def Let_def)
     (simp add: sample_db_def dto_of_append_def)

theorem audit_record_outcome_witness:
  "\<exists>row. au_rows (fst (audit_record sample_audit_ext (sample_event 5) (audit_service_new []))) = [row] \<and>
     dt_action row = Some ''a'' \<and> dt_created_at_epoch_ms row = 5"
proof -
  obtain ev' where r: "snd (audit_record sample_audit_ext (sample_event 5) (audit_service_new [])) = Ok ev'"
    using sample_record_ok by auto
  have "au_enabled (audit_service_new [])" "ev_action (sample_event 5) = ''a''"
    "ev_ts_ms (sample_event 5) = 5" "au_rows (audit_service_new []) = []"
    by (simp_all add: audit_service_new_def sample_event_def event_record_new_def with_action_def
        with_summary_def)
  with audit_record_outcome [of sample_audit_ext "sample_event 5" "audit_service_new []",
      OF surjective_pairing] r
  show ?thesis by auto
qed

text \<open>
  C26. With query capture off, the text of a query reaches the table only through
  its length and the first sixteen digits of its hash: two events whose details
  differ in the query text alone, with the same length and fingerprint, are
  prepared for storage identically.
\<close>

theorem query_text_hidden:
  assumes "\<not> au_capture_query_text sv"
    and "ax_json_from_str x d1 = Ok (JObject (obj_insert ''query'' (JString q1) m))"
    and "ax_json_from_str x d2 = Ok (JObject (obj_insert ''query'' (JString q2) m))"
    and "obj_sorted m" and "utf8_len q1 = utf8_len q2"
    and "take 16 (sha256_fingerprint x q1) = take 16 (sha256_fingerprint x q2)"
    and "\<And>v. \<exists>t. ax_json_to_string x v = Ok t"
  shows "preprocess_event_for_storage x sv (ev\<lparr>ev_details_json := Some d1\<rparr>) =
         preprocess_event_for_storage x sv (ev\<lparr>ev_details_json := Some d2\<rparr>)"
proof -
  let ?m2 = "obj_insert ''query_length'' (JNumber (show_nat (utf8_len q1)))
      (obj_insert ''query'' (JString (''[FINGERPRINT:'' @ take 16 (sha256_fingerprint x q1) @ '']'')) m)"
  obtain t where t: "ax_json_to_string x (JObject ?m2) = Ok t" using assms(7) by blast
  have fp: "apply_query_fingerprint x (e\<lparr>ev_details_json := Some d\<rparr>) = e\<lparr>ev_details_json := Some t\<rparr>"
    if "d = d1 \<or> d = d2" for e d
    using that assms(2-6) t by (auto simp: apply_query_fingerprint_def Let_def)
  have actor: "default_actor_id (ev\<lparr>ev_details_json := d\<rparr>) = (default_actor_id ev)\<lparr>ev_details_json := d\<rparr>"
    for d by (simp add: default_actor_id_def Let_def)
  show ?thesis
    using assms(1) fp
    by (simp add: preprocess_event_for_storage_def actor Let_def)
qed

theorem query_text_hidden_witness:
  "preprocess_event_for_storage sample_audit_ext (audit_service_new [])
     ((sample_event 5)\<lparr>ev_details_json := Some ''one''\<rparr>) =
   preprocess_event_for_storage sample_audit_ext (audit_service_new [])
     ((sample_event 5)\<lparr>ev_details_json := Some ''two''\<rparr>)"
  by (rule query_text_hidden [where m = "[]" and ?q1.0 = "''select 1''" and ?q2.0 = "''select 2''"])
     (simp_all add: audit_service_new_def sample_json_from_str_def bt_sorted_def len_utf8_def
        sha256_fingerprint_def)

text \<open>
  The panic hook's entry point never fails and never blocks: it appends one
  row at most, the row of the event it returns, and nothing when audit is disabled,
  when the lock is held or poisoned, or when preparing or storing the event fails.
\<close>

lemma record_panic_outcome:
  "case record_panic_report_best_effort x ts report sv of
     (sv', None) \<Rightarrow> sv' = sv
   | (sv', Some ev) \<Rightarrow>
       au_enabled sv \<and> adb_try_lock x = LockAcquired \<and> ev_action ev = SYSTEM_PANIC \<and>
       (\<exists>row. sv' = sv\<lparr>au_rows := au_rows sv @ [row]\<rparr> \<and> ev_id ev = Some (dt_id row) \<and>
          is_none_or (dt_details_json row) (\<lambda>d. utf8_len d \<le> au_max_detail_bytes sv))"
proof (cases "au_enabled sv")
  case False
  then show ?thesis by (simp add: record_panic_report_best_effort_def)
next
  case True
  define sanitize where "sanitize = (\<lambda>s. if au_redact_sensitive sv
      then rr_redacted (redact_error_message (ax_regex x) s True) else s)"
  define ev1 where "ev1 = with_details_json (ax_json_display x (panic_details sanitize report))
      (with_error ''panic'' (sanitize (panic_combined report))
        (with_actor_id ''system''
          (with_summary (case pn_location report of
               Some location \<Rightarrow> ''Application panic at '' @ location
             | None \<Rightarrow> ''Application panic captured'')
            (with_typed_action SYSTEM_PANIC
              (event_record_new ts SevFatal CatSystem OutFailure)))))"
  have def: "record_panic_report_best_effort x ts report sv =
      (case and_then (normalize_details_json x ev1) (preprocess_event_for_storage x sv) of
         Inl _ \<Rightarrow> (sv, None)
       | Inr ev2 \<Rightarrow>
           (let (rows', r) = store_record_panic_best_effort (db_ext x) ev2 (au_rows sv)
            in (sv\<lparr>au_rows := rows'\<rparr>, case r of Inr (Some ev3) \<Rightarrow> Some ev3 | _ \<Rightarrow> None)))"
    using True by (simp add: record_panic_report_best_effort_def ev1_def sanitize_def Let_def)
  show ?thesis
  proof (cases "and_then (normalize_details_json x ev1) (preprocess_event_for_storage x sv)")
    case (Inl e)
    then show ?thesis by (simp add: def)
  next
    case (Inr ev2)
    then obtain ev1' where 1: "normalize_details_json x ev1 = Ok ev1'"
      "preprocess_event_for_storage x sv ev1' = Ok ev2"
      by (auto simp: and_then_eq_Ok)
    have "ev_action ev1 = SYSTEM_PANIC"
      by (simp add: ev1_def with_details_json_def with_error_def with_actor_id_def with_summary_def
          with_typed_action_def)
    with normalize_frame [OF 1(1)] preprocess_frame [OF 1(2)] have "ev_action ev2 = SYSTEM_PANIC"
      by auto
    with Inr True preprocess_bound [OF 1(2)] show ?thesis
      by (auto simp: def store_record_panic_best_effort_def try_record_panic_def dto_of_append_def
          append_of_panic_def audit_db_ext.defs split: try_lock.splits sum.splits)
  qed
qed

end
