(* ===== verification/Audit_Export.thy ===== *)
theory Audit_Export
  imports Audit_Service
begin

text \<open>
  Exports of the audit log (\<open>dbflux_audit/src/export.rs\<close>) and the pivot of the
  aggregated counts (\<open>pivot_long_to_wide\<close> of \<open>lib.rs\<close>). A reader of RFC 4180 text
  is the specification of the CSV exports: reading an export gives back the header
  and, row by row, the stored values.
\<close>

section \<open>CSV\<close>

datatype audit_export_format = Csv | JsonFormat

definition QUOTE :: char where "QUOTE = CHR 0x22"

definition LF :: char where "LF = CHR 0x0A"

definition csv_quote :: "string \<Rightarrow> string" where
  "csv_quote field = [QUOTE] @ concat (map (\<lambda>c. if c = QUOTE then [QUOTE, QUOTE] else [c]) field) @ [QUOTE]"

definition csv_line :: "string list \<Rightarrow> string" where
  "csv_line fs = join '','' fs @ [LF]"

definition export_csv :: "audit_event list \<Rightarrow> string" where
  "export_csv entries =
     ''id,actor_id,tool_id,decision,reason,created_at_epoch_ms'' @ [LF] @
     concat (map (\<lambda>e. csv_line
       [show_int (ae_id e), csv_quote (ae_actor_id e), csv_quote (ae_tool_id e),
        csv_quote (ae_decision e), csv_quote (unwrap_or [] (ae_reason e)),
        show_int (ae_created_at_epoch_ms e)]) entries)"

text \<open>\<open>to_pretty\<close> is \<open>serde_json::to_string_pretty\<close> on the exported values.\<close>

definition export_entries ::
  "(audit_event list \<Rightarrow> (string, string) result) \<Rightarrow> audit_event list \<Rightarrow> audit_export_format \<Rightarrow>
   (string, string) result" where
  "export_entries to_pretty entries format =
     (case format of Csv \<Rightarrow> Ok (export_csv entries) | JsonFormat \<Rightarrow> to_pretty entries)"

definition export_extended_csv :: "audit_event_dto list \<Rightarrow> string" where
  "export_extended_csv events =
     ''id,actor_id,tool_id,decision,reason,profile_id,classification,'' @
     ''duration_ms,created_at,created_at_epoch_ms,level,category,action,'' @
     ''outcome,actor_type,source_id,summary,connection_id,database_name,'' @
     ''driver_id,object_type,object_id,details_json,error_code,error_message,'' @
     ''session_id,correlation_id'' @ [LF] @
     concat (map (\<lambda>e. csv_line
       [show_int (dt_id e),
        csv_quote (dt_actor_id e),
        csv_quote (dt_tool_id e),
        csv_quote (dt_decision e),
        csv_quote (unwrap_or [] (dt_reason e)),
        csv_quote (unwrap_or [] (dt_profile_id e)),
        csv_quote (unwrap_or [] (dt_classification e)),
        (case dt_duration_ms e of Some d \<Rightarrow> show_int d | None \<Rightarrow> []),
        csv_quote (dt_created_at e),
        show_int (dt_created_at_epoch_ms e),
        csv_quote (unwrap_or [] (dt_level e)),
        csv_quote (unwrap_or [] (dt_category e)),
        csv_quote (unwrap_or [] (dt_action e)),
        csv_quote (unwrap_or [] (dt_outcome e)),
        csv_quote (unwrap_or [] (dt_actor_type e)),
        csv_quote (unwrap_or [] (dt_source_id e)),
        csv_quote (unwrap_or [] (dt_summary e)),
        csv_quote (unwrap_or [] (dt_connection_id e)),
        csv_quote (unwrap_or [] (dt_database_name e)),
        csv_quote (unwrap_or [] (dt_driver_id e)),
        csv_quote (unwrap_or [] (dt_object_type e)),
        csv_quote (unwrap_or [] (dt_object_id e)),
        csv_quote (unwrap_or [] (dt_details_json e)),
        csv_quote (unwrap_or [] (dt_error_code e)),
        csv_quote (unwrap_or [] (dt_error_message e)),
        csv_quote (unwrap_or [] (dt_session_id e)),
        csv_quote (unwrap_or [] (dt_correlation_id e))]) events)"

definition normalize_for_export :: "audit_event_dto \<Rightarrow> audit_event_dto" where
  "normalize_for_export event0 =
     (let event1 = (if trim (dt_tool_id event0) = []
                    then event0\<lparr>dt_tool_id := legacy_tool_id event0\<rparr> else event0)
      in if trim (dt_decision event1) = []
         then event1\<lparr>dt_decision := legacy_decision event1\<rparr> else event1)"

definition export_extended ::
  "(audit_event_dto list \<Rightarrow> (string, string) result) \<Rightarrow> audit_event_dto list \<Rightarrow>
   audit_export_format \<Rightarrow> (string, string) result" where
  "export_extended to_pretty events format =
     (let normalized = map normalize_for_export events
      in case format of
           Csv \<Rightarrow> Ok (export_extended_csv normalized)
         | JsonFormat \<Rightarrow> to_pretty normalized)"

text \<open>\<open>AuditService::export\<close> and \<open>export_extended\<close>.\<close>

definition audit_export ::
  "audit_ext \<Rightarrow> (audit_event list \<Rightarrow> (string, string) result) \<Rightarrow> audit_query_filter \<Rightarrow>
   audit_export_format \<Rightarrow> audit_service \<Rightarrow> (audit_error, string) result" where
  "audit_export x to_pretty f format sv =
     and_then (audit_query x f sv) (\<lambda>events.
       map_err AuSerialization (export_entries to_pretty events format))"

definition audit_export_extended ::
  "audit_ext \<Rightarrow> (audit_event_dto list \<Rightarrow> (string, string) result) \<Rightarrow> audit_query_filter \<Rightarrow>
   audit_export_format \<Rightarrow> audit_service \<Rightarrow> (audit_error, string) result" where
  "audit_export_extended x to_pretty f format sv =
     and_then (audit_query_extended x f sv) (\<lambda>events.
       map_err AuSerialization (export_extended to_pretty events format))"

section \<open>Pivot\<close>

datatype column_kind = KTimestamp | KFloat | KInteger | KText | KUnknown

record column_meta =
  cm_name :: string
  cm_type_name :: string
  cm_kind :: column_kind
  cm_nullable :: bool
  cm_is_primary_key :: bool

datatype cell = VInt int

record pivot_result =
  pv_columns :: "column_meta list"
  pv_rows :: "cell list list"
  pv_execution_time :: nat

definition bucket_column :: column_meta where
  "bucket_column =
     \<lparr>cm_name = ''bucket_ms'', cm_type_name = ''INTEGER'', cm_kind = KTimestamp,
      cm_nullable = False, cm_is_primary_key = False\<rparr>"

definition group_column :: "string \<Rightarrow> column_meta" where
  "group_column label =
     \<lparr>cm_name = label, cm_type_name = ''INTEGER'', cm_kind = KInteger,
      cm_nullable = False, cm_is_primary_key = False\<rparr>"

text \<open>The loop over the raw rows: the set of labels, and the counts by bucket and label.\<close>

type_synonym bucket_counts = "(int \<times> (string \<times> int) list) list"

definition pivot_step ::
  "int \<times> string \<times> int \<Rightarrow> string list \<times> bucket_counts \<Rightarrow> string list \<times> bucket_counts" where
  "pivot_step = (\<lambda>(bucket_ms, label, n) (group_set, counts).
     (insort_insert label group_set,
      bt_insert bucket_ms (bt_insert label n (unwrap_or [] (map_of counts bucket_ms))) counts))"

definition pivot_long_to_wide :: "(int \<times> string \<times> int) list \<Rightarrow> nat \<Rightarrow> pivot_result" where
  "pivot_long_to_wide raw elapsed =
     (if raw = []
      then \<lparr>pv_columns = [bucket_column], pv_rows = [], pv_execution_time = elapsed\<rparr>
      else
        (let (group_labels, counts) = fold pivot_step raw ([], [])
         in \<lparr>pv_columns = bucket_column # map group_column group_labels,
             pv_rows = map (\<lambda>(bucket_ms, group_counts).
               VInt bucket_ms #
               map (\<lambda>label. VInt (unwrap_or 0 (map_of group_counts label))) group_labels) counts,
             pv_execution_time = elapsed\<rparr>))"

section \<open>Reading CSV\<close>

datatype csv_state = AtStart | InPlain | InQuoted | AfterQuote

text \<open>
  A reader of RFC 4180 text: the state, the field and the fields of the current
  line so far, both reversed.
\<close>

fun csv_run :: "csv_state \<Rightarrow> string \<Rightarrow> string list \<Rightarrow> string \<Rightarrow> string list list" where
  "csv_run st cur fs [] = (if st = AtStart \<and> fs = [] then [] else [rev (rev cur # fs)])"
| "csv_run InQuoted cur fs (c # s) =
     (if c = QUOTE then csv_run AfterQuote cur fs s else csv_run InQuoted (c # cur) fs s)"
| "csv_run st cur fs (c # s) =
     (if c = QUOTE \<and> st = AtStart then csv_run InQuoted [] fs s
      else if c = QUOTE \<and> st = AfterQuote then csv_run InQuoted (QUOTE # cur) fs s
      else if c = CHR '','' then csv_run AtStart [] (rev cur # fs) s
      else if c = LF then rev (rev cur # fs) # csv_run AtStart [] [] s
      else csv_run InPlain (c # cur) fs s)"

definition csv_read :: "string \<Rightarrow> string list list" where
  "csv_read s = csv_run AtStart [] [] s"

definition plain_field :: "string \<Rightarrow> bool" where
  "plain_field t \<longleftrightarrow> (\<forall>c \<in> set t. c \<noteq> QUOTE \<and> c \<noteq> CHR '','' \<and> c \<noteq> LF)"

definition encodes :: "string \<Rightarrow> string \<Rightarrow> bool" where
  "encodes t v \<longleftrightarrow> t = csv_quote v \<or> t = v \<and> plain_field v"

lemma csv_chars [simp]:
  "QUOTE \<noteq> CHR '',''" "QUOTE \<noteq> LF" "LF \<noteq> CHR '',''" "CHR '','' \<noteq> QUOTE" "CHR '','' \<noteq> LF" "LF \<noteq> QUOTE"
  by (simp_all add: QUOTE_def LF_def)

lemma csv_run_quoted:
  "csv_run InQuoted cur fs
     (concat (map (\<lambda>c. if c = QUOTE then [QUOTE, QUOTE] else [c]) v) @ QUOTE # s) =
   csv_run AfterQuote (rev v @ cur) fs s"
  by (induction v arbitrary: cur) auto

lemma csv_run_plain:
  "plain_field v \<Longrightarrow> cur \<noteq> [] \<Longrightarrow>
   csv_run InPlain cur fs (v @ s) = csv_run InPlain (rev v @ cur) fs s"
  by (induction v arbitrary: cur) (auto simp: plain_field_def)

text \<open>One field, followed by a comma or the end of its line.\<close>

lemma csv_run_field:
  assumes "encodes t v"
  shows "csv_run AtStart [] fs (t @ CHR '','' # s) = csv_run AtStart [] (v # fs) s"
    and "csv_run AtStart [] fs (t @ LF # s) = rev (v # fs) # csv_run AtStart [] [] s"
proof -
  have "csv_run AtStart [] fs (t @ CHR '','' # s) = csv_run AtStart [] (v # fs) s \<and>
      csv_run AtStart [] fs (t @ LF # s) = rev (v # fs) # csv_run AtStart [] [] s"
  proof (cases "t = csv_quote v")
    case True
    then show ?thesis
      using csv_run_quoted [of "[]" fs v] by (simp add: csv_quote_def)
  next
    case False
    with assms have t: "t = v" "plain_field v" by (auto simp: encodes_def)
    show ?thesis
    proof (cases v)
      case Nil
      with t show ?thesis by simp
    next
      case (Cons c v')
      with t have "plain_field v'" "c \<noteq> QUOTE" "c \<noteq> CHR '',''" "c \<noteq> LF"
        by (auto simp: plain_field_def)
      with t Cons csv_run_plain [of v' "[c]" fs] show ?thesis by simp
    qed
  qed
  then show "csv_run AtStart [] fs (t @ CHR '','' # s) = csv_run AtStart [] (v # fs) s"
    and "csv_run AtStart [] fs (t @ LF # s) = rev (v # fs) # csv_run AtStart [] [] s"
    by simp_all
qed

lemma csv_run_line:
  "list_all2 encodes ts vs \<Longrightarrow> ts \<noteq> [] \<Longrightarrow>
   csv_run AtStart [] fs (csv_line ts @ s) = (rev fs @ vs) # csv_run AtStart [] [] s"
proof (induction "'',''" ts arbitrary: vs fs rule: join.induct)
  case (2 t)
  then obtain v where "vs = [v]" "encodes t v" by (auto simp: list_all2_Cons1)
  with csv_run_field(2) [of t v fs] show ?case by (simp add: csv_line_def)
next
  case (3 t t' ts)
  then obtain v vs' where v: "vs = v # vs'" "encodes t v" "list_all2 encodes (t' # ts) vs'"
    by (auto simp: list_all2_Cons1)
  from 3(1) [OF v(3), of "v # fs"] csv_run_field(1) [OF v(2), of fs] v(1) show ?case
    by (simp add: csv_line_def)
qed simp

lemma csv_run_lines:
  assumes "\<And>e. list_all2 encodes (ts e) (vs e)" and "\<And>e. ts e \<noteq> []"
  shows "csv_run AtStart [] [] (concat (map (\<lambda>e. csv_line (ts e)) es)) = map vs es"
proof (induction es)
  case (Cons e es)
  then show ?case using csv_run_line [OF assms(1,2) [of e], of "[]"] by simp
qed simp

lemma csv_read_table:
  assumes "list_all2 encodes hs hs" and "hs \<noteq> []"
    and "\<And>e. list_all2 encodes (ts e) (vs e)" and "\<And>e. ts e \<noteq> []"
  shows "csv_read (csv_line hs @ concat (map (\<lambda>e. csv_line (ts e)) es)) = hs # map vs es"
  using csv_run_line [OF assms(1,2), of "[]"] csv_run_lines [OF assms(3,4)]
  by (simp add: csv_read_def)

lemma encodes_quote [simp]: "encodes (csv_quote v) v"
  by (simp add: encodes_def)

lemma plain_digits: "\<forall>c \<in> set t. is_ascii_digit c \<Longrightarrow> plain_field t"
  by (auto simp: plain_field_def is_ascii_digit_def QUOTE_def LF_def)

lemma encodes_int [simp]: "encodes (show_int i) (show_int i)"
proof -
  have "plain_field (show_nat n)" for n
    using show_nat_digits by (rule plain_digits)
  then have "plain_field (show_int i)"
    by (auto simp: show_int_def plain_field_def QUOTE_def LF_def)
  then show ?thesis by (simp add: encodes_def)
qed

lemma encodes_Nil [simp]: "encodes [] []"
  by (simp add: encodes_def plain_field_def)

section \<open>Properties\<close>

definition audit_event_values :: "audit_event \<Rightarrow> string list" where
  "audit_event_values e =
     [show_int (ae_id e), ae_actor_id e, ae_tool_id e, ae_decision e,
      unwrap_or [] (ae_reason e), show_int (ae_created_at_epoch_ms e)]"

definition dto_values :: "audit_event_dto \<Rightarrow> string list" where
  "dto_values e =
     [show_int (dt_id e),
      dt_actor_id e,
      dt_tool_id e,
      dt_decision e,
      unwrap_or [] (dt_reason e),
      unwrap_or [] (dt_profile_id e),
      unwrap_or [] (dt_classification e),
      (case dt_duration_ms e of Some d \<Rightarrow> show_int d | None \<Rightarrow> []),
      dt_created_at e,
      show_int (dt_created_at_epoch_ms e),
      unwrap_or [] (dt_level e),
      unwrap_or [] (dt_category e),
      unwrap_or [] (dt_action e),
      unwrap_or [] (dt_outcome e),
      unwrap_or [] (dt_actor_type e),
      unwrap_or [] (dt_source_id e),
      unwrap_or [] (dt_summary e),
      unwrap_or [] (dt_connection_id e),
      unwrap_or [] (dt_database_name e),
      unwrap_or [] (dt_driver_id e),
      unwrap_or [] (dt_object_type e),
      unwrap_or [] (dt_object_id e),
      unwrap_or [] (dt_details_json e),
      unwrap_or [] (dt_error_code e),
      unwrap_or [] (dt_error_message e),
      unwrap_or [] (dt_session_id e),
      unwrap_or [] (dt_correlation_id e)]"

definition csv_header :: "string list" where
  "csv_header = [''id'', ''actor_id'', ''tool_id'', ''decision'', ''reason'', ''created_at_epoch_ms'']"

definition extended_csv_header :: "string list" where
  "extended_csv_header =
     [''id'', ''actor_id'', ''tool_id'', ''decision'', ''reason'', ''profile_id'',
      ''classification'', ''duration_ms'', ''created_at'', ''created_at_epoch_ms'', ''level'',
      ''category'', ''action'', ''outcome'', ''actor_type'', ''source_id'', ''summary'',
      ''connection_id'', ''database_name'', ''driver_id'', ''object_type'', ''object_id'',
      ''details_json'', ''error_code'', ''error_message'', ''session_id'', ''correlation_id'']"

text \<open>
  C25. The CSV exports round-trip: whatever characters the stored texts contain,
  an RFC 4180 reader gets the header line and then, for each event, exactly its
  stored values, in both the short and the extended format.
\<close>

theorem csv_export_roundtrip:
  "csv_read (export_csv entries) =
     csv_header # map audit_event_values entries \<and>
   csv_read (export_extended_csv events) =
     extended_csv_header # map dto_values events"
proof
  have h: "encodes t t" if "plain_field t" for t using that by (simp add: encodes_def)
  let ?ts = "\<lambda>e. [show_int (ae_id e), csv_quote (ae_actor_id e), csv_quote (ae_tool_id e),
        csv_quote (ae_decision e), csv_quote (unwrap_or [] (ae_reason e)),
        show_int (ae_created_at_epoch_ms e)]"
  let ?hs = "csv_header"
  have "export_csv entries = csv_line ?hs @ concat (map (\<lambda>e. csv_line (?ts e)) entries)"
    by (simp add: export_csv_def csv_line_def csv_header_def)
  moreover have "list_all2 encodes ?hs ?hs" "?hs \<noteq> []"
    by (simp_all add: h plain_field_def QUOTE_def LF_def csv_header_def)
  moreover have "list_all2 encodes (?ts e) (audit_event_values e)" for e
    by (simp add: audit_event_values_def)
  ultimately show "csv_read (export_csv entries) = ?hs # map audit_event_values entries"
    using csv_read_table [of ?hs ?ts audit_event_values entries] by simp
next
  have h: "encodes t t" if "plain_field t" for t using that by (simp add: encodes_def)
  let ?ts = "\<lambda>e. [show_int (dt_id e), csv_quote (dt_actor_id e), csv_quote (dt_tool_id e), csv_quote
      (dt_decision e), csv_quote (unwrap_or [] (dt_reason e)), csv_quote (unwrap_or []
      (dt_profile_id e)), csv_quote (unwrap_or [] (dt_classification e)), (case dt_duration_ms
      e of Some d \<Rightarrow> show_int d | None \<Rightarrow> []), csv_quote (dt_created_at
      e), show_int (dt_created_at_epoch_ms e), csv_quote (unwrap_or [] (dt_level e)),
      csv_quote (unwrap_or [] (dt_category e)), csv_quote (unwrap_or [] (dt_action e)),
      csv_quote (unwrap_or [] (dt_outcome e)), csv_quote (unwrap_or [] (dt_actor_type e)),
      csv_quote (unwrap_or [] (dt_source_id e)), csv_quote (unwrap_or [] (dt_summary e)),
      csv_quote (unwrap_or [] (dt_connection_id e)), csv_quote (unwrap_or [] (dt_database_name
      e)), csv_quote (unwrap_or [] (dt_driver_id e)), csv_quote (unwrap_or [] (dt_object_type
      e)), csv_quote (unwrap_or [] (dt_object_id e)), csv_quote (unwrap_or [] (dt_details_json
      e)), csv_quote (unwrap_or [] (dt_error_code e)), csv_quote (unwrap_or []
      (dt_error_message e)), csv_quote (unwrap_or [] (dt_session_id e)), csv_quote (unwrap_or
      [] (dt_correlation_id e))]"
  let ?hs = "extended_csv_header"
  have "export_extended_csv events = csv_line ?hs @ concat (map (\<lambda>e. csv_line (?ts e)) events)"
    by (simp add: export_extended_csv_def csv_line_def extended_csv_header_def)
  moreover have "list_all2 encodes ?hs ?hs" "?hs \<noteq> []"
    by (simp_all add: h plain_field_def QUOTE_def LF_def extended_csv_header_def)
  moreover have "list_all2 encodes (?ts e) (dto_values e)" for e
    by (simp add: dto_values_def split: option.splits)
  ultimately show "csv_read (export_extended_csv events) = ?hs # map dto_values events"
    using csv_read_table [of ?hs ?ts dto_values events] by simp
qed

text \<open>
  The pivot, declaratively: the distinct labels and buckets in increasing order,
  and in each cell the last count given for its bucket and label, or zero.
\<close>

definition pivot_labels :: "(int \<times> string \<times> int) list \<Rightarrow> string list" where
  "pivot_labels raw = sorted_list_of_set ((\<lambda>(_, l, _). l) ` set raw)"

definition pivot_buckets :: "(int \<times> string \<times> int) list \<Rightarrow> int list" where
  "pivot_buckets raw = sorted_list_of_set ((\<lambda>(b, _, _). b) ` set raw)"

definition pivot_cell :: "(int \<times> string \<times> int) list \<Rightarrow> int \<Rightarrow> string \<Rightarrow> int" where
  "pivot_cell raw b l = unwrap_or 0 (map_of (rev (map (\<lambda>(b, l, n). ((b, l), n)) raw)) (b, l))"

definition counts_ok :: "(int \<times> string \<times> int) list \<Rightarrow> bucket_counts \<Rightarrow> bool" where
  "counts_ok raw counts \<longleftrightarrow>
     bt_sorted counts \<and> fst ` set counts = (\<lambda>(b, _, _). b) ` set raw \<and>
     (\<forall>b m. map_of counts b = Some m \<longrightarrow>
        bt_sorted m \<and> (\<forall>l. map_of m l = map_of (rev (map (\<lambda>(b, l, n). ((b, l), n)) raw)) (b, l)))"

lemma sorted_insort_insert: "insort_insert l (sorted_list_of_set A) = sorted_list_of_set (insert l A)"
  if "finite A" for l :: string
  using that
  by (cases "l \<in> A") (simp_all add: insort_insert_key_def insert_absorb)

lemma pivot_fold:
  "\<exists>counts. fold pivot_step raw ([], []) = (pivot_labels raw, counts) \<and> counts_ok raw counts"
proof (induction raw rule: rev_induct)
  case Nil
  then show ?case by (simp add: pivot_labels_def counts_ok_def)
next
  case (snoc x raw)
  obtain b l n where x: "x = (b, l, n)" by (cases x)
  from snoc obtain counts where f: "fold pivot_step raw ([], []) = (pivot_labels raw, counts)"
    and ok: "counts_ok raw counts" by blast
  let ?m = "bt_insert l n (unwrap_or [] (map_of counts b))"
  let ?counts = "bt_insert b ?m counts"
  have labels: "pivot_labels (raw @ [x]) = insort_insert l (pivot_labels raw)"
    by (simp add: pivot_labels_def x sorted_insort_insert)
  have sorted: "bt_sorted counts" using ok by (simp add: counts_ok_def)
  have none: "map_of (rev (map (\<lambda>(b, l, n). ((b, l), n)) raw)) (b, l') = None"
    if "map_of counts b = None" for l'
  proof -
    from that ok have "b \<notin> (\<lambda>(b, _, _). b) ` set raw"
      by (simp add: counts_ok_def map_of_eq_None_iff)
    then show ?thesis by (force simp: map_of_eq_None_iff)
  qed
  have m: "bt_sorted ?m \<and> (\<forall>l'. map_of ?m l' =
      map_of (rev (map (\<lambda>(b, l, n). ((b, l), n)) (raw @ [x]))) (b, l'))"
  proof (cases "map_of counts b")
    case None
    with none show ?thesis by (simp add: x bt_sorted_def)
  next
    case (Some m0)
    with ok show ?thesis by (simp add: counts_ok_def x)
  qed
  have other: "map_of (rev (map (\<lambda>(b, l, n). ((b, l), n)) (raw @ [x]))) (b', l') =
      map_of (rev (map (\<lambda>(b, l, n). ((b, l), n)) raw)) (b', l')" if "b' \<noteq> b" for b' l'
    using that by (simp add: x)
  have "counts_ok (raw @ [x]) ?counts"
    unfolding counts_ok_def
  proof (intro conjI allI impI)
    show "fst ` set ?counts = (\<lambda>(b, _, _). b) ` set (raw @ [x])"
      using ok by (simp add: counts_ok_def x)
    fix b' m' l'
    assume "map_of ?counts b' = Some m'"
    with sorted have c: "if b' = b then m' = ?m else map_of counts b' = Some m'" by (auto split: if_splits)
    show "bt_sorted m'" using c m ok by (auto simp: counts_ok_def split: if_splits)
    show "map_of m' l' = map_of (rev (map (\<lambda>(b, l, n). ((b, l), n)) (raw @ [x]))) (b', l')"
    proof (cases "b' = b")
      case True
      with c m show ?thesis by simp
    next
      case False
      with c ok have "map_of m' l' = map_of (rev (map (\<lambda>(b, l, n). ((b, l), n)) raw)) (b', l')"
        by (simp add: counts_ok_def)
      with other [OF False] show ?thesis by simp
    qed
  qed (use sorted in simp)
  with f labels show ?case by (simp add: pivot_step_def x)
qed

text \<open>
  The pivot of aggregated counts is a full table: a timestamp column and one
  integer column per distinct label, in alphabetical order; one row per distinct
  bucket, in increasing order; and in each cell the count of its bucket and label,
  zero where there is none.
\<close>

lemma pivot_table:
  "pivot_long_to_wide raw elapsed =
     \<lparr>pv_columns = bucket_column # map group_column (pivot_labels raw),
      pv_rows = map (\<lambda>b. VInt b # map (\<lambda>l. VInt (pivot_cell raw b l)) (pivot_labels raw))
                  (pivot_buckets raw),
      pv_execution_time = elapsed\<rparr>"
proof (cases "raw = []")
  case True
  then show ?thesis by (simp add: pivot_long_to_wide_def pivot_labels_def pivot_buckets_def)
next
  case False
  obtain counts where f: "fold pivot_step raw ([], []) = (pivot_labels raw, counts)"
    and ok: "counts_ok raw counts" using pivot_fold by blast
  then have sorted: "bt_sorted counts" and keys: "map fst counts = pivot_buckets raw"
    using bt_keys [of counts] by (auto simp: counts_ok_def pivot_buckets_def)
  have "(\<lambda>(b, m). VInt b # map (\<lambda>l. VInt (unwrap_or 0 (map_of m l))) (pivot_labels raw)) c =
      (\<lambda>b. VInt b # map (\<lambda>l. VInt (pivot_cell raw b l)) (pivot_labels raw)) (fst c)"
    if "c \<in> set counts" for c
  proof -
    obtain b m where c: "c = (b, m)" by (cases c)
    have "distinct (map fst counts)"
      using sorted by (simp add: bt_sorted_def strict_sorted_iff)
    with that c have "map_of counts b = Some m" by simp
    with ok show ?thesis by (simp add: c counts_ok_def pivot_cell_def)
  qed
  then have "map (\<lambda>(b, m). VInt b # map (\<lambda>l. VInt (unwrap_or 0 (map_of m l))) (pivot_labels raw)) counts =
      map (\<lambda>b. VInt b # map (\<lambda>l. VInt (pivot_cell raw b l)) (pivot_labels raw)) (map fst counts)"
    unfolding map_map comp_def by (rule map_cong [OF refl])
  with False f keys show ?thesis by (simp add: pivot_long_to_wide_def)
qed

end
