(* ===== verification/Authorization.thy ===== *)
theory Authorization
  imports Policy Audit_Service
begin

text \<open>
  The front of the MCP server (crate \<open>dbflux_mcp\<close>): the identity read from a
  request (\<open>server/request_context.rs\<close>), the transport profile
  (\<open>server/bootstrap.rs\<close>), the tool catalogue (\<open>tool_catalog.rs\<close>) and its router
  (\<open>server/router.rs\<close>), and the authorization of a call (\<open>server/authorization.rs\<close>),
  which combines the trusted clients, the policy engine, the audit service and an
  approval gate. A gate is an \<open>ApprovalGate\<close> trait object: a function that answers
  a request and changes the gate's state. The lemmas give the exact conditions
  under which a call is allowed and the audit trail every answer leaves.
\<close>

section \<open>Requests and transports\<close>

record request_identity =
  ri_client_id :: string
  ri_issuer :: "string option"

record request_context =
  rc_identity :: request_identity
  rc_tool_id :: string
  rc_connection_id :: string

datatype request_context_error = MissingClientId

definition non_blank_text :: "string \<Rightarrow> json \<Rightarrow> string option" where
  "non_blank_text key payload =
     opt_filter (\<lambda>v. v \<noteq> [])
       (map_option trim (Option.bind (json_get key payload) json_as_str))"

definition resolve_request_identity ::
  "json \<Rightarrow> (request_context_error, request_identity) result" where
  "resolve_request_identity payload =
     and_then (ok_or MissingClientId (non_blank_text ''client_id'' payload)) (\<lambda>client_id.
       Ok \<lparr>ri_client_id = client_id, ri_issuer = non_blank_text ''issuer'' payload\<rparr>)"

datatype transport_kind = Stdio | UnixSocket | Tcp

record bootstrap_config =
  bc_enabled_transports :: "transport_kind list"

datatype bootstrap_error = NoTransportEnabled | TcpOnlyNotSupported

definition validate_v1_transport_profile ::
  "bootstrap_config \<Rightarrow> (bootstrap_error, unit) result" where
  "validate_v1_transport_profile config =
     (if bc_enabled_transports config = [] then Err NoTransportEnabled
      else
        (let has_stdio = list_ex (\<lambda>t. t = Stdio) (bc_enabled_transports config);
             has_unix_socket = list_ex (\<lambda>t. t = UnixSocket) (bc_enabled_transports config);
             has_tcp = list_ex (\<lambda>t. t = Tcp) (bc_enabled_transports config)
         in if has_tcp \<and> \<not> has_stdio \<and> \<not> has_unix_socket then Err TcpOnlyNotSupported
            else Ok ()))"

section \<open>The tool catalogue\<close>

definition DEFERRED_TOOL_V1_ESTIMATE_QUERY_COST :: string where
  "DEFERRED_TOOL_V1_ESTIMATE_QUERY_COST = ''estimate_query_cost''"

definition DEFERRED_TOOL_V1_GET_EXECUTION_STATUS :: string where
  "DEFERRED_TOOL_V1_GET_EXECUTION_STATUS = ''get_execution_status''"

definition DEFERRED_TOOL_IDS :: "string list" where
  "DEFERRED_TOOL_IDS =
     [DEFERRED_TOOL_V1_ESTIMATE_QUERY_COST, DEFERRED_TOOL_V1_GET_EXECUTION_STATUS]"

definition DEFERRED_TOOL_REJECTION_REASON :: string where
  "DEFERRED_TOOL_REJECTION_REASON = ''tool not available in v1''"

definition CANONICAL_V1_TOOLS :: "string list" where
  "CANONICAL_V1_TOOLS =
     [''list_connections'', ''connect'', ''disconnect'', ''get_connection_info'',
      ''list_databases'', ''list_schemas'', ''list_tables'', ''list_collections'',
      ''describe_object'',
      ''select_data'', ''count_records'', ''aggregate_data'', ''explain_query'',
      ''preview_mutation'',
      ''insert_record'', ''update_records'', ''upsert_record'',
      ''delete_records'', ''truncate_table'', ''drop_table'', ''drop_database'',
      ''create_table'', ''alter_table'', ''create_index'', ''drop_index'', ''create_type'',
      ''list_scripts'', ''get_script'', ''create_script'', ''update_script'', ''delete_script'',
      ''execute_script'',
      ''request_execution'', ''list_pending_executions'', ''get_pending_execution'',
      ''approve_execution'', ''reject_execution'',
      ''query_audit_logs'', ''get_audit_entry'', ''export_audit_logs'']"

datatype tool_catalog_error = DeferredInV1 string | UnknownTool string

definition is_canonical_v1_tool :: "string \<Rightarrow> bool" where
  "is_canonical_v1_tool tool_id = list_ex (\<lambda>candidate. candidate = tool_id) CANONICAL_V1_TOOLS"

definition is_deferred_v1_tool :: "string \<Rightarrow> bool" where
  "is_deferred_v1_tool tool_id = list_ex (\<lambda>candidate. candidate = tool_id) DEFERRED_TOOL_IDS"

definition validate_v1_tool :: "string \<Rightarrow> (tool_catalog_error, unit) result" where
  "validate_v1_tool tool_id =
     (if is_canonical_v1_tool tool_id then Ok ()
      else if is_deferred_v1_tool tool_id then Err (DeferredInV1 tool_id)
      else Err (UnknownTool tool_id))"

datatype route_target =
    RouteDiscovery | RouteSchema | RouteQuery | RouteScripts | RouteApproval | RouteAudit

definition route_tool :: "string \<Rightarrow> (tool_catalog_error, route_target) result" where
  "route_tool tool_id =
     and_then (validate_v1_tool tool_id) (\<lambda>_.
       if tool_id \<in> {''list_connections'', ''get_connection'', ''get_connection_metadata''}
       then Ok RouteDiscovery
       else if tool_id \<in> {''list_databases'', ''list_schemas'', ''list_tables'',
                          ''list_collections'', ''describe_object''}
       then Ok RouteSchema
       else if tool_id \<in> {''select_data'', ''explain_query'', ''preview_mutation''}
       then Ok RouteQuery
       else if tool_id \<in> {''list_scripts'', ''get_script'', ''create_script'', ''update_script'',
                          ''delete_script'', ''run_script''}
       then Ok RouteScripts
       else if tool_id \<in> {''request_execution'', ''list_pending_executions'',
                          ''get_pending_execution'', ''approve_execution'', ''reject_execution''}
       then Ok RouteApproval
       else if tool_id \<in> {''query_audit_logs'', ''get_audit_entry'', ''export_audit_logs''}
       then Ok RouteAudit
       else Err (UnknownTool tool_id))"

section \<open>Authorization\<close>

record authorization_request =
  aq_identity :: request_identity
  aq_connection_id :: string
  aq_tool_id :: string
  aq_classification :: execution_classification
  aq_mcp_enabled_for_connection :: bool
  aq_read_only_connection :: bool
  aq_correlation_id :: "string option"

definition APPROVAL_REQUIRED_CODE :: string where
  "APPROVAL_REQUIRED_CODE = ''approval_required''"

definition SELF_APPROVAL_FORBIDDEN_CODE :: string where
  "SELF_APPROVAL_FORBIDDEN_CODE = ''self_approval_forbidden''"

definition HUMAN_ONLY_APPROVAL_TOOLS :: "string list" where
  "HUMAN_ONLY_APPROVAL_TOOLS = [''approve_execution'', ''reject_execution'']"

definition SELF_APPROVAL_FORBIDDEN_REASON :: string where
  "SELF_APPROVAL_FORBIDDEN_REASON =
     ''MCP clients cannot approve or reject pending executions; '' @
     ''a person resolves them in DBFlux (Pending Approvals)''"

definition APPROVAL_REQUIRED_REASON :: string where
  "APPROVAL_REQUIRED_REASON = ''classification requires approval by policy''"

definition READ_ONLY_CONNECTION_CODE :: string where
  "READ_ONLY_CONNECTION_CODE = ''connection_read_only''"

definition READ_ONLY_CONNECTION_REASON :: string where
  "READ_ONLY_CONNECTION_REASON =
     ''the connection profile is set to read-only in DBFlux; '' @
     ''only metadata and read operations are allowed''"

record authorization_outcome =
  ao_allowed :: bool
  ao_deny_code :: "string option"
  ao_deny_reason :: "string option"
  ao_correlation_id :: "string option"
  ao_actor_id :: string
  ao_pending_execution_id :: "string option"
  ao_approved_execution_id :: "string option"

datatype authorization_error =
    AuthPolicy policy_engine_error
  | AuthAuditRecord audit_error
  | AuthApproval string

datatype approval_resolution = Granted string | Queued string | Exempt

type_synonym 'g approval_gate =
  "authorization_request \<Rightarrow> 'g \<Rightarrow> 'g \<times> (authorization_error, approval_resolution) result"

text \<open>The \<open>Debug\<close> rendering of a class.\<close>

fun classification_debug :: "execution_classification \<Rightarrow> string" where
  "classification_debug Metadata = ''Metadata''"
| "classification_debug Read = ''Read''"
| "classification_debug Write = ''Write''"
| "classification_debug Destructive = ''Destructive''"
| "classification_debug Admin = ''Admin''"
| "classification_debug AdminSafe = ''AdminSafe''"
| "classification_debug AdminDestructive = ''AdminDestructive''"

fun format_policy_deny_reason :: "policy_decision_reason \<Rightarrow> string" where
  "format_policy_deny_reason NoAssignment = ''no matching connection-scoped assignment''"
| "format_policy_deny_reason NoPolicy = ''no matching policy''"
| "format_policy_deny_reason ToolDenied = ''tool denied by policy''"
| "format_policy_deny_reason ClassificationDenied = ''classification denied by policy''"

definition build_authorization_event ::
  "int \<Rightarrow> event_severity \<Rightarrow> string \<Rightarrow> string \<Rightarrow> string \<Rightarrow> execution_classification \<Rightarrow>
   event_outcome \<Rightarrow> string \<Rightarrow> event_origin \<Rightarrow> event_record" where
  "build_authorization_event ts_ms level actor_id connection_id tool_id classification outcome
     correlation_id origin =
     apply_to
       (ctx_with_connection_id connection_id
         (ctx_with_correlation_id correlation_id
           (ctx_with_origin origin audit_context_new)))
       (with_object_ref ''tool'' tool_id
         (with_actor_id actor_id
           (with_summary (''MCP authorization '' @ outcome_as_str outcome @ '': tool='' @ tool_id @
                          '' classification='' @ classification_debug classification)
             (with_typed_action MCP_AUTHORIZE
               (event_record_new ts_ms level CatMcp outcome)))))"

definition authorization_event ::
  "int \<Rightarrow> authorization_request \<Rightarrow> event_outcome \<Rightarrow> string \<Rightarrow> event_record" where
  "authorization_event ts request outcome correlation_id =
     build_authorization_event ts SevInfo (ri_client_id (aq_identity request))
       (aq_connection_id request) (aq_tool_id request) (aq_classification request) outcome
       correlation_id origin_mcp"

definition classification_details :: "authorization_request \<Rightarrow> (string \<times> json) list \<Rightarrow> json" where
  "classification_details request others =
     JObject (obj_of ((''classification'', JString (classification_debug (aq_classification request)))
                      # others))"

text \<open>\<open>audit_service.record(event)?\<close> followed by the answer.\<close>

definition record_then ::
  "audit_ext \<Rightarrow> event_record \<Rightarrow> authorization_outcome \<Rightarrow> audit_service \<Rightarrow>
   audit_service \<times> (authorization_error, authorization_outcome) result" where
  "record_then x event outcome au =
     (case audit_record x event au of
        (au', Inl e) \<Rightarrow> (au', Err (AuthAuditRecord e))
      | (au', Inr _) \<Rightarrow> (au', Ok outcome))"

text \<open>The block that each early return of the handler repeats.\<close>

definition deny_call ::
  "audit_ext \<Rightarrow> int \<Rightarrow> authorization_request \<Rightarrow> string \<Rightarrow> string \<Rightarrow> string \<Rightarrow> audit_service \<Rightarrow>
   audit_service \<times> (authorization_error, authorization_outcome) result" where
  "deny_call x ts request correlation_id deny_code deny_reason au =
     record_then x
       (with_details_json (ax_json_display x (classification_details request []))
         (with_error deny_code deny_reason
           (authorization_event ts request OutFailure correlation_id)))
       \<lparr>ao_allowed = False, ao_deny_code = Some deny_code, ao_deny_reason = Some deny_reason,
        ao_correlation_id = Some correlation_id,
        ao_actor_id = ri_client_id (aq_identity request),
        ao_pending_execution_id = None, ao_approved_execution_id = None\<rparr> au"

definition allow_call ::
  "audit_ext \<Rightarrow> int \<Rightarrow> authorization_request \<Rightarrow> string \<Rightarrow> audit_service \<Rightarrow>
   audit_service \<times> (authorization_error, authorization_outcome) result" where
  "allow_call x ts request correlation_id au =
     record_then x
       (with_details_json (ax_json_display x (classification_details request []))
         (authorization_event ts request OutSuccess correlation_id))
       \<lparr>ao_allowed = True, ao_deny_code = None, ao_deny_reason = None,
        ao_correlation_id = Some correlation_id,
        ao_actor_id = ri_client_id (aq_identity request),
        ao_pending_execution_id = None, ao_approved_execution_id = None\<rparr> au"

text \<open>The event outcome, the details and the answer for each resolution of the gate.\<close>

fun resolution_outcome ::
  "authorization_request \<Rightarrow> string \<Rightarrow> approval_resolution option \<Rightarrow>
   event_outcome \<times> json \<times> authorization_outcome" where
  "resolution_outcome request correlation_id (Some (Granted pending_id)) =
     (OutSuccess,
      classification_details request
        [(''decision'', JString ''approved''), (''pending_execution_id'', JString pending_id)],
      \<lparr>ao_allowed = True, ao_deny_code = None, ao_deny_reason = None,
       ao_correlation_id = Some correlation_id,
       ao_actor_id = ri_client_id (aq_identity request),
       ao_pending_execution_id = None, ao_approved_execution_id = Some pending_id\<rparr>)"
| "resolution_outcome request correlation_id (Some (Queued pending_id)) =
     (OutPending,
      classification_details request
        [(''decision'', JString ''approval_required''), (''pending_execution_id'', JString pending_id)],
      \<lparr>ao_allowed = False, ao_deny_code = Some APPROVAL_REQUIRED_CODE,
       ao_deny_reason =
         Some (APPROVAL_REQUIRED_REASON @ ''; queued as pending execution '' @ pending_id),
       ao_correlation_id = Some correlation_id,
       ao_actor_id = ri_client_id (aq_identity request),
       ao_pending_execution_id = Some pending_id, ao_approved_execution_id = None\<rparr>)"
| "resolution_outcome request correlation_id (Some Exempt) =
     (OutSuccess,
      classification_details request [(''decision'', JString ''approval_queue_tool'')],
      \<lparr>ao_allowed = True, ao_deny_code = None, ao_deny_reason = None,
       ao_correlation_id = Some correlation_id,
       ao_actor_id = ri_client_id (aq_identity request),
       ao_pending_execution_id = None, ao_approved_execution_id = None\<rparr>)"
| "resolution_outcome request correlation_id None =
     (OutPending,
      classification_details request [(''decision'', JString ''approval_required'')],
      \<lparr>ao_allowed = False, ao_deny_code = Some APPROVAL_REQUIRED_CODE,
       ao_deny_reason = Some APPROVAL_REQUIRED_REASON,
       ao_correlation_id = Some correlation_id,
       ao_actor_id = ri_client_id (aq_identity request),
       ao_pending_execution_id = None, ao_approved_execution_id = None\<rparr>)"

definition record_resolution ::
  "audit_ext \<Rightarrow> int \<Rightarrow> authorization_request \<Rightarrow> string \<Rightarrow> approval_resolution option \<Rightarrow>
   audit_service \<Rightarrow> audit_service \<times> (authorization_error, authorization_outcome) result" where
  "record_resolution x ts request correlation_id resolution au =
     (let (outcome_kind, details, outcome) = resolution_outcome request correlation_id resolution;
          event = with_details_json (ax_json_display x details)
                    (authorization_event ts request outcome_kind correlation_id);
          event' = (case (ao_deny_code outcome, ao_deny_reason outcome) of
                      (Some deny_code, Some deny_reason) \<Rightarrow> with_error deny_code deny_reason event
                    | _ \<Rightarrow> event)
      in record_then x event' outcome au)"

definition resolve_approval ::
  "audit_ext \<Rightarrow> authorization_request \<Rightarrow> 'g approval_gate option \<Rightarrow> int \<Rightarrow> string \<Rightarrow>
   audit_service \<times> 'g \<Rightarrow>
   (audit_service \<times> 'g) \<times> (authorization_error, authorization_outcome) result" where
  "resolve_approval x request gate ts correlation_id st =
     (let (au, g) = st
      in case gate of
           None \<Rightarrow>
             (let (au', r) = record_resolution x ts request correlation_id None au
              in ((au', g), r))
         | Some resolve \<Rightarrow>
             (case resolve request g of
                (g', Inl e) \<Rightarrow> ((au, g'), Err e)
              | (g', Inr resolution) \<Rightarrow>
                  (let (au', r) =
                         record_resolution x ts request correlation_id (Some resolution) au
                   in ((au', g'), r))))"

text \<open>
  \<open>iter\<close> is the iteration order of the engine's hash set, \<open>fresh_id\<close> the result of
  \<open>new_correlation_id\<close>; the state is the audit service and the state of the gate.
\<close>

definition authorize_request_with_approval ::
  "audit_ext \<Rightarrow> (string list \<Rightarrow> string list) \<Rightarrow> string \<Rightarrow> trusted_client_registry \<Rightarrow> policy_engine \<Rightarrow>
   authorization_request \<Rightarrow> 'g approval_gate option \<Rightarrow> int \<Rightarrow> audit_service \<times> 'g \<Rightarrow>
   (audit_service \<times> 'g) \<times> (authorization_error, authorization_outcome) result" where
  "authorize_request_with_approval x iter fresh_id trusted_clients policy_engine request gate ts st =
     (let (au, g) = st;
          correlation_id = unwrap_or fresh_id (aq_correlation_id request);
          keep_gate = (\<lambda>(au', r). ((au', g), r))
      in if aq_tool_id request \<in> set HUMAN_ONLY_APPROVAL_TOOLS
         then keep_gate (deny_call x ts request correlation_id SELF_APPROVAL_FORBIDDEN_CODE
                           SELF_APPROVAL_FORBIDDEN_REASON au)
         else if \<not> aq_mcp_enabled_for_connection request
         then keep_gate (deny_call x ts request correlation_id ''connection_not_mcp_enabled''
                           ''connection not MCP-enabled'' au)
         else if aq_read_only_connection request \<and> aq_classification request \<notin> {Metadata, Read}
         then keep_gate (deny_call x ts request correlation_id READ_ONLY_CONNECTION_CODE
                           READ_ONLY_CONNECTION_REASON au)
         else
           (case evaluate_client trusted_clients
                   \<lparr>ci_client_id = ri_client_id (aq_identity request),
                    ci_issuer = ri_issuer (aq_identity request)\<rparr> of
              Untrusted reason \<Rightarrow>
                keep_gate (deny_call x ts request correlation_id ''untrusted_client'' reason au)
            | Trusted _ \<Rightarrow>
                (case evaluate iter policy_engine
                        \<lparr>pr_actor_id = ri_client_id (aq_identity request),
                         pr_connection_id = aq_connection_id request,
                         pr_tool_id = aq_tool_id request,
                         pr_classification = aq_classification request\<rparr> of
                   Inl e \<Rightarrow> (st, Err (AuthPolicy e))
                 | Inr Allow \<Rightarrow> keep_gate (allow_call x ts request correlation_id au)
                 | Inr RequireApproval \<Rightarrow> resolve_approval x request gate ts correlation_id st
                 | Inr (Deny reason) \<Rightarrow>
                     keep_gate (deny_call x ts request correlation_id ''policy_denied''
                                  (format_policy_deny_reason reason) au))))"

definition authorize_request ::
  "audit_ext \<Rightarrow> (string list \<Rightarrow> string list) \<Rightarrow> string \<Rightarrow> trusted_client_registry \<Rightarrow> policy_engine \<Rightarrow>
   authorization_request \<Rightarrow> int \<Rightarrow> audit_service \<Rightarrow>
   audit_service \<times> (authorization_error, authorization_outcome) result" where
  "authorize_request x iter fresh_id trusted_clients policy_engine request ts au =
     (let ((au', _), r) =
            authorize_request_with_approval x iter fresh_id trusted_clients policy_engine request
              (None :: unit approval_gate option) ts (au, ())
      in (au', r))"

section \<open>The event and the row of an answer\<close>

lemmas event_builder_defs =
  event_record_new_def with_typed_action_def with_summary_def with_actor_id_def
  with_object_ref_def with_error_def with_details_json_def with_origin_def
  with_connection_context_def

lemma authorization_event_simps [simp]:
  "ev_action (authorization_event ts request oc corr) = MCP_AUTHORIZE"
  "ev_category (authorization_event ts request oc corr) = CatMcp"
  "ev_outcome (authorization_event ts request oc corr) = oc"
  "ev_ts_ms (authorization_event ts request oc corr) = ts"
  "ev_actor_id (authorization_event ts request oc corr) = Some (ri_client_id (aq_identity request))"
  "ev_connection_id (authorization_event ts request oc corr) = Some (aq_connection_id request)"
  "ev_object_id (authorization_event ts request oc corr) = Some (aq_tool_id request)"
  "ev_error_code (authorization_event ts request oc corr) = None"
  "ev_correlation_id (authorization_event ts request oc corr) = Some corr"
  "ev_summary (authorization_event ts request oc corr) =
     ''MCP authorization '' @ outcome_as_str oc @ '': tool='' @ aq_tool_id request @
     '' classification='' @ classification_debug (aq_classification request)"
  by (simp_all add: authorization_event_def build_authorization_event_def event_builder_defs
      apply_to_def audit_context_new_def ctx_with_origin_def ctx_with_correlation_id_def
      ctx_with_connection_id_def or_keep_def)

text \<open>The outcome an answer is audited with, and the row it leaves.\<close>

definition audited_outcome :: "authorization_outcome \<Rightarrow> string" where
  "audited_outcome out =
     (if ao_allowed out then ''success''
      else if ao_deny_code out = Some APPROVAL_REQUIRED_CODE then ''pending''
      else ''failure'')"

definition answer_row ::
  "authorization_request \<Rightarrow> int \<Rightarrow> authorization_outcome \<Rightarrow> audit_event_dto \<Rightarrow> bool" where
  "answer_row request ts out row \<longleftrightarrow>
     dt_action row = Some MCP_AUTHORIZE \<and> dt_category row = Some ''mcp'' \<and>
     dt_outcome row = Some (audited_outcome out) \<and>
     dt_actor_id row = ri_client_id (aq_identity request) \<and>
     dt_connection_id row = Some (aq_connection_id request) \<and>
     dt_object_id row = Some (aq_tool_id request) \<and>
     dt_created_at_epoch_ms row = ts \<and>
     dt_correlation_id row = ao_correlation_id out \<and>
     dt_error_code row = ao_deny_code out"

definition answered ::
  "authorization_request \<Rightarrow> int \<Rightarrow> audit_service \<Rightarrow> audit_service \<Rightarrow>
   (authorization_error, authorization_outcome) result \<Rightarrow> bool" where
  "answered request ts au au' r \<longleftrightarrow>
     (case r of
        Inl _ \<Rightarrow> au' = au
      | Inr out \<Rightarrow>
          if au_enabled au
          then (\<exists>row. au' = au\<lparr>au_rows := au_rows au @ [row]\<rparr> \<and> answer_row request ts out row)
          else au' = au)"

lemma answered_Err [simp]: "answered request ts au au (Err e)"
  by (simp add: answered_def)

text \<open>What the row takes from the event.\<close>

definition answer_event ::
  "authorization_request \<Rightarrow> int \<Rightarrow> event_outcome \<Rightarrow> string \<Rightarrow> string option \<Rightarrow> event_record \<Rightarrow> bool" where
  "answer_event request ts oc corr dcode ev \<longleftrightarrow>
     ev_action ev = MCP_AUTHORIZE \<and> ev_category ev = CatMcp \<and> ev_outcome ev = oc \<and>
     ev_ts_ms ev = ts \<and> ev_actor_id ev = Some (ri_client_id (aq_identity request)) \<and>
     ev_connection_id ev = Some (aq_connection_id request) \<and>
     ev_object_id ev = Some (aq_tool_id request) \<and> ev_error_code ev = dcode \<and>
     ev_correlation_id ev = Some corr"

lemma answer_event_plain:
  "answer_event request ts oc corr None (authorization_event ts request oc corr)"
  by (simp add: answer_event_def)

lemma answer_event_error:
  "answer_event request ts oc corr dc ev \<Longrightarrow>
   answer_event request ts oc corr (Some dc') (with_error dc' dr ev)"
  by (simp add: answer_event_def with_error_def)

lemma answer_event_details:
  "answer_event request ts oc corr dc ev \<Longrightarrow>
   answer_event request ts oc corr dc (with_details_json dj ev)"
  by (simp add: answer_event_def with_details_json_def)

lemma record_then_answered:
  assumes "record_then x event out au = (au', r)"
    and "answer_event request ts oc corr (ao_deny_code out) event"
    and "ao_correlation_id out = Some corr" and "outcome_as_str oc = audited_outcome out"
  shows "answered request ts au au' r" and "r = Ok out' \<Longrightarrow> out' = out"
proof -
  obtain r' where rec: "audit_record x event au = (au', r')"
    and r: "r = (case r' of Inl e \<Rightarrow> Err (AuthAuditRecord e) | Inr _ \<Rightarrow> Ok out)"
    using assms(1) by (auto simp: record_then_def split: prod.splits sum.splits)
  then show "r = Ok out' \<Longrightarrow> out' = out" by (simp split: sum.splits)
  from rec show "answered request ts au au' r"
  proof (cases rule: audit_record_cases)
    case (stored i created d m ev')
    then have "answer_row request ts out (dto_of_append i created (append_of_event ev'))"
      using assms(2-4)
      by (simp add: answer_event_def answer_row_def dto_of_append_def append_of_event_def)
    with stored r show ?thesis by (auto simp: answered_def)
  qed (simp_all add: r answered_def)
qed

lemma deny_call_answered:
  assumes "deny_call x ts request corr dc dr au = (au', r)" and "dc \<noteq> APPROVAL_REQUIRED_CODE"
  shows "answered request ts au au' r"
    and "r = Ok out \<Longrightarrow> \<not> ao_allowed out \<and> ao_deny_code out = Some dc \<and>
           ao_correlation_id out = Some corr"
proof -
  have ev: "answer_event request ts OutFailure corr (Some dc)
      (with_details_json dj (with_error dc dr (authorization_event ts request OutFailure corr)))" for dj
    by (rule answer_event_details, rule answer_event_error, rule answer_event_plain)
  show "answered request ts au au' r"
    by (rule record_then_answered(1) [where oc = OutFailure and corr = corr, OF assms(1) [unfolded deny_call_def]])
       (use ev assms(2) in \<open>simp_all add: audited_outcome_def\<close>)
  show "\<not> ao_allowed out \<and> ao_deny_code out = Some dc \<and> ao_correlation_id out = Some corr"
    if "r = Ok out"
    using assms(1) that by (auto simp: deny_call_def record_then_def split: prod.splits sum.splits)
qed

lemma allow_call_answered:
  assumes "allow_call x ts request corr au = (au', r)"
  shows "answered request ts au au' r"
    and "r = Ok out \<Longrightarrow> ao_allowed out \<and> ao_correlation_id out = Some corr"
proof -
  have ev: "answer_event request ts OutSuccess corr None
      (with_details_json dj (authorization_event ts request OutSuccess corr))" for dj
    by (rule answer_event_details, rule answer_event_plain)
  show "answered request ts au au' r"
    by (rule record_then_answered(1) [where oc = OutSuccess and corr = corr, OF assms [unfolded allow_call_def]])
       (use ev in \<open>simp_all add: audited_outcome_def\<close>)
  show "ao_allowed out \<and> ao_correlation_id out = Some corr" if "r = Ok out"
    using assms that by (auto simp: allow_call_def record_then_def split: prod.splits sum.splits)
qed

text \<open>The answer for a resolution is the table \<open>resolution_outcome\<close>.\<close>

definition gate_allows :: "approval_resolution option \<Rightarrow> bool" where
  "gate_allows resolution \<longleftrightarrow>
     (case resolution of None \<Rightarrow> False | Some (Queued _) \<Rightarrow> False | _ \<Rightarrow> True)"

lemma resolution_cases:
  obtains "res = None" | p where "res = Some (Granted p)" | p where "res = Some (Queued p)"
  | "res = Some Exempt"
proof (cases res)
  case (Some a)
  with that show thesis by (cases a) simp_all
qed (rule that(1))

lemma resolution_outcome_facts:
  "case resolution_outcome request corr res of (oc, details, out) \<Rightarrow>
     ao_correlation_id out = Some corr \<and> outcome_as_str oc = audited_outcome out \<and>
     (ao_deny_code out = None \<longleftrightarrow> ao_deny_reason out = None) \<and>
     ao_allowed out = gate_allows res"
  by (cases rule: resolution_cases [of res])
     (simp_all add: audited_outcome_def gate_allows_def)

lemma record_resolution_answered:
  assumes "record_resolution x ts request corr res au = (au', r)"
  shows "answered request ts au au' r"
    and "r = Ok out' \<Longrightarrow> out' = snd (snd (resolution_outcome request corr res))"
proof -
  obtain oc details out where t: "resolution_outcome request corr res = (oc, details, out)"
    by (rule prod_cases3)
  have out: "ao_correlation_id out = Some corr" "outcome_as_str oc = audited_outcome out"
    and codes: "ao_deny_code out = None \<longleftrightarrow> ao_deny_reason out = None"
    using resolution_outcome_facts [where request = request and corr = corr and res = res] t
    by simp_all
  let ?ev = "with_details_json (ax_json_display x details) (authorization_event ts request oc corr)"
  let ?ev' = "case (ao_deny_code out, ao_deny_reason out) of
      (Some dc, Some dr) \<Rightarrow> with_error dc dr ?ev | _ \<Rightarrow> ?ev"
  have rec: "record_then x ?ev' out au = (au', r)"
    using assms t by (simp add: record_resolution_def Let_def)
  have ev: "answer_event request ts oc corr None ?ev"
    by (rule answer_event_details, rule answer_event_plain)
  have "answer_event request ts oc corr (ao_deny_code out) ?ev'"
  proof (cases "ao_deny_code out")
    case None
    then show ?thesis using ev by simp
  next
    case (Some dc)
    with codes obtain dr where "ao_deny_reason out = Some dr" by auto
    then show ?thesis using Some answer_event_error [OF ev] by simp
  qed
  from record_then_answered [OF rec this out] t
  show "answered request ts au au' r"
    and "r = Ok out' \<Longrightarrow> out' = snd (snd (resolution_outcome request corr res))"
    by simp_all
qed

section \<open>The answers of the handler, by cases\<close>

abbreviation auth_identity :: "authorization_request \<Rightarrow> client_identity" where
  "auth_identity request \<equiv>
     \<lparr>ci_client_id = ri_client_id (aq_identity request), ci_issuer = ri_issuer (aq_identity request)\<rparr>"

abbreviation auth_evaluation :: "authorization_request \<Rightarrow> policy_evaluation_request" where
  "auth_evaluation request \<equiv>
     \<lparr>pr_actor_id = ri_client_id (aq_identity request),
      pr_connection_id = aq_connection_id request, pr_tool_id = aq_tool_id request,
      pr_classification = aq_classification request\<rparr>"

text \<open>The checks made before any policy is consulted, in their order.\<close>

definition pre_checks :: "trusted_client_registry \<Rightarrow> authorization_request \<Rightarrow> (string \<times> bool) list" where
  "pre_checks clients request =
     [(SELF_APPROVAL_FORBIDDEN_CODE,
       aq_tool_id request \<in> {''approve_execution'', ''reject_execution''}),
      (''connection_not_mcp_enabled'', \<not> aq_mcp_enabled_for_connection request),
      (READ_ONLY_CONNECTION_CODE,
       aq_read_only_connection request \<and> Read < aq_classification request),
      (''untrusted_client'',
       \<nexists>c. evaluate_client clients (auth_identity request) = Trusted c)]"

definition refusal :: "trusted_client_registry \<Rightarrow> authorization_request \<Rightarrow> string option" where
  "refusal clients request = map_option fst (find snd (pre_checks clients request))"

lemma above_Read: "Read < c \<longleftrightarrow> c \<notin> {Metadata, Read}"
  by (cases c) (simp_all add: less_execution_classification_def)

lemmas deny_codes =
  SELF_APPROVAL_FORBIDDEN_CODE_def READ_ONLY_CONNECTION_CODE_def APPROVAL_REQUIRED_CODE_def

lemma authorize_cases:
  assumes "authorize_request_with_approval x iter fresh clients engine request gate ts (au, g) =
             ((au', g'), r)"
  obtains (refused) dc dr where "refusal clients request = Some dc" and "g' = g"
      and "deny_call x ts request (unwrap_or fresh (aq_correlation_id request)) dc dr au = (au', r)"
      and "dc \<noteq> APPROVAL_REQUIRED_CODE"
  | (policy_error) e where "refusal clients request = None"
      and "evaluate iter engine (auth_evaluation request) = Err e"
      and "au' = au" and "g' = g" and "r = Err (AuthPolicy e)"
  | (allowed) "refusal clients request = None"
      and "evaluate iter engine (auth_evaluation request) = Ok Allow" and "g' = g"
      and "allow_call x ts request (unwrap_or fresh (aq_correlation_id request)) au = (au', r)"
  | (denied) why where "refusal clients request = None"
      and "evaluate iter engine (auth_evaluation request) = Ok (Deny why)" and "g' = g"
      and "deny_call x ts request (unwrap_or fresh (aq_correlation_id request)) ''policy_denied''
             (format_policy_deny_reason why) au = (au', r)"
  | (asked) "refusal clients request = None"
      and "evaluate iter engine (auth_evaluation request) = Ok RequireApproval"
      and "resolve_approval x request gate ts (unwrap_or fresh (aq_correlation_id request)) (au, g) =
             ((au', g'), r)"
proof -
  note def = assms [unfolded authorize_request_with_approval_def Let_def prod.case]
  show thesis
  proof (cases "aq_tool_id request \<in> set HUMAN_ONLY_APPROVAL_TOOLS \<or>
      \<not> aq_mcp_enabled_for_connection request \<or>
      aq_read_only_connection request \<and> aq_classification request \<notin> {Metadata, Read}")
    case True
    with def show thesis
      by (auto simp: HUMAN_ONLY_APPROVAL_TOOLS_def refusal_def pre_checks_def above_Read deny_codes
          split: prod.splits if_splits intro!: refused)
  next
    case False
    then have pre: "refusal clients request =
        (if \<exists>c. evaluate_client clients (auth_identity request) = Trusted c then None
         else Some ''untrusted_client'')"
      by (auto simp: HUMAN_ONLY_APPROVAL_TOOLS_def refusal_def pre_checks_def above_Read)
    show thesis
    proof (cases "evaluate_client clients (auth_identity request)")
      case (Untrusted why)
      with False def pre show thesis
        by (auto simp: APPROVAL_REQUIRED_CODE_def split: prod.splits
            intro!: refused [of "''untrusted_client''" why])
    next
      case (Trusted c)
      show thesis
      proof (cases "evaluate iter engine (auth_evaluation request)")
        case (Inl e)
        with Trusted False def pre policy_error show thesis by auto
      next
        case (Inr d)
        with Trusted False def pre show thesis
          by (cases d) (auto split: prod.splits intro: allowed asked denied)
      qed
    qed
  qed
qed

lemma resolve_approval_answered:
  assumes "resolve_approval x request gate ts corr (au, g) = ((au', g'), r)"
  shows "answered request ts au au' r"
    and "g' = (case gate of None \<Rightarrow> g | Some resolve \<Rightarrow> fst (resolve request g))"
    and "r = Ok out \<Longrightarrow>
           (case gate of
              None \<Rightarrow> out = snd (snd (resolution_outcome request corr None))
            | Some resolve \<Rightarrow> \<exists>res. snd (resolve request g) = Ok res \<and>
                out = snd (snd (resolution_outcome request corr (Some res))))"
proof -
  consider (none) "gate = None" "g' = g" "record_resolution x ts request corr None au = (au', r)"
    | (failed) resolve e where "gate = Some resolve" "resolve request g = (g', Err e)"
        "au' = au" "r = Err e"
    | (some) resolve res where "gate = Some resolve" "resolve request g = (g', Ok res)"
        "record_resolution x ts request corr (Some res) au = (au', r)"
    using assms
    by (auto simp: resolve_approval_def split: option.splits prod.splits sum.splits)
  note cases = this
  from cases show "answered request ts au au' r"
    by cases (simp_all add: record_resolution_answered(1))
  from cases show "g' = (case gate of None \<Rightarrow> g | Some resolve \<Rightarrow> fst (resolve request g))"
    by cases simp_all
  show "case gate of
          None \<Rightarrow> out = snd (snd (resolution_outcome request corr None))
        | Some resolve \<Rightarrow> \<exists>res. snd (resolve request g) = Ok res \<and>
            out = snd (snd (resolution_outcome request corr (Some res)))" if "r = Ok out"
    using cases
  proof cases
    case none
    then show ?thesis using record_resolution_answered(2) [OF none(3) that] by simp
  next
    case (some resolve res)
    then show ?thesis using record_resolution_answered(2) [OF some(3) that] by simp
  qed (use that in simp)
qed

section \<open>When a call gets an answer\<close>

lemma resolved_identity_not_blank:
  assumes "resolve_request_identity payload = Ok identity"
  shows "trim (ri_client_id identity) = ri_client_id identity \<and> ri_client_id identity \<noteq> []"
  using assms
  by (auto simp: resolve_request_identity_def non_blank_text_def and_then_eq_Ok)

lemma canonical_tool_not_blank:
  assumes "validate_v1_tool tool_id = Ok ()"
  shows "trim tool_id \<noteq> []"
proof -
  have "tool_id \<in> set CANONICAL_V1_TOOLS"
    using assms
    by (simp add: validate_v1_tool_def is_canonical_v1_tool_def list_ex_iff split: if_splits)
  moreover have "list_all (\<lambda>t. \<exists>c \<in> set t. \<not> is_whitespace c) CANONICAL_V1_TOOLS"
    by (simp add: CANONICAL_V1_TOOLS_def is_whitespace_def)
  ultimately show ?thesis by (auto simp: list_all_iff trim_eq_Nil_iff)
qed

lemma authorization_event_valid:
  assumes "trim (ri_client_id (aq_identity request)) \<noteq> []" and "trim (aq_tool_id request) \<noteq> []"
  shows "validate_event (authorization_event ts request oc corr) = Ok ()"
proof -
  have "trim MCP_AUTHORIZE \<noteq> []" and "trim (''MCP authorization '' @ s) \<noteq> []" for s
    by (auto simp: trim_eq_Nil_iff MCP_AUTHORIZE_def is_whitespace_def)
  with assms show ?thesis by (simp add: validate_event_def has_required_text_def)
qed

lemma validate_event_error [simp]:
  "validate_event (with_error dc dr ev) = validate_event ev"
  by (cases "ev_category ev") (simp_all add: validate_event_def with_error_def Let_def)

lemma validate_event_details [simp]:
  "validate_event (with_details_json d ev) = validate_event ev"
  by (simp add: with_details_json_def)

lemma record_then_total:
  assumes "json_objects_read_back x" and "audit_db_up x" and "validate_event ev = Ok ()"
    and "ev_details_json ev = Some (ax_json_display x (JObject m))"
  shows "snd (record_then x ev out au) = Ok out"
proof -
  obtain ev' where "snd (audit_record x ev au) = Ok ev'"
    using audit_record_total [OF assms] by blast
  then show ?thesis by (cases "audit_record x ev au") (simp add: record_then_def)
qed

lemma with_details_json_details [simp]:
  "ev_details_json (with_details_json d ev) = Some d"
  "ev_details_json (with_error dc dr ev) = ev_details_json ev"
  by (simp_all add: with_details_json_def with_error_def)

lemma classification_details_object:
  "\<exists>m. classification_details request others = JObject m"
  by (simp add: classification_details_def)

lemma resolution_details_object:
  "\<exists>m. fst (snd (resolution_outcome request corr res)) = JObject m"
  by (cases rule: resolution_cases [of res]) (simp_all add: classification_details_object)

lemma deny_call_total:
  assumes "json_objects_read_back x" and "audit_db_up x"
    and "trim (ri_client_id (aq_identity request)) \<noteq> []" and "trim (aq_tool_id request) \<noteq> []"
  shows "\<exists>out. snd (deny_call x ts request corr dc dr au) = Ok out"
proof -
  obtain m where m: "classification_details request [] = JObject m"
    using classification_details_object by blast
  show ?thesis
    unfolding deny_call_def
    by (intro exI, rule record_then_total [OF assms(1,2), where m = m])
       (simp_all add: m authorization_event_valid assms(3,4))
qed

lemma allow_call_total:
  assumes "json_objects_read_back x" and "audit_db_up x"
    and "trim (ri_client_id (aq_identity request)) \<noteq> []" and "trim (aq_tool_id request) \<noteq> []"
  shows "\<exists>out. snd (allow_call x ts request corr au) = Ok out"
proof -
  obtain m where m: "classification_details request [] = JObject m"
    using classification_details_object by blast
  show ?thesis
    unfolding allow_call_def
    by (intro exI, rule record_then_total [OF assms(1,2), where m = m])
       (simp_all add: m authorization_event_valid assms(3,4))
qed

lemma record_resolution_total:
  assumes "json_objects_read_back x" and "audit_db_up x"
    and "trim (ri_client_id (aq_identity request)) \<noteq> []" and "trim (aq_tool_id request) \<noteq> []"
  shows "\<exists>out. snd (record_resolution x ts request corr res au) = Ok out"
proof -
  obtain oc details out where t: "resolution_outcome request corr res = (oc, details, out)"
    by (rule prod_cases3)
  obtain m where m: "details = JObject m"
    using resolution_details_object [of request corr res] t by auto
  show ?thesis
    unfolding record_resolution_def Let_def t prod.case
    by (intro exI, rule record_then_total [OF assms(1,2), where m = m])
       (simp_all add: m authorization_event_valid assms(3,4) split: option.splits)
qed

lemma authorize_total:
  assumes "json_objects_read_back x" and "audit_db_up x"
    and "trim (ri_client_id (aq_identity request)) \<noteq> []" and "trim (aq_tool_id request) \<noteq> []"
    and "hash_order iter" and "roles_known engine (auth_evaluation request)"
    and "\<forall>resolve. gate = Some resolve \<longrightarrow> (\<exists>res. snd (resolve request g) = Ok res)"
  shows "\<exists>out. snd (authorize_request_with_approval x iter fresh clients engine request gate ts (au, g))
           = Ok out"
proof -
  obtain au' g' r where eq:
    "authorize_request_with_approval x iter fresh clients engine request gate ts (au, g) = ((au', g'), r)"
    by (metis surj_pair)
  then have "\<exists>out. r = Ok out"
  proof (cases rule: authorize_cases)
    case (refused dc dr)
    then show ?thesis using deny_call_total [OF assms(1-4)] by (metis snd_conv)
  next
    case (policy_error e)
    then show ?thesis using evaluate_best [OF assms(5,6)] by simp
  next
    case allowed
    then show ?thesis using allow_call_total [OF assms(1-4)] by (metis snd_conv)
  next
    case (denied why)
    then show ?thesis using deny_call_total [OF assms(1-4)] by (metis snd_conv)
  next
    case asked
    have rec: "\<exists>out. r = Ok out"
      if "record_resolution x ts request corr res au = (au', r)" for corr res
      using record_resolution_total [OF assms(1-4)] that by (metis snd_conv)
    from asked(3) assms(7) show ?thesis
      by (cases gate) (auto simp: resolve_approval_def split: prod.splits sum.splits intro: rec)
  qed
  then show ?thesis using eq by simp
qed

section \<open>Properties\<close>

text \<open>
  C3. A call is allowed exactly when it is not one of the two tools reserved to a
  person, its connection is enabled, a read-only connection sees nothing above a
  read, the client is trusted, and either the policies allow the call or they ask
  for approval and the gate grants or exempts it. The gate is consulted, and its
  state changed, only when the policies ask.
\<close>

theorem authorize_allowed_iff:
  assumes "authorize_request_with_approval x iter fresh clients engine request gate ts (au, g) =
             ((au', g'), Ok out)"
  shows "(ao_allowed out \<longleftrightarrow>
      aq_tool_id request \<notin> {''approve_execution'', ''reject_execution''} \<and>
      aq_mcp_enabled_for_connection request \<and>
      (aq_read_only_connection request \<longrightarrow> aq_classification request \<le> Read) \<and>
      (\<exists>c. evaluate_client clients (auth_identity request) = Trusted c) \<and>
      (evaluate iter engine (auth_evaluation request) = Ok Allow \<or>
       evaluate iter engine (auth_evaluation request) = Ok RequireApproval \<and>
       (\<exists>resolve. gate = Some resolve \<and>
          snd (resolve request g) \<in> insert (Ok Exempt) (range (\<lambda>p. Ok (Granted p)))))) \<and>
    g' = (case gate of
            Some resolve \<Rightarrow>
              if refusal clients request = None \<and>
                 evaluate iter engine (auth_evaluation request) = Ok RequireApproval
              then fst (resolve request g) else g
          | None \<Rightarrow> g)"
proof -
  have pre: "refusal clients request = None \<longleftrightarrow>
      aq_tool_id request \<notin> {''approve_execution'', ''reject_execution''} \<and>
      aq_mcp_enabled_for_connection request \<and>
      (aq_read_only_connection request \<longrightarrow> aq_classification request \<le> Read) \<and>
      (\<exists>c. evaluate_client clients (auth_identity request) = Trusted c)"
    by (auto simp: refusal_def pre_checks_def not_less)
  from assms show ?thesis
  proof (cases rule: authorize_cases)
    case (refused dc dr)
    from deny_call_answered(2) [OF refused(3,4) refl] refused pre show ?thesis
      by (auto split: option.splits)
  next
    case allowed
    from allow_call_answered(2) [OF allowed(4) refl] allowed pre show ?thesis
      by (auto split: option.splits)
  next
    case (denied why)
    from deny_call_answered(2) [OF denied(4) _ refl] denied pre show ?thesis
      by (auto simp: APPROVAL_REQUIRED_CODE_def split: option.splits)
  next
    case asked
    let ?corr = "unwrap_or fresh (aq_correlation_id request)"
    have allowed: "ao_allowed (snd (snd (resolution_outcome request ?corr res))) = gate_allows res"
      for res
      using resolution_outcome_facts [where request = request and corr = ?corr and res = res]
      by (auto split: prod.splits)
    have "gate_allows (Some res) \<longleftrightarrow>
        (Ok res :: (authorization_error, _) result) \<in> insert (Ok Exempt) (range (\<lambda>p. Ok (Granted p)))"
      for res by (cases res) (auto simp: gate_allows_def)
    with resolve_approval_answered(2,3) [OF asked(3)] asked(1,2) pre allowed show ?thesis
      by (auto simp: gate_allows_def split: option.splits)
  qed simp
qed

text \<open>
  C11. Every answer leaves exactly one audit row while auditing is on: an
  \<open>mcp_authorize\<close> row for the client, the connection and the tool, with the
  correlation id and the denial code of the answer, whose outcome is success for
  an allowed call, pending for one that waits for approval and failure for a
  denied one. A call that ends in an error leaves none.
\<close>

theorem authorize_audited:
  assumes "authorize_request_with_approval x iter fresh clients engine request gate ts (au, g) =
             ((au', g'), r)"
  shows "case r of
      Inl _ \<Rightarrow> au' = au
    | Inr out \<Rightarrow>
        if au_enabled au
        then (\<exists>row. au' = au\<lparr>au_rows := au_rows au @ [row]\<rparr> \<and>
                dt_action row = Some ''mcp_authorize'' \<and> dt_category row = Some ''mcp'' \<and>
                dt_outcome row = Some (if ao_allowed out then ''success''
                  else if ao_deny_code out = Some ''approval_required'' then ''pending''
                  else ''failure'') \<and>
                dt_actor_id row = ri_client_id (aq_identity request) \<and>
                dt_connection_id row = Some (aq_connection_id request) \<and>
                dt_object_id row = Some (aq_tool_id request) \<and>
                dt_created_at_epoch_ms row = ts \<and>
                dt_correlation_id row = ao_correlation_id out \<and>
                dt_error_code row = ao_deny_code out)
        else au' = au"
proof -
  from assms have "answered request ts au au' r"
  proof (cases rule: authorize_cases)
    case (refused dc dr)
    then show ?thesis by (simp add: deny_call_answered(1))
  next
    case allowed
    then show ?thesis by (simp add: allow_call_answered(1))
  next
    case (denied why)
    then show ?thesis by (simp add: deny_call_answered(1) APPROVAL_REQUIRED_CODE_def)
  next
    case asked
    from resolve_approval_answered(1) [OF asked(3)] show ?thesis .
  qed simp
  then show ?thesis
    unfolding answered_def answer_row_def audited_outcome_def MCP_AUTHORIZE_def
      APPROVAL_REQUIRED_CODE_def .
qed

text \<open>
  C20. A well-formed call gets an answer: with a client identity that the request
  payload resolves to, a tool of the catalogue, roles that exist, an audit
  database that takes rows and a gate that answers, authorization ends without an
  error, whatever the clients, the policies and the state of the connection.
\<close>

theorem authorize_answers:
  assumes "resolve_request_identity payload = Ok (aq_identity request)"
    and "validate_v1_tool (aq_tool_id request) = Ok ()"
    and "\<forall>a \<in> applying engine (auth_evaluation request).
           \<forall>rid \<in> set (as_role_ids a). map_of (en_roles engine) rid \<noteq> None"
    and "hash_order iter" and "json_objects_read_back x" and "audit_db_up x"
    and "\<forall>resolve. gate = Some resolve \<longrightarrow> (\<exists>res. snd (resolve request g) = Ok res)"
  shows "\<exists>out. snd (authorize_request_with_approval x iter fresh clients engine request gate ts (au, g))
           = Ok out"
proof (rule authorize_total)
  show "trim (ri_client_id (aq_identity request)) \<noteq> []"
    using resolved_identity_not_blank [OF assms(1)] by simp
  show "trim (aq_tool_id request) \<noteq> []" using assms(2) by (rule canonical_tool_not_blank)
  show "roles_known engine (auth_evaluation request)" using assms(3) by (simp add: roles_known_def)
qed fact+

subsection \<open>A call that asks\<close>

definition sample_clients :: trusted_client_registry where
  "sample_clients = [\<lparr>tc_id = ''agent'', tc_name = ''Agent'', tc_issuer = None, tc_active = True\<rparr>]"

definition sample_payload :: json where
  "sample_payload = JObject [(''client_id'', JString '' agent '')]"

definition sample_request :: authorization_request where
  "sample_request =
     \<lparr>aq_identity = \<lparr>ri_client_id = ''agent'', ri_issuer = None\<rparr>, aq_connection_id = ''db'',
      aq_tool_id = ''insert_record'', aq_classification = Write,
      aq_mcp_enabled_for_connection = True, aq_read_only_connection = False,
      aq_correlation_id = None\<rparr>"

text \<open>A gate that counts the calls it grants.\<close>

definition counting_gate :: "nat approval_gate" where
  "counting_gate request n = (n + 1, Ok (Granted ''p''))"

definition steady_audit_ext :: audit_ext where
  "steady_audit_ext =
     audit_db_ext.extend sample_db
       (audit_ext.fields (\<lambda>_. Ok (JObject [])) (\<lambda>_. Ok ''{}'') (\<lambda>_. ''{}'')
          (\<lambda>_. replicate 64 CHR ''0'') no_regex None)"

lemma steady_audit_ext_laws:
  "json_objects_read_back steady_audit_ext" "audit_db_up steady_audit_ext"
  by (simp_all add: json_objects_read_back_def audit_db_up_def steady_audit_ext_def
      audit_db_ext.defs audit_ext.defs sample_db_def)

lemma sample_request_evaluation [simp]: "auth_evaluation sample_request = sample_write"
  by (simp add: sample_request_def sample_write_def)

lemma sample_request_asks: "evaluate rev sample_engine sample_write = Ok RequireApproval"
  by code_simp

lemma sample_request_answer:
  "\<exists>au out. authorize_request_with_approval steady_audit_ext rev ''c'' sample_clients sample_engine
     sample_request (Some counting_gate) 5 (audit_service_new [], n) = ((au, n + 1), Ok out) \<and>
     au_enabled (audit_service_new []) \<and> ao_allowed out"
proof -
  obtain out au g where *: "authorize_request_with_approval steady_audit_ext rev ''c'' sample_clients
      sample_engine sample_request (Some counting_gate) 5 (audit_service_new [], n) = ((au, g), Ok out)"
  proof -
    have "trim ''agent'' \<noteq> []" "trim ''insert_record'' \<noteq> []"
      by (simp_all add: trim_eq_Nil_iff is_whitespace_def)
    then have "\<exists>out. snd (authorize_request_with_approval steady_audit_ext rev ''c'' sample_clients
        sample_engine sample_request (Some counting_gate) 5 (audit_service_new [], n)) = Ok out"
      by (intro authorize_total steady_audit_ext_laws hash_order_rev)
         (simp_all add: sample_engine_known counting_gate_def, simp_all add: sample_request_def)
    then show thesis using that by (metis surj_pair prod.collapse)
  qed
  from * show ?thesis
  proof (cases rule: authorize_cases)
    case asked
    from resolve_approval_answered(2,3) [OF asked(3)] * show ?thesis
      by (auto simp: counting_gate_def audit_service_new_def)
  qed (simp_all add: sample_request_asks,
       simp add: refusal_def pre_checks_def sample_request_def sample_clients_def evaluate_client_def
         client_matches_def less_execution_classification_def)
qed

theorem authorize_allowed_iff_witness:
  "\<exists>au out. authorize_request_with_approval steady_audit_ext rev ''c'' sample_clients sample_engine
     sample_request (Some counting_gate) 5 (audit_service_new [], 0) = ((au, 1), Ok out) \<and>
     evaluate rev sample_engine (auth_evaluation sample_request) \<noteq> Ok Allow \<and>
     (\<exists>c. evaluate_client sample_clients (auth_identity sample_request) = Trusted c)"
proof -
  obtain au out where *: "authorize_request_with_approval steady_audit_ext rev ''c'' sample_clients
      sample_engine sample_request (Some counting_gate) 5 (audit_service_new [], 0) = ((au, 1), Ok out)"
    "ao_allowed out"
    using sample_request_answer [of 0] by auto
  from authorize_allowed_iff [OF *(1)] * show ?thesis
    by (auto simp: sample_request_asks)
qed

theorem authorize_audited_witness:
  "\<exists>row. au_rows (fst (fst (authorize_request_with_approval steady_audit_ext rev ''c'' sample_clients
       sample_engine sample_request (Some counting_gate) 5 (audit_service_new [], 0)))) = [row] \<and>
     dt_outcome row = Some ''success'' \<and> dt_object_id row = Some ''insert_record''"
proof -
  obtain au out where *: "authorize_request_with_approval steady_audit_ext rev ''c'' sample_clients
      sample_engine sample_request (Some counting_gate) 5 (audit_service_new [], 0) = ((au, 1), Ok out)"
    "ao_allowed out" "au_enabled (audit_service_new [])"
    using sample_request_answer [of 0] by auto
  moreover have "au_rows (audit_service_new []) = []" "aq_tool_id sample_request = ''insert_record''"
    by (simp_all add: audit_service_new_def sample_request_def)
  ultimately show ?thesis using authorize_audited [OF *(1)] by auto
qed

theorem authorize_answers_witness:
  "\<exists>out. snd (authorize_request_with_approval steady_audit_ext rev ''c'' sample_clients sample_engine
     sample_request (Some counting_gate) 5 (audit_service_new [], 0)) = Ok out"
proof (rule authorize_answers [where payload = sample_payload])
  show "resolve_request_identity sample_payload = Ok (aq_identity sample_request)"
    by code_simp
  show "validate_v1_tool (aq_tool_id sample_request) = Ok ()" by code_simp
qed (use sample_engine_known hash_order_rev steady_audit_ext_laws in
      \<open>simp_all add: roles_known_def counting_gate_def\<close>)

text \<open>
  Half of the catalogue has no route, and two names the router knows are not in
  the catalogue.
\<close>

lemma canonical_without_route:
  "filter (\<lambda>t. route_tool t = Err (UnknownTool t)) CANONICAL_V1_TOOLS =
     [''connect'', ''disconnect'', ''get_connection_info'', ''count_records'', ''aggregate_data'',
      ''insert_record'', ''update_records'', ''upsert_record'', ''delete_records'',
      ''truncate_table'', ''drop_table'', ''drop_database'', ''create_table'', ''alter_table'',
      ''create_index'', ''drop_index'', ''create_type'', ''execute_script'']"
  by code_simp

lemma routed_names_outside_catalogue:
  "\<not> is_canonical_v1_tool ''get_connection'' \<and> \<not> is_canonical_v1_tool ''run_script''"
  by code_simp

end
