(* ===== verification/Governance.thy ===== *)
theory Governance
  imports Policy Approval Authorization
begin

text \<open>
  What the governance interface of \<open>dbflux_mcp\<close> exchanges with the settings pages
  and the stored configuration (\<open>governance_service.rs\<close>), and the policies and
  roles every installation has (\<open>built_ins.rs\<close>). A persisted policy names its
  execution classes by text, so the conversions can fail; the lemmas show that they
  are inverse to each other, and that no built-in policy lets an agent change data
  or schema without asking.
\<close>

section \<open>Data transfer objects\<close>

record trusted_client_dto =
  td_id :: string
  td_name :: string
  td_issuer :: "string option"
  td_active :: bool

record policy_role_dto =
  rd_id :: string
  rd_policy_ids :: "string list"

definition role_dto_of :: "policy_role \<Rightarrow> policy_role_dto" where
  "role_dto_of role = \<lparr>rd_id = ro_id role, rd_policy_ids = ro_policy_ids role\<rparr>"

definition role_of_dto :: "policy_role_dto \<Rightarrow> policy_role" where
  "role_of_dto dto = \<lparr>ro_id = rd_id dto, ro_policy_ids = rd_policy_ids dto\<rparr>"

record tool_policy_dto =
  pd_id :: string
  pd_allowed_tools :: "string list"
  pd_allowed_classes :: "string list"
  pd_approval_classes :: "string list"

fun execution_class_id :: "execution_classification \<Rightarrow> string" where
  "execution_class_id Metadata = ''metadata''"
| "execution_class_id Read = ''read''"
| "execution_class_id Write = ''write''"
| "execution_class_id Destructive = ''destructive''"
| "execution_class_id Admin = ''admin''"
| "execution_class_id AdminSafe = ''admin_safe''"
| "execution_class_id AdminDestructive = ''admin_destructive''"

definition parse_execution_class_id :: "string \<Rightarrow> (string, execution_classification) result" where
  "parse_execution_class_id i =
     (if i = ''read'' then Ok Read
      else if i = ''write'' then Ok Write
      else if i = ''destructive'' then Ok Destructive
      else if i = ''admin'' then Ok Admin
      else if i = ''metadata'' then Ok Metadata
      else if i = ''admin_safe'' then Ok AdminSafe
      else if i = ''admin_destructive'' then Ok AdminDestructive
      else Err (''invalid classification: '' @ i))"

definition tool_policy_dto_of :: "tool_policy \<Rightarrow> tool_policy_dto" where
  "tool_policy_dto_of policy =
     \<lparr>pd_id = po_id policy, pd_allowed_tools = po_allowed_tools policy,
      pd_allowed_classes = map execution_class_id (po_allowed_classes policy),
      pd_approval_classes = map execution_class_id (po_approval_classes policy)\<rparr>"

text \<open>\<open>collect::<Result<Vec<_>, _>>()\<close> stops at the first error.\<close>

fun parse_all :: "string list \<Rightarrow> (string, execution_classification list) result" where
  "parse_all [] = Ok []"
| "parse_all (i # is) =
     and_then (parse_execution_class_id i) (\<lambda>c. and_then (parse_all is) (\<lambda>cs. Ok (c # cs)))"

definition tool_policy_of_dto :: "tool_policy_dto \<Rightarrow> (string, tool_policy) result" where
  "tool_policy_of_dto dto =
     and_then (parse_all (pd_allowed_classes dto)) (\<lambda>allowed_classes.
     and_then (parse_all (pd_approval_classes dto)) (\<lambda>approval_classes.
       Ok \<lparr>po_id = pd_id dto, po_allowed_tools = pd_allowed_tools dto,
           po_allowed_classes = allowed_classes, po_approval_classes = approval_classes\<rparr>))"

record connection_policy_assignment_dto =
  cd_connection_id :: string
  cd_assignments :: "connection_policy_assignment list"

record pending_execution_summary =
  su_id :: string
  su_actor_id :: string
  su_connection_id :: string
  su_tool_id :: string
  su_classification :: execution_classification
  su_status :: string
  su_created_at_epoch_ms :: int

record pending_execution_detail =
  pt_summary :: pending_execution_summary
  pt_plan :: json

record approval_outcome =
  oc_id :: string
  oc_status :: string
  oc_actor_id :: string
  oc_timestamp_ms :: int

datatype governance_error = GovNotFound string | GovValidation string | GovOperation string

fun governance_error_display :: "governance_error \<Rightarrow> string" where
  "governance_error_display (GovNotFound r) = ''resource not found: '' @ r"
| "governance_error_display (GovValidation m) = ''validation error: '' @ m"
| "governance_error_display (GovOperation m) = ''operation failed: '' @ m"

section \<open>Built-in policies and roles\<close>

definition BUILTIN_ID_PREFIX :: string where
  "BUILTIN_ID_PREFIX = ''builtin/''"

definition is_builtin :: "string \<Rightarrow> bool" where
  "is_builtin i = starts_with BUILTIN_ID_PREFIX i"

definition MUTATING_CLASS_IDS :: "string list" where
  "MUTATING_CLASS_IDS =
     [''write'', ''destructive'', ''admin_safe'', ''admin'', ''admin_destructive'']"

definition builtin_read_only :: tool_policy_dto where
  "builtin_read_only =
     \<lparr>pd_id = ''builtin/read-only'',
      pd_allowed_tools =
        [''list_connections'', ''connect'', ''disconnect'', ''get_connection_info'',
         ''list_databases'', ''list_schemas'', ''list_tables'', ''list_collections'',
         ''describe_object'', ''select_data'', ''count_records'', ''aggregate_data'',
         ''explain_query'', ''preview_mutation'', ''list_scripts'', ''get_script'',
         ''execute_script'', ''query_audit_logs'', ''get_audit_entry''],
      pd_allowed_classes = [''metadata'', ''read''], pd_approval_classes = []\<rparr>"

definition builtin_write :: tool_policy_dto where
  "builtin_write =
     \<lparr>pd_id = ''builtin/write'',
      pd_allowed_tools =
        [''list_connections'', ''connect'', ''disconnect'', ''get_connection_info'',
         ''list_databases'', ''list_schemas'', ''list_tables'', ''list_collections'',
         ''describe_object'', ''select_data'', ''count_records'', ''aggregate_data'',
         ''insert_record'', ''update_records'', ''upsert_record'', ''explain_query'',
         ''preview_mutation'', ''list_scripts'', ''get_script'', ''create_script'',
         ''update_script'', ''execute_script'', ''query_audit_logs'', ''get_audit_entry''],
      pd_allowed_classes = [''metadata'', ''read''], pd_approval_classes = [''write'']\<rparr>"

definition builtin_admin :: tool_policy_dto where
  "builtin_admin =
     \<lparr>pd_id = ''builtin/admin'',
      pd_allowed_tools =
        [''list_connections'', ''connect'', ''disconnect'', ''get_connection_info'',
         ''list_databases'', ''list_schemas'', ''list_tables'', ''list_collections'',
         ''describe_object'', ''select_data'', ''count_records'', ''aggregate_data'',
         ''insert_record'', ''update_records'', ''upsert_record'', ''delete_records'',
         ''truncate_table'', ''create_table'', ''alter_table'', ''create_index'', ''drop_index'',
         ''create_type'', ''drop_table'', ''drop_database'', ''explain_query'',
         ''preview_mutation'', ''list_scripts'', ''get_script'', ''create_script'',
         ''update_script'', ''delete_script'', ''execute_script'', ''request_execution'',
         ''list_pending_executions'', ''get_pending_execution'', ''query_audit_logs'',
         ''get_audit_entry'', ''export_audit_logs''],
      pd_allowed_classes = [''metadata'', ''read''], pd_approval_classes = MUTATING_CLASS_IDS\<rparr>"

definition builtin_policies :: "tool_policy_dto list" where
  "builtin_policies = [builtin_read_only, builtin_write, builtin_admin]"

definition builtin_display_name :: "string \<Rightarrow> string option" where
  "builtin_display_name i =
     (if i = ''builtin/read-only'' then Some ''Read Only''
      else if i = ''builtin/write'' then Some ''Write''
      else if i = ''builtin/admin'' then Some ''Admin''
      else None)"

definition builtin_roles :: "policy_role_dto list" where
  "builtin_roles =
     [\<lparr>rd_id = ''builtin/read-only'', rd_policy_ids = [''builtin/read-only'']\<rparr>,
      \<lparr>rd_id = ''builtin/write'', rd_policy_ids = [''builtin/write'']\<rparr>,
      \<lparr>rd_id = ''builtin/admin'', rd_policy_ids = [''builtin/admin'']\<rparr>]"

section \<open>Class ids\<close>

interpretation cls: text_codec execution_class_id "\<lambda>s. ok_opt (parse_execution_class_id s)"
proof
  fix c
  show "ok_opt (parse_execution_class_id (execution_class_id c)) = Some c"
    by (cases c) (simp_all add: parse_execution_class_id_def ok_opt_def)
next
  fix s c
  assume "ok_opt (parse_execution_class_id s) = Some c"
  then show "execution_class_id c = s"
    by (auto simp: parse_execution_class_id_def ok_opt_def split: if_splits)
qed

lemma parse_class_iff: "parse_execution_class_id s = Ok c \<longleftrightarrow> s = execution_class_id c"
  using cls.parse_iff [of s c] by (simp add: ok_opt_def split: sum.splits)

lemma parse_all_iff: "parse_all is = Ok cs \<longleftrightarrow> is = map execution_class_id cs"
proof (induction "is" arbitrary: cs)
  case (Cons i "is")
  then show ?case by (cases cs) (auto simp: and_then_eq_Ok parse_class_iff)
qed auto

lemma tool_policy_of_dto_iff:
  "tool_policy_of_dto dto = Ok policy \<longleftrightarrow> dto = tool_policy_dto_of policy"
proof
  assume "tool_policy_of_dto dto = Ok policy"
  then show "dto = tool_policy_dto_of policy"
    by (auto simp: tool_policy_of_dto_def tool_policy_dto_of_def and_then_eq_Ok parse_all_iff)
next
  have "parse_all (map execution_class_id cs) = Ok cs" for cs by (simp add: parse_all_iff)
  moreover assume "dto = tool_policy_dto_of policy"
  ultimately show "tool_policy_of_dto dto = Ok policy"
    by (simp add: tool_policy_of_dto_def tool_policy_dto_of_def)
qed

lemma parse_class_error:
  "i \<notin> range execution_class_id \<Longrightarrow>
   parse_execution_class_id i = Err (''invalid classification: '' @ i)"
proof -
  assume "i \<notin> range execution_class_id"
  then have "\<forall>c. parse_execution_class_id i \<noteq> Ok c" using parse_class_iff by blast
  then obtain e where "parse_execution_class_id i = Err e"
    by (cases "parse_execution_class_id i") auto
  then show ?thesis by (auto simp: parse_execution_class_id_def split: if_splits)
qed

lemma parse_all_find:
  "find (\<lambda>i. i \<notin> range execution_class_id) is = Some i \<Longrightarrow>
   parse_all is = Err (''invalid classification: '' @ i)"
proof (induction "is")
  case (Cons j "is")
  show ?case
  proof (cases "j \<in> range execution_class_id")
    case True
    then obtain c where "parse_execution_class_id j = Ok c" using parse_class_iff by blast
    with Cons True show ?thesis by simp
  next
    case False
    with Cons.prems parse_class_error [OF False] show ?thesis by simp
  qed
qed simp

section \<open>Properties\<close>

text \<open>
  A policy survives being stored: converting it to its persisted form and back
  gives the policy, and a persisted policy converts exactly when it is the form of
  some policy, to that policy. The first class id that names no class is reported,
  allowed classes before approval classes.
\<close>

lemma tool_policy_dto_roundtrip:
  "tool_policy_of_dto (tool_policy_dto_of policy) = Ok policy \<and>
   (case tool_policy_of_dto dto of
      Inr p \<Rightarrow> tool_policy_dto_of p = dto
    | Inl e \<Rightarrow> \<exists>i. find (\<lambda>i. i \<notin> range execution_class_id)
                   (pd_allowed_classes dto @ pd_approval_classes dto) = Some i \<and>
                e = ''invalid classification: '' @ i)"
proof -
  have find_append: "find P (xs @ ys) = (case find P xs of None \<Rightarrow> find P ys | Some a \<Rightarrow> Some a)"
    for P and xs ys :: "string list"
    by (induction xs) auto
  have ok: "\<exists>cs. parse_all is = Ok cs" if "find (\<lambda>i. i \<notin> range execution_class_id) is = None" for "is"
  proof -
    from that have "set is \<subseteq> range execution_class_id" by (auto simp: find_None_iff)
    then obtain cs where "is = map execution_class_id cs"
      by (metis ex_map_conv subset_eq imageE)
    then show ?thesis using parse_all_iff by blast
  qed
  let ?bad = "\<lambda>is. find (\<lambda>i. i \<notin> range execution_class_id) is"
  have "\<exists>i. ?bad (pd_allowed_classes dto @ pd_approval_classes dto) = Some i \<and>
      e = ''invalid classification: '' @ i" if "tool_policy_of_dto dto = Err e" for e
    using that ok [of "pd_allowed_classes dto"] ok [of "pd_approval_classes dto"]
      parse_all_find [of "pd_allowed_classes dto"] parse_all_find [of "pd_approval_classes dto"]
    by (cases "?bad (pd_allowed_classes dto)"; cases "?bad (pd_approval_classes dto)")
       (auto simp: find_append tool_policy_of_dto_def)
  then show ?thesis
    using tool_policy_of_dto_iff by (auto split: sum.splits)
qed

text \<open>The built-in policies as the engine sees them.\<close>

lemma builtin_policies_parse:
  "\<exists>p q r. map tool_policy_of_dto builtin_policies = [Ok p, Ok q, Ok r]"
  by (simp add: builtin_policies_def builtin_read_only_def builtin_write_def builtin_admin_def
      MUTATING_CLASS_IDS_def tool_policy_of_dto_def parse_execution_class_id_def)

lemma builtin_policy_classes:
  assumes "dto \<in> set builtin_policies" and "tool_policy_of_dto dto = Ok p"
  shows "po_allowed_classes p = [Metadata, Read] \<and>
    set (po_allowed_tools p) \<inter> {''approve_execution'', ''reject_execution''} = {}"
  using assms
  by (auto simp: builtin_policies_def builtin_read_only_def builtin_write_def builtin_admin_def
      MUTATING_CLASS_IDS_def tool_policy_of_dto_def parse_execution_class_id_def)

definition builtin_engine_policies :: "tool_policy list" where
  "builtin_engine_policies =
     List.map_filter (\<lambda>dto. ok_opt (tool_policy_of_dto dto)) builtin_policies"

lemma builtin_engine_policy:
  assumes "map_of (en_policies (policy_engine_new assignments roles builtin_engine_policies)) i = Some p"
  shows "po_allowed_classes p = [Metadata, Read] \<and>
    set (po_allowed_tools p) \<inter> {''approve_execution'', ''reject_execution''} = {}"
proof -
  from assms have "p \<in> set builtin_engine_policies"
    by (auto simp: policy_engine_new_def map_of_hm_collect dest!: map_of_SomeD)
  then obtain dto where "dto \<in> set builtin_policies" "tool_policy_of_dto dto = Ok p"
    by (auto simp: builtin_engine_policies_def map_filter_def ok_opt_def split: sum.splits)
  then show ?thesis by (rule builtin_policy_classes)
qed

text \<open>
  C12. An engine that has only the built-in policies, whatever the assignments and
  roles, allows at most reads: anything above a read is at best sent to approval,
  and the tools that resolve pending executions are always denied.
\<close>

theorem builtin_policies_never_grant_mutation:
  assumes "hash_order iter"
    and "evaluate iter (policy_engine_new assignments roles builtin_engine_policies) request = Ok decision"
  shows "(decision = Allow \<longrightarrow> pr_classification request \<le> Read) \<and>
    (pr_tool_id request \<in> {''approve_execution'', ''reject_execution''} \<longrightarrow>
       (\<exists>why. decision = Deny why))"
proof -
  let ?e = "policy_engine_new assignments roles builtin_engine_policies"
  have "roles_known ?e request"
  proof (rule ccontr)
    assume "\<not> roles_known ?e request"
    from evaluate_missing_role [OF this, of iter] assms(2) show False by auto
  qed
  from evaluate_best [OF assms(1) this] assms(2) have d: "decision = best_decision ?e request"
    by simp
  have p: "po_allowed_classes p = [Metadata, Read]"
    "pr_tool_id request \<notin> {''approve_execution'', ''reject_execution''}"
    if "p \<in> listing ?e request" for p
    using that builtin_engine_policy by (auto simp: listing_of_def)
  have "pr_classification request \<le> Read" if "decision = Allow"
  proof -
    from that d obtain p where "p \<in> listing ?e request"
      "class_decision_of p (pr_classification request) = ClassAllow"
      by (auto simp: best_decision_def Let_def split: if_splits)
    with p(1) show ?thesis
      by (auto simp: class_decision_of_def less_eq_execution_classification_def split: if_splits)
  qed
  moreover have "\<exists>why. decision = Deny why"
    if "pr_tool_id request \<in> {''approve_execution'', ''reject_execution''}"
    using that p(2) d by (auto simp: best_decision_def Let_def)
  ultimately show ?thesis by blast
qed

definition sample_assignment :: connection_policy_assignment where
  "sample_assignment =
     \<lparr>as_actor_id = ''agent'', as_scope = \<lparr>sc_connection_id = ''db''\<rparr>,
      as_role_ids = [], as_policy_ids = [''builtin/admin'']\<rparr>"

theorem builtin_policies_never_grant_mutation_witness:
  "evaluate rev (policy_engine_new [sample_assignment] [] builtin_engine_policies)
     (sample_write\<lparr>pr_tool_id := ''insert_record'', pr_classification := Read\<rparr>) = Ok Allow \<and>
   pr_classification (sample_write\<lparr>pr_classification := Read\<rparr>) \<le> Read"
proof -
  have e: "evaluate rev (policy_engine_new [sample_assignment] [] builtin_engine_policies)
     (sample_write\<lparr>pr_tool_id := ''insert_record'', pr_classification := Read\<rparr>) = Ok Allow"
    by code_simp
  from builtin_policies_never_grant_mutation [OF hash_order_rev this] e show ?thesis by simp
qed

end
