(* ===== verification/Mcp_Runtime.thy ===== *)
theory Mcp_Runtime
  imports Governance
begin

text \<open>
  The runtime of the MCP server (\<open>dbflux_mcp/src/runtime.rs\<close>) and the approval
  handlers it calls (\<open>handlers/approval.rs\<close>): the governed configuration (trusted
  clients, roles, policies, assignments) in hash maps, the approval service, the
  audit service and the queue of events for the user interface. The state is the
  record \<open>mcp_runtime\<close>, over the type of the pending store; clock readings, fresh
  identifiers and the iteration order of a hash map are arguments. The lemmas show
  the invariant of the maps, what approving, rejecting and authorizing do to the
  queue and to the audit trail, and that a call the policies ask about runs only by
  using up one approval that a person gave for exactly that call.
\<close>

section \<open>Text forms\<close>

text \<open>\<open>Uuid::parse_str\<close> and \<open>Display for Uuid\<close> belong to the \<open>uuid\<close> crate.\<close>

record uuid_ext =
  ux_parse_str :: "string \<Rightarrow> uuid option"
  ux_to_string :: "uuid \<Rightarrow> string"

fun pending_store_error_display :: "pending_store_error \<Rightarrow> string" where
  "pending_store_error_display (Backend e) = ''pending store backend error: '' @ e"
| "pending_store_error_display (Serialization e) =
     ''failed to (de)serialize pending payload: '' @ e"

fun approval_error_display :: "uuid_ext \<Rightarrow> approval_error \<Rightarrow> string" where
  "approval_error_display u (PendingNotFound i) =
     ''pending execution not found: '' @ ux_to_string u i"
| "approval_error_display u (InvalidTransition i) =
     ''pending execution is not in pending state: '' @ ux_to_string u i"
| "approval_error_display u (Store e) = pending_store_error_display e"

fun pending_status_debug :: "pending_status \<Rightarrow> string" where
  "pending_status_debug Pending = ''Pending''"
| "pending_status_debug Approved = ''Approved''"
| "pending_status_debug Rejected = ''Rejected''"
| "pending_status_debug Consumed = ''Consumed''"

section \<open>Approval handlers\<close>

datatype approval_handler_error = InvalidPendingId string | HandlerApproval approval_error

fun approval_handler_error_display :: "uuid_ext \<Rightarrow> approval_handler_error \<Rightarrow> string" where
  "approval_handler_error_display u (InvalidPendingId i) = ''invalid pending execution id: '' @ i"
| "approval_handler_error_display u (HandlerApproval e) = approval_error_display u e"

definition handler_request_execution ::
  "'s pending_store_ops \<Rightarrow> int \<Rightarrow> uuid \<Rightarrow> int \<Rightarrow> execution_plan \<Rightarrow> 's approval_service \<Rightarrow>
   's approval_service \<times> (approval_handler_error, pending_execution) result" where
  "handler_request_execution ops now_ms new_id now' plan sv =
     (let (sv', r) = svc_request_execution ops now_ms new_id now' plan sv
      in (sv', map_err HandlerApproval r))"

definition handler_approve_execution ::
  "'s pending_store_ops \<Rightarrow> uuid_ext \<Rightarrow> int \<Rightarrow> string \<Rightarrow> 's approval_service \<Rightarrow>
   's approval_service \<times> (approval_handler_error, approved_execution) result" where
  "handler_approve_execution ops u now pending_id sv =
     (case ux_parse_str u pending_id of
        None \<Rightarrow> (sv, Err (InvalidPendingId pending_id))
      | Some i \<Rightarrow> (let (sv', r) = svc_approve ops now i sv in (sv', map_err HandlerApproval r)))"

definition handler_get_pending_execution ::
  "'s pending_store_ops \<Rightarrow> uuid_ext \<Rightarrow> int \<Rightarrow> string \<Rightarrow> 's approval_service \<Rightarrow>
   (approval_handler_error, pending_execution) result" where
  "handler_get_pending_execution ops u now pending_id sv =
     (case ux_parse_str u pending_id of
        None \<Rightarrow> Err (InvalidPendingId pending_id)
      | Some i \<Rightarrow>
          and_then (map_err HandlerApproval (svc_list_pending ops now sv)) (\<lambda>pendings.
            ok_or (HandlerApproval (PendingNotFound i)) (find (\<lambda>p. pe_id p = i) pendings)))"

definition handler_reject_execution ::
  "'s pending_store_ops \<Rightarrow> uuid_ext \<Rightarrow> int \<Rightarrow> string \<Rightarrow> string option \<Rightarrow> 's approval_service \<Rightarrow>
   's approval_service \<times> (approval_handler_error, rejected_execution) result" where
  "handler_reject_execution ops u now pending_id reason sv =
     (case ux_parse_str u pending_id of
        None \<Rightarrow> (sv, Err (InvalidPendingId pending_id))
      | Some i \<Rightarrow> (let (sv', r) = svc_reject ops now i reason sv in (sv', map_err HandlerApproval r)))"

section \<open>The runtime\<close>

definition APPROVAL_QUEUE_TOOLS :: "string list" where
  "APPROVAL_QUEUE_TOOLS =
     [''request_execution'', ''list_pending_executions'', ''get_pending_execution'']"

datatype mcp_runtime_event =
    TrustedClientsUpdated
  | RolesUpdated
  | PoliciesUpdated
  | ConnectionPolicyUpdated string
  | PendingExecutionsUpdated
  | AuditAppended

record 's mcp_runtime =
  mr_trusted_clients :: "(string \<times> trusted_client_dto) list"
  mr_roles :: "(string \<times> policy_role_dto) list"
  mr_policies :: "(string \<times> tool_policy_dto) list"
  mr_connection_policy_assignments :: "(string \<times> connection_policy_assignment_dto) list"
  mr_approval_service :: "'s approval_service"
  mr_audit_service :: audit_service
  mr_pending_events :: "mcp_runtime_event list"
  mr_mcp_enabled :: bool

text \<open>A failure of the purge at start is printed and otherwise ignored.\<close>

definition mcp_runtime_new ::
  "'s pending_store_ops \<Rightarrow> int \<Rightarrow> audit_service \<Rightarrow> 's \<Rightarrow> 's mcp_runtime" where
  "mcp_runtime_new ops now_ms audit_service store =
     (let (approval_service, _) =
            svc_purge_terminal_and_expired ops now_ms (approval_service_new store)
      in \<lparr>mr_trusted_clients = [], mr_roles = [], mr_policies = [],
          mr_connection_policy_assignments = [], mr_approval_service = approval_service,
          mr_audit_service = audit_service, mr_pending_events = [], mr_mcp_enabled = True\<rparr>)"

text \<open>\<open>order\<close> is the order in which \<open>values()\<close> yields the entries of a hash map.\<close>

definition trusted_client_of_dto :: "trusted_client_dto \<Rightarrow> trusted_client" where
  "trusted_client_of_dto client =
     \<lparr>tc_id = td_id client, tc_name = td_name client, tc_issuer = td_issuer client,
      tc_active = td_active client\<rparr>"

definition rt_trusted_client_registry ::
  "(trusted_client_dto list \<Rightarrow> trusted_client_dto list) \<Rightarrow> 's mcp_runtime \<Rightarrow>
   trusted_client_registry" where
  "rt_trusted_client_registry order rt =
     trusted_client_registry_new
       (map trusted_client_of_dto (order (map snd (mr_trusted_clients rt))))"

definition drain_events :: "'s mcp_runtime \<Rightarrow> 's mcp_runtime \<times> mcp_runtime_event list" where
  "drain_events rt = (rt\<lparr>mr_pending_events := []\<rparr>, mr_pending_events rt)"

definition set_mcp_enabled :: "bool \<Rightarrow> 's mcp_runtime \<Rightarrow> 's mcp_runtime" where
  "set_mcp_enabled enabled rt = rt\<lparr>mr_mcp_enabled := enabled\<rparr>"

definition is_mcp_enabled :: "'s mcp_runtime \<Rightarrow> bool" where
  "is_mcp_enabled rt = mr_mcp_enabled rt"

definition push_event :: "mcp_runtime_event \<Rightarrow> 's mcp_runtime \<Rightarrow> 's mcp_runtime" where
  "push_event event rt = rt\<lparr>mr_pending_events := mr_pending_events rt @ [event]\<rparr>"

definition rt_clear :: "'s mcp_runtime \<Rightarrow> 's mcp_runtime" where
  "rt_clear rt =
     push_event PoliciesUpdated
       (push_event RolesUpdated
         (push_event TrustedClientsUpdated
           (rt\<lparr>mr_trusted_clients := [], mr_roles := [], mr_policies := [],
               mr_connection_policy_assignments := []\<rparr>)))"

definition roles_for_engine ::
  "(policy_role_dto list \<Rightarrow> policy_role_dto list) \<Rightarrow> 's mcp_runtime \<Rightarrow> policy_role list" where
  "roles_for_engine order rt = map role_of_dto (order (map snd (mr_roles rt)))"

definition policies_for_engine ::
  "(tool_policy_dto list \<Rightarrow> tool_policy_dto list) \<Rightarrow> 's mcp_runtime \<Rightarrow> tool_policy list" where
  "policies_for_engine order rt =
     List.map_filter (\<lambda>dto. ok_opt (tool_policy_of_dto dto)) (order (map snd (mr_policies rt)))"

definition policy_assignments_for_engine ::
  "(connection_policy_assignment_dto list \<Rightarrow> connection_policy_assignment_dto list) \<Rightarrow>
   's mcp_runtime \<Rightarrow> connection_policy_assignment list" where
  "policy_assignments_for_engine order rt =
     concat (map (\<lambda>assignment.
         map (\<lambda>binding.
             \<lparr>as_actor_id = as_actor_id binding,
              as_scope = \<lparr>sc_connection_id = cd_connection_id assignment\<rparr>,
              as_role_ids = as_role_ids binding, as_policy_ids = as_policy_ids binding\<rparr>)
           (cd_assignments assignment))
       (order (map snd (mr_connection_policy_assignments rt))))"

section \<open>The governance interface\<close>

text \<open>Listing sorts by id; the trait's mutating methods refuse on a shared runtime.\<close>

definition rt_list_trusted_clients ::
  "(trusted_client_dto list \<Rightarrow> trusted_client_dto list) \<Rightarrow> 's mcp_runtime \<Rightarrow>
   (governance_error, trusted_client_dto list) result" where
  "rt_list_trusted_clients order rt =
     Ok (sort_key td_id (order (map snd (mr_trusted_clients rt))))"

definition rt_upsert_trusted_client ::
  "trusted_client_dto \<Rightarrow> (governance_error, trusted_client_dto) result" where
  "rt_upsert_trusted_client client =
     Err (GovOperation ''upsert_trusted_client requires mutable runtime access'')"

definition rt_delete_trusted_client :: "string \<Rightarrow> (governance_error, unit) result" where
  "rt_delete_trusted_client client_id =
     Err (GovOperation ''delete_trusted_client requires mutable runtime access'')"

definition rt_list_roles ::
  "(policy_role_dto list \<Rightarrow> policy_role_dto list) \<Rightarrow> 's mcp_runtime \<Rightarrow>
   (governance_error, policy_role_dto list) result" where
  "rt_list_roles order rt = Ok (sort_key rd_id (order (map snd (mr_roles rt))))"

definition rt_list_policies ::
  "(tool_policy_dto list \<Rightarrow> tool_policy_dto list) \<Rightarrow> 's mcp_runtime \<Rightarrow>
   (governance_error, tool_policy_dto list) result" where
  "rt_list_policies order rt = Ok (sort_key pd_id (order (map snd (mr_policies rt))))"

definition rt_list_connection_policy_assignments ::
  "(connection_policy_assignment_dto list \<Rightarrow> connection_policy_assignment_dto list) \<Rightarrow>
   's mcp_runtime \<Rightarrow> (governance_error, connection_policy_assignment_dto list) result" where
  "rt_list_connection_policy_assignments order rt =
     Ok (sort_key cd_connection_id (order (map snd (mr_connection_policy_assignments rt))))"

definition rt_save_connection_policy_assignment ::
  "connection_policy_assignment_dto \<Rightarrow>
   (governance_error, connection_policy_assignment_dto) result" where
  "rt_save_connection_policy_assignment assignment =
     Err (GovOperation ''save_connection_policy_assignment requires mutable runtime access'')"

definition pending_summary :: "uuid_ext \<Rightarrow> pending_execution \<Rightarrow> pending_execution_summary" where
  "pending_summary u pending =
     \<lparr>su_id = ux_to_string u (pe_id pending), su_actor_id = ep_actor_id (pe_plan pending),
      su_connection_id = ep_connection_id (pe_plan pending),
      su_tool_id = ep_tool_id (pe_plan pending),
      su_classification = ep_classification (pe_plan pending),
      su_status = to_ascii_lowercase (pending_status_debug (pe_status pending)),
      su_created_at_epoch_ms = pe_created_at pending\<rparr>"

definition rt_list_pending_executions ::
  "'s pending_store_ops \<Rightarrow> uuid_ext \<Rightarrow> int \<Rightarrow> 's mcp_runtime \<Rightarrow>
   (governance_error, pending_execution_summary list) result" where
  "rt_list_pending_executions ops u now rt =
     and_then (map_err (\<lambda>e. GovOperation (approval_error_display u e))
                (svc_list_pending ops now (mr_approval_service rt)))
       (\<lambda>pendings. Ok (map (pending_summary u) pendings))"

definition rt_get_pending_execution ::
  "'s pending_store_ops \<Rightarrow> uuid_ext \<Rightarrow> int \<Rightarrow> string \<Rightarrow> 's mcp_runtime \<Rightarrow>
   (governance_error, pending_execution_detail) result" where
  "rt_get_pending_execution ops u now pending_id rt =
     and_then (ok_or (GovValidation ''invalid pending id'') (ux_parse_str u pending_id)) (\<lambda>i.
     and_then (map_err (\<lambda>e. GovOperation (approval_error_display u e))
                (svc_list_pending ops now (mr_approval_service rt))) (\<lambda>pendings.
     and_then (ok_or (GovNotFound (''pending execution '' @ ux_to_string u i))
                (find (\<lambda>p. pe_id p = i) pendings)) (\<lambda>pending.
       Ok \<lparr>pt_summary = pending_summary u pending, pt_plan = ep_payload (pe_plan pending)\<rparr>)))"

definition rt_approve_pending_execution :: "string \<Rightarrow> (governance_error, approval_outcome) result" where
  "rt_approve_pending_execution pending_id =
     Err (GovOperation ''approve_pending_execution requires mutable runtime access'')"

definition rt_reject_pending_execution ::
  "string \<Rightarrow> string option \<Rightarrow> (governance_error, approval_outcome) result" where
  "rt_reject_pending_execution pending_id reason =
     Err (GovOperation ''reject_pending_execution requires mutable runtime access'')"

section \<open>Configuration\<close>

definition upsert_trusted_client_mut ::
  "trusted_client_dto \<Rightarrow> 's mcp_runtime \<Rightarrow>
   's mcp_runtime \<times> (governance_error, trusted_client_dto) result" where
  "upsert_trusted_client_mut client rt =
     (if trim (td_id client) = []
      then (rt, Err (GovValidation ''trusted client id must not be empty''))
      else
        (push_event TrustedClientsUpdated
           (rt\<lparr>mr_trusted_clients := AList.update (td_id client) client (mr_trusted_clients rt)\<rparr>),
         Ok client))"

definition delete_trusted_client_mut ::
  "string \<Rightarrow> 's mcp_runtime \<Rightarrow> 's mcp_runtime \<times> (governance_error, unit) result" where
  "delete_trusted_client_mut client_id rt =
     (let rt' = rt\<lparr>mr_trusted_clients := AList.delete client_id (mr_trusted_clients rt)\<rparr>
      in if map_of (mr_trusted_clients rt) client_id = None
         then (rt', Err (GovNotFound (''trusted client '' @ client_id)))
         else (push_event TrustedClientsUpdated rt', Ok ()))"

definition upsert_role_mut ::
  "policy_role_dto \<Rightarrow> 's mcp_runtime \<Rightarrow>
   's mcp_runtime \<times> (governance_error, policy_role_dto) result" where
  "upsert_role_mut role rt =
     (if trim (rd_id role) = [] then (rt, Err (GovValidation ''role id must not be empty''))
      else
        (push_event RolesUpdated (rt\<lparr>mr_roles := AList.update (rd_id role) role (mr_roles rt)\<rparr>),
         Ok role))"

definition delete_role_mut ::
  "string \<Rightarrow> 's mcp_runtime \<Rightarrow> 's mcp_runtime \<times> (governance_error, unit) result" where
  "delete_role_mut role_id rt =
     (let rt' = rt\<lparr>mr_roles := AList.delete role_id (mr_roles rt)\<rparr>
      in if map_of (mr_roles rt) role_id = None
         then (rt', Err (GovNotFound (''role '' @ role_id)))
         else (push_event RolesUpdated rt', Ok ()))"

definition upsert_policy_mut ::
  "tool_policy_dto \<Rightarrow> 's mcp_runtime \<Rightarrow>
   's mcp_runtime \<times> (governance_error, tool_policy_dto) result" where
  "upsert_policy_mut policy rt =
     (if trim (pd_id policy) = [] then (rt, Err (GovValidation ''policy id must not be empty''))
      else
        (push_event PoliciesUpdated
           (rt\<lparr>mr_policies := AList.update (pd_id policy) policy (mr_policies rt)\<rparr>),
         Ok policy))"

definition delete_policy_mut ::
  "string \<Rightarrow> 's mcp_runtime \<Rightarrow> 's mcp_runtime \<times> (governance_error, unit) result" where
  "delete_policy_mut policy_id rt =
     (let rt' = rt\<lparr>mr_policies := AList.delete policy_id (mr_policies rt)\<rparr>
      in if map_of (mr_policies rt) policy_id = None
         then (rt', Err (GovNotFound (''policy '' @ policy_id)))
         else (push_event PoliciesUpdated rt', Ok ()))"

definition save_connection_policy_assignment_mut ::
  "connection_policy_assignment_dto \<Rightarrow> 's mcp_runtime \<Rightarrow>
   's mcp_runtime \<times> (governance_error, connection_policy_assignment_dto) result" where
  "save_connection_policy_assignment_mut assignment rt =
     (push_event (ConnectionPolicyUpdated (cd_connection_id assignment))
        (rt\<lparr>mr_connection_policy_assignments :=
              AList.update (cd_connection_id assignment) assignment
                (mr_connection_policy_assignments rt)\<rparr>),
      Ok assignment)"

section \<open>Approving, rejecting, queueing\<close>

definition record_audit_event ::
  "audit_ext \<Rightarrow> event_record \<Rightarrow> 's mcp_runtime \<Rightarrow>
   's mcp_runtime \<times> (governance_error, event_record) result" where
  "record_audit_event x event rt =
     (case audit_record x event (mr_audit_service rt) of
        (au, Inl e) \<Rightarrow>
          (rt\<lparr>mr_audit_service := au\<rparr>, Err (GovOperation (audit_error_display e)))
      | (au, Inr recorded) \<Rightarrow>
          (let rt' = rt\<lparr>mr_audit_service := au\<rparr>
           in (if ev_id recorded \<noteq> None then push_event AuditAppended rt' else rt', Ok recorded)))"

definition approval_outcome_from_recorded :: "event_record \<Rightarrow> string \<Rightarrow> approval_outcome" where
  "approval_outcome_from_recorded recorded status =
     \<lparr>oc_id = unwrap_or [] (map_option show_int (ev_id recorded)), oc_status = status,
      oc_actor_id = unwrap_or [] (ev_actor_id recorded), oc_timestamp_ms = ev_ts_ms recorded\<rparr>"

definition approve_event ::
  "audit_ext \<Rightarrow> int \<Rightarrow> execution_plan \<Rightarrow> string \<Rightarrow> string \<Rightarrow> event_origin \<Rightarrow> event_record" where
  "approve_event x ts_ms replay_plan pending_id approver_actor_id origin =
     with_details_json
       (ax_json_display x (JObject (obj_of
          [(''requested_by'', JString (ep_actor_id replay_plan)),
           (''approved_by'', JString approver_actor_id),
           (''tool_id'', JString (ep_tool_id replay_plan))])))
     (with_connection_context (ep_connection_id replay_plan) [] []
     (with_object_ref ''pending_execution'' pending_id
     (with_actor_id approver_actor_id
     (with_summary (''MCP execution approved: tool='' @ ep_tool_id replay_plan @ '' requester='' @
                    ep_actor_id replay_plan @ '' approver='' @ approver_actor_id)
     (with_origin origin
     (with_typed_action MCP_APPROVE_EXECUTION
       (event_record_new ts_ms SevInfo CatMcp OutSuccess)))))))"

text \<open>
  The clock is read by the listing (\<open>t1\<close>), for the event (\<open>ts_ms\<close>) and by the
  approval (\<open>t2\<close>). The queue changes before the event is recorded.
\<close>

definition approve_pending_execution_with_origin_mut ::
  "'s pending_store_ops \<Rightarrow> uuid_ext \<Rightarrow> audit_ext \<Rightarrow> int \<Rightarrow> int \<Rightarrow> int \<Rightarrow> string \<Rightarrow> string \<Rightarrow>
   event_origin \<Rightarrow> 's mcp_runtime \<Rightarrow> 's mcp_runtime \<times> (governance_error, approval_outcome) result" where
  "approve_pending_execution_with_origin_mut ops u x t1 ts_ms t2 pending_id approver_actor_id origin rt =
     (case handler_get_pending_execution ops u t1 pending_id (mr_approval_service rt) of
        Inl e \<Rightarrow> (rt, Err (GovOperation (approval_handler_error_display u e)))
      | Inr pending \<Rightarrow>
          (let event = approve_event x ts_ms (pe_plan pending) pending_id approver_actor_id origin
           in case handler_approve_execution ops u t2 pending_id (mr_approval_service rt) of
                (sv, Inl e) \<Rightarrow>
                  (rt\<lparr>mr_approval_service := sv\<rparr>,
                   Err (GovOperation (approval_handler_error_display u e)))
              | (sv, Inr _) \<Rightarrow>
                  (case record_audit_event x event (rt\<lparr>mr_approval_service := sv\<rparr>) of
                     (rt', Inl e) \<Rightarrow> (rt', Err e)
                   | (rt', Inr recorded) \<Rightarrow>
                       (push_event PendingExecutionsUpdated rt',
                        Ok (approval_outcome_from_recorded recorded ''approved'')))))"

definition approve_pending_execution_as_mut where
  "approve_pending_execution_as_mut ops u x t1 ts_ms t2 pending_id approver_actor_id rt =
     approve_pending_execution_with_origin_mut ops u x t1 ts_ms t2 pending_id approver_actor_id
       origin_system rt"

definition approve_pending_execution_mut where
  "approve_pending_execution_mut ops u x t1 ts_ms t2 pending_id rt =
     approve_pending_execution_as_mut ops u x t1 ts_ms t2 pending_id ''system'' rt"

definition reject_event ::
  "audit_ext \<Rightarrow> int \<Rightarrow> execution_plan \<Rightarrow> string \<Rightarrow> string \<Rightarrow> string \<Rightarrow> event_origin \<Rightarrow>
   event_record" where
  "reject_event x ts_ms pending_plan pending_id rejector_actor_id rejection_reason origin =
     with_details_json
       (ax_json_display x (JObject (obj_of
          [(''requested_by'', JString (ep_actor_id pending_plan)),
           (''rejected_by'', JString rejector_actor_id),
           (''tool_id'', JString (ep_tool_id pending_plan)),
           (''reason'', JString rejection_reason)])))
     (with_error ''rejected'' rejection_reason
     (with_connection_context (ep_connection_id pending_plan) [] []
     (with_object_ref ''pending_execution'' pending_id
     (with_actor_id rejector_actor_id
     (with_summary (''MCP execution rejected: tool='' @ ep_tool_id pending_plan @ '' requester='' @
                    ep_actor_id pending_plan @ '' rejector='' @ rejector_actor_id)
     (with_origin origin
     (with_typed_action MCP_REJECT_EXECUTION
       (event_record_new ts_ms SevWarn CatMcp OutFailure))))))))"

text \<open>Here the event is recorded before the queue changes.\<close>

definition reject_pending_execution_with_origin_mut ::
  "'s pending_store_ops \<Rightarrow> uuid_ext \<Rightarrow> audit_ext \<Rightarrow> int \<Rightarrow> int \<Rightarrow> int \<Rightarrow> string \<Rightarrow> string \<Rightarrow>
   string option \<Rightarrow> event_origin \<Rightarrow> 's mcp_runtime \<Rightarrow>
   's mcp_runtime \<times> (governance_error, approval_outcome) result" where
  "reject_pending_execution_with_origin_mut ops u x t1 ts_ms t2 pending_id rejector_actor_id reason
     origin rt =
     (case handler_get_pending_execution ops u t1 pending_id (mr_approval_service rt) of
        Inl e \<Rightarrow> (rt, Err (GovOperation (approval_handler_error_display u e)))
      | Inr pending \<Rightarrow>
          (let given_reason = normalize_rejection_reason reason;
               rejection_reason = unwrap_or ''rejected by approver'' given_reason;
               event = reject_event x ts_ms (pe_plan pending) pending_id rejector_actor_id
                         rejection_reason origin
           in case record_audit_event x event rt of
                (rt', Inl e) \<Rightarrow> (rt', Err e)
              | (rt', Inr recorded) \<Rightarrow>
                  (case handler_reject_execution ops u t2 pending_id given_reason
                          (mr_approval_service rt') of
                     (sv, Inl e) \<Rightarrow>
                       (rt'\<lparr>mr_approval_service := sv\<rparr>,
                        Err (GovOperation (approval_handler_error_display u e)))
                   | (sv, Inr _) \<Rightarrow>
                       (push_event PendingExecutionsUpdated (rt'\<lparr>mr_approval_service := sv\<rparr>),
                        Ok (approval_outcome_from_recorded recorded ''rejected'')))))"

definition reject_pending_execution_as_mut where
  "reject_pending_execution_as_mut ops u x t1 ts_ms t2 pending_id rejector_actor_id reason rt =
     reject_pending_execution_with_origin_mut ops u x t1 ts_ms t2 pending_id rejector_actor_id reason
       origin_system rt"

definition reject_pending_execution_mut where
  "reject_pending_execution_mut ops u x t1 ts_ms t2 pending_id rt =
     reject_pending_execution_as_mut ops u x t1 ts_ms t2 pending_id ''system'' None rt"

definition request_execution_mut ::
  "'s pending_store_ops \<Rightarrow> uuid_ext \<Rightarrow> int \<Rightarrow> uuid \<Rightarrow> int \<Rightarrow> execution_plan \<Rightarrow> 's mcp_runtime \<Rightarrow>
   's mcp_runtime \<times> (governance_error, pending_execution_summary) result" where
  "request_execution_mut ops u now_ms new_id now' plan rt =
     (case handler_request_execution ops now_ms new_id now' plan (mr_approval_service rt) of
        (sv, Inl e) \<Rightarrow>
          (rt\<lparr>mr_approval_service := sv\<rparr>, Err (GovOperation (approval_handler_error_display u e)))
      | (sv, Inr pending) \<Rightarrow>
          (push_event PendingExecutionsUpdated (rt\<lparr>mr_approval_service := sv\<rparr>),
           Ok (pending_summary u pending)))"

definition consume_approved_execution_mut ::
  "'s pending_store_ops \<Rightarrow> uuid_ext \<Rightarrow> int \<Rightarrow> execution_plan \<Rightarrow> 's mcp_runtime \<Rightarrow>
   's mcp_runtime \<times> (governance_error, pending_execution_summary option) result" where
  "consume_approved_execution_mut ops u now plan rt =
     (case svc_consume_approved ops now plan (mr_approval_service rt) of
        (sv, Inl e) \<Rightarrow>
          (rt\<lparr>mr_approval_service := sv\<rparr>, Err (GovOperation (approval_error_display u e)))
      | (sv, Inr None) \<Rightarrow> (rt\<lparr>mr_approval_service := sv\<rparr>, Ok None)
      | (sv, Inr (Some consumed)) \<Rightarrow>
          (push_event PendingExecutionsUpdated (rt\<lparr>mr_approval_service := sv\<rparr>),
           Ok (Some (pending_summary u consumed))))"

definition classify_plan ::
  "execution_classification \<Rightarrow> json \<Rightarrow> string \<Rightarrow> string \<Rightarrow> string \<Rightarrow> execution_plan" where
  "classify_plan classification payload actor_id connection_id tool_id =
     \<lparr>ep_connection_id = connection_id, ep_actor_id = actor_id, ep_tool_id = tool_id,
      ep_classification = classification, ep_payload = payload\<rparr>"

section \<open>The approval gate of the runtime\<close>

definition gate_plan :: "json \<Rightarrow> authorization_request \<Rightarrow> execution_plan" where
  "gate_plan payload request =
     \<lparr>ep_connection_id = aq_connection_id request,
      ep_actor_id = ri_client_id (aq_identity request),
      ep_tool_id = aq_tool_id request, ep_classification = aq_classification request,
      ep_payload = payload\<rparr>"

text \<open>
  \<open>RuntimeApprovalGate::resolve\<close>: \<open>t1\<close> is the clock of the consumption; \<open>t2\<close>,
  \<open>new_id\<close> and \<open>t3\<close> are what queueing takes.
\<close>

definition gate_resolve ::
  "'s pending_store_ops \<Rightarrow> uuid_ext \<Rightarrow> int \<Rightarrow> int \<Rightarrow> uuid \<Rightarrow> int \<Rightarrow> json \<Rightarrow> 's mcp_runtime approval_gate"
  where
  "gate_resolve ops u t1 t2 new_id t3 payload request rt =
     (if aq_tool_id request \<in> set APPROVAL_QUEUE_TOOLS then (rt, Ok Exempt)
      else
        (let plan = gate_plan payload request
         in case consume_approved_execution_mut ops u t1 plan rt of
              (rt', Inl e) \<Rightarrow> (rt', Err (AuthApproval (governance_error_display e)))
            | (rt', Inr (Some consumed)) \<Rightarrow> (rt', Ok (Granted (su_id consumed)))
            | (rt', Inr None) \<Rightarrow>
                (case request_execution_mut ops u t2 new_id t3 plan rt' of
                   (rt'', Inl e) \<Rightarrow> (rt'', Err (AuthApproval (governance_error_display e)))
                 | (rt'', Inr queued) \<Rightarrow> (rt'', Ok (Queued (su_id queued))))))"

text \<open>
  The audit service is a handle to shared state, so what the call records through
  its copy is seen through the runtime.
\<close>

definition authorize_with_approval_mut ::
  "'s pending_store_ops \<Rightarrow> uuid_ext \<Rightarrow> audit_ext \<Rightarrow> (string list \<Rightarrow> string list) \<Rightarrow> string \<Rightarrow>
   int \<Rightarrow> int \<Rightarrow> uuid \<Rightarrow> int \<Rightarrow> trusted_client_registry \<Rightarrow> policy_engine \<Rightarrow> authorization_request \<Rightarrow>
   json \<Rightarrow> int \<Rightarrow> 's mcp_runtime \<Rightarrow>
   's mcp_runtime \<times> (authorization_error, authorization_outcome) result" where
  "authorize_with_approval_mut ops u x iter fresh_id t1 t2 new_id t3 trusted_clients policy_engine
     request payload created_at_epoch_ms rt =
     (let ((au, rt'), r) =
            authorize_request_with_approval x iter fresh_id trusted_clients policy_engine request
              (Some (gate_resolve ops u t1 t2 new_id t3 payload)) created_at_epoch_ms
              (mr_audit_service rt, rt)
      in (rt'\<lparr>mr_audit_service := au\<rparr>, r))"

section \<open>Runs of the runtime\<close>

text \<open>
  One step per operation that takes the runtime mutably, with any arguments, clock
  readings and identifiers.
\<close>

inductive runtime_step ::
  "'s pending_store_ops \<Rightarrow> uuid_ext \<Rightarrow> audit_ext \<Rightarrow> 's mcp_runtime \<Rightarrow> 's mcp_runtime \<Rightarrow> bool"
  for ops u x where
  drain: "runtime_step ops u x rt (fst (drain_events rt))"
| enable: "runtime_step ops u x rt (set_mcp_enabled b rt)"
| clear: "runtime_step ops u x rt (rt_clear rt)"
| upsert_client: "runtime_step ops u x rt (fst (upsert_trusted_client_mut client rt))"
| delete_client: "runtime_step ops u x rt (fst (delete_trusted_client_mut client_id rt))"
| upsert_role: "runtime_step ops u x rt (fst (upsert_role_mut role rt))"
| delete_role: "runtime_step ops u x rt (fst (delete_role_mut role_id rt))"
| upsert_policy: "runtime_step ops u x rt (fst (upsert_policy_mut policy rt))"
| delete_policy: "runtime_step ops u x rt (fst (delete_policy_mut policy_id rt))"
| save_assignment: "runtime_step ops u x rt (fst (save_connection_policy_assignment_mut a rt))"
| approve: "runtime_step ops u x rt
    (fst (approve_pending_execution_with_origin_mut ops u x t1 ts t2 pending_id actor origin rt))"
| reject: "runtime_step ops u x rt
    (fst (reject_pending_execution_with_origin_mut ops u x t1 ts t2 pending_id actor why origin rt))"
| request: "runtime_step ops u x rt (fst (request_execution_mut ops u t1 new_id t2 plan rt))"
| consume: "runtime_step ops u x rt (fst (consume_approved_execution_mut ops u t1 plan rt))"
| authorize: "runtime_step ops u x rt
    (fst (authorize_with_approval_mut ops u x iter fresh t1 t2 new_id t3 clients engine req payload ts rt))"

text \<open>The configuration: everything but the services and the queue of events.\<close>

abbreviation config ::
  "'s mcp_runtime \<Rightarrow> (string \<times> trusted_client_dto) list \<times> (string \<times> policy_role_dto) list \<times>
     (string \<times> tool_policy_dto) list \<times> (string \<times> connection_policy_assignment_dto) list" where
  "config rt \<equiv> (mr_trusted_clients rt, mr_roles rt, mr_policies rt,
                mr_connection_policy_assignments rt)"

lemma push_event_simps [simp]:
  "config (push_event e rt) = config rt"
  "mr_approval_service (push_event e rt) = mr_approval_service rt"
  "mr_audit_service (push_event e rt) = mr_audit_service rt"
  by (simp_all add: push_event_def)

lemma record_audit_event_frame:
  "config (fst (record_audit_event x event rt)) = config rt"
  "mr_approval_service (fst (record_audit_event x event rt)) = mr_approval_service rt"
  by (auto simp: record_audit_event_def push_event_def Let_def split: prod.splits sum.splits)

lemma approve_frame:
  "config (fst (approve_pending_execution_with_origin_mut ops u x t1 ts t2 i actor origin rt)) = config rt"
proof -
  have "config rt2 = config rt" if "record_audit_event x event (rt\<lparr>mr_approval_service := sv\<rparr>) = (rt2, r)"
    for event sv rt2 r
    using record_audit_event_frame(1) [of x event "rt\<lparr>mr_approval_service := sv\<rparr>"] that by simp
  then show ?thesis
    by (auto simp: approve_pending_execution_with_origin_mut_def push_event_def Let_def
        split: sum.splits prod.splits)
qed

lemma reject_frame:
  "config (fst (reject_pending_execution_with_origin_mut ops u x t1 ts t2 i actor why origin rt)) =
     config rt"
proof -
  have "config rt2 = config rt" if "record_audit_event x event rt = (rt2, r)" for event rt2 r
    using record_audit_event_frame(1) [of x event rt] that by simp
  then show ?thesis
    by (auto simp: reject_pending_execution_with_origin_mut_def push_event_def Let_def
        split: sum.splits prod.splits)
qed

lemma request_frame: "config (fst (request_execution_mut ops u t1 new_id t2 plan rt)) = config rt"
  by (auto simp: request_execution_mut_def push_event_def split: prod.splits sum.splits)

lemma consume_frame: "config (fst (consume_approved_execution_mut ops u t1 plan rt)) = config rt"
  by (auto simp: consume_approved_execution_mut_def push_event_def
      split: prod.splits sum.splits option.splits)

lemma gate_frame: "config (fst (gate_resolve ops u t1 t2 new_id t3 payload request rt)) = config rt"
proof (cases "aq_tool_id request \<in> set APPROVAL_QUEUE_TOOLS")
  case True
  then show ?thesis by (simp add: gate_resolve_def)
next
  case False
  let ?plan = "gate_plan payload request"
  obtain rt1 r1 where 1: "consume_approved_execution_mut ops u t1 ?plan rt = (rt1, r1)"
    by fastforce
  obtain rt2 r2 where 2: "request_execution_mut ops u t2 new_id t3 ?plan rt1 = (rt2, r2)"
    by fastforce
  have "config rt1 = config rt" "config rt2 = config rt1"
    using consume_frame [of ops u t1 ?plan rt] request_frame [of ops u t2 new_id t3 ?plan rt1] 1 2
    by simp_all
  moreover have "fst (gate_resolve ops u t1 t2 new_id t3 payload request rt) \<in> {rt1, rt2}"
    using False 1 2 by (auto simp: gate_resolve_def split: sum.splits option.splits)
  ultimately show ?thesis by auto
qed

lemma authorize_frame:
  "config (fst (authorize_with_approval_mut ops u x iter fresh t1 t2 new_id t3 clients engine req
      payload ts rt)) = config rt"
proof -
  obtain au rt' r where eq: "authorize_request_with_approval x iter fresh clients engine req
      (Some (gate_resolve ops u t1 t2 new_id t3 payload)) ts (mr_audit_service rt, rt) = ((au, rt'), r)"
    by (metis surj_pair)
  then have "config rt' = config rt"
  proof (cases rule: authorize_cases)
    case asked
    from resolve_approval_answered(2) [OF asked(3)] show ?thesis by (simp add: gate_frame)
  qed simp_all
  with eq show ?thesis by (simp add: authorize_with_approval_mut_def)
qed

subsection \<open>The maps hold each entry under its id\<close>

definition keyed_by :: "('v \<Rightarrow> string) \<Rightarrow> (string \<times> 'v) list \<Rightarrow> bool" where
  "keyed_by key m \<longleftrightarrow> distinct (map fst m) \<and> (\<forall>(k, v) \<in> set m. key v = k)"

lemma keyed_by_Nil [simp]: "keyed_by key []"
  by (simp add: keyed_by_def)

lemma keyed_by_update: "keyed_by key m \<Longrightarrow> keyed_by key (AList.update (key v) v m)"
proof -
  assume k: "keyed_by key m"
  then have d: "distinct (map fst (AList.update (key v) v m))"
    by (simp add: keyed_by_def distinct_update)
  have "key w = j" if "(j, w) \<in> set (AList.update (key v) v m)" for j w
  proof -
    from map_of_is_SomeI [OF d that] have "((map_of m)(key v \<mapsto> v)) j = Some w" by simp
    with k show ?thesis by (auto simp: keyed_by_def dest: map_of_SomeD split: if_splits)
  qed
  with d show ?thesis by (auto simp: keyed_by_def)
qed

lemma keyed_by_delete: "keyed_by key m \<Longrightarrow> keyed_by key (AList.delete k m)"
  by (auto simp: keyed_by_def AList.delete_eq distinct_map_filter)

lemma keyed_by_values:
  assumes "keyed_by key m"
  shows "inj_on key (set (map snd m))"
proof (rule inj_onI)
  fix v w
  assume "v \<in> set (map snd m)" "w \<in> set (map snd m)" "key v = key w"
  with assms have "(key v, v) \<in> set m" "(key v, w) \<in> set m" by (auto simp: keyed_by_def)
  with assms show "v = w" by (auto simp: keyed_by_def dest: eq_key_imp_eq_value)
qed

definition config_ok :: "'s mcp_runtime \<Rightarrow> bool" where
  "config_ok rt \<longleftrightarrow>
     keyed_by td_id (mr_trusted_clients rt) \<and> keyed_by rd_id (mr_roles rt) \<and>
     keyed_by pd_id (mr_policies rt) \<and>
     keyed_by cd_connection_id (mr_connection_policy_assignments rt)"

lemma config_ok_cong: "config rt = config rt' \<Longrightarrow> config_ok rt = config_ok rt'"
  by (simp add: config_ok_def)

lemmas config_op_defs =
  drain_events_def set_mcp_enabled_def rt_clear_def upsert_trusted_client_mut_def
  delete_trusted_client_mut_def upsert_role_mut_def delete_role_mut_def upsert_policy_mut_def
  delete_policy_mut_def save_connection_policy_assignment_mut_def push_event_def Let_def

lemma runtime_step_config_ok:
  assumes "runtime_step ops u x rt rt'" and "config_ok rt"
  shows "config_ok rt'"
  using assms
proof cases
  case approve
  with assms(2) show ?thesis by (simp add: config_ok_cong [OF approve_frame])
next
  case reject
  with assms(2) show ?thesis by (simp add: config_ok_cong [OF reject_frame])
next
  case request
  with assms(2) show ?thesis by (simp add: config_ok_cong [OF request_frame])
next
  case consume
  with assms(2) show ?thesis by (simp add: config_ok_cong [OF consume_frame])
next
  case authorize
  with assms(2) show ?thesis by (simp add: config_ok_cong [OF authorize_frame])
qed (use assms(2) in \<open>auto simp: config_ok_def config_op_defs keyed_by_update keyed_by_delete\<close>)

lemma reachable_config_ok:
  assumes "(runtime_step ops u x)\<^sup>*\<^sup>* (mcp_runtime_new ops now au store) rt"
  shows "config_ok rt"
  using assms
proof (induction rule: rtranclp_induct)
  case base
  then show ?case by (simp add: mcp_runtime_new_def config_ok_def split: prod.splits)
qed (rule runtime_step_config_ok)

section \<open>Hash order does not matter\<close>

lemma find_unique_cong:
  assumes "set xs = set ys" and "\<And>a b. a \<in> set xs \<Longrightarrow> b \<in> set xs \<Longrightarrow> P a \<Longrightarrow> P b \<Longrightarrow> a = b"
  shows "find P xs = find P ys"
proof (cases "find P xs")
  case None
  then have "find P ys = None" using assms(1) by (auto simp: find_None_iff)
  with None show ?thesis by simp
next
  case (Some a)
  then have a: "a \<in> set xs" "P a" by (auto dest: find_SomeD)
  then have "find P ys \<noteq> None" using assms(1) by (auto simp: find_None_iff)
  then obtain b where b: "find P ys = Some b" by blast
  then have "b \<in> set xs" "P b" using assms(1) by (auto dest: find_SomeD)
  with a assms(2) have "a = b" by blast
  with Some b show ?thesis by simp
qed

lemma registry_order:
  assumes "config_ok rt" and "hash_order o1" and "hash_order o2"
  shows "evaluate_client (rt_trusted_client_registry o1 rt) identity =
         evaluate_client (rt_trusted_client_registry o2 rt) identity"
proof -
  let ?vs = "map snd (mr_trusted_clients rt)"
  have inj: "inj_on td_id (set ?vs)" using assms(1) by (intro keyed_by_values) (simp add: config_ok_def)
  have "find (\<lambda>c. client_matches c identity) (rt_trusted_client_registry o1 rt) =
        find (\<lambda>c. client_matches c identity) (rt_trusted_client_registry o2 rt)"
  proof (rule find_unique_cong)
    show "set (rt_trusted_client_registry o1 rt) = set (rt_trusted_client_registry o2 rt)"
      using assms(2,3) by (simp add: rt_trusted_client_registry_def trusted_client_registry_new_def hash_order_def)
  next
    fix a b
    assume "a \<in> set (rt_trusted_client_registry o1 rt)" "b \<in> set (rt_trusted_client_registry o1 rt)"
      "client_matches a identity" "client_matches b identity"
    moreover from this obtain v w where vw: "v \<in> set ?vs" "a = trusted_client_of_dto v"
      "w \<in> set ?vs" "b = trusted_client_of_dto w"
      using hash_order_set [OF assms(2)]
      by (auto simp: rt_trusted_client_registry_def trusted_client_registry_new_def)
    ultimately have "td_id v = td_id w"
      by (simp add: client_matches_iff trusted_client_of_dto_def)
    with inj vw show "a = b" by (metis inj_onD)
  qed
  then show ?thesis by (simp add: evaluate_client_def)
qed

lemma map_of_rev_unique:
  assumes "set xs = set ys" and "inj_on fst (set xs)"
  shows "map_of (rev xs) = map_of (rev ys)"
proof -
  have *: "map_of (rev zs) k = Some v \<longleftrightarrow> (k, v) \<in> set xs" if zs: "set zs = set xs" for zs k v
  proof
    assume "map_of (rev zs) k = Some v"
    from map_of_SomeD [OF this] show "(k, v) \<in> set xs" using zs by simp
  next
    assume kv: "(k, v) \<in> set xs"
    then have "(k, v) \<in> set (rev zs)" using zs by simp
    then have "map_of (rev zs) k \<noteq> None" unfolding map_of_eq_None_iff by (metis fst_conv image_eqI)
    then obtain w where w: "map_of (rev zs) k = Some w" by blast
    from map_of_SomeD [OF w] have "(k, w) \<in> set xs" using zs by simp
    with inj_onD [OF assms(2) _ kv] have "w = v" by fastforce
    with w show "map_of (rev zs) k = Some v" by simp
  qed
  have "map_of (rev xs) k = map_of (rev ys) k" for k
    using * [OF refl, of k] * [OF assms(1) [symmetric], of k]
    by (cases "map_of (rev xs) k"; cases "map_of (rev ys) k") auto
  then show ?thesis by blast
qed

text \<open>Two engines with the same assignments and the same maps decide alike.\<close>

lemma evaluate_engine_cong:
  assumes "set (en_assignments e) = set (en_assignments e')"
    and "map_of (en_roles e) = map_of (en_roles e')"
    and "map_of (en_policies e) = map_of (en_policies e')"
    and "hash_order iter" and "hash_order iter'"
  shows "ok_opt (evaluate iter e r) = ok_opt (evaluate iter' e' r)"
proof -
  have app: "applying e r = applying e' r" using assms(1) by (simp add: applying_def)
  have known: "roles_known e r = roles_known e' r" using app assms(2) by (simp add: roles_known_def)
  have "reached_ids e r = reached_ids e' r" using app assms(2) by (simp add: reached_ids_def)
  moreover have "listing_of e r ids = listing_of e' r ids" for ids
    using assms(3) by (simp add: listing_of_def)
  moreover have "en_policies e = [] \<longleftrightarrow> en_policies e' = []"
    using assms(3) by (metis map_of_eq_empty_iff)
  ultimately have best: "best_decision e r = best_decision e' r"
    by (simp add: best_decision_def)
  show ?thesis
  proof (cases "roles_known e r")
    case True
    with known best evaluate_best assms(4,5) show ?thesis by (metis True)
  next
    case False
    then obtain i j where "evaluate iter e r = Err (MissingRole i)"
      "evaluate iter' e' r = Err (MissingRole j)"
      using evaluate_missing_role [OF False, of iter] evaluate_missing_role [of e' r iter'] known
      by auto
    then show ?thesis by (simp add: ok_opt_def)
  qed
qed

definition runtime_engine ::
  "(connection_policy_assignment_dto list \<Rightarrow> connection_policy_assignment_dto list) \<Rightarrow>
   (policy_role_dto list \<Rightarrow> policy_role_dto list) \<Rightarrow> (tool_policy_dto list \<Rightarrow> tool_policy_dto list) \<Rightarrow>
   's mcp_runtime \<Rightarrow> policy_engine" where
  "runtime_engine oa ro po rt =
     policy_engine_new (policy_assignments_for_engine oa rt) (roles_for_engine ro rt)
       (policies_for_engine po rt)"

lemma set_map_filter: "set (List.map_filter f xs) = {y. \<exists>x \<in> set xs. f x = Some y}"
  by (induction xs) (auto simp: map_filter_simps split: option.splits)

lemma in_policies_for_engine:
  assumes "hash_order order"
  shows "p \<in> set (policies_for_engine order rt) \<longleftrightarrow>
    tool_policy_dto_of p \<in> set (map snd (mr_policies rt))"
proof -
  have "ok_opt (tool_policy_of_dto dto) = Some p \<longleftrightarrow> dto = tool_policy_dto_of p" for dto
    using tool_policy_of_dto_iff [of dto p] by (auto simp: ok_opt_def split: sum.splits)
  then have "p \<in> {y. \<exists>x \<in> S. ok_opt (tool_policy_of_dto x) = Some y} \<longleftrightarrow> tool_policy_dto_of p \<in> S"
    for S by simp
  then show ?thesis
    unfolding policies_for_engine_def set_map_filter hash_order_set [OF assms] .
qed

lemma runtime_engine_order:
  assumes "config_ok rt" and "hash_order oa" "hash_order ro" "hash_order po"
    and "hash_order oa'" "hash_order ro'" "hash_order po'"
    and "hash_order iter" and "hash_order iter'"
  shows "ok_opt (evaluate iter (runtime_engine oa ro po rt) r) =
         ok_opt (evaluate iter' (runtime_engine oa' ro' po' rt) r)"
proof (rule evaluate_engine_cong)
  show "set (en_assignments (runtime_engine oa ro po rt)) =
      set (en_assignments (runtime_engine oa' ro' po' rt))"
    using assms(2,5)
    by (simp add: runtime_engine_def policy_engine_new_def policy_assignments_for_engine_def
        hash_order_def)
next
  have "inj_on rd_id (set (map snd (mr_roles rt)))"
    using assms(1) by (intro keyed_by_values) (simp add: config_ok_def)
  then have "inj_on fst (set (map (\<lambda>role. (ro_id role, role)) (roles_for_engine ro rt)))"
    using assms(3) by (auto simp: inj_on_def roles_for_engine_def hash_order_def role_of_dto_def)
  with assms(3,6) show "map_of (en_roles (runtime_engine oa ro po rt)) =
      map_of (en_roles (runtime_engine oa' ro' po' rt))"
    unfolding runtime_engine_def policy_engine_new_def policy_engine.simps map_of_hm_collect
    by (intro map_of_rev_unique) (simp_all add: roles_for_engine_def hash_order_def)
next
  have "inj_on pd_id (set (map snd (mr_policies rt)))"
    using assms(1) by (intro keyed_by_values) (simp add: config_ok_def)
  then have "p = q" if "p \<in> set (policies_for_engine po rt)" "q \<in> set (policies_for_engine po rt)"
    "po_id p = po_id q" for p q
  proof -
    from that(1,2) have "tool_policy_dto_of p \<in> set (map snd (mr_policies rt))"
      "tool_policy_dto_of q \<in> set (map snd (mr_policies rt))"
      by (simp_all add: in_policies_for_engine [OF assms(4)])
    moreover have "pd_id (tool_policy_dto_of p) = pd_id (tool_policy_dto_of q)"
      using that(3) by (simp add: tool_policy_dto_of_def)
    ultimately have "tool_policy_dto_of p = tool_policy_dto_of q"
      using \<open>inj_on pd_id (set (map snd (mr_policies rt)))\<close> by (metis inj_onD)
    then show "p = q" using tool_policy_of_dto_iff by (metis sum.inject(2))
  qed
  then have "inj_on fst (set (map (\<lambda>policy. (po_id policy, policy)) (policies_for_engine po rt)))"
    by (auto simp: inj_on_def)
  moreover have "set (policies_for_engine po rt) = set (policies_for_engine po' rt)"
    using in_policies_for_engine [OF assms(4)] in_policies_for_engine [OF assms(7)] by blast
  ultimately show "map_of (en_policies (runtime_engine oa ro po rt)) =
      map_of (en_policies (runtime_engine oa' ro' po' rt))"
    unfolding runtime_engine_def policy_engine_new_def policy_engine.simps map_of_hm_collect
    by (intro map_of_rev_unique) simp_all
qed (fact assms(8), fact assms(9))

section \<open>The gate and the queue\<close>

context pending_store
begin

lemma consume_mut_spec:
  assumes "sinv (as_store (mr_approval_service rt))"
    and "consume_approved_execution_mut ops u now plan rt = (rt', r)"
  shows "if \<exists>e \<in> ran (view (as_store (mr_approval_service rt))). consumable now plan e
         then \<exists>e. view (as_store (mr_approval_service rt)) (pe_id e) = Some e \<and> consumable now plan e \<and>
                r = Ok (Some (pending_summary u (e\<lparr>pe_status := Consumed\<rparr>))) \<and>
                view (as_store (mr_approval_service rt')) =
                  (view (as_store (mr_approval_service rt)))(pe_id e \<mapsto> e\<lparr>pe_status := Consumed\<rparr>)
         else r = Ok None \<and> sinv (as_store (mr_approval_service rt')) \<and>
              as_ttl_ms (mr_approval_service rt') = as_ttl_ms (mr_approval_service rt) \<and>
              view (as_store (mr_approval_service rt')) = view (as_store (mr_approval_service rt))"
proof (cases "\<exists>e \<in> ran (view (as_store (mr_approval_service rt))). consumable now plan e")
  case True
  from consume_some [OF assms(1) True] obtain s' e where c:
    "op_consume_approved ops now plan (as_store (mr_approval_service rt)) =
       (s', Ok (Some (e\<lparr>pe_status := Consumed\<rparr>)))"
    "view (as_store (mr_approval_service rt)) (pe_id e) = Some e" "consumable now plan e"
    "view s' = (view (as_store (mr_approval_service rt)))(pe_id e \<mapsto> e\<lparr>pe_status := Consumed\<rparr>)"
    by blast
  from c(1) assms(2) have "as_store (mr_approval_service rt') = s'"
    "r = Ok (Some (pending_summary u (e\<lparr>pe_status := Consumed\<rparr>)))"
    by (auto simp: consume_approved_execution_mut_def svc_consume_approved_def push_event_def)
  with c(2-4) show ?thesis unfolding if_P [OF True] by (intro exI [of _ e]) simp
next
  case False
  with consume_none [OF assms(1)] obtain s' where c:
    "op_consume_approved ops now plan (as_store (mr_approval_service rt)) = (s', Ok None)"
    "sinv s'" "view s' = view (as_store (mr_approval_service rt))"
    by blast
  from c(1) assms(2) have "mr_approval_service rt' = (mr_approval_service rt)\<lparr>as_store := s'\<rparr>" "r = Ok None"
    by (auto simp: consume_approved_execution_mut_def svc_consume_approved_def)
  with c(2,3) show ?thesis unfolding if_not_P [OF False] by simp
qed

lemma request_mut_spec:
  assumes "sinv (as_store (mr_approval_service rt))"
    and "view (as_store (mr_approval_service rt)) new_id = None"
    and "request_execution_mut ops u t1 new_id t2 plan rt = (rt', r)"
  shows "let e = \<lparr>pe_id = new_id, pe_status = Pending, pe_plan = plan, pe_created_at = t2,
                  pe_expires_at = Some (wrap_i64 (t1 + as_ttl_ms (mr_approval_service rt))),
                  pe_rejection_reason = None\<rparr>
         in r = Ok (pending_summary u e) \<and>
            view (as_store (mr_approval_service rt')) =
              (view (as_store (mr_approval_service rt)))(new_id \<mapsto> e)"
proof -
  let ?e = "\<lparr>pe_id = new_id, pe_status = Pending, pe_plan = plan, pe_created_at = t2,
             pe_expires_at = Some (wrap_i64 (t1 + as_ttl_ms (mr_approval_service rt))),
             pe_rejection_reason = None\<rparr>"
  obtain s' where
    "op_create_pending ops new_id t2 plan (Some (wrap_i64 (t1 + as_ttl_ms (mr_approval_service rt))))
       (as_store (mr_approval_service rt)) = (s', Ok ?e)"
    "view s' = (view (as_store (mr_approval_service rt)))(new_id \<mapsto> ?e)"
    using create_ok [OF assms(1,2)] by blast
  with assms(3) show ?thesis
    by (auto simp: request_execution_mut_def handler_request_execution_def svc_request_execution_def
        push_event_def)
qed

lemma gate_resolve_spec:
  assumes "sinv (as_store (mr_approval_service rt))"
    and "view (as_store (mr_approval_service rt)) new_id = None"
    and "gate_resolve ops u t1 t2 new_id t3 payload request rt = (rt', r)"
    and "aq_tool_id request \<notin> set APPROVAL_QUEUE_TOOLS"
  shows "let s = as_store (mr_approval_service rt); s' = as_store (mr_approval_service rt');
             plan = gate_plan payload request
         in if \<exists>e \<in> ran (view s). consumable t1 plan e
            then \<exists>e. view s (pe_id e) = Some e \<and> consumable t1 plan e \<and>
                   r = Ok (Granted (ux_to_string u (pe_id e))) \<and>
                   view s' = (view s)(pe_id e \<mapsto> e\<lparr>pe_status := Consumed\<rparr>)
            else r = Ok (Queued (ux_to_string u new_id)) \<and>
                 view s' = (view s)(new_id \<mapsto>
                   \<lparr>pe_id = new_id, pe_status = Pending, pe_plan = plan, pe_created_at = t3,
                    pe_expires_at = Some (wrap_i64 (t2 + as_ttl_ms (mr_approval_service rt))),
                    pe_rejection_reason = None\<rparr>)"
proof -
  let ?plan = "gate_plan payload request"
  obtain rt1 r1 where 1: "consume_approved_execution_mut ops u t1 ?plan rt = (rt1, r1)"
    by fastforce
  show ?thesis
  proof (cases "\<exists>e \<in> ran (view (as_store (mr_approval_service rt))). consumable t1 ?plan e")
    case True
    with consume_mut_spec [OF assms(1) 1] obtain e where
      "view (as_store (mr_approval_service rt)) (pe_id e) = Some e" "consumable t1 ?plan e"
      "r1 = Ok (Some (pending_summary u (e\<lparr>pe_status := Consumed\<rparr>)))"
      "view (as_store (mr_approval_service rt1)) =
         (view (as_store (mr_approval_service rt)))(pe_id e \<mapsto> e\<lparr>pe_status := Consumed\<rparr>)"
      by auto
    moreover from this(3) 1 assms(3,4) have "rt' = rt1" "r = Ok (Granted (ux_to_string u (pe_id e)))"
      by (simp_all add: gate_resolve_def pending_summary_def)
    ultimately show ?thesis using True by (auto simp: Let_def)
  next
    case False
    with consume_mut_spec [OF assms(1) 1] have 2: "r1 = Ok None"
      "sinv (as_store (mr_approval_service rt1))"
      "as_ttl_ms (mr_approval_service rt1) = as_ttl_ms (mr_approval_service rt)"
      "view (as_store (mr_approval_service rt1)) = view (as_store (mr_approval_service rt))"
      by simp_all
    obtain rt2 r2 where 3: "request_execution_mut ops u t2 new_id t3 ?plan rt1 = (rt2, r2)"
      by fastforce
    from request_mut_spec [OF 2(2) _ 3] 2 assms(2) have 4:
      "r2 = Ok (pending_summary u \<lparr>pe_id = new_id, pe_status = Pending, pe_plan = ?plan,
         pe_created_at = t3, pe_expires_at = Some (wrap_i64 (t2 + as_ttl_ms (mr_approval_service rt))),
         pe_rejection_reason = None\<rparr>)"
      "view (as_store (mr_approval_service rt2)) = (view (as_store (mr_approval_service rt)))(new_id \<mapsto>
         \<lparr>pe_id = new_id, pe_status = Pending, pe_plan = ?plan, pe_created_at = t3,
          pe_expires_at = Some (wrap_i64 (t2 + as_ttl_ms (mr_approval_service rt))),
          pe_rejection_reason = None\<rparr>)"
      by (simp_all add: Let_def)
    with 1 2(1) 3 assms(3,4) have "rt' = rt2" "r = Ok (Queued (ux_to_string u new_id))"
      by (simp_all add: gate_resolve_def pending_summary_def)
    with 4 False show ?thesis by (simp add: Let_def)
  qed
qed

end

section \<open>Properties\<close>

text \<open>
  C16. Whatever operations a runtime has been through, and in whatever order its
  hash maps yield their entries, it trusts the same clients and its policies take
  the same decision: each map holds an entry under its own id, so ids are unique.
\<close>

theorem runtime_decision_stable:
  assumes "(runtime_step ops u x)\<^sup>*\<^sup>* (mcp_runtime_new ops now au store) rt"
    and "hash_order oc" "hash_order oa" "hash_order ro" "hash_order po" "hash_order iter"
    and "hash_order oc'" "hash_order oa'" "hash_order ro'" "hash_order po'" "hash_order iter'"
  shows "evaluate_client (rt_trusted_client_registry oc rt) identity =
           evaluate_client (rt_trusted_client_registry oc' rt) identity \<and>
         ok_opt (evaluate iter (runtime_engine oa ro po rt) request) =
           ok_opt (evaluate iter' (runtime_engine oa' ro' po' rt) request)"
proof -
  have ok: "config_ok rt" using assms(1) by (rule reachable_config_ok)
  show ?thesis
    by (intro conjI registry_order [OF ok] runtime_engine_order [OF ok]) fact+
qed

definition sample_client :: "string \<Rightarrow> bool \<Rightarrow> trusted_client_dto" where
  "sample_client name active =
     \<lparr>td_id = ''agent'', td_name = name, td_issuer = None, td_active = active\<rparr>"

definition sample_uuid_ext :: uuid_ext where
  "sample_uuid_ext = \<lparr>ux_parse_str = (\<lambda>s. if s = ''7'' then Some 7 else None),
                      ux_to_string = (\<lambda>i. show_nat (unat i))\<rparr>"

theorem runtime_decision_stable_witness:
  "evaluate_client (rt_trusted_client_registry rev
       (fst (upsert_trusted_client_mut (sample_client ''new'' True)
         (fst (upsert_trusted_client_mut (sample_client ''old'' False)
           (mcp_runtime_new in_memory_ops 0 (audit_service_new []) []))))))
     \<lparr>ci_client_id = ''agent'', ci_issuer = None\<rparr> =
   Trusted (trusted_client_of_dto (sample_client ''new'' True))"
proof -
  let ?rt0 = "mcp_runtime_new in_memory_ops 0 (audit_service_new []) []"
  let ?rt1 = "fst (upsert_trusted_client_mut (sample_client ''old'' False) ?rt0)"
  let ?rt2 = "fst (upsert_trusted_client_mut (sample_client ''new'' True) ?rt1)"
  have "(runtime_step in_memory_ops sample_uuid_ext steady_audit_ext)\<^sup>*\<^sup>* ?rt0 ?rt2"
    by (rule rtranclp_trans [OF r_into_rtranclp r_into_rtranclp]) (rule runtime_step.upsert_client)+
  from runtime_decision_stable [OF this, where oc = rev and oc' = id and oa = id and oa' = id and
      ro = id and ro' = id and po = id and po' = id and iter = id and iter' = id]
  have "evaluate_client (rt_trusted_client_registry rev ?rt2) \<lparr>ci_client_id = ''agent'', ci_issuer = None\<rparr> =
      evaluate_client (rt_trusted_client_registry id ?rt2) \<lparr>ci_client_id = ''agent'', ci_issuer = None\<rparr>"
    by (simp add: hash_order_def)
  also have "\<dots> = Trusted (trusted_client_of_dto (sample_client ''new'' True))"
    by (simp add: rt_trusted_client_registry_def trusted_client_registry_new_def
        upsert_trusted_client_mut_def sample_client_def mcp_runtime_new_def push_event_def
        trim_eq_Nil_iff is_whitespace_def evaluate_client_def client_matches_def
        trusted_client_of_dto_def split: prod.splits)
  finally show ?thesis .
qed

text \<open>
  C2. When the policies ask about a call that is not itself one of the queue's
  tools, the call runs if and only if an approved, unexpired entry for exactly that
  actor, connection, tool and payload is waiting; running uses that entry up and
  names it in the answer. Otherwise the call is queued unchanged, under the fresh
  identifier and with the time to live of the service, and refused.
\<close>

theorem asked_call_needs_approval:
  assumes "distinct (map pe_id (as_store (mr_approval_service rt)))"
    and "new_id \<notin> pe_id ` set (as_store (mr_approval_service rt))"
    and "refusal clients request = None"
    and "evaluate iter engine (auth_evaluation request) = Ok RequireApproval"
    and "aq_tool_id request \<notin> set APPROVAL_QUEUE_TOOLS"
    and "authorize_with_approval_mut in_memory_ops u x iter fresh t1 t2 new_id t3 clients engine request
           payload ts rt = (rt', Ok out)"
  shows "let entries = as_store (mr_approval_service rt);
             entries' = as_store (mr_approval_service rt');
             plan = gate_plan payload request
         in if \<exists>e \<in> set entries. consumable t1 plan e
            then ao_allowed out \<and>
                 (\<exists>e \<in> set entries. consumable t1 plan e \<and>
                    ao_approved_execution_id out = Some (ux_to_string u (pe_id e)) \<and>
                    entry_view entries' =
                      (entry_view entries)(pe_id e \<mapsto> e\<lparr>pe_status := Consumed\<rparr>))
            else \<not> ao_allowed out \<and> ao_pending_execution_id out = Some (ux_to_string u new_id) \<and>
                 entry_view entries' = (entry_view entries)(new_id \<mapsto>
                   \<lparr>pe_id = new_id, pe_status = Pending, pe_plan = plan, pe_created_at = t3,
                    pe_expires_at = Some (wrap_i64 (t2 + as_ttl_ms (mr_approval_service rt))),
                    pe_rejection_reason = None\<rparr>)"
proof -
  let ?gate = "gate_resolve in_memory_ops u t1 t2 new_id t3 payload"
  obtain au rt1 where eq: "authorize_request_with_approval x iter fresh clients engine request
      (Some ?gate) ts (mr_audit_service rt, rt) = ((au, rt1), Ok out)"
    and rt': "rt' = rt1\<lparr>mr_audit_service := au\<rparr>"
    using assms(6) by (auto simp: authorize_with_approval_mut_def split: prod.splits)
  have d: "ids_distinct (as_store (mr_approval_service rt))" using assms(1) by (simp add: ids_distinct_def)
  have fresh: "entry_view (as_store (mr_approval_service rt)) new_id = None"
    using assms(2) by (simp add: entry_view_None)
  obtain rt2 r2 where g: "?gate request rt = (rt2, r2)" by fastforce
  note spec = im.gate_resolve_spec [OF d fresh g assms(5), unfolded Let_def ran_entry_view [OF d]]
  from eq show ?thesis
  proof (cases rule: authorize_cases)
    case asked
    from resolve_approval_answered(2,3) [OF asked(3)] g
    obtain res where res: "rt1 = rt2" "r2 = Ok res"
      "out = snd (snd (resolution_outcome request (unwrap_or fresh (aq_correlation_id request)) (Some res)))"
      by auto
    show ?thesis
    proof (cases "\<exists>e \<in> set (as_store (mr_approval_service rt)). consumable t1 (gate_plan payload request) e")
      case True
      with spec obtain e where
        "entry_view (as_store (mr_approval_service rt)) (pe_id e) = Some e"
        "consumable t1 (gate_plan payload request) e" "r2 = Ok (Granted (ux_to_string u (pe_id e)))"
        "entry_view (as_store (mr_approval_service rt2)) =
           (entry_view (as_store (mr_approval_service rt)))(pe_id e \<mapsto> e\<lparr>pe_status := Consumed\<rparr>)"
        by auto
      moreover from this(1) have "e \<in> set (as_store (mr_approval_service rt))"
        by (simp add: entry_view_Some [OF d])
      ultimately show ?thesis using True res rt' by (auto simp: Let_def)
    next
      case False
      with spec res rt' show ?thesis by (simp add: Let_def)
    qed
  qed (simp_all add: assms(3,4))
qed

definition waiting_entry :: pending_execution where
  "waiting_entry =
     \<lparr>pe_id = 7, pe_status = Approved, pe_plan = gate_plan JNull sample_request, pe_created_at = 1,
      pe_expires_at = Some 100, pe_rejection_reason = None\<rparr>"

definition sample_runtime :: "in_memory_store mcp_runtime" where
  "sample_runtime =
     \<lparr>mr_trusted_clients = [], mr_roles = [], mr_policies = [],
      mr_connection_policy_assignments = [],
      mr_approval_service = \<lparr>as_store = [waiting_entry], as_ttl_ms = 1000\<rparr>,
      mr_audit_service = audit_service_new [], mr_pending_events = [], mr_mcp_enabled = True\<rparr>"

lemma sample_refusal: "refusal sample_clients sample_request = None"
  by (simp add: refusal_def pre_checks_def sample_request_def sample_clients_def evaluate_client_def
      client_matches_def less_execution_classification_def)

theorem asked_call_needs_approval_witness:
  "\<exists>rt' out. authorize_with_approval_mut in_memory_ops sample_uuid_ext steady_audit_ext rev ''c'' 5 5 8 5
      sample_clients sample_engine sample_request JNull 5 sample_runtime = (rt', Ok out) \<and>
      ao_allowed out \<and> ao_approved_execution_id out = Some ''7''"
proof -
  let ?gate = "gate_resolve in_memory_ops sample_uuid_ext 5 5 8 5 JNull"
  let ?st = "(mr_audit_service sample_runtime, sample_runtime)"
  have gate: "\<exists>res. snd (?gate sample_request sample_runtime) = Ok res"
    by (simp add: gate_resolve_def consume_approved_execution_mut_def svc_consume_approved_def
        in_memory_ops_def consume_approved_def sample_runtime_def waiting_entry_def unexpired_def
        approval_matches_plan_def gate_plan_def sample_request_def APPROVAL_QUEUE_TOOLS_def Let_def)
  have "\<exists>out. snd (authorize_request_with_approval steady_audit_ext rev ''c'' sample_clients sample_engine
      sample_request (Some ?gate) 5 ?st) = Ok out"
    by (rule authorize_total [OF steady_audit_ext_laws _ _ hash_order_rev])
       (use gate in \<open>simp_all add: sample_engine_known\<close>,
        simp_all add: sample_request_def trim_eq_Nil_iff is_whitespace_def)
  then obtain au g out where "authorize_request_with_approval steady_audit_ext rev ''c'' sample_clients
      sample_engine sample_request (Some ?gate) 5 ?st = ((au, g), Ok out)"
    by (metis prod.collapse)
  then have eq: "authorize_with_approval_mut in_memory_ops sample_uuid_ext steady_audit_ext rev ''c'' 5 5 8 5
      sample_clients sample_engine sample_request JNull 5 sample_runtime =
      (g\<lparr>mr_audit_service := au\<rparr>, Ok out)"
    by (simp add: authorize_with_approval_mut_def)
  have entries: "as_store (mr_approval_service sample_runtime) = [waiting_entry]"
    by (simp add: sample_runtime_def)
  have c: "consumable 5 (gate_plan JNull sample_request) waiting_entry"
    by (simp add: consumable_def waiting_entry_def unexpired_def approval_matches_plan_def)
  have "aq_tool_id sample_request \<notin> set APPROVAL_QUEUE_TOOLS"
    by (simp add: sample_request_def APPROVAL_QUEUE_TOOLS_def)
  moreover have "evaluate rev sample_engine (auth_evaluation sample_request) = Ok RequireApproval"
    by (simp add: sample_request_asks)
  ultimately have "ao_allowed out \<and> ao_approved_execution_id out = Some (show_nat (unat (7 :: uuid)))"
    using asked_call_needs_approval [OF _ _ sample_refusal _ _ eq] c
    by (simp add: entries waiting_entry_def sample_uuid_ext_def Let_def)
  moreover have "show_nat 7 = ''7''" by code_simp
  ultimately have "ao_allowed out \<and> ao_approved_execution_id out = Some ''7''" by simp
  with eq show ?thesis by blast
qed

subsection \<open>Audit of resolutions\<close>

lemma record_audit_event_row:
  assumes "record_audit_event x event rt = (rt', r)"
  shows "case r of
           Inl _ \<Rightarrow> mr_audit_service rt' = mr_audit_service rt
         | Inr _ \<Rightarrow>
             if au_enabled (mr_audit_service rt)
             then \<exists>row. mr_audit_service rt' = (mr_audit_service rt)
                      \<lparr>au_rows := au_rows (mr_audit_service rt) @ [row]\<rparr> \<and>
                    dt_action row = Some (ev_action event) \<and>
                    dt_object_id row = ev_object_id event \<and>
                    (\<forall>a. ev_actor_id event = Some a \<longrightarrow> dt_actor_id row = a)
             else mr_audit_service rt' = mr_audit_service rt"
proof -
  obtain au r' where rec: "audit_record x event (mr_audit_service rt) = (au, r')" by fastforce
  with assms have rt': "mr_audit_service rt' = au" and r: "(\<exists>e. r = Err e) \<longleftrightarrow> (\<exists>e. r' = Err e)"
    by (auto simp: record_audit_event_def push_event_def Let_def split: sum.splits if_splits)
  from rec show ?thesis
  proof (cases rule: audit_record_cases)
    case (stored i created d m ev')
    define row where "row = dto_of_append i created (append_of_event ev')"
    have "dt_action row = Some (ev_action event)" "dt_object_id row = ev_object_id event"
      "ev_actor_id event = Some a \<Longrightarrow> dt_actor_id row = a" for a
      using stored(3) by (simp_all add: row_def dto_of_append_def append_of_event_def)
    moreover have "mr_audit_service rt' = (mr_audit_service rt)
        \<lparr>au_rows := au_rows (mr_audit_service rt) @ [row]\<rparr>"
      using stored(5) rt' by (simp add: row_def)
    moreover obtain ev where "r = Ok ev" using stored(6) r by (cases r) auto
    ultimately show ?thesis using stored(1) by auto
  qed (use rt' r in \<open>auto split: sum.splits\<close>)
qed

text \<open>
  C15. A rejection is on record before the queue changes, whatever the store does:
  if the approval service differs after the call, then, with auditing on, exactly
  one \<open>mcp_reject_execution\<close> row naming the pending execution and the person was
  appended.
\<close>

theorem rejection_audited_first:
  assumes "reject_pending_execution_with_origin_mut ops u x t1 ts t2 pending_id actor why origin rt =
             (rt', r)"
    and "mr_approval_service rt' \<noteq> mr_approval_service rt"
    and "au_enabled (mr_audit_service rt)"
  shows "\<exists>row. mr_audit_service rt' =
             (mr_audit_service rt)\<lparr>au_rows := au_rows (mr_audit_service rt) @ [row]\<rparr> \<and>
           dt_action row = Some ''mcp_reject_execution'' \<and> dt_object_id row = Some pending_id \<and>
           dt_actor_id row = actor"
proof (cases "handler_get_pending_execution ops u t1 pending_id (mr_approval_service rt)")
  case (Inl e)
  with assms show ?thesis by (simp add: reject_pending_execution_with_origin_mut_def)
next
  case (Inr pending)
  define event where "event = reject_event x ts (pe_plan pending) pending_id actor
      (unwrap_or ''rejected by approver'' (normalize_rejection_reason why)) origin"
  have ev: "ev_action event = ''mcp_reject_execution''" "ev_object_id event = Some pending_id"
    "ev_actor_id event = Some actor"
    by (simp_all add: event_def reject_event_def event_builder_defs MCP_REJECT_EXECUTION_def)
  obtain rt1 r1 where rec: "record_audit_event x event rt = (rt1, r1)" by fastforce
  then have same: "mr_approval_service rt1 = mr_approval_service rt"
    using record_audit_event_frame(2) [of x event rt] by simp
  show ?thesis
  proof (cases r1)
    case (Inl e)
    with Inr rec assms(1,2) same show ?thesis
      by (simp add: reject_pending_execution_with_origin_mut_def Let_def event_def [symmetric])
  next
    case ok: (Inr recorded)
    with Inr rec assms(1) have "mr_audit_service rt' = mr_audit_service rt1"
      by (auto simp: reject_pending_execution_with_origin_mut_def Let_def event_def [symmetric]
          push_event_def split: prod.splits sum.splits)
    with record_audit_event_row [OF rec] ok ev assms(3) show ?thesis by auto
  qed
qed

definition asking_entry :: pending_execution where
  "asking_entry = waiting_entry\<lparr>pe_status := Pending\<rparr>"

definition asking_runtime :: "in_memory_store mcp_runtime" where
  "asking_runtime =
     sample_runtime\<lparr>mr_approval_service := \<lparr>as_store = [asking_entry], as_ttl_ms = 1000\<rparr>\<rparr>"

lemma asking_runtime_pending:
  "handler_get_pending_execution in_memory_ops sample_uuid_ext 5 ''7'' (mr_approval_service asking_runtime)
     = Ok asking_entry"
  by (simp add: handler_get_pending_execution_def svc_list_pending_def in_memory_ops_def
      list_pending_def asking_runtime_def asking_entry_def waiting_entry_def sample_uuid_ext_def
      unexpired_def)

lemma asking_event_recorded:
  "\<exists>rt' ev. record_audit_event steady_audit_ext
     (reject_event steady_audit_ext 5 (pe_plan asking_entry) ''7'' ''ann'' ''rejected by approver'' origin_local)
     asking_runtime = (rt', Ok ev)"
proof -
  have "validate_event (reject_event steady_audit_ext 5 (pe_plan asking_entry) ''7'' ''ann''
      ''rejected by approver'' origin_local) = Ok ()"
    by (simp add: validate_event_def reject_event_def event_builder_defs has_required_text_def
        trim_eq_Nil_iff is_whitespace_def MCP_REJECT_EXECUTION_def)
  from audit_record_total [OF steady_audit_ext_laws this,
      of "obj_of [(''requested_by'', JString (ep_actor_id (pe_plan asking_entry))),
           (''rejected_by'', JString ''ann''), (''tool_id'', JString (ep_tool_id (pe_plan asking_entry))),
           (''reason'', JString ''rejected by approver'')]" "mr_audit_service asking_runtime"]
  obtain ev' where "snd (audit_record steady_audit_ext (reject_event steady_audit_ext 5 (pe_plan asking_entry)
      ''7'' ''ann'' ''rejected by approver'' origin_local) (mr_audit_service asking_runtime)) = Ok ev'"
    by (auto simp: reject_event_def)
  then show ?thesis
    by (auto simp: record_audit_event_def Let_def split: prod.splits)
qed

theorem rejection_audited_first_witness:
  "\<exists>row. au_rows (mr_audit_service (fst (reject_pending_execution_with_origin_mut in_memory_ops
       sample_uuid_ext steady_audit_ext 5 5 5 ''7'' ''ann'' None origin_local asking_runtime))) = [row] \<and>
     dt_action row = Some ''mcp_reject_execution'' \<and> dt_actor_id row = ''ann''"
proof -
  obtain rt1 ev where rec: "record_audit_event steady_audit_ext
     (reject_event steady_audit_ext 5 (pe_plan asking_entry) ''7'' ''ann'' ''rejected by approver'' origin_local)
     asking_runtime = (rt1, Ok ev)"
    using asking_event_recorded by blast
  have sv: "mr_approval_service rt1 = mr_approval_service asking_runtime"
    using record_audit_event_frame(2) rec by (metis fst_conv)
  have "as_store (fst (svc_reject in_memory_ops 5 7 None (mr_approval_service asking_runtime))) =
      [asking_entry\<lparr>pe_status := Rejected\<rparr>]"
    by (simp add: svc_reject_def in_memory_defs asking_runtime_def asking_entry_def waiting_entry_def
        unexpired_def normalize_rejection_reason_def)
  with rec sv asking_runtime_pending have "mr_approval_service (fst (reject_pending_execution_with_origin_mut
      in_memory_ops sample_uuid_ext steady_audit_ext 5 5 5 ''7'' ''ann'' None origin_local asking_runtime))
      \<noteq> mr_approval_service asking_runtime"
    by (auto simp: reject_pending_execution_with_origin_mut_def normalize_rejection_reason_def
        handler_reject_execution_def sample_uuid_ext_def push_event_def asking_runtime_def
        asking_entry_def waiting_entry_def split: prod.splits sum.splits)
  moreover have "au_enabled (mr_audit_service asking_runtime)" "au_rows (mr_audit_service asking_runtime) = []"
    by (simp_all add: asking_runtime_def sample_runtime_def audit_service_new_def)
  ultimately show ?thesis
    using rejection_audited_first [of in_memory_ops sample_uuid_ext steady_audit_ext 5 5 5 "''7''" "''ann''"
        None origin_local asking_runtime, OF surjective_pairing]
    by auto
qed

text \<open>
  Approving changes the queue first: when the audit database is locked the caller
  gets an error, no row is written, and the execution is approved nevertheless.
\<close>

definition locked_audit_ext :: audit_ext where
  "locked_audit_ext =
     audit_db_ext.extend (sample_db\<lparr>adb_lock_error := Some ''locked''\<rparr>)
       (audit_ext.fields (\<lambda>_. Ok (JObject [])) (\<lambda>_. Ok ''{}'') (\<lambda>_. ''{}'')
          (\<lambda>_. replicate 64 CHR ''0'') no_regex None)"

lemma locked_audit_record:
  "au_enabled au \<Longrightarrow> \<exists>e. audit_record locked_audit_ext ev au = (au, Err e)"
proof -
  assume on: "au_enabled au"
  have app: "append_extended (db_ext locked_audit_ext) a rows = (rows, Err (RepoSqlite ''locked''))" for a rows
    by (simp add: append_extended_def locked_audit_ext_def audit_db_ext.defs audit_ext.defs)
  show ?thesis
  proof (cases "normalize_details_json locked_audit_ext ev")
    case (Inr ev1)
    then show ?thesis
      by (cases "validate_event ev1"; cases "preprocess_event_for_storage locked_audit_ext au ev1")
         (simp_all add: on audit_record_def store_record_def app)
  qed (simp add: on audit_record_def)
qed

lemma approval_without_audit:
  "\<exists>rt' e. approve_pending_execution_with_origin_mut in_memory_ops sample_uuid_ext locked_audit_ext 5 5 5
     ''7'' ''ann'' origin_local asking_runtime = (rt', Err e) \<and>
     mr_audit_service rt' = mr_audit_service asking_runtime \<and>
     as_store (mr_approval_service rt') = [asking_entry\<lparr>pe_status := Approved\<rparr>]"
proof -
  have "svc_approve in_memory_ops 5 7 (mr_approval_service asking_runtime) =
      ((mr_approval_service asking_runtime)\<lparr>as_store := [asking_entry\<lparr>pe_status := Approved\<rparr>]\<rparr>,
       Ok \<lparr>ae_pending = asking_entry\<lparr>pe_status := Approved\<rparr>, ae_replay_plan = pe_plan asking_entry\<rparr>)"
    by (simp add: svc_approve_def in_memory_defs asking_runtime_def asking_entry_def waiting_entry_def
        unexpired_def)
  moreover have "au_enabled (mr_audit_service asking_runtime)"
    by (simp add: asking_runtime_def sample_runtime_def audit_service_new_def)
  moreover obtain e where "audit_record locked_audit_ext (approve_event locked_audit_ext 5
      (pe_plan asking_entry) ''7'' ''ann'' origin_local) (mr_audit_service asking_runtime) =
      (mr_audit_service asking_runtime, Err e)"
    using locked_audit_record [OF calculation(2)] by blast
  ultimately show ?thesis
    using asking_runtime_pending
    by (simp add: approve_pending_execution_with_origin_mut_def handler_approve_execution_def
        record_audit_event_def Let_def) (simp add: sample_uuid_ext_def)
qed

end
