(* ===== verification/Conn_Tree.thy ===== *)
theory Conn_Tree
  imports Prelude "HOL-Library.Multiset"
begin

text \<open>
  The connection tree of the sidebar (crates/dbflux_core/src/connection/tree.rs)
  and its manager (connection/tree_manager.rs).  The tree is a flat list of nodes
  with parent references, so that nothing in its type rules out a cycle: the
  loops that climb to the root or walk down to the leaves end only because no
  operation ever closes one.

  The operations are pure functions on the node list.  The climbing loop of
  \<open>would_create_cycle\<close> and the walk of \<open>get_descendants\<close> may run forever, so
  they are partial functions whose value \<open>None\<close> means that the loop does not
  end; \<open>remove_node\<close> always ends, as each round removes a node or pops the stack.
  Identifiers drawn by \<open>Uuid::new_v4\<close> are arguments.  The persistence layer behind
  the \<open>TreeStore\<close> trait is a record of functions.
\<close>

section \<open>Nodes and trees\<close>

datatype connection_tree_node_kind = Folder | ConnectionRef

record connection_tree_node =
  tn_id :: uuid
  tn_kind :: connection_tree_node_kind
  tn_parent_id :: "uuid option"
  tn_sort_index :: int
  tn_name :: string
  tn_profile_id :: "uuid option"
  tn_collapsed :: bool

definition new_folder :: "uuid \<Rightarrow> string \<Rightarrow> uuid option \<Rightarrow> int \<Rightarrow> connection_tree_node" where
  "new_folder new_v4 name parent_id sort_index =
    \<lparr>tn_id = new_v4, tn_kind = Folder, tn_parent_id = parent_id, tn_sort_index = sort_index,
     tn_name = name, tn_profile_id = None, tn_collapsed = False\<rparr>"

definition new_connection_ref :: "uuid \<Rightarrow> uuid \<Rightarrow> uuid option \<Rightarrow> int \<Rightarrow> connection_tree_node" where
  "new_connection_ref new_v4 profile_id parent_id sort_index =
    \<lparr>tn_id = new_v4, tn_kind = ConnectionRef, tn_parent_id = parent_id, tn_sort_index = sort_index,
     tn_name = [], tn_profile_id = Some profile_id, tn_collapsed = False\<rparr>"

definition is_folder :: "connection_tree_node \<Rightarrow> bool" where
  "is_folder n \<longleftrightarrow> tn_kind n = Folder"

definition is_connection_ref :: "connection_tree_node \<Rightarrow> bool" where
  "is_connection_ref n \<longleftrightarrow> tn_kind n = ConnectionRef"

record connection_tree =
  ct_nodes :: "connection_tree_node list"
  ct_version :: "32 word"

definition SORT_INDEX_GAP :: int where
  "SORT_INDEX_GAP = 1000"

definition connection_tree_new :: connection_tree where
  "connection_tree_new = \<lparr>ct_nodes = [], ct_version = 1\<rparr>"

definition root_nodes :: "connection_tree \<Rightarrow> connection_tree_node list" where
  "root_nodes t = sort_key tn_sort_index (filter (\<lambda>n. tn_parent_id n = None) (ct_nodes t))"

definition children_of :: "connection_tree \<Rightarrow> uuid \<Rightarrow> connection_tree_node list" where
  "children_of t parent_id =
    sort_key tn_sort_index (filter (\<lambda>n. tn_parent_id n = Some parent_id) (ct_nodes t))"

definition find_by_profile :: "connection_tree \<Rightarrow> uuid \<Rightarrow> connection_tree_node option" where
  "find_by_profile t profile_id = find (\<lambda>n. tn_profile_id n = Some profile_id) (ct_nodes t)"

definition find_by_id :: "connection_tree \<Rightarrow> uuid \<Rightarrow> connection_tree_node option" where
  "find_by_id t node_id = find (\<lambda>n. tn_id n = node_id) (ct_nodes t)"

text \<open>An assignment through the reference that \<open>find_by_id_mut\<close> returns.\<close>

definition find_by_id_mut ::
  "connection_tree \<Rightarrow> uuid \<Rightarrow> (connection_tree_node \<Rightarrow> connection_tree_node) \<Rightarrow> connection_tree" where
  "find_by_id_mut t node_id f = t\<lparr>ct_nodes := update_first (\<lambda>n. tn_id n = node_id) f (ct_nodes t)\<rparr>"

definition add_node :: "connection_tree_node \<Rightarrow> connection_tree \<Rightarrow> connection_tree" where
  "add_node n t = t\<lparr>ct_nodes := ct_nodes t @ [n]\<rparr>"

text \<open>
  The stack \<open>to_remove\<close> is a list with its top first: children are pushed in
  list order, so the last child is popped first.
\<close>

lemma find_remove1_shorter: "find p xs = Some x \<Longrightarrow> length (remove1 x xs) < length xs"
  using find_SomeD [of p xs x] length_pos_if_in_set [of x xs] by (simp add: length_remove1)

function remove_loop ::
  "connection_tree_node list \<Rightarrow> uuid list \<Rightarrow> connection_tree_node list \<Rightarrow>
    connection_tree_node list \<times> connection_tree_node list" where
  "remove_loop nodes [] removed = (nodes, removed)"
| "remove_loop nodes (i # to_remove) removed =
    (case find (\<lambda>n. tn_id n = i) nodes of
       None \<Rightarrow> remove_loop nodes to_remove removed
     | Some n \<Rightarrow>
         (let nodes' = remove1 n nodes
          in remove_loop nodes'
               (rev (map tn_id (filter (\<lambda>c. tn_parent_id c = Some i) nodes')) @ to_remove)
               (removed @ [n])))"
  by pat_completeness auto
termination
  by (relation "measures [\<lambda>(nodes, _, _). length nodes, \<lambda>(_, st, _). length st]")
    (auto dest: find_remove1_shorter)

definition remove_node :: "uuid \<Rightarrow> connection_tree \<Rightarrow> connection_tree \<times> connection_tree_node list" where
  "remove_node node_id t =
    (let (nodes, removed) = remove_loop (ct_nodes t) [node_id] [] in (t\<lparr>ct_nodes := nodes\<rparr>, removed))"

definition max_sort_index :: "connection_tree_node list \<Rightarrow> int" where
  "max_sort_index ns = (if ns = [] then 0 else Max (set (map tn_sort_index ns)))"

definition next_sort_index :: "connection_tree \<Rightarrow> uuid option \<Rightarrow> int" where
  "next_sort_index t parent_id =
    wrap_i32 (max_sort_index (filter (\<lambda>n. tn_parent_id n = parent_id) (ct_nodes t)) + SORT_INDEX_GAP)"

text \<open>The loop of \<open>would_create_cycle\<close>, from the target up.\<close>

partial_function (option) climb :: "connection_tree \<Rightarrow> uuid \<Rightarrow> uuid option \<Rightarrow> bool option" where
  "climb t node_id current =
    (case current of
       None \<Rightarrow> Some False
     | Some i \<Rightarrow>
         if i = node_id then Some True
         else climb t node_id (Option.bind (find_by_id t i) tn_parent_id))"

definition would_create_cycle :: "connection_tree \<Rightarrow> uuid \<Rightarrow> uuid option \<Rightarrow> bool option" where
  "would_create_cycle t node_id new_parent_id =
    (case new_parent_id of
       None \<Rightarrow> Some False
     | Some target_parent \<Rightarrow> climb t node_id (Some target_parent))"

text \<open>
  The identifier of a new reference is the value \<open>new_v4 p\<close> drawn when profile
  \<open>p\<close> gets its node; a profile gets at most one, since the node just added is found
  when the same identifier occurs again.
\<close>

definition keep_profile :: "uuid list \<Rightarrow> connection_tree_node \<Rightarrow> bool" where
  "keep_profile profile_ids n \<longleftrightarrow> (case tn_profile_id n of Some p \<Rightarrow> p \<in> set profile_ids | None \<Rightarrow> True)"

definition add_missing_profile :: "(uuid \<Rightarrow> uuid) \<Rightarrow> uuid \<Rightarrow> connection_tree \<Rightarrow> connection_tree" where
  "add_missing_profile new_v4 profile_id t =
    (if find_by_profile t profile_id = None
     then add_node (new_connection_ref (new_v4 profile_id) profile_id None (next_sort_index t None)) t
     else t)"

definition sync_with_profiles :: "(uuid \<Rightarrow> uuid) \<Rightarrow> uuid list \<Rightarrow> connection_tree \<Rightarrow> connection_tree" where
  "sync_with_profiles new_v4 profile_ids t =
    fold (add_missing_profile new_v4) profile_ids
      (t\<lparr>ct_nodes := filter (keep_profile profile_ids) (ct_nodes t)\<rparr>)"

definition folders :: "connection_tree \<Rightarrow> connection_tree_node list" where
  "folders t = filter is_folder (ct_nodes t)"

text \<open>A move answers \<open>None\<close> when the cycle test does not end.\<close>

definition place_node :: "uuid \<Rightarrow> uuid option \<Rightarrow> int \<Rightarrow> connection_tree \<Rightarrow> connection_tree \<times> bool" where
  "place_node node_id new_parent_id sort_index t =
    (case find_by_id t node_id of
       Some _ \<Rightarrow>
         (find_by_id_mut t node_id (\<lambda>n. n\<lparr>tn_parent_id := new_parent_id, tn_sort_index := sort_index\<rparr>), True)
     | None \<Rightarrow> (t, False))"

definition move_node :: "uuid \<Rightarrow> uuid option \<Rightarrow> connection_tree \<Rightarrow> (connection_tree \<times> bool) option" where
  "move_node node_id new_parent_id t =
    (if is_some_and (find_by_id t node_id) (\<lambda>n. tn_parent_id n = new_parent_id) then Some (t, False)
     else Option.bind (would_create_cycle t node_id new_parent_id) (\<lambda>cycle.
       if cycle then Some (t, False)
       else Some (place_node node_id new_parent_id (next_sort_index t new_parent_id) t)))"

text \<open>Division of an \<open>i32\<close> by two truncates towards zero.\<close>

definition half_i32 :: "int \<Rightarrow> int" where
  "half_i32 s = sgn s * (abs s div 2)"

fun index_after :: "uuid \<Rightarrow> connection_tree_node list \<Rightarrow> int option" where
  "index_after after [] = None"
| "index_after after (n # siblings) =
    (if tn_id n = after
     then Some (case siblings of
         next # _ \<Rightarrow> half_i32 (wrap_i32 (tn_sort_index n + tn_sort_index next))
       | [] \<Rightarrow> wrap_i32 (tn_sort_index n + SORT_INDEX_GAP))
     else index_after after siblings)"

definition sort_index_between :: "connection_tree \<Rightarrow> uuid option \<Rightarrow> uuid option \<Rightarrow> int option" where
  "sort_index_between t parent_id after_id =
    (let siblings = (case parent_id of Some pid \<Rightarrow> children_of t pid | None \<Rightarrow> root_nodes t)
     in case after_id of
       None \<Rightarrow>
         Some (wrap_i32 ((case siblings of n # _ \<Rightarrow> tn_sort_index n | [] \<Rightarrow> SORT_INDEX_GAP) - SORT_INDEX_GAP))
     | Some after \<Rightarrow> index_after after siblings)"

definition move_node_to_position ::
  "uuid \<Rightarrow> uuid option \<Rightarrow> uuid option \<Rightarrow> connection_tree \<Rightarrow> (connection_tree \<times> bool) option" where
  "move_node_to_position node_id new_parent_id after_id t =
    Option.bind (would_create_cycle t node_id new_parent_id) (\<lambda>cycle.
      if cycle then Some (t, False)
      else if after_id = Some node_id then Some (t, False)
      else case sort_index_between t new_parent_id after_id of
        None \<Rightarrow> Some (t, False)
      | Some sort_index \<Rightarrow> Some (place_node node_id new_parent_id sort_index t))"

definition rename_folder :: "uuid \<Rightarrow> string \<Rightarrow> connection_tree \<Rightarrow> connection_tree \<times> bool" where
  "rename_folder folder_id new_name t =
    (if is_some_and (find_by_id t folder_id) is_folder
     then (find_by_id_mut t folder_id (\<lambda>n. n\<lparr>tn_name := new_name\<rparr>), True)
     else (t, False))"

definition set_folder_collapsed :: "uuid \<Rightarrow> bool \<Rightarrow> connection_tree \<Rightarrow> connection_tree" where
  "set_folder_collapsed folder_id collapsed t =
    (if is_some_and (find_by_id t folder_id) is_folder
     then find_by_id_mut t folder_id (\<lambda>n. n\<lparr>tn_collapsed := collapsed\<rparr>)
     else t)"

definition toggle_folder_collapsed :: "uuid \<Rightarrow> connection_tree \<Rightarrow> connection_tree \<times> bool option" where
  "toggle_folder_collapsed folder_id t =
    (case opt_filter is_folder (find_by_id t folder_id) of
       Some n \<Rightarrow>
         (find_by_id_mut t folder_id (\<lambda>n. n\<lparr>tn_collapsed := \<not> tn_collapsed n\<rparr>), Some (\<not> tn_collapsed n))
     | None \<Rightarrow> (t, None))"

text \<open>The walk of \<open>get_descendants\<close>, with the top of \<open>to_visit\<close> first.\<close>

partial_function (option) visit ::
  "connection_tree \<Rightarrow> uuid list \<Rightarrow> uuid list \<Rightarrow> uuid list option" where
  "visit t to_visit descendants =
    (case to_visit of
       [] \<Rightarrow> Some descendants
     | i # st \<Rightarrow>
         (let below = filter (\<lambda>n. tn_parent_id n = Some i) (ct_nodes t)
          in visit t (rev (map tn_id (filter is_folder below)) @ st) (descendants @ map tn_id below)))"

definition get_descendants :: "connection_tree \<Rightarrow> uuid \<Rightarrow> uuid list option" where
  "get_descendants t folder_id = visit t [folder_id] []"

definition is_orphan :: "connection_tree \<Rightarrow> connection_tree_node \<Rightarrow> bool" where
  "is_orphan t n \<longleftrightarrow> is_some_and (tn_parent_id n) (\<lambda>p. p \<notin> set (map tn_id (folders t)))"

definition repair_orphans :: "connection_tree \<Rightarrow> connection_tree \<times> nat" where
  "repair_orphans t =
    (t\<lparr>ct_nodes := map (\<lambda>n. if is_orphan t n then n\<lparr>tn_parent_id := None\<rparr> else n) (ct_nodes t)\<rparr>,
     length (filter (is_orphan t) (ct_nodes t)))"

fun reparent ::
  "uuid list \<Rightarrow> uuid option \<Rightarrow> int \<Rightarrow> int \<Rightarrow> connection_tree_node list \<Rightarrow> connection_tree_node list" where
  "reparent children_ids parent_id base offset [] = []"
| "reparent children_ids parent_id base offset (n # ns) =
    (if tn_id n \<in> set children_ids
     then n\<lparr>tn_parent_id := parent_id, tn_sort_index := wrap_i32 (base + wrap_i32 (offset + SORT_INDEX_GAP))\<rparr>
       # reparent children_ids parent_id base (wrap_i32 (offset + SORT_INDEX_GAP)) ns
     else n # reparent children_ids parent_id base offset ns)"

definition delete_folder_and_reparent_children ::
  "uuid \<Rightarrow> connection_tree \<Rightarrow> connection_tree \<times> uuid list" where
  "delete_folder_and_reparent_children folder_id t =
    (case opt_filter is_folder (find_by_id t folder_id) of
       None \<Rightarrow> (t, [])
     | Some folder \<Rightarrow>
         (let parent_id = tn_parent_id folder;
              children_ids = map tn_id (filter (\<lambda>n. tn_parent_id n = Some folder_id) (ct_nodes t));
              base = max_sort_index
                (filter (\<lambda>n. tn_parent_id n = parent_id \<and> tn_id n \<noteq> folder_id) (ct_nodes t));
              moved = reparent children_ids parent_id base 0 (ct_nodes t)
          in (t\<lparr>ct_nodes := filter (\<lambda>n. tn_id n \<noteq> folder_id) moved\<rparr>, children_ids)))"

section \<open>The manager\<close>

datatype tree_load_state = TreeLoaded | TreeRecovered | TreeFailed

record tree_load_result =
  tl_tree :: connection_tree
  tl_recovered_from_error :: bool

text \<open>What the manager calls of a \<open>TreeStore\<close>; \<open>'s\<close> is what the store has persisted.\<close>

record 's tree_store_ext =
  ts_load :: "'s \<Rightarrow> (string, tree_load_result) result"
  ts_save :: "connection_tree \<Rightarrow> 's \<Rightarrow> 's \<times> (string, unit) result"

record 's connection_tree_manager =
  tm_tree :: connection_tree
  tm_store :: "'s option"
  tm_load_state :: tree_load_state

definition manager_new :: "'s connection_tree_manager" where
  "manager_new = \<lparr>tm_tree = connection_tree_new, tm_store = None, tm_load_state = TreeLoaded\<rparr>"

definition with_store :: "'s tree_store_ext \<Rightarrow> 's \<Rightarrow> 's connection_tree_manager" where
  "with_store ext store =
    (let (tree, load_state) =
       (case ts_load ext store of
          Ok r \<Rightarrow> (tl_tree r, if tl_recovered_from_error r then TreeRecovered else TreeLoaded)
        | Err _ \<Rightarrow> (connection_tree_new, TreeFailed))
     in \<lparr>tm_tree = tree, tm_store = Some store, tm_load_state = load_state\<rparr>)"

text \<open>A failed write is only logged.\<close>

definition manager_save :: "'s tree_store_ext \<Rightarrow> 's connection_tree_manager \<Rightarrow> 's connection_tree_manager" where
  "manager_save ext m = m\<lparr>tm_store := map_option (\<lambda>s. fst (ts_save ext (tm_tree m) s)) (tm_store m)\<rparr>"

definition manager_sync_with_profiles ::
  "'s tree_store_ext \<Rightarrow> (uuid \<Rightarrow> uuid) \<Rightarrow> uuid list \<Rightarrow> 's connection_tree_manager \<Rightarrow> 's connection_tree_manager" where
  "manager_sync_with_profiles ext new_v4 profile_ids m =
    (let m' = m\<lparr>tm_tree := sync_with_profiles new_v4 profile_ids (tm_tree m)\<rparr>
     in if length (ct_nodes (tm_tree m)) \<noteq> length (ct_nodes (tm_tree m'))
        then if tm_load_state m = TreeRecovered \<or> tm_load_state m = TreeFailed then m'
          else manager_save ext m'
        else m')"

definition add_profile_node ::
  "'s tree_store_ext \<Rightarrow> uuid \<Rightarrow> uuid \<Rightarrow> uuid option \<Rightarrow> 's connection_tree_manager \<Rightarrow> 's connection_tree_manager" where
  "add_profile_node ext new_v4 profile_id folder_id m =
    (if find_by_profile (tm_tree m) profile_id = None
     then manager_save ext (m\<lparr>tm_tree := add_node
       (new_connection_ref new_v4 profile_id folder_id (next_sort_index (tm_tree m) folder_id)) (tm_tree m)\<rparr>)
     else m)"

definition remove_profile_node ::
  "'s tree_store_ext \<Rightarrow> uuid \<Rightarrow> 's connection_tree_manager \<Rightarrow> 's connection_tree_manager" where
  "remove_profile_node ext profile_id m =
    (case find_by_profile (tm_tree m) profile_id of
       Some n \<Rightarrow> manager_save ext (m\<lparr>tm_tree := fst (remove_node (tn_id n) (tm_tree m))\<rparr>)
     | None \<Rightarrow> m)"

definition create_folder ::
  "'s tree_store_ext \<Rightarrow> uuid \<Rightarrow> string \<Rightarrow> uuid option \<Rightarrow> 's connection_tree_manager \<Rightarrow>
    's connection_tree_manager \<times> uuid" where
  "create_folder ext new_v4 name parent_id m =
    (let folder = new_folder new_v4 name parent_id (next_sort_index (tm_tree m) parent_id)
     in (manager_save ext (m\<lparr>tm_tree := add_node folder (tm_tree m)\<rparr>), tn_id folder))"

definition manager_rename_folder ::
  "'s tree_store_ext \<Rightarrow> uuid \<Rightarrow> string \<Rightarrow> 's connection_tree_manager \<Rightarrow> 's connection_tree_manager \<times> bool" where
  "manager_rename_folder ext folder_id new_name m =
    (let (t, renamed) = rename_folder folder_id new_name (tm_tree m); m' = m\<lparr>tm_tree := t\<rparr>
     in if renamed then (manager_save ext m', True) else (m', False))"

definition delete_folder ::
  "'s tree_store_ext \<Rightarrow> uuid \<Rightarrow> 's connection_tree_manager \<Rightarrow> 's connection_tree_manager \<times> uuid list" where
  "delete_folder ext folder_id m =
    (let (t, moved) = delete_folder_and_reparent_children folder_id (tm_tree m); m' = m\<lparr>tm_tree := t\<rparr>
     in (if moved \<noteq> [] \<or> find_by_id t folder_id = None then manager_save ext m' else m', moved))"

definition save_if_moved ::
  "'s tree_store_ext \<Rightarrow> 's connection_tree_manager \<Rightarrow> connection_tree \<times> bool \<Rightarrow> 's connection_tree_manager \<times> bool" where
  "save_if_moved ext m r =
    (let m' = m\<lparr>tm_tree := fst r\<rparr> in if snd r then (manager_save ext m', True) else (m', False))"

definition manager_move_node ::
  "'s tree_store_ext \<Rightarrow> uuid \<Rightarrow> uuid option \<Rightarrow> 's connection_tree_manager \<Rightarrow>
    ('s connection_tree_manager \<times> bool) option" where
  "manager_move_node ext node_id new_parent_id m =
    map_option (save_if_moved ext m) (move_node node_id new_parent_id (tm_tree m))"

definition manager_move_node_to_position ::
  "'s tree_store_ext \<Rightarrow> uuid \<Rightarrow> uuid option \<Rightarrow> uuid option \<Rightarrow> 's connection_tree_manager \<Rightarrow>
    ('s connection_tree_manager \<times> bool) option" where
  "manager_move_node_to_position ext node_id new_parent_id after_id m =
    map_option (save_if_moved ext m) (move_node_to_position node_id new_parent_id after_id (tm_tree m))"

definition manager_toggle_folder_collapsed ::
  "'s tree_store_ext \<Rightarrow> uuid \<Rightarrow> 's connection_tree_manager \<Rightarrow> 's connection_tree_manager \<times> bool option" where
  "manager_toggle_folder_collapsed ext folder_id m =
    (let (t, r) = toggle_folder_collapsed folder_id (tm_tree m); m' = m\<lparr>tm_tree := t\<rparr>
     in (if r \<noteq> None then manager_save ext m' else m', r))"

definition manager_set_folder_collapsed ::
  "'s tree_store_ext \<Rightarrow> uuid \<Rightarrow> bool \<Rightarrow> 's connection_tree_manager \<Rightarrow> 's connection_tree_manager" where
  "manager_set_folder_collapsed ext folder_id collapsed m =
    manager_save ext (m\<lparr>tm_tree := set_folder_collapsed folder_id collapsed (tm_tree m)\<rparr>)"

section \<open>Forests\<close>

text \<open>
  The edges from a parent identifier to its children.  A tree is a forest when
  identifiers are unique and no chain of edges leads back to where it started.
\<close>

abbreviation node_ids :: "connection_tree_node list \<Rightarrow> uuid set" where
  "node_ids ns \<equiv> tn_id ` set ns"

definition parent_edges :: "connection_tree_node list \<Rightarrow> (uuid \<times> uuid) set" where
  "parent_edges ns = {(p, tn_id n) | p n. n \<in> set ns \<and> tn_parent_id n = Some p}"

definition forest_nodes :: "connection_tree_node list \<Rightarrow> bool" where
  "forest_nodes ns \<longleftrightarrow> distinct (map tn_id ns) \<and> acyclic (parent_edges ns)"

abbreviation tree_forest :: "connection_tree \<Rightarrow> bool" where
  "tree_forest t \<equiv> forest_nodes (ct_nodes t)"

abbreviation below :: "connection_tree \<Rightarrow> (uuid \<times> uuid) set" where
  "below t \<equiv> parent_edges (ct_nodes t)"

lemma parent_edgesI [intro]: "n \<in> set ns \<Longrightarrow> tn_parent_id n = Some p \<Longrightarrow> (p, tn_id n) \<in> parent_edges ns"
  by (auto simp: parent_edges_def)

lemma parent_edges_simps [simp]:
  "parent_edges [] = {}"
  "parent_edges (n # ns) = (case tn_parent_id n of None \<Rightarrow> {} | Some p \<Rightarrow> {(p, tn_id n)}) \<union> parent_edges ns"
  "parent_edges (ns @ ms) = parent_edges ns \<union> parent_edges ms"
  by (auto simp: parent_edges_def split: option.splits)

lemma finite_parent_edges [simp]: "finite (parent_edges ns)"
proof -
  have "parent_edges ns \<subseteq> (\<lambda>n. (the (tn_parent_id n), tn_id n)) ` set ns"
    unfolding parent_edges_def by (auto intro: rev_image_eqI)
  then show ?thesis by (rule finite_subset) simp
qed

lemma parent_edges_mono: "set ns \<subseteq> set ms \<Longrightarrow> parent_edges ns \<subseteq> parent_edges ms"
  by (auto simp: parent_edges_def)

lemma node_by_id:
  "distinct (map tn_id ns) \<Longrightarrow> m \<in> set ns \<Longrightarrow> n \<in> set ns \<Longrightarrow> tn_id m = tn_id n \<Longrightarrow> m = n"
  using inj_onD [of tn_id "set ns" m n] by (simp add: distinct_map)

lemma unique_parent:
  "distinct (map tn_id ns) \<Longrightarrow> (p, x) \<in> parent_edges ns \<Longrightarrow> (q, x) \<in> parent_edges ns \<Longrightarrow> p = q"
proof -
  assume d: "distinct (map tn_id ns)" and "(p, x) \<in> parent_edges ns" "(q, x) \<in> parent_edges ns"
  then obtain m n where "m \<in> set ns" "n \<in> set ns" "tn_id m = x" "tn_id n = x"
    "tn_parent_id m = Some p" "tn_parent_id n = Some q"
    by (auto simp: parent_edges_def)
  with node_by_id [OF d, of m n] show "p = q" by simp
qed

lemma forest_wf: "forest_nodes ns \<Longrightarrow> wf (parent_edges ns)"
  by (simp add: forest_nodes_def finite_acyclic_wf)

lemma parent_of_iff:
  "distinct (map tn_id (ct_nodes t)) \<Longrightarrow>
   Option.bind (find_by_id t i) tn_parent_id = Some p \<longleftrightarrow> (p, i) \<in> below t"
proof
  assume d: "distinct (map tn_id (ct_nodes t))" and "(p, i) \<in> below t"
  then obtain n where n: "n \<in> set (ct_nodes t)" "tn_id n = i" "tn_parent_id n = Some p"
    by (auto simp: parent_edges_def)
  with find_key [OF d n(1)] show "Option.bind (find_by_id t i) tn_parent_id = Some p"
    by (simp add: find_by_id_def)
qed (auto simp: find_by_id_def bind_eq_Some_conv dest!: find_SomeD)

text \<open>In a forest the climbing loop ends and decides ancestorship.\<close>

lemma climb_forest:
  assumes "tree_forest t"
  shows "climb t m (Some x) = Some ((m, x) \<in> (below t)\<^sup>*)"
  using forest_wf [OF assms]
proof (induction x rule: wf_induct_rule)
  case (less x)
  have d: "distinct (map tn_id (ct_nodes t))" using assms by (simp add: forest_nodes_def)
  show ?case
  proof (cases "Option.bind (find_by_id t x) tn_parent_id")
    case None
    with parent_of_iff [OF d] have "\<nexists>p. (p, x) \<in> below t" by (metis option.distinct(1))
    then have "(m, x) \<in> (below t)\<^sup>* \<longleftrightarrow> x = m" by (auto elim: rtranclE)
    with None show ?thesis by (subst climb.simps) (simp add: climb.simps)
  next
    case (Some p)
    then have p: "(p, x) \<in> below t" using parent_of_iff [OF d] by simp
    then have "(m, x) \<in> (below t)\<^sup>* \<longleftrightarrow> x = m \<or> (m, p) \<in> (below t)\<^sup>*"
      by (metis rtrancl.simps unique_parent [OF d])
    with Some less.IH [OF p] show ?thesis by (subst climb.simps) simp
  qed
qed

lemma would_create_cycle_forest:
  "tree_forest t \<Longrightarrow>
   would_create_cycle t m parent =
     Some (case parent of None \<Rightarrow> False | Some x \<Rightarrow> (m, x) \<in> (below t)\<^sup>*)"
  by (cases parent) (simp_all add: would_create_cycle_def climb_forest)

text \<open>Without that, the loop never ends: two folders inside each other are enough.\<close>

lemma climb_ignores_other_cycles:
  assumes "Option.bind (find_by_id t a) tn_parent_id = Some b"
    and "Option.bind (find_by_id t b) tn_parent_id = Some a"
    and "m \<noteq> a" "m \<noteq> b"
  shows "climb t m (Some a) = None"
proof -
  have "climb t m (Some a) = Some r \<Longrightarrow> False" for r
    by (drule climb.raw_induct [where P = "\<lambda>t' m' c r. t' = t \<longrightarrow> m' = m \<longrightarrow> c \<noteq> Some a \<and> c \<noteq> Some b", rotated])
      (use assms in \<open>auto split: option.splits if_splits\<close>)
  then show ?thesis by (cases "climb t m (Some a)") auto
qed

section \<open>Operations keep a forest\<close>

lemma forest_subset:
  "forest_nodes ns \<Longrightarrow> distinct (map tn_id ms) \<Longrightarrow> parent_edges ms \<subseteq> (parent_edges ns)\<^sup>+ \<Longrightarrow> forest_nodes ms"
  using acyclic_subset [of "(parent_edges ns)\<^sup>+" "parent_edges ms"]
  by (simp add: forest_nodes_def acyclic_def)

lemma forest_filter [simp]: "forest_nodes ns \<Longrightarrow> forest_nodes (filter p ns)"
  by (rule forest_subset) (auto simp: forest_nodes_def distinct_map_filter parent_edges_def)

lemma forest_new [simp]: "tree_forest connection_tree_new"
  by (simp add: connection_tree_new_def forest_nodes_def acyclic_def)

text \<open>An identifier no node carries and no node refers to.\<close>

definition fresh_id :: "connection_tree \<Rightarrow> uuid \<Rightarrow> bool" where
  "fresh_id t i \<longleftrightarrow> i \<notin> node_ids (ct_nodes t) \<and> Some i \<notin> tn_parent_id ` set (ct_nodes t)"

lemma forest_add_node:
  assumes "tree_forest t" and "fresh_id t (tn_id n)" and "tn_parent_id n \<noteq> Some (tn_id n)"
  shows "tree_forest (add_node n t)"
proof (cases "tn_parent_id n")
  case None
  then have "parent_edges [n] = {}" by (auto simp: parent_edges_def)
  with assms show ?thesis by (auto simp: add_node_def forest_nodes_def fresh_id_def)
next
  case (Some p)
  have "(tn_id n, p) \<notin> (below t)\<^sup>*"
  proof
    assume "(tn_id n, p) \<in> (below t)\<^sup>*"
    with assms(3) Some obtain c where "(tn_id n, c) \<in> below t"
      by (metis converse_rtranclE)
    with assms(2) show False by (force simp: parent_edges_def fresh_id_def)
  qed
  moreover from Some have "parent_edges [n] = {(p, tn_id n)}" by (auto simp: parent_edges_def)
  ultimately show ?thesis
    using assms by (auto simp: add_node_def forest_nodes_def fresh_id_def acyclic_insert)
qed

text \<open>Changes that keep identifiers and parents keep the edges.\<close>

lemma forest_find_by_id_mut:
  assumes "\<And>n. tn_id (f n) = tn_id n" and "\<And>n. tn_parent_id (f n) = tn_parent_id n"
  shows "tree_forest (find_by_id_mut t i f) \<longleftrightarrow> tree_forest t"
proof -
  have edges: "parent_edges ns = {(p, c). (c, Some p) \<in> set (map (\<lambda>n. (tn_id n, tn_parent_id n)) ns)}" for ns
    by (force simp: parent_edges_def)
  show ?thesis
    by (simp only: forest_nodes_def find_by_id_mut_def edges connection_tree.simps)
      (simp add: map_update_first assms)
qed

lemma forest_place_node:
  assumes "tree_forest t" and "would_create_cycle t m parent = Some False"
  shows "tree_forest (fst (place_node m parent s t))"
proof (cases "find_by_id t m")
  case (Some n)
  let ?ns = "ct_nodes (fst (place_node m parent s t))"
  have d: "distinct (map tn_id (ct_nodes t))" using assms by (simp add: forest_nodes_def)
  have ns: "?ns = map (\<lambda>x. if tn_id x = m then x\<lparr>tn_parent_id := parent, tn_sort_index := s\<rparr> else x) (ct_nodes t)"
    using Some by (simp add: place_node_def find_by_id_mut_def update_first_key [OF d])
  have edges: "parent_edges ?ns \<subseteq> below t \<union> {(p, m) | p. parent = Some p}"
    by (auto simp: parent_edges_def ns split: if_splits)
  have "acyclic (parent_edges ?ns)"
  proof (cases parent)
    case None
    with edges have "parent_edges ?ns \<subseteq> below t" by simp
    with assms(1) acyclic_subset [of "below t"] show ?thesis by (simp add: forest_nodes_def)
  next
    case (Some p)
    with assms have "(m, p) \<notin> (below t)\<^sup>*" by (simp add: would_create_cycle_forest)
    with assms(1) have "acyclic (insert (p, m) (below t))" by (simp add: forest_nodes_def acyclic_insert)
    then show ?thesis by (rule acyclic_subset) (use edges Some in auto)
  qed
  moreover have "map tn_id ?ns = map tn_id (ct_nodes t)" by (simp add: ns)
  ultimately show ?thesis using d by (simp add: forest_nodes_def)
qed (use assms in \<open>simp add: place_node_def\<close>)

lemma forest_move_node:
  "tree_forest t \<Longrightarrow> move_node m parent t = Some r \<Longrightarrow> tree_forest (fst r)"
  using forest_place_node [of t m parent "next_sort_index t parent"]
  by (cases "would_create_cycle t m parent") (auto simp: move_node_def split: if_splits)

lemma forest_move_node_to_position:
  "tree_forest t \<Longrightarrow> move_node_to_position m parent after t = Some r \<Longrightarrow> tree_forest (fst r)"
  using forest_place_node [of t m parent]
  by (cases "would_create_cycle t m parent")
    (auto simp: move_node_to_position_def split: if_splits option.splits)

text \<open>Deleting a folder replaces the two edges through it by their composition.\<close>

lemma map_id_reparent [simp]: "map tn_id (reparent ids parent base off ns) = map tn_id ns"
  by (induction ns arbitrary: off) auto

lemma map_edge_reparent:
  "map (\<lambda>n. (tn_id n, tn_parent_id n)) (reparent ids parent base off ns) =
   map (\<lambda>n. (tn_id n, if tn_id n \<in> set ids then parent else tn_parent_id n)) ns"
  by (induction ns arbitrary: off) auto

lemma reparent_memberD:
  assumes "n \<in> set (reparent ids parent base off ns)"
  obtains old where "old \<in> set ns" "tn_id old = tn_id n"
    "tn_parent_id n = (if tn_id n \<in> set ids then parent else tn_parent_id old)"
proof -
  have "(tn_id n, tn_parent_id n) \<in> set (map (\<lambda>n. (tn_id n, tn_parent_id n)) (reparent ids parent base off ns))"
    using assms by simp
  then show ?thesis unfolding map_edge_reparent by (auto intro: that)
qed

lemma distinct_filter_reparent:
  "distinct (map tn_id ns) \<Longrightarrow> distinct (map tn_id (filter p (reparent ids parent base off ns)))"
  by (simp add: distinct_map_filter)

lemma forest_delete_folder:
  assumes f: "tree_forest t"
  shows "tree_forest (fst (delete_folder_and_reparent_children i t))"
proof (cases "opt_filter is_folder (find_by_id t i)")
  case (Some folder)
  let ?t = "fst (delete_folder_and_reparent_children i t)"
  have d: "distinct (map tn_id (ct_nodes t))" using f by (simp add: forest_nodes_def)
  have folder: "folder \<in> set (ct_nodes t)" "tn_id folder = i"
    using Some find_SomeD [of "\<lambda>n. tn_id n = i" "ct_nodes t" folder] by (simp_all add: find_by_id_def)
  define ids where "ids = map tn_id (filter (\<lambda>n. tn_parent_id n = Some i) (ct_nodes t))"
  define base where
    "base = max_sort_index (filter (\<lambda>n. tn_parent_id n = tn_parent_id folder \<and> tn_id n \<noteq> i) (ct_nodes t))"
  have nodes: "ct_nodes ?t =
    filter (\<lambda>n. tn_id n \<noteq> i) (reparent ids (tn_parent_id folder) base 0 (ct_nodes t))"
    using Some by (simp add: delete_folder_and_reparent_children_def ids_def base_def Let_def)
  have "below ?t \<subseteq> (below t)\<^sup>+"
  proof clarify
    fix p c assume "(p, c) \<in> below ?t"
    then obtain n where n: "tn_id n = c" "tn_parent_id n = Some p" "n \<in> set (ct_nodes ?t)"
      unfolding parent_edges_def by blast
    then have "n \<in> set (reparent ids (tn_parent_id folder) base 0 (ct_nodes t))" by (simp add: nodes)
    then obtain old where old: "old \<in> set (ct_nodes t)" "tn_id old = c"
      and parent: "Some p = (if c \<in> set ids then tn_parent_id folder else tn_parent_id old)"
      by (rule reparent_memberD) (use n in simp)
    show "(p, c) \<in> (below t)\<^sup>+"
    proof (cases "c \<in> set ids")
      case True
      then have "(i, c) \<in> below t" by (auto simp: ids_def)
      moreover have "(p, i) \<in> below t" using True parent folder parent_edgesI [of folder] by simp
      ultimately show ?thesis by (rule trancl.trancl_into_trancl [OF trancl.r_into_trancl, rotated])
    next
      case False
      then have "(p, c) \<in> below t" using old parent parent_edgesI [of old "ct_nodes t" p] by simp
      then show ?thesis by (rule trancl.r_into_trancl)
    qed
  qed
  with d show ?thesis
    by (intro forest_subset [OF f]) (simp_all add: nodes distinct_filter_reparent)
qed (use f in \<open>simp add: delete_folder_and_reparent_children_def\<close>)

lemma forest_repair_orphans: "tree_forest t \<Longrightarrow> tree_forest (fst (repair_orphans t))"
proof -
  assume f: "tree_forest t"
  have "below (fst (repair_orphans t)) \<subseteq> below t"
    by (auto simp: repair_orphans_def parent_edges_def split: if_splits)
  moreover have "map tn_id (ct_nodes (fst (repair_orphans t))) = map tn_id (ct_nodes t)"
    by (simp add: repair_orphans_def)
  ultimately show ?thesis
    using f acyclic_subset [of "below t"] by (simp add: forest_nodes_def)
qed

text \<open>Synchronising adds roots only, so it needs unused identifiers and nothing else.\<close>

definition fresh_for_sync :: "(uuid \<Rightarrow> uuid) \<Rightarrow> uuid list \<Rightarrow> connection_tree \<Rightarrow> bool" where
  "fresh_for_sync new_v4 ps t \<longleftrightarrow> inj_on new_v4 (set ps) \<and> (\<forall>p\<in>set ps. fresh_id t (new_v4 p))"

lemma forest_add_missing:
  "tree_forest t \<Longrightarrow> fresh_id t (new_v4 p) \<Longrightarrow> tree_forest (add_missing_profile new_v4 p t)"
  by (auto simp: add_missing_profile_def new_connection_ref_def intro: forest_add_node)

lemma fresh_add_missing:
  "fresh_id t i \<Longrightarrow> i \<noteq> new_v4 p \<Longrightarrow> fresh_id (add_missing_profile new_v4 p t) i"
  by (auto simp: add_missing_profile_def new_connection_ref_def fresh_id_def add_node_def)

lemma add_missing_known:
  "find_by_profile t p \<noteq> None \<Longrightarrow> add_missing_profile new_v4 p t = t"
  unfolding add_missing_profile_def by (rule if_not_P)

lemma find_by_profile_None:
  "find_by_profile t p = None \<longleftrightarrow> Some p \<notin> tn_profile_id ` set (ct_nodes t)"
  by (auto simp: find_by_profile_def find_None_iff image_iff)

lemma profiles_add_missing:
  "tn_profile_id ` set (ct_nodes (add_missing_profile new_v4 p t)) =
   insert (Some p) (tn_profile_id ` set (ct_nodes t))"
  by (simp add: add_missing_profile_def add_node_def new_connection_ref_def find_by_profile_None insert_absorb)

lemma forest_fold_add_missing:
  assumes "inj_on new_v4 (set ps \<union> qs)" and "tree_forest t"
    and "\<forall>p\<in>set ps. find_by_profile t p = None \<longrightarrow> fresh_id t (new_v4 p)"
  shows "tree_forest (fold (add_missing_profile new_v4) ps t)"
  using assms
proof (induction ps arbitrary: t qs)
  case (Cons p ps)
  let ?t = "add_missing_profile new_v4 p t"
  have inj: "inj_on new_v4 (set ps \<union> insert p qs)" using Cons.prems(1) by (simp add: Un_commute)
  have forest: "tree_forest ?t"
    using Cons.prems by (cases "find_by_profile t p = None") (simp_all add: forest_add_missing add_missing_known)
  have "fresh_id ?t (new_v4 q)" if q: "q \<in> set ps" "find_by_profile ?t q = None" for q
  proof -
    from q(2) have "q \<noteq> p" "find_by_profile t q = None"
      by (auto simp: find_by_profile_None profiles_add_missing)
    with q(1) Cons.prems(1) have "new_v4 q \<noteq> new_v4 p" by (auto simp: inj_on_def)
    with q(1) Cons.prems(3) \<open>find_by_profile t q = None\<close> show ?thesis by (simp add: fresh_add_missing)
  qed
  with Cons.IH [OF inj forest] show ?case by simp
qed simp

lemma forest_sync:
  "tree_forest t \<Longrightarrow> fresh_for_sync new_v4 ps t \<Longrightarrow> tree_forest (sync_with_profiles new_v4 ps t)"
  unfolding sync_with_profiles_def
  by (rule forest_fold_add_missing [where qs = "{}"]) (auto simp: fresh_for_sync_def fresh_id_def)

section \<open>Removing a subtree\<close>

definition subtree :: "connection_tree_node list \<Rightarrow> uuid set \<Rightarrow> uuid set" where
  "subtree ns S = (parent_edges ns)\<^sup>* `` (S \<inter> node_ids ns)"

lemma remove1_by_id:
  "distinct (map tn_id ns) \<Longrightarrow> n \<in> set ns \<Longrightarrow> remove1 n ns = filter (\<lambda>m. tn_id m \<noteq> tn_id n) ns"
proof (induction ns)
  case (Cons m ns)
  show ?case
  proof (cases "m = n")
    case True
    with Cons.prems have "\<forall>k\<in>set ns. tn_id k \<noteq> tn_id n" by (auto simp: image_iff)
    with True show ?thesis by (simp add: filter_id_conv)
  next
    case False
    with Cons.prems have "tn_id m \<noteq> tn_id n" by (auto simp: image_iff)
    with False Cons show ?thesis by simp
  qed
qed simp

lemma subtree_unfold:
  fixes ns i defines "ms \<equiv> filter (\<lambda>m. tn_id m \<noteq> i) ns"
  assumes "i \<in> node_ids ns"
  shows "subtree ns (insert i S) =
    insert i (subtree ms (tn_id ` {c \<in> set ms. tn_parent_id c = Some i} \<union> S))"
    (is "_ = insert i (subtree ms (?C \<union> S))")
proof -
  have edge: "(p, x) \<in> parent_edges ms \<longleftrightarrow> (p, x) \<in> parent_edges ns \<and> x \<noteq> i" for p x
    by (auto simp: parent_edges_def ms_def)
  have ids: "node_ids ms = node_ids ns - {i}" by (auto simp: ms_def)
  have child: "x \<in> ?C \<longleftrightarrow> (i, x) \<in> parent_edges ms" for x
    by (auto simp: parent_edges_def)
  have sub: "(parent_edges ms)\<^sup>* \<subseteq> (parent_edges ns)\<^sup>*"
    by (rule rtrancl_mono) (use edge in auto)
  have "x = i \<or> x \<in> subtree ms (?C \<union> S)"
    if "s \<in> insert i S \<inter> node_ids ns" and "(s, x) \<in> (parent_edges ns)\<^sup>*" for s x
    using that(2)
  proof (induction rule: rtrancl_induct)
    case base
    then show ?case using that(1) ids by (auto simp: subtree_def)
  next
    case (step y x)
    show ?case
    proof (cases "x = i")
      case False
      with step.hyps have e: "(y, x) \<in> parent_edges ms" by (simp add: edge)
      then have "x \<in> node_ids ms" by (auto simp: parent_edges_def)
      with e step.IH child [of x] show ?thesis
        by (auto simp: subtree_def intro: rtrancl_into_rtrancl)
    qed simp
  qed
  moreover have "subtree ms (?C \<union> S) \<subseteq> subtree ns (insert i S)"
  proof
    fix x assume "x \<in> subtree ms (?C \<union> S)"
    then obtain c where c: "c \<in> ?C \<or> c \<in> S" "c \<in> node_ids ms" "(c, x) \<in> (parent_edges ms)\<^sup>*"
      unfolding subtree_def by auto
    with sub have path: "(c, x) \<in> (parent_edges ns)\<^sup>*" by auto
    from c(1) show "x \<in> subtree ns (insert i S)"
    proof
      assume "c \<in> ?C"
      then have "(i, c) \<in> parent_edges ns" using child edge by simp
      with path assms(2) show ?thesis by (auto simp: subtree_def intro: converse_rtrancl_into_rtrancl)
    qed (use path c(2) ids in \<open>auto simp: subtree_def\<close>)
  qed
  moreover have "i \<in> subtree ns (insert i S)" using assms(2) by (auto simp: subtree_def)
  ultimately show ?thesis by (auto simp: subtree_def [of ns])
qed

lemma subtree_missing: "i \<notin> node_ids ns \<Longrightarrow> subtree ns (insert i S) = subtree ns S"
  by (simp add: subtree_def)

lemma remove_loop_spec:
  "distinct (map tn_id ns) \<Longrightarrow>
   fst (remove_loop ns st removed) = filter (\<lambda>n. tn_id n \<notin> subtree ns (set st)) ns"
proof (induction ns st removed rule: remove_loop.induct)
  case (1 ns removed)
  then show ?case by (simp add: subtree_def)
next
  case (2 ns i st removed)
  show ?case
  proof (cases "find (\<lambda>n. tn_id n = i) ns")
    case None
    then have "i \<notin> node_ids ns" by (auto simp: find_None_iff)
    with None "2.IH"(1) [OF None] "2.prems" show ?thesis by (simp add: subtree_missing)
  next
    case (Some n)
    then have n: "n \<in> set ns" "tn_id n = i" by (auto dest: find_SomeD)
    let ?ms = "remove1 n ns"
    have ms: "?ms = filter (\<lambda>m. tn_id m \<noteq> i) ns" using remove1_by_id [OF "2.prems" n(1)] n(2) by simp
    have set: "set (rev (map tn_id (filter (\<lambda>c. tn_parent_id c = Some i) ?ms)) @ st) =
      tn_id ` {c \<in> set ?ms. tn_parent_id c = Some i} \<union> set st" by auto
    have "distinct (map tn_id ?ms)" unfolding ms using "2.prems" by (rule distinct_map_filter)
    note IH = "2.IH"(2) [OF Some refl this, unfolded set]
    have "i \<in> node_ids ns" using n by auto
    note unfold = subtree_unfold [OF this, of "set st", folded ms]
    show ?thesis
      by (simp add: Some Let_def IH unfold) (simp add: ms conj_commute)
  qed
qed

lemma mset_remove_loop:
  "mset (fst (remove_loop ns st removed)) + mset (snd (remove_loop ns st removed)) = mset ns + mset removed"
proof (induction ns st removed rule: remove_loop.induct)
  case (2 ns i st removed)
  then show ?case
  proof (cases "find (\<lambda>n. tn_id n = i) ns")
    case (Some n)
    then have "n \<in> set ns" by (auto dest: find_SomeD)
    with "2.IH"(2) [OF Some refl] show ?thesis
      by (simp add: Some Let_def)
  qed simp
qed simp

lemma remove_node_fst: "fst (remove_node i t) = t\<lparr>ct_nodes := fst (remove_loop (ct_nodes t) [i] [])\<rparr>"
  and remove_node_snd: "snd (remove_node i t) = snd (remove_loop (ct_nodes t) [i] [])"
  by (simp_all add: remove_node_def case_prod_unfold Let_def del: remove_loop.simps)

lemma remove_node_spec:
  assumes "distinct (map tn_id (ct_nodes t))" and "i \<in> node_ids (ct_nodes t)"
  shows "fst (remove_node i t) = t\<lparr>ct_nodes := filter (\<lambda>n. (i, tn_id n) \<notin> (below t)\<^sup>*) (ct_nodes t)\<rparr>"
    and "mset (snd (remove_node i t)) = mset (filter (\<lambda>n. (i, tn_id n) \<in> (below t)\<^sup>*) (ct_nodes t))"
proof -
  have sub: "subtree (ct_nodes t) (set [i]) = {x. (i, x) \<in> (below t)\<^sup>*}"
    using assms(2) by (simp add: subtree_def Image_singleton)
  note spec = remove_loop_spec [OF assms(1), of "[i]" "[]", unfolded sub]
  show "fst (remove_node i t) = t\<lparr>ct_nodes := filter (\<lambda>n. (i, tn_id n) \<notin> (below t)\<^sup>*) (ct_nodes t)\<rparr>"
    using spec by (simp add: remove_node_fst del: remove_loop.simps)
  have "mset (ct_nodes t) = mset (filter (\<lambda>n. (i, tn_id n) \<notin> (below t)\<^sup>*) (ct_nodes t)) +
      mset (filter (\<lambda>n. (i, tn_id n) \<in> (below t)\<^sup>*) (ct_nodes t))"
    using multiset_partition [of "mset (ct_nodes t)" "\<lambda>n. (i, tn_id n) \<notin> (below t)\<^sup>*"] by simp
  moreover have "mset (filter (\<lambda>n. (i, tn_id n) \<notin> (below t)\<^sup>*) (ct_nodes t)) + mset (snd (remove_node i t)) =
      mset (ct_nodes t)"
    using mset_remove_loop [of "ct_nodes t" "[i]" "[]"] spec by (simp add: remove_node_snd del: remove_loop.simps)
  ultimately show "mset (snd (remove_node i t)) = mset (filter (\<lambda>n. (i, tn_id n) \<in> (below t)\<^sup>*) (ct_nodes t))"
    by (metis add_left_cancel)
qed

lemma forest_remove_node: "tree_forest t \<Longrightarrow> tree_forest (fst (remove_node i t))"
proof -
  assume f: "tree_forest t"
  then have "distinct (map tn_id (ct_nodes t))" by (simp add: forest_nodes_def)
  from remove_loop_spec [OF this] f show ?thesis
    by (simp add: remove_node_fst del: remove_loop.simps)
qed

section \<open>Walking down\<close>

text \<open>The walk goes on below folders only.\<close>

definition folder_edges :: "connection_tree \<Rightarrow> (uuid \<times> uuid) set" where
  "folder_edges t = parent_edges (folders t)"

abbreviation descends :: "connection_tree \<Rightarrow> uuid \<Rightarrow> uuid set" where
  "descends t i \<equiv> ((folder_edges t)\<^sup>* O below t) `` {i}"

lemma descends_unfold:
  "descends t i = below t `` {i} \<union> (\<Union>k\<in>folder_edges t `` {i}. descends t k)"
proof -
  have "(folder_edges t)\<^sup>* O below t = below t \<union> folder_edges t O (folder_edges t)\<^sup>* O below t"
    by (subst rtrancl_trancl_reflcl, subst trancl_unfold_left) auto
  then show ?thesis by blast
qed

lemma visit_forest:
  assumes "tree_forest t"
  shows "\<exists>r. visit t st acc = Some r \<and> set r = set acc \<union> (\<Union>i\<in>set st. descends t i)"
proof -
  have "wf (mult ((below t)\<inverse>))"
    using assms by (simp add: forest_nodes_def wf_mult finite_acyclic_wf_converse)
  then show ?thesis
  proof (induction "mset st" arbitrary: st acc rule: wf_induct_rule)
    case less
    show ?case
    proof (cases st)
      case Nil
      then show ?thesis by (simp add: visit.simps)
    next
      case (Cons i rest)
      let ?b = "filter (\<lambda>n. tn_parent_id n = Some i) (ct_nodes t)"
      let ?k = "rev (map tn_id (filter is_folder ?b))"
      have k: "set ?k = folder_edges t `` {i}" and b: "tn_id ` set ?b = below t `` {i}"
        by (auto simp: folder_edges_def folders_def parent_edges_def)
      have "set ?k \<subseteq> below t `` {i}" unfolding k folder_edges_def folders_def
        by (auto simp: parent_edges_def)
      then have "(mset rest + mset ?k, mset rest + {#i#}) \<in> mult ((below t)\<inverse>)"
        by (intro one_step_implies_mult) auto
      then have "(mset (?k @ rest), mset st) \<in> mult ((below t)\<inverse>)"
        by (simp add: Cons add.commute)
      from less.hyps [OF this, of "acc @ map tn_id ?b"] obtain r where
        "visit t (?k @ rest) (acc @ map tn_id ?b) = Some r"
        "set r = set acc \<union> tn_id ` set ?b \<union> (\<Union>j\<in>set ?k \<union> set rest. descends t j)"
        by (simp only: set_append set_map) blast
      moreover have "visit t st acc = visit t (?k @ rest) (acc @ map tn_id ?b)"
        by (subst visit.simps) (simp add: Cons Let_def)
      ultimately show ?thesis
        unfolding b k using descends_unfold [of t i] by (auto simp: Cons)
    qed
  qed
qed

lemma get_descendants_forest:
  assumes "tree_forest t"
  obtains r where "get_descendants t i = Some r" and "set r = descends t i"
  using visit_forest [OF assms, of "[i]" "[]"] by (auto simp: get_descendants_def)

lemma descends_no_orphans:
  assumes d: "distinct (map tn_id (ct_nodes t))" and "\<forall>n\<in>set (ct_nodes t). \<not> is_orphan t n"
  shows "descends t i = {x. (i, x) \<in> (below t)\<^sup>+}"
proof -
  have parent_folder: "(z, y) \<in> folder_edges t" if "(z, y) \<in> below t" "(y, x) \<in> below t" for x y z
  proof -
    from that(2) obtain c where "c \<in> set (ct_nodes t)" "tn_parent_id c = Some y"
      by (auto simp: parent_edges_def)
    with assms(2) obtain f where "f \<in> set (folders t)" "tn_id f = y"
      by (force simp: is_orphan_def)
    moreover from that(1) obtain n where "n \<in> set (ct_nodes t)" "tn_id n = y" "tn_parent_id n = Some z"
      by (auto simp: parent_edges_def)
    ultimately show ?thesis
      using node_by_id [OF d, of f n] by (auto simp: folder_edges_def folders_def parent_edges_def)
  qed
  have "(i, x) \<in> (folder_edges t)\<^sup>* O below t" if "(i, x) \<in> (below t)\<^sup>+" for x
    using that
  proof (induction rule: trancl_induct)
    case (step y z)
    then obtain w where w: "(i, w) \<in> (folder_edges t)\<^sup>*" "(w, y) \<in> below t" by auto
    then have "(i, y) \<in> (folder_edges t)\<^sup>*"
      using parent_folder [OF w(2) step.hyps(2)] by (simp add: rtrancl_into_rtrancl)
    with step.hyps(2) show ?case by (rule relcomp.relcompI [rotated])
  qed auto
  moreover have "folder_edges t \<subseteq> below t"
    unfolding folder_edges_def folders_def by (rule parent_edges_mono) auto
  then have "(folder_edges t)\<^sup>* \<subseteq> (below t)\<^sup>*" by (rule rtrancl_mono)
  then have "(folder_edges t)\<^sup>* O below t \<subseteq> (below t)\<^sup>+"
    by (auto intro: rtrancl_into_trancl1)
  ultimately show ?thesis by auto
qed

lemma repair_orphans_no_orphan: "n \<in> set (ct_nodes (fst (repair_orphans t))) \<Longrightarrow> \<not> is_orphan (fst (repair_orphans t)) n"
proof -
  have folders: "map tn_id (folders (fst (repair_orphans t))) = map tn_id (folders t)"
    by (simp add: repair_orphans_def folders_def filter_map comp_def is_folder_def [abs_def] if_distrib
        cong: if_cong)
  assume "n \<in> set (ct_nodes (fst (repair_orphans t)))"
  then show ?thesis
    unfolding is_orphan_def [of "fst (repair_orphans t)"] folders
    by (auto simp: repair_orphans_def is_orphan_def)
qed

section \<open>Runs of the manager\<close>

text \<open>
  A step is one call of the manager that returns.  Identifiers drawn for new
  nodes are unused, and no caller names an identifier before it is drawn.
\<close>

inductive manager_step ::
  "'s tree_store_ext \<Rightarrow> 's connection_tree_manager \<Rightarrow> 's connection_tree_manager \<Rightarrow> bool"
  for ext :: "'s tree_store_ext" where
  step_sync: "fresh_for_sync new_v4 ps (tm_tree m) \<Longrightarrow>
    manager_step ext m (manager_sync_with_profiles ext new_v4 ps m)"
| step_add_profile: "fresh_id (tm_tree m) i \<Longrightarrow> folder \<noteq> Some i \<Longrightarrow>
    manager_step ext m (add_profile_node ext i profile folder m)"
| step_remove_profile: "manager_step ext m (remove_profile_node ext profile m)"
| step_create_folder: "fresh_id (tm_tree m) i \<Longrightarrow> parent \<noteq> Some i \<Longrightarrow>
    manager_step ext m (fst (create_folder ext i name parent m))"
| step_rename: "manager_step ext m (fst (manager_rename_folder ext i name m))"
| step_delete: "manager_step ext m (fst (delete_folder ext i m))"
| step_move: "manager_move_node ext i parent m = Some r \<Longrightarrow> manager_step ext m (fst r)"
| step_position: "manager_move_node_to_position ext i parent after m = Some r \<Longrightarrow> manager_step ext m (fst r)"
| step_toggle: "manager_step ext m (fst (manager_toggle_folder_collapsed ext i m))"
| step_collapse: "manager_step ext m (manager_set_folder_collapsed ext i c m)"

lemma tm_tree_save [simp]: "tm_tree (manager_save ext m) = tm_tree m"
  by (simp add: manager_save_def)

lemma forest_rename: "tree_forest t \<Longrightarrow> tree_forest (fst (rename_folder i name t))"
  by (simp add: rename_folder_def forest_find_by_id_mut)

lemma forest_set_collapsed: "tree_forest t \<Longrightarrow> tree_forest (set_folder_collapsed i c t)"
  by (simp add: set_folder_collapsed_def forest_find_by_id_mut)

lemma forest_toggle: "tree_forest t \<Longrightarrow> tree_forest (fst (toggle_folder_collapsed i t))"
  by (simp add: toggle_folder_collapsed_def forest_find_by_id_mut split: option.split)

lemmas forest_ops = forest_sync forest_add_node forest_remove_node forest_rename forest_delete_folder
  forest_move_node forest_move_node_to_position forest_set_collapsed forest_toggle

lemma manager_step_forest:
  "manager_step ext m m' \<Longrightarrow> tree_forest (tm_tree m) \<Longrightarrow> tree_forest (tm_tree m')"
proof (induction rule: manager_step.induct)
  case (step_move i parent m r)
  then show ?case
    by (auto simp: manager_move_node_def save_if_moved_def Let_def split: if_splits dest: forest_move_node)
next
  case (step_position i parent after m r)
  then show ?case
    by (auto simp: manager_move_node_to_position_def save_if_moved_def Let_def split: if_splits
        dest: forest_move_node_to_position)
qed (simp_all add: forest_ops manager_sync_with_profiles_def add_profile_node_def remove_profile_node_def
    create_folder_def manager_rename_folder_def delete_folder_def manager_toggle_folder_collapsed_def
    manager_set_folder_collapsed_def Let_def case_prod_unfold new_connection_ref_def new_folder_def
    split: option.split)

section \<open>What callers rely on\<close>

text \<open>A folder with a folder and a connection in it, and a connection beside it.\<close>

definition sample_tree :: connection_tree where
  "sample_tree = \<lparr>ct_nodes =
     [new_folder 1 ''prod'' None 1000, new_folder 2 ''eu'' (Some 1) 1000,
      new_connection_ref 3 30 (Some 2) 1000, new_connection_ref 4 40 None 2000], ct_version = 1\<rparr>"

lemma sample_tree_below: "below sample_tree = {(1, 2), (2, 3)}"
  by (simp add: sample_tree_def new_folder_def new_connection_ref_def insert_commute)

lemma sample_tree_forest: "tree_forest sample_tree"
proof -
  have "acyclic (below sample_tree)"
    unfolding sample_tree_below
    by (rule wf_acyclic, rule wf_subset [of "measure unat"]) simp_all
  then show ?thesis
    by (simp add: forest_nodes_def) (simp add: sample_tree_def new_folder_def new_connection_ref_def)
qed

lemma sample_tree_ids: "tn_id ` set (ct_nodes sample_tree) = {1, 2, 3, 4}"
  by (simp add: sample_tree_def new_folder_def new_connection_ref_def)

text \<open>
  C29. No sequence of manager calls closes a cycle: from a forest, every run of
  synchronisations, additions, removals, renamings, deletions and moves ends in a
  forest, and in every tree so reached the climbing loop of the cycle test and the
  walk of \<open>get_descendants\<close> end for all arguments.  Hence a move always answers.
\<close>

theorem manager_runs_keep_forest:
  assumes "tree_forest (tm_tree m)" and "(manager_step ext)\<^sup>*\<^sup>* m m'"
  shows "tree_forest (tm_tree m') \<and>
    (\<forall>i parent. would_create_cycle (tm_tree m') i parent \<noteq> None) \<and>
    (\<forall>i. get_descendants (tm_tree m') i \<noteq> None) \<and>
    (\<forall>i parent. manager_move_node ext i parent m' \<noteq> None) \<and>
    (\<forall>i parent after. manager_move_node_to_position ext i parent after m' \<noteq> None)"
proof -
  from assms(2,1) have f: "tree_forest (tm_tree m')"
    by (induction rule: rtranclp_induct) (auto dest: manager_step_forest)
  then have "get_descendants (tm_tree m') i \<noteq> None" for i
    by (metis get_descendants_forest option.distinct(1))
  with f show ?thesis
    by (simp add: would_create_cycle_forest manager_move_node_def manager_move_node_to_position_def
        move_node_def move_node_to_position_def del: not_None_eq split: option.split)
qed

theorem manager_runs_keep_forest_witness:
  "let ext = \<lparr>ts_load = \<lambda>_. Err ''none'', ts_save = \<lambda>t (n::nat). (Suc n, Ok ())\<rparr>;
       m = fst (create_folder ext 7 ''prod'' None (with_store ext 0))
   in tm_store m = Some 1 \<and> tree_forest (tm_tree m) \<and> manager_move_node ext 7 (Some 7) m \<noteq> None"
proof -
  let ?ext = "\<lparr>ts_load = \<lambda>_. Err ''none'', ts_save = \<lambda>t (n::nat). (Suc n, Ok ())\<rparr>"
  let ?m = "with_store ?ext 0" and ?m' = "fst (create_folder ?ext 7 ''prod'' None (with_store ?ext 0))"
  have tree: "tm_tree ?m = connection_tree_new" by (simp add: with_store_def)
  have "manager_step ?ext ?m ?m'"
    by (rule step_create_folder) (simp_all add: tree fresh_id_def connection_tree_new_def)
  then have "(manager_step ?ext)\<^sup>*\<^sup>* ?m ?m'" by (rule r_into_rtranclp)
  moreover have "tree_forest (tm_tree ?m)" by (simp add: tree)
  moreover have "tm_store ?m' = Some 1"
    by (simp add: create_folder_def manager_save_def with_store_def Let_def)
  ultimately show ?thesis
    using manager_runs_keep_forest [of ?m ?ext ?m'] unfolding Let_def by blast
qed

text \<open>
  C30. \<open>remove_node\<close> always returns, and takes out of the tree exactly the node and
  everything below it: what stays keeps its order, and the removed nodes are
  those, each once.  This needs unique identifiers only, not a forest.
\<close>

theorem remove_node_exact:
  assumes "distinct (map tn_id (ct_nodes t))" and "i \<in> tn_id ` set (ct_nodes t)"
  shows "fst (remove_node i t) =
      t\<lparr>ct_nodes := filter (\<lambda>n. (i, tn_id n) \<notin> (parent_edges (ct_nodes t))\<^sup>*) (ct_nodes t)\<rparr> \<and>
    mset (snd (remove_node i t)) =
      mset (filter (\<lambda>n. (i, tn_id n) \<in> (parent_edges (ct_nodes t))\<^sup>*) (ct_nodes t))"
  using remove_node_spec [OF assms] by (rule conjI)

theorem remove_node_exact_witness:
  "map tn_id (ct_nodes (fst (remove_node 2 sample_tree))) = [1, 4] \<and>
   length (snd (remove_node 2 sample_tree)) = 2"
proof -
  have d: "distinct (map tn_id (ct_nodes sample_tree))"
    using sample_tree_forest by (simp add: forest_nodes_def)
  have "x = 2 \<or> x = 3" if "(2, x) \<in> {(1, 2), (2, 3)}\<^sup>*" for x :: uuid
    using that by (induction rule: rtrancl_induct) auto
  then have path: "(2, x) \<in> {(1, 2), (2, 3)}\<^sup>* \<longleftrightarrow> x = 2 \<or> x = 3" for x :: uuid
    by auto
  note exact = remove_node_exact [OF d, of 2, unfolded sample_tree_ids sample_tree_below path, simplified]
  then have "map tn_id (ct_nodes (fst (remove_node 2 sample_tree))) = [1, 4]"
    by (simp add: sample_tree_def new_folder_def new_connection_ref_def)
  moreover have "length (snd (remove_node 2 sample_tree)) = 2"
    using arg_cong [OF conjunct2 [OF exact], of size]
    by (simp add: sample_tree_def new_folder_def new_connection_ref_def)
  ultimately show ?thesis ..
qed

text \<open>
  C31. The two walks down the tree agree: in a forest whose nodes all hang under
  existing folders, as after \<open>repair_orphans\<close>, \<open>get_descendants\<close> returns, and its
  result together with the folder itself is exactly what \<open>remove_node\<close> takes out.
\<close>

theorem descendants_are_what_remove_takes:
  assumes "tree_forest t" and "\<forall>n\<in>set (ct_nodes t). \<not> is_orphan t n"
    and "i \<in> tn_id ` set (ct_nodes t)"
  shows "\<exists>ds. get_descendants t i = Some ds \<and>
    insert i (set ds) = tn_id ` set (snd (remove_node i t))"
proof -
  have d: "distinct (map tn_id (ct_nodes t))" using assms(1) by (simp add: forest_nodes_def)
  obtain ds where ds: "get_descendants t i = Some ds" "set ds = {x. (i, x) \<in> (below t)\<^sup>+}"
    using get_descendants_forest [OF assms(1), of i] descends_no_orphans [OF d assms(2)] by metis
  have "(i, x) \<in> (below t)\<^sup>+ \<Longrightarrow> x \<in> node_ids (ct_nodes t)" for x
    by (erule tranclE) (auto simp: parent_edges_def)
  then have "insert i (set ds) = tn_id ` {n \<in> set (ct_nodes t). (i, tn_id n) \<in> (below t)\<^sup>*}"
    using assms(3) by (auto simp: ds(2) dest: rtranclD trancl_into_rtrancl)
  also have "\<dots> = tn_id ` set (snd (remove_node i t))"
    using arg_cong [OF remove_node_spec(2) [OF d assms(3)], of set_mset] by simp
  finally show ?thesis using ds(1) by blast
qed


theorem descendants_are_what_remove_takes_witness:
  "\<exists>ds. get_descendants sample_tree 1 = Some ds \<and>
     insert 1 (set ds) = tn_id ` set (snd (remove_node 1 sample_tree))"
proof (rule descendants_are_what_remove_takes)
  show "\<forall>n\<in>set (ct_nodes sample_tree). \<not> is_orphan sample_tree n"
    by (simp add: sample_tree_def new_folder_def new_connection_ref_def is_orphan_def folders_def is_folder_def)
qed (simp_all add: sample_tree_forest sample_tree_ids)

text \<open>
  \<open>move_node_to_position\<close> puts a node after a sibling only while the sort indices
  leave room.  Between the neighbours 1 and 2 the midpoint is 1 again, and the stable
  sort then shows the node before the sibling it was dropped after.
\<close>

definition crowded_tree :: connection_tree where
  "crowded_tree = \<lparr>ct_nodes =
     [new_connection_ref 3 30 None 9, new_connection_ref 1 10 None 1, new_connection_ref 2 20 None 2],
     ct_version = 1\<rparr>"

lemma dropped_after_lands_before:
  "map_option (\<lambda>(t, moved). (map tn_id (root_nodes t), moved))
     (move_node_to_position 3 None (Some 1) crowded_tree) = Some ([3, 1, 2], True)"
  by (simp add: move_node_to_position_def would_create_cycle_def sort_index_between_def root_nodes_def
      crowded_tree_def new_connection_ref_def half_i32_def wrap_signed_def place_node_def find_by_id_def
      find_by_id_mut_def)

end
