(* ===== verification/Tasks.thy ===== *)
theory Tasks
  imports Complex_Main Prelude Rust_Text
begin

text \<open>
  Background tasks: the task manager, cancel tokens and the single-occupancy slot
  (crates/dbflux_core/src/core/task.rs), and the document task runner built on them
  (crates/dbflux_ui_document/src/task_runner.rs).

  A cancel token is a shared flag: every clone of the \<open>Arc\<close> sees the same
  \<open>AtomicBool\<close>.  The flags are cells of a heap, a token is the address of its cell,
  and cloning a token copies the address.  The \<open>HashMap\<close> of tasks is an association
  list whose iteration order is an argument.  Instants are integers in nanoseconds;
  the current one and the identifiers drawn by \<open>Uuid::new_v4\<close> are arguments.
\<close>

section \<open>Kinds and states\<close>

datatype hook_phase = PreConnect | PostConnect | PreDisconnect | PostDisconnect

fun hook_phase_label :: "hook_phase \<Rightarrow> string" where
  "hook_phase_label PreConnect = ''Pre-connect''"
| "hook_phase_label PostConnect = ''Post-connect''"
| "hook_phase_label PreDisconnect = ''Pre-disconnect''"
| "hook_phase_label PostDisconnect = ''Post-disconnect''"

definition MAX_TASK_DETAILS_BYTES :: nat where
  "MAX_TASK_DETAILS_BYTES = 4 * 1024 * 1024"

definition TASK_DETAILS_TRUNCATED_NOTICE :: string where
  "TASK_DETAILS_TRUNCATED_NOTICE = [CHR 0x0A] @ ''[output truncated]'' @ [CHR 0x0A]"

type_synonym task_id = uuid

record task_target =
  tt_profile_id :: uuid
  tt_database :: "string option"

datatype task_kind =
    TkQuery | TkConnect | TkDisconnect | TkHook hook_phase | TkSwitchDatabase | TkLoadSchema
  | TkSchemaRefresh | TkSchemaDrop | TkExport | TkImport | TkMigrate | TkKeyScan | TkKeyGet
  | TkKeyMutation | TkDumpAnalysis

fun task_kind_label :: "task_kind \<Rightarrow> string" where
  "task_kind_label TkQuery = ''Query''"
| "task_kind_label TkConnect = ''Connect''"
| "task_kind_label TkDisconnect = ''Disconnect''"
| "task_kind_label (TkHook phase) = hook_phase_label phase"
| "task_kind_label TkSwitchDatabase = ''Switch Database''"
| "task_kind_label TkLoadSchema = ''Load Schema''"
| "task_kind_label TkSchemaRefresh = ''Schema Refresh''"
| "task_kind_label TkSchemaDrop = ''Schema Drop''"
| "task_kind_label TkExport = ''Export''"
| "task_kind_label TkImport = ''Import''"
| "task_kind_label TkMigrate = ''Migrate''"
| "task_kind_label TkKeyScan = ''Key Scan''"
| "task_kind_label TkKeyGet = ''Key Get''"
| "task_kind_label TkKeyMutation = ''Key Mutation''"
| "task_kind_label TkDumpAnalysis = ''Dump Analysis''"

definition supports_cancellation :: "task_kind \<Rightarrow> bool" where
  "supports_cancellation k \<longleftrightarrow> \<not> (k = TkKeyGet \<or> k = TkKeyMutation)"

datatype task_status = Running | Completed | Failed string | Cancelled

fun is_terminal :: "task_status \<Rightarrow> bool" where
  "is_terminal Running = False"
| "is_terminal _ = True"

lemma is_terminal_iff: "is_terminal s \<longleftrightarrow> s \<noteq> Running"
  by (cases s) simp_all

text \<open>The values of an \<open>f32\<close>, and \<open>clamp(0.0, 1.0)\<close> on them: a NaN stays a NaN.\<close>

datatype f32 = F32_NaN | F32_NegInf | F32_PosInf | F32 rat

fun clamp_unit :: "f32 \<Rightarrow> f32" where
  "clamp_unit F32_NaN = F32_NaN"
| "clamp_unit F32_NegInf = F32 0"
| "clamp_unit F32_PosInf = F32 1"
| "clamp_unit (F32 q) = F32 (if q < 0 then 0 else if 1 < q then 1 else q)"

record task =
  tk_id :: task_id
  tk_kind :: task_kind
  tk_description :: string
  tk_status :: task_status
  tk_started_at :: int
  tk_completed_at :: "int option"
  tk_progress :: "f32 option"
  tk_details :: "string option"
  tk_profile_id :: "uuid option"
  tk_target :: "task_target option"
  tk_query_text :: "string option"
  tk_cancel_token :: nat
  tk_accepts_cancel :: bool

text \<open>The manager's tasks together with the cells of the tokens handed out.\<close>

record task_world =
  tw_tasks :: "(task_id \<times> task) list"
  tw_flags :: "bool list"

section \<open>Cancel tokens\<close>

definition token_new :: "task_world \<Rightarrow> task_world \<times> nat" where
  "token_new w = (w\<lparr>tw_flags := tw_flags w @ [False]\<rparr>, length (tw_flags w))"

definition is_cancelled :: "task_world \<Rightarrow> nat \<Rightarrow> bool" where
  "is_cancelled w tok \<longleftrightarrow> tok < length (tw_flags w) \<and> tw_flags w ! tok"

definition token_cancel :: "nat \<Rightarrow> task_world \<Rightarrow> task_world" where
  "token_cancel tok w = w\<lparr>tw_flags := (tw_flags w)[tok := True]\<rparr>"

text \<open>The error names the stage; its source is always \<open>DbError::Cancelled\<close>.\<close>

definition check_pipeline :: "task_world \<Rightarrow> nat \<Rightarrow> (string, unit) result" where
  "check_pipeline w tok = (if is_cancelled w tok then Err ''cancelled'' else Ok ())"

section \<open>Tasks and snapshots\<close>

text \<open>\<open>Instant::duration_since\<close> saturates at zero.\<close>

definition task_elapsed :: "int \<Rightarrow> task \<Rightarrow> int" where
  "task_elapsed now t = (case tk_completed_at t of
      Some completed \<Rightarrow> max 0 (completed - tk_started_at t)
    | None \<Rightarrow> max 0 (now - tk_started_at t))"

definition is_cancellable :: "task \<Rightarrow> bool" where
  "is_cancellable t \<longleftrightarrow> tk_status t = Running \<and> tk_accepts_cancel t \<and> supports_cancellation (tk_kind t)"

record task_snapshot =
  ts_id :: task_id
  ts_kind :: task_kind
  ts_description :: string
  ts_status :: task_status
  ts_elapsed :: int
  ts_progress :: "f32 option"
  ts_details :: "string option"
  ts_is_cancellable :: bool
  ts_profile_id :: "uuid option"
  ts_target :: "task_target option"
  ts_query_text :: "string option"

definition snapshot_of :: "int \<Rightarrow> task \<Rightarrow> task_snapshot" where
  "snapshot_of now t =
    \<lparr>ts_id = tk_id t, ts_kind = tk_kind t, ts_description = tk_description t, ts_status = tk_status t,
     ts_elapsed = task_elapsed now t, ts_progress = tk_progress t, ts_details = tk_details t,
     ts_is_cancellable = is_cancellable t, ts_profile_id = tk_profile_id t, ts_target = tk_target t,
     ts_query_text = tk_query_text t\<rparr>"

section \<open>Bounded output\<close>

text \<open>The loop of \<open>safe_prefix_by_bytes\<close> over \<open>char_indices\<close>.\<close>

fun safe_end_loop :: "nat \<Rightarrow> nat \<Rightarrow> nat \<Rightarrow> string \<Rightarrow> nat" where
  "safe_end_loop max_bytes index safe_end [] = safe_end"
| "safe_end_loop max_bytes index safe_end (c # s) =
    (let next = index + len_utf8 c
     in if max_bytes < next then safe_end else safe_end_loop max_bytes next next s)"

definition safe_prefix_by_bytes :: "string \<Rightarrow> nat \<Rightarrow> string" where
  "safe_prefix_by_bytes inp max_bytes =
    (if utf8_len inp \<le> max_bytes then inp
     else slice_to (safe_end_loop max_bytes 0 0 inp) inp)"

definition append_with_limit :: "string \<Rightarrow> string \<Rightarrow> nat \<Rightarrow> string \<Rightarrow> string" where
  "append_with_limit target chunk max_bytes notice =
    (if split_at_sub notice target \<noteq> None then target
     else let remaining = max_bytes - utf8_len target
       in if remaining = 0 then target
          else if utf8_len chunk \<le> remaining then target @ chunk
          else if utf8_len notice < remaining
            then target @ safe_prefix_by_bytes chunk (remaining - utf8_len notice) @ notice
            else target @ safe_prefix_by_bytes notice remaining)"

section \<open>The task manager\<close>

definition task_manager_new :: task_world where
  "task_manager_new = \<lparr>tw_tasks = [], tw_flags = []\<rparr>"

definition task_get :: "task_world \<Rightarrow> task_id \<Rightarrow> task option" where
  "task_get w i = map_of (tw_tasks w) i"

text \<open>\<open>get_mut\<close> followed by a change of the task found.\<close>

definition task_update :: "task_id \<Rightarrow> (task \<Rightarrow> task) \<Rightarrow> task_world \<Rightarrow> task_world" where
  "task_update i f w =
    (case task_get w i of
       None \<Rightarrow> w
     | Some t \<Rightarrow> w\<lparr>tw_tasks := AList.update i (f t) (tw_tasks w)\<rparr>)"

definition when_running :: "(task \<Rightarrow> task) \<Rightarrow> task \<Rightarrow> task" where
  "when_running f t = (if tk_status t = Running then f t else t)"

definition start_for_target ::
  "task_id \<Rightarrow> int \<Rightarrow> task_kind \<Rightarrow> string \<Rightarrow> task_target option \<Rightarrow> task_world \<Rightarrow>
    task_world \<times> task_id \<times> nat" where
  "start_for_target new_v4 now kind description target w =
    (let (w', cancel_token) = token_new w;
         t = \<lparr>tk_id = new_v4, tk_kind = kind, tk_description = description, tk_status = Running,
              tk_started_at = now, tk_completed_at = None, tk_progress = None, tk_details = None,
              tk_profile_id = map_option tt_profile_id target, tk_target = target,
              tk_query_text = None, tk_cancel_token = cancel_token, tk_accepts_cancel = True\<rparr>
     in (w'\<lparr>tw_tasks := AList.update new_v4 t (tw_tasks w')\<rparr>, new_v4, cancel_token))"

definition start_task :: "task_id \<Rightarrow> int \<Rightarrow> task_kind \<Rightarrow> string \<Rightarrow> task_world \<Rightarrow> task_world \<times> task_id \<times> nat" where
  "start_task new_v4 now kind description w = start_for_target new_v4 now kind description None w"

definition mark_uncancellable :: "task_id \<Rightarrow> task_world \<Rightarrow> task_world" where
  "mark_uncancellable i = task_update i (\<lambda>t. t\<lparr>tk_accepts_cancel := False\<rparr>)"

definition set_query_text :: "task_id \<Rightarrow> string \<Rightarrow> task_world \<Rightarrow> task_world" where
  "set_query_text i query_text = task_update i (\<lambda>t. t\<lparr>tk_query_text := Some query_text\<rparr>)"

definition complete :: "int \<Rightarrow> task_id \<Rightarrow> task_world \<Rightarrow> task_world" where
  "complete now i =
    task_update i (when_running (\<lambda>t. t\<lparr>tk_status := Completed, tk_completed_at := Some now\<rparr>))"

definition details_or_none :: "string \<Rightarrow> string option" where
  "details_or_none details = (if trim details = [] then None else Some details)"

definition complete_with_details :: "int \<Rightarrow> task_id \<Rightarrow> string \<Rightarrow> task_world \<Rightarrow> task_world" where
  "complete_with_details now i details =
    task_update i (when_running (\<lambda>t. t\<lparr>tk_status := Completed, tk_completed_at := Some now,
      tk_details := details_or_none details\<rparr>))"

definition append_details :: "task_id \<Rightarrow> string \<Rightarrow> task_world \<Rightarrow> task_world" where
  "append_details i chunk =
    task_update i (\<lambda>t.
      if is_terminal (tk_status t) then t
      else if chunk = [] then t
      else t\<lparr>tk_details := Some (append_with_limit (unwrap_or [] (tk_details t)) chunk
        MAX_TASK_DETAILS_BYTES TASK_DETAILS_TRUNCATED_NOTICE)\<rparr>)"

definition fail :: "int \<Rightarrow> task_id \<Rightarrow> string \<Rightarrow> task_world \<Rightarrow> task_world" where
  "fail now i err =
    task_update i (when_running (\<lambda>t. t\<lparr>tk_status := Failed err, tk_completed_at := Some now\<rparr>))"

definition fail_with_details :: "int \<Rightarrow> task_id \<Rightarrow> string \<Rightarrow> string \<Rightarrow> task_world \<Rightarrow> task_world" where
  "fail_with_details now i err details =
    task_update i (when_running (\<lambda>t. t\<lparr>tk_status := Failed err, tk_completed_at := Some now,
      tk_details := details_or_none details\<rparr>))"

definition cancel :: "int \<Rightarrow> task_id \<Rightarrow> task_world \<Rightarrow> task_world \<times> bool" where
  "cancel now i w =
    (case opt_filter (\<lambda>t. tk_status t = Running) (task_get w i) of
       None \<Rightarrow> (w, False)
     | Some t \<Rightarrow>
         (task_update i (\<lambda>t. t\<lparr>tk_status := Cancelled, tk_completed_at := Some now\<rparr>)
            (token_cancel (tk_cancel_token t) w), True))"

fun cancel_each :: "int \<Rightarrow> task_id list \<Rightarrow> nat \<Rightarrow> task_world \<Rightarrow> task_world \<times> nat" where
  "cancel_each now [] n w = (w, n)"
| "cancel_each now (i # ids) n w =
    (let (w', cancelled) = cancel now i w in cancel_each now ids (if cancelled then n + 1 else n) w')"

definition cancel_all ::
  "((task_id \<times> task) list \<Rightarrow> (task_id \<times> task) list) \<Rightarrow> int \<Rightarrow> task_world \<Rightarrow> task_world \<times> nat" where
  "cancel_all order now w =
    cancel_each now (map fst (filter (\<lambda>(_, t). tk_status t = Running) (order (tw_tasks w)))) 0 w"

definition update_progress :: "task_id \<Rightarrow> f32 \<Rightarrow> task_world \<Rightarrow> task_world" where
  "update_progress i progress =
    task_update i (when_running (\<lambda>t. t\<lparr>tk_progress := Some (clamp_unit progress)\<rparr>))"

definition get_snapshot :: "int \<Rightarrow> task_id \<Rightarrow> task_world \<Rightarrow> task_snapshot option" where
  "get_snapshot now i w = map_option (snapshot_of now) (task_get w i)"

definition running_of :: "task list \<Rightarrow> task list" where
  "running_of ts = filter (\<lambda>t. tk_status t = Running) ts"

definition running_tasks ::
  "((task_id \<times> task) list \<Rightarrow> (task_id \<times> task) list) \<Rightarrow> int \<Rightarrow> task_world \<Rightarrow> task_snapshot list" where
  "running_tasks order now w = map (snapshot_of now) (running_of (map snd (order (tw_tasks w))))"

definition recent_tasks ::
  "((task_id \<times> task) list \<Rightarrow> (task_id \<times> task) list) \<Rightarrow> int \<Rightarrow> nat \<Rightarrow> task_world \<Rightarrow> task_snapshot list" where
  "recent_tasks order now limit w =
    map (snapshot_of now) (take limit (sort_key (\<lambda>t. - tk_started_at t) (map snd (order (tw_tasks w)))))"

definition active_count :: "task_world \<Rightarrow> nat" where
  "active_count w = length (running_of (map snd (tw_tasks w)))"

fun is_background :: "task_kind \<Rightarrow> bool" where
  "is_background TkConnect = True"
| "is_background TkDisconnect = True"
| "is_background (TkHook _) = True"
| "is_background TkSwitchDatabase = True"
| "is_background TkLoadSchema = True"
| "is_background TkSchemaRefresh = True"
| "is_background TkSchemaDrop = True"
| "is_background TkKeyScan = True"
| "is_background _ = False"

definition background_task_count :: "task_world \<Rightarrow> nat" where
  "background_task_count w = length (filter (\<lambda>t. is_background (tk_kind t)) (running_of (map snd (tw_tasks w))))"

definition has_running_tasks :: "task_world \<Rightarrow> bool" where
  "has_running_tasks w \<longleftrightarrow> list_ex (\<lambda>(_, t). tk_status t = Running) (tw_tasks w)"

definition NANOS :: int where
  "NANOS = 10 ^ 9"

definition outlives_cleanup :: "int \<Rightarrow> int \<Rightarrow> task \<Rightarrow> bool" where
  "outlives_cleanup now max_age_secs t \<longleftrightarrow>
    (case tk_status t of
       Failed _ \<Rightarrow> True
     | st \<Rightarrow>
         (if is_terminal st
          then (case tk_completed_at t of
              Some completed \<Rightarrow> max 0 (now - completed) div NANOS < max_age_secs
            | None \<Rightarrow> True)
          else True))"

definition cleanup_completed :: "int \<Rightarrow> int \<Rightarrow> task_world \<Rightarrow> task_world" where
  "cleanup_completed now max_age_secs w =
    w\<lparr>tw_tasks := filter (\<lambda>(_, t). outlives_cleanup now max_age_secs t) (tw_tasks w)\<rparr>"

definition remove_task :: "task_id \<Rightarrow> task_world \<Rightarrow> task_world" where
  "remove_task i w = w\<lparr>tw_tasks := AList.delete i (tw_tasks w)\<rparr>"

definition current_status_message ::
  "((task_id \<times> task) list \<Rightarrow> (task_id \<times> task) list) \<Rightarrow> task_world \<Rightarrow> string option" where
  "current_status_message order w =
    (case running_of (map snd (order (tw_tasks w))) of
       [] \<Rightarrow> None
     | [t] \<Rightarrow> Some (tk_description t)
     | ts \<Rightarrow> Some (show_nat (length ts) @ '' tasks running...''))"

definition last_completed_task ::
  "((task_id \<times> task) list \<Rightarrow> (task_id \<times> task) list) \<Rightarrow> int \<Rightarrow> task_world \<Rightarrow> task_snapshot option" where
  "last_completed_task order now w =
    map_option (snapshot_of now)
      (max_by_key (\<lambda>t. the (tk_completed_at t))
        (filter (\<lambda>t. tk_completed_at t \<noteq> None)
          (filter (\<lambda>t. is_terminal (tk_status t)) (map snd (order (tw_tasks w))))))"

section \<open>The slot\<close>

text \<open>The slot is part of its owner's state; its operations act on the cells.\<close>

type_synonym task_slot = "(task_id \<times> nat) option"

definition slot_new :: task_slot where
  "slot_new = None"

definition slot_start :: "task_id \<Rightarrow> nat \<Rightarrow> task_slot \<times> task_world \<Rightarrow> (task_slot \<times> task_world) \<times> task_id option" where
  "slot_start i cancel_token sw =
    (case sw of (slot, w) \<Rightarrow>
       (case slot of
          Some (old_id, old_token) \<Rightarrow> ((Some (i, cancel_token), token_cancel old_token w), Some old_id)
        | None \<Rightarrow> ((Some (i, cancel_token), w), None)))"

definition slot_cancel :: "task_slot \<times> task_world \<Rightarrow> (task_slot \<times> task_world) \<times> task_id option" where
  "slot_cancel sw =
    (case sw of (slot, w) \<Rightarrow>
       (case slot of
          Some (i, tok) \<Rightarrow> ((None, token_cancel tok w), Some i)
        | None \<Rightarrow> ((None, w), None)))"

definition slot_take :: "task_slot \<Rightarrow> task_slot \<times> (task_id \<times> nat) option" where
  "slot_take slot = (None, slot)"

definition slot_take_if :: "task_id \<Rightarrow> task_slot \<Rightarrow> task_slot \<times> (task_id \<times> nat) option" where
  "slot_take_if expected slot =
    (if is_some_and slot (\<lambda>(i, _). i = expected) then slot_take slot else (slot, None))"

definition slot_is_active :: "task_world \<Rightarrow> task_slot \<Rightarrow> bool" where
  "slot_is_active w slot \<longleftrightarrow> is_some_and slot (\<lambda>(_, tok). \<not> is_cancelled w tok)"

definition slot_active_token :: "task_slot \<Rightarrow> nat option" where
  "slot_active_token slot = map_option snd slot"

section \<open>The document task runner\<close>

text \<open>
  The runner's own fields and the application's tasks it updates.  A
  \<open>MutationCancelHandle\<close> wraps the token, so it is the same address.
\<close>

record task_runner =
  rn_primary :: task_slot
  rn_profile_id :: "uuid option"
  rn_world :: task_world

definition runner_new :: "task_world \<Rightarrow> task_runner" where
  "runner_new w = \<lparr>rn_primary = slot_new, rn_profile_id = None, rn_world = w\<rparr>"

definition set_profile_id :: "uuid \<Rightarrow> task_runner \<Rightarrow> task_runner" where
  "set_profile_id p r = r\<lparr>rn_profile_id := Some p\<rparr>"

definition clear_profile_id :: "task_runner \<Rightarrow> task_runner" where
  "clear_profile_id r = r\<lparr>rn_profile_id := None\<rparr>"

definition default_target :: "task_runner \<Rightarrow> task_target option" where
  "default_target r = map_option (\<lambda>p. \<lparr>tt_profile_id = p, tt_database = None\<rparr>) (rn_profile_id r)"

definition start_primary_for_target ::
  "task_id \<Rightarrow> int \<Rightarrow> task_kind \<Rightarrow> string \<Rightarrow> task_target option \<Rightarrow> task_runner \<Rightarrow>
    task_runner \<times> task_id \<times> nat" where
  "start_primary_for_target new_v4 now kind description target r =
    (let (w1, i, cancel_token) = start_for_target new_v4 now kind description target (rn_world r);
         ((slot, w2), previous) = slot_start i cancel_token (rn_primary r, w1);
         w3 = (case previous of Some old_id \<Rightarrow> fst (cancel now old_id w2) | None \<Rightarrow> w2)
     in (r\<lparr>rn_primary := slot, rn_world := w3\<rparr>, i, cancel_token))"

definition start_primary ::
  "task_id \<Rightarrow> int \<Rightarrow> task_kind \<Rightarrow> string \<Rightarrow> task_runner \<Rightarrow> task_runner \<times> task_id \<times> nat" where
  "start_primary new_v4 now kind description r =
    start_primary_for_target new_v4 now kind description (default_target r) r"

definition complete_primary :: "int \<Rightarrow> task_id \<Rightarrow> task_runner \<Rightarrow> task_runner" where
  "complete_primary now i r =
    (case slot_take_if i (rn_primary r) of
       (slot, Some _) \<Rightarrow> r\<lparr>rn_primary := slot, rn_world := complete now i (rn_world r)\<rparr>
     | (slot, None) \<Rightarrow> r\<lparr>rn_primary := slot\<rparr>)"

definition fail_primary :: "int \<Rightarrow> task_id \<Rightarrow> string \<Rightarrow> task_runner \<Rightarrow> task_runner" where
  "fail_primary now i err r =
    (case slot_take_if i (rn_primary r) of
       (slot, Some _) \<Rightarrow> r\<lparr>rn_primary := slot, rn_world := fail now i err (rn_world r)\<rparr>
     | (slot, None) \<Rightarrow> r\<lparr>rn_primary := slot\<rparr>)"

definition cancel_primary :: "int \<Rightarrow> task_runner \<Rightarrow> task_runner \<times> bool" where
  "cancel_primary now r =
    (case slot_cancel (rn_primary r, rn_world r) of
       ((slot, w), Some old_id) \<Rightarrow>
         (r\<lparr>rn_primary := slot, rn_world := fst (cancel now old_id w)\<rparr>, True)
     | ((slot, w), None) \<Rightarrow> (r\<lparr>rn_primary := slot, rn_world := w\<rparr>, False))"

definition clear_primary :: "task_id \<Rightarrow> task_runner \<Rightarrow> task_runner" where
  "clear_primary i r = r\<lparr>rn_primary := fst (slot_take_if i (rn_primary r))\<rparr>"

definition is_primary_active :: "task_runner \<Rightarrow> bool" where
  "is_primary_active r \<longleftrightarrow> slot_is_active (rn_world r) (rn_primary r)"

definition start_mutation ::
  "task_id \<Rightarrow> int \<Rightarrow> task_kind \<Rightarrow> string \<Rightarrow> task_runner \<Rightarrow> task_runner \<times> task_id \<times> nat" where
  "start_mutation new_v4 now kind description r =
    (let (w, i, cancel_token) =
       start_for_target new_v4 now kind description (default_target r) (rn_world r)
     in (r\<lparr>rn_world := mark_uncancellable i w\<rparr>, i, cancel_token))"

definition start_cancellable_mutation ::
  "task_id \<Rightarrow> int \<Rightarrow> task_kind \<Rightarrow> string \<Rightarrow> task_runner \<Rightarrow> task_runner \<times> task_id \<times> nat" where
  "start_cancellable_mutation new_v4 now kind description r =
    (let (w, i, cancel_token) =
       start_for_target new_v4 now kind description (default_target r) (rn_world r)
     in (r\<lparr>rn_world := w\<rparr>, i, cancel_token))"

definition cancel_mutation :: "int \<Rightarrow> task_id \<Rightarrow> task_runner \<Rightarrow> task_runner" where
  "cancel_mutation now i r = r\<lparr>rn_world := fst (cancel now i (rn_world r))\<rparr>"

definition complete_mutation :: "int \<Rightarrow> task_id \<Rightarrow> task_runner \<Rightarrow> task_runner" where
  "complete_mutation now i r = r\<lparr>rn_world := complete now i (rn_world r)\<rparr>"

definition fail_mutation :: "int \<Rightarrow> task_id \<Rightarrow> string \<Rightarrow> task_runner \<Rightarrow> task_runner" where
  "fail_mutation now i err r = r\<lparr>rn_world := fail now i err (rn_world r)\<rparr>"

section \<open>Bounded output stays bounded\<close>

lemma safe_end_loop_bound:
  assumes "j = utf8_len pre" and "j \<le> max_bytes"
  shows "\<exists>n. safe_end_loop max_bytes j j s = utf8_len (pre @ take n s) \<and>
    utf8_len (pre @ take n s) \<le> max_bytes"
  using assms
proof (induction s arbitrary: pre j)
  case (Cons c s)
  show ?case
  proof (cases "max_bytes < j + len_utf8 c")
    case True
    with Cons.prems show ?thesis by (intro exI [of _ 0]) simp
  next
    case False
    then obtain n where "safe_end_loop max_bytes (j + len_utf8 c) (j + len_utf8 c) s = utf8_len ((pre @ [c]) @ take n s)"
      "utf8_len ((pre @ [c]) @ take n s) \<le> max_bytes"
      using Cons.IH [of "j + len_utf8 c" "pre @ [c]"] Cons.prems by auto
    with False show ?thesis by (intro exI [of _ "Suc n"]) (simp add: Let_def)
  qed
qed simp

lemma safe_prefix_prefix: "\<exists>n. safe_prefix_by_bytes s m = take n s"
  and safe_prefix_bound: "utf8_len (safe_prefix_by_bytes s m) \<le> m"
proof -
  obtain n where n: "safe_end_loop m 0 0 s = utf8_len (take n s)" "utf8_len (take n s) \<le> m"
    using safe_end_loop_bound [of 0 "[]" m s] by auto
  then have "slice_to (safe_end_loop m 0 0 s) s = take n s" by (simp add: slice_to_boundary)
  with n show "utf8_len (safe_prefix_by_bytes s m) \<le> m" "\<exists>n. safe_prefix_by_bytes s m = take n s"
    by (auto simp: safe_prefix_by_bytes_def intro: exI [of _ "length s"] exI [of _ n])
qed

lemma append_with_limit_bound:
  "utf8_len target \<le> m \<Longrightarrow> utf8_len (append_with_limit target chunk m notice) \<le> m"
  using safe_prefix_bound [of chunk "m - utf8_len target - utf8_len notice"]
    safe_prefix_bound [of notice "m - utf8_len target"]
  by (auto simp: append_with_limit_def Let_def)

section \<open>The invariant of the manager\<close>

text \<open>
  A task is stored under its own identifier, is stamped when and only when it has
  ended, has its flag set when it was cancelled, and collects a bounded amount of
  output while it runs.  No two tasks share a token.
\<close>

definition task_ok :: "bool list \<Rightarrow> task_id \<Rightarrow> task \<Rightarrow> bool" where
  "task_ok flags i t \<longleftrightarrow>
    tk_id t = i \<and> tk_cancel_token t < length flags \<and>
    (tk_completed_at t = None \<longleftrightarrow> tk_status t = Running) \<and>
    (tk_status t = Cancelled \<longrightarrow> flags ! tk_cancel_token t) \<and>
    (tk_status t = Running \<longrightarrow> is_none_or (tk_details t) (\<lambda>d. utf8_len d \<le> MAX_TASK_DETAILS_BYTES))"

definition world_ok :: "task_world \<Rightarrow> bool" where
  "world_ok w \<longleftrightarrow>
    distinct (map fst (tw_tasks w)) \<and>
    (\<forall>i t. task_get w i = Some t \<longrightarrow> task_ok (tw_flags w) i t) \<and>
    (\<forall>i j t u. task_get w i = Some t \<longrightarrow> task_get w j = Some u \<longrightarrow>
      tk_cancel_token t = tk_cancel_token u \<longrightarrow> i = j)"

lemma world_okD: "world_ok w \<Longrightarrow> task_get w i = Some t \<Longrightarrow> task_ok (tw_flags w) i t"
  by (simp add: world_ok_def)

lemma world_ok_new: "world_ok task_manager_new"
  by (simp add: world_ok_def task_manager_new_def task_get_def)

lemma task_get_update [simp]:
  "task_get (task_update i f w) j = (if j = i then map_option f (task_get w i) else task_get w j)"
  by (auto simp: task_update_def task_get_def split: option.splits)

lemma tw_flags_update [simp]: "tw_flags (task_update i f w) = tw_flags w"
  by (simp add: task_update_def split: option.split)

lemma distinct_update [simp]:
  "distinct (map fst (tw_tasks w)) \<Longrightarrow> distinct (map fst (tw_tasks (task_update i f w)))"
  by (simp add: task_update_def distinct_update split: option.split)

lemma world_ok_update:
  assumes "world_ok w"
    and "\<And>t. task_get w i = Some t \<Longrightarrow> task_ok (tw_flags w) i t \<Longrightarrow>
      task_ok (tw_flags w) i (f t) \<and> tk_cancel_token (f t) = tk_cancel_token t"
  shows "world_ok (task_update i f w)"
proof -
  have token: "task_get (task_update i f w) j = Some u \<Longrightarrow>
    \<exists>t. task_get w j = Some t \<and> tk_cancel_token t = tk_cancel_token u" for j u
    using assms(2) world_okD [OF assms(1)] by (auto split: if_splits)
  have "j = k" if "task_get (task_update i f w) j = Some t" "task_get (task_update i f w) k = Some u"
    "tk_cancel_token t = tk_cancel_token u" for j k t u
    using token [OF that(1)] token [OF that(2)] that(3) assms(1) unfolding world_ok_def by metis
  moreover have "task_ok (tw_flags w) j u" if "task_get (task_update i f w) j = Some u" for j u
    using that assms(2) world_okD [OF assms(1)] by (auto split: if_splits)
  moreover have "distinct (map fst (tw_tasks (task_update i f w)))"
    using assms(1) by (simp add: world_ok_def)
  ultimately show ?thesis unfolding world_ok_def tw_flags_update by blast
qed

lemma task_get_token_cancel [simp]: "task_get (token_cancel tok w) i = task_get w i"
  by (simp add: token_cancel_def task_get_def)

lemma nth_set_flag [simp]: "k < length flags \<Longrightarrow> flags[tok := True] ! k \<longleftrightarrow> flags ! k \<or> k = tok"
  by (cases "k = tok") simp_all

lemma tw_flags_token_cancel [simp]: "tw_flags (token_cancel tok w) = (tw_flags w)[tok := True]"
  by (simp add: token_cancel_def)

lemma is_cancelled_token_cancel:
  "is_cancelled (token_cancel tok w) k \<longleftrightarrow> is_cancelled w k \<or> k = tok \<and> tok < length (tw_flags w)"
  by (auto simp: is_cancelled_def)

lemma task_ok_token_cancel: "task_ok flags i t \<Longrightarrow> task_ok (flags[tok := True]) i t"
  by (auto simp: task_ok_def)

lemma world_ok_token_cancel: "world_ok w \<Longrightarrow> world_ok (token_cancel tok w)"
  unfolding world_ok_def task_get_token_cancel
  by (auto simp: token_cancel_def task_ok_token_cancel)

lemma world_ok_cancel: "world_ok w \<Longrightarrow> world_ok (fst (cancel now i w))"
proof -
  assume ok: "world_ok w"
  show ?thesis
  proof (cases "opt_filter (\<lambda>t. tk_status t = Running) (task_get w i)")
    case (Some t)
    let ?w = "token_cancel (tk_cancel_token t) w"
    have "task_get w i = Some t" using Some by simp
    with world_okD [OF ok this] have "world_ok (task_update i
      (\<lambda>t. t\<lparr>tk_status := Cancelled, tk_completed_at := Some now\<rparr>) ?w)"
      by (intro world_ok_update [OF world_ok_token_cancel [OF ok]]) (simp add: task_ok_def)
    with Some show ?thesis by (simp add: cancel_def)
  qed (use ok in \<open>simp add: cancel_def\<close>)
qed

lemma start_for_target_simps [simp]:
  "tw_flags (fst (start_for_target i now kind descr target w)) = tw_flags w @ [False]"
  "fst (snd (start_for_target i now kind descr target w)) = i"
  "snd (snd (start_for_target i now kind descr target w)) = length (tw_flags w)"
  "task_get (fst (start_for_target i now kind descr target w)) j =
    (if j = i
     then Some \<lparr>tk_id = i, tk_kind = kind, tk_description = descr, tk_status = Running,
              tk_started_at = now, tk_completed_at = None, tk_progress = None, tk_details = None,
              tk_profile_id = map_option tt_profile_id target, tk_target = target,
              tk_query_text = None, tk_cancel_token = length (tw_flags w), tk_accepts_cancel = True\<rparr>
     else task_get w j)"
  by (simp_all add: start_for_target_def token_new_def task_get_def)

lemma task_ok_append: "task_ok flags i t \<Longrightarrow> task_ok (flags @ [False]) i t"
  by (auto simp: task_ok_def nth_append)

lemma world_ok_start:
  assumes ok: "world_ok w"
  shows "world_ok (fst (start_for_target i now kind descr target w))"
proof -
  let ?w = "fst (start_for_target i now kind descr target w)"
  have old: "task_get w j = Some t \<Longrightarrow> tk_cancel_token t < length (tw_flags w)" for j t
    using world_okD [OF ok, of j t] by (simp add: task_ok_def)
  have inj: "task_get w j = Some t \<Longrightarrow> task_get w k = Some u \<Longrightarrow> tk_cancel_token t = tk_cancel_token u \<Longrightarrow> j = k"
    for j k t u using ok unfolding world_ok_def by blast
  have "j = k" if "task_get ?w j = Some t" "task_get ?w k = Some u" "tk_cancel_token t = tk_cancel_token u" for j k t u
    using that inj [of j t k u] old [of j t] old [of k u] by (auto split: if_splits)
  moreover have "task_ok (tw_flags ?w) j t" if "task_get ?w j = Some t" for j t
    using that world_okD [OF ok, of j t] by (auto simp: task_ok_append split: if_splits) (simp add: task_ok_def)
  moreover have "distinct (map fst (tw_tasks ?w))"
    using ok by (simp add: start_for_target_def token_new_def world_ok_def AList.distinct_update)
  ultimately show ?thesis unfolding world_ok_def by blast
qed

lemma map_of_filter_snd:
  "distinct (map fst m) \<Longrightarrow> map_of (filter (\<lambda>(_, v). p v) m) k = opt_filter p (map_of m k)"
  by (induction m) (auto simp: opt_filter_def map_of_eq_None_iff image_iff split: option.splits)


section \<open>Runs of the manager\<close>

text \<open>
  The identifiers drawn so far and the tasks: \<open>Uuid::new_v4\<close> never repeats.  Besides
  the manager's own calls, whoever holds a token may set its flag.
\<close>

inductive task_step :: "task_id set \<times> task_world \<Rightarrow> task_id set \<times> task_world \<Rightarrow> bool" where
  st_start: "i \<notin> U \<Longrightarrow> task_step (U, w) (insert i U, fst (start_for_target i now kind descr target w))"
| st_mark: "task_step (U, w) (U, mark_uncancellable i w)"
| st_text: "task_step (U, w) (U, set_query_text i q w)"
| st_complete: "task_step (U, w) (U, complete now i w)"
| st_complete_details: "task_step (U, w) (U, complete_with_details now i d w)"
| st_append: "task_step (U, w) (U, append_details i d w)"
| st_fail: "task_step (U, w) (U, fail now i e w)"
| st_fail_details: "task_step (U, w) (U, fail_with_details now i e d w)"
| st_cancel: "task_step (U, w) (U, fst (cancel now i w))"
| st_cancel_all: "task_step (U, w) (U, fst (cancel_all order now w))"
| st_progress: "task_step (U, w) (U, update_progress i f w)"
| st_cleanup: "task_step (U, w) (U, cleanup_completed now age w)"
| st_remove: "task_step (U, w) (U, remove_task i w)"
| st_token: "task_step (U, w) (U, token_cancel tok w)"

lemma task_get_remove [simp]: "task_get (remove_task i w) j = (if j = i then None else task_get w j)"
  by (simp add: task_get_def remove_task_def)

lemma task_get_cleanup:
  "world_ok w \<Longrightarrow> task_get (cleanup_completed now age w) j = opt_filter (outlives_cleanup now age) (task_get w j)"
  by (simp add: task_get_def cleanup_completed_def world_ok_def map_of_filter_snd)

lemma world_ok_sub:
  assumes "world_ok w" and "distinct (map fst (tw_tasks w'))" and "tw_flags w' = tw_flags w"
    and "\<And>i t. task_get w' i = Some t \<Longrightarrow> task_get w i = Some t"
  shows "world_ok w'"
  using assms unfolding world_ok_def by metis

lemma world_ok_cancel_each: "world_ok w \<Longrightarrow> world_ok (fst (cancel_each now ids n w))"
  by (induction ids arbitrary: n w) (simp_all add: case_prod_unfold Let_def world_ok_cancel)

lemma append_details_ok:
  "is_none_or d (\<lambda>d. utf8_len d \<le> MAX_TASK_DETAILS_BYTES) \<Longrightarrow>
   utf8_len (append_with_limit (unwrap_or [] d) chunk MAX_TASK_DETAILS_BYTES notice) \<le> MAX_TASK_DETAILS_BYTES"
  by (cases d) (simp_all add: append_with_limit_bound)

text \<open>The changes that keep a task well formed.\<close>

lemma world_ok_when_running:
  assumes "world_ok w"
    and "\<And>t. tk_status t = Running \<Longrightarrow> task_ok (tw_flags w) i t \<Longrightarrow>
      task_ok (tw_flags w) i (f t) \<and> tk_cancel_token (f t) = tk_cancel_token t"
  shows "world_ok (task_update i (when_running f) w)"
  using assms by (intro world_ok_update) (simp_all add: when_running_def)

lemma world_ok_ops:
  assumes ok: "world_ok w"
  shows "world_ok (mark_uncancellable i w)" "world_ok (set_query_text i q w)"
    "world_ok (complete now i w)" "world_ok (complete_with_details now i d w)"
    "world_ok (fail now i e w)" "world_ok (fail_with_details now i e d w)"
    "world_ok (update_progress i f w)"
  unfolding mark_uncancellable_def set_query_text_def complete_def complete_with_details_def
    fail_def fail_with_details_def update_progress_def
  by (rule world_ok_update [OF ok] world_ok_when_running [OF ok], simp add: task_ok_def)+

lemma world_ok_append_details: "world_ok w \<Longrightarrow> world_ok (append_details i d w)"
  unfolding append_details_def
  by (rule world_ok_update) (simp_all add: task_ok_def is_terminal_iff append_details_ok)

lemma world_ok_cleanup: "world_ok w \<Longrightarrow> world_ok (cleanup_completed now age w)"
  by (rule world_ok_sub [of w])
    (simp_all add: task_get_cleanup, simp_all add: cleanup_completed_def world_ok_def distinct_map_filter)

lemma world_ok_remove: "world_ok w \<Longrightarrow> world_ok (remove_task i w)"
  by (rule world_ok_sub [of w])
    (simp_all split: if_splits, simp_all add: remove_task_def world_ok_def AList.distinct_delete)

lemma task_step_ok: "task_step s s' \<Longrightarrow> world_ok (snd s) \<Longrightarrow> world_ok (snd s')"
  by (induction rule: task_step.induct)
    (simp_all add: world_ok_start world_ok_ops world_ok_append_details world_ok_cancel cancel_all_def
      world_ok_cancel_each world_ok_cleanup world_ok_remove world_ok_token_cancel)

text \<open>What no later call changes of a task that has ended.\<close>

definition ended_as :: "task \<Rightarrow> task \<Rightarrow> bool" where
  "ended_as t t' \<longleftrightarrow> tk_status t' = tk_status t \<and> tk_completed_at t' = tk_completed_at t \<and>
    tk_details t' = tk_details t \<and> tk_progress t' = tk_progress t \<and>
    tk_started_at t' = tk_started_at t \<and> tk_cancel_token t' = tk_cancel_token t"

definition frozen :: "task \<Rightarrow> task_id \<Rightarrow> task_id set \<times> task_world \<Rightarrow> bool" where
  "frozen t i s \<longleftrightarrow> i \<in> fst s \<and> (\<forall>u. task_get (snd s) i = Some u \<longrightarrow> ended_as t u)"

lemma frozen_update:
  assumes "frozen t i (U, w)" and "is_terminal (tk_status t)"
    and "\<And>u. is_terminal (tk_status u) \<Longrightarrow> ended_as u (f u)"
  shows "frozen t i (U, task_update j f w)"
proof -
  have "ended_as t (f u)" if "task_get w i = Some u" for u
  proof -
    have "ended_as t u" using assms(1) that by (simp add: frozen_def)
    moreover from this assms(2) have "ended_as u (f u)" by (intro assms(3)) (simp add: ended_as_def)
    ultimately show ?thesis by (simp add: ended_as_def)
  qed
  with assms(1) show ?thesis by (auto simp: frozen_def)
qed

lemma frozen_cancel:
  assumes "frozen t i (U, w)" and "is_terminal (tk_status t)"
  shows "frozen t i (U, fst (cancel now j w))"
proof (cases "opt_filter (\<lambda>t. tk_status t = Running) (task_get w j)")
  case (Some u)
  with assms have "i \<noteq> j" by (auto simp: frozen_def ended_as_def is_terminal_iff)
  with assms(1) Some show ?thesis by (simp add: cancel_def frozen_def)
qed (use assms in \<open>simp add: cancel_def\<close>)

lemma frozen_cancel_each:
  "frozen t i (U, w) \<Longrightarrow> is_terminal (tk_status t) \<Longrightarrow> frozen t i (U, fst (cancel_each now ids n w))"
  by (induction ids arbitrary: n w) (simp_all add: case_prod_unfold Let_def frozen_cancel)

lemma frozen_ops:
  assumes fr: "frozen t i (U, w)" and ended: "is_terminal (tk_status t)"
  shows "frozen t i (U, mark_uncancellable j w)" "frozen t i (U, set_query_text j q w)"
    "frozen t i (U, complete now j w)" "frozen t i (U, complete_with_details now j d w)"
    "frozen t i (U, append_details j d w)"
    "frozen t i (U, fail now j e w)" "frozen t i (U, fail_with_details now j e d w)"
    "frozen t i (U, update_progress j f w)"
  unfolding mark_uncancellable_def set_query_text_def complete_def complete_with_details_def
    append_details_def fail_def fail_with_details_def update_progress_def when_running_def
  by (rule frozen_update [OF fr ended], simp add: ended_as_def is_terminal_iff)+

lemma task_step_frozen:
  "task_step s s' \<Longrightarrow> world_ok (snd s) \<Longrightarrow> is_terminal (tk_status t) \<Longrightarrow> frozen t i s \<Longrightarrow> frozen t i s'"
proof (induction rule: task_step.induct)
  case (st_start j U w now kind descr target)
  then show ?case by (auto simp: frozen_def)
next
  case (st_cleanup U w now age)
  then show ?case by (simp add: frozen_def task_get_cleanup)
qed (simp_all add: cancel_all_def frozen_cancel frozen_cancel_each frozen_ops, simp_all add: frozen_def)

section \<open>Cancelling everything\<close>

lemma cancel_get:
  "task_get (fst (cancel now i w)) j =
     (if j = i then map_option (when_running (\<lambda>t. t\<lparr>tk_status := Cancelled, tk_completed_at := Some now\<rparr>)) (task_get w i)
      else task_get w j)"
  and cancel_answer: "snd (cancel now i w) \<longleftrightarrow> is_some_and (task_get w i) (\<lambda>t. tk_status t = Running)"
  and cancel_flags: "is_cancelled (fst (cancel now i w)) k \<longleftrightarrow> is_cancelled w k \<or>
     is_some_and (task_get w i) (\<lambda>t. tk_status t = Running \<and> tk_cancel_token t = k \<and> k < length (tw_flags w))"
  and cancel_cells: "length (tw_flags (fst (cancel now i w))) = length (tw_flags w)"
  by (auto simp: cancel_def when_running_def opt_filter_def is_some_and_def is_cancelled_def
      split: option.splits if_splits)

definition stop_task :: "int \<Rightarrow> task \<Rightarrow> task" where
  "stop_task now = when_running (\<lambda>t. t\<lparr>tk_status := Cancelled, tk_completed_at := Some now\<rparr>)"

lemma stop_task_idem [simp]: "stop_task now (stop_task now t) = stop_task now t"
  by (simp add: stop_task_def when_running_def)

lemma stop_task_running [simp]: "tk_status (stop_task now t) \<noteq> Running"
  by (simp add: stop_task_def when_running_def)

lemma cancel_each_get:
  "task_get (fst (cancel_each now ids n w)) j =
     (if j \<in> set ids then map_option (stop_task now) (task_get w j) else task_get w j)"
proof (induction ids arbitrary: n w)
  case (Cons i ids)
  then show ?case
    by (auto simp: case_prod_unfold Let_def cancel_get stop_task_def [symmetric] option.map_comp comp_def)
qed simp

lemma cancel_each_flags:
  "is_cancelled (fst (cancel_each now ids n w)) k \<longleftrightarrow> is_cancelled w k \<or>
     (\<exists>i\<in>set ids. is_some_and (task_get w i)
        (\<lambda>t. tk_status t = Running \<and> tk_cancel_token t = k \<and> k < length (tw_flags w)))"
proof (induction ids arbitrary: n w)
  case (Cons i ids)
  have "is_some_and (task_get (fst (cancel now i w)) j) (\<lambda>t. tk_status t = Running \<and> P t) \<longleftrightarrow>
      j \<noteq> i \<and> is_some_and (task_get w j) (\<lambda>t. tk_status t = Running \<and> P t)" for j P
    by (auto simp: cancel_get is_some_and_def when_running_def split: option.splits)
  with Cons show ?case
    by (auto simp: case_prod_unfold Let_def cancel_flags cancel_cells)
qed simp

lemma cancel_each_count:
  "snd (cancel_each now ids n w) =
     n + card {i \<in> set ids. is_some_and (task_get w i) (\<lambda>t. tk_status t = Running)}"
proof (induction ids arbitrary: n w)
  case (Cons i ids)
  let ?run = "\<lambda>w. {j \<in> set ids. is_some_and (task_get w j) (\<lambda>t. tk_status t = Running)}"
  have "?run (fst (cancel now i w)) = ?run w - {i}"
    by (auto simp: cancel_get is_some_and_def when_running_def split: option.splits)
  moreover have "{j \<in> set (i # ids). is_some_and (task_get w j) (\<lambda>t. tk_status t = Running)} =
      (if is_some_and (task_get w i) (\<lambda>t. tk_status t = Running) then insert i (?run w - {i}) else ?run w - {i})"
    by auto
  ultimately show ?case
    using Cons.IH [of "if snd (cancel now i w) then n + 1 else n" "fst (cancel now i w)"]
    by (simp add: case_prod_unfold Let_def cancel_answer card.insert_remove)
qed simp

lemma running_keys:
  assumes "distinct (map fst (tw_tasks w))" and "set ts = set (tw_tasks w)"
  shows "fst ` set (filter (\<lambda>(_, t). tk_status t = Running) ts) =
    {i. is_some_and (task_get w i) (\<lambda>t. tk_status t = Running)}" (is "?l = ?r")
proof (rule set_eqI)
  fix i
  have "i \<in> ?l \<longleftrightarrow> (\<exists>t. (i, t) \<in> set (tw_tasks w) \<and> tk_status t = Running)"
    by (simp add: assms(2) image_iff case_prod_unfold)
  also have "\<dots> \<longleftrightarrow> (\<exists>t. task_get w i = Some t \<and> tk_status t = Running)"
    by (simp add: task_get_def map_of_eq_Some_iff [OF assms(1)])
  finally show "i \<in> ?l \<longleftrightarrow> i \<in> ?r" by (simp add: is_some_and_iff)
qed

lemma active_count_card:
  assumes "distinct (map fst (tw_tasks w))"
  shows "active_count w = card {i. is_some_and (task_get w i) (\<lambda>t. tk_status t = Running)}"
proof -
  let ?run = "filter (\<lambda>(_, t). tk_status t = Running) (tw_tasks w)"
  have "distinct (map fst ?run)" using assms by (rule distinct_map_filter)
  from distinct_card [OF this] show ?thesis
    unfolding set_map running_keys [OF assms refl]
    by (simp add: active_count_def running_of_def filter_map comp_def case_prod_unfold)
qed

lemma has_running_iff:
  assumes "distinct (map fst (tw_tasks w))"
  shows "has_running_tasks w \<longleftrightarrow> (\<exists>i t. task_get w i = Some t \<and> tk_status t = Running)"
  by (simp add: has_running_tasks_def list_ex_iff task_get_def map_of_eq_Some_iff [OF assms] Bex_def)

lemma running_ids:
  assumes "hash_order order" and "distinct (map fst (tw_tasks w))"
  shows "set (map fst (filter (\<lambda>(_, t). tk_status t = Running) (order (tw_tasks w)))) =
    {i. is_some_and (task_get w i) (\<lambda>t. tk_status t = Running)}"
  using running_keys [OF assms(2) hash_order_set [OF assms(1)]] by simp

lemma cancel_all_leaves_none:
  assumes "world_ok w" and "hash_order order"
  shows "\<not> has_running_tasks (fst (cancel_all order now w))"
proof -
  have d: "distinct (map fst (tw_tasks w))" using assms(1) by (simp add: world_ok_def)
  let ?ids = "map fst (filter (\<lambda>(_, t). tk_status t = Running) (order (tw_tasks w)))"
  have "world_ok (fst (cancel_each now ?ids 0 w))" using assms(1) by (rule world_ok_cancel_each)
  then have "distinct (map fst (tw_tasks (fst (cancel_each now ?ids 0 w))))" by (simp add: world_ok_def)
  from has_running_iff [OF this] show ?thesis
    unfolding cancel_all_def cancel_each_get running_ids [OF assms(2) d]
    by (auto simp: is_some_and_iff split: if_splits)
qed

section \<open>Runs of the document task runner\<close>

text \<open>
  A step of the task manager keeps the token of every task it keeps, and every
  cell.  The slot therefore stays linked to the task it was filled with.
\<close>

definition tracked :: "task_id set \<times> task_world \<Rightarrow> bool" where
  "tracked s \<longleftrightarrow> world_ok (snd s) \<and> (\<forall>j t. task_get (snd s) j = Some t \<longrightarrow> j \<in> fst s)"

definition linked :: "task_id set \<times> task_world \<Rightarrow> task_id \<Rightarrow> nat \<Rightarrow> bool" where
  "linked s i tok \<longleftrightarrow> i \<in> fst s \<and> tok < length (tw_flags (snd s)) \<and>
    (\<forall>t. task_get (snd s) i = Some t \<longrightarrow> tk_cancel_token t = tok)"

lemma length_flags_cancel_each [simp]: "length (tw_flags (fst (cancel_each now ids n w))) = length (tw_flags w)"
  by (induction ids arbitrary: n w) (simp_all add: case_prod_unfold Let_def cancel_cells)

lemma token_stop_task [simp]: "tk_cancel_token (stop_task now t) = tk_cancel_token t"
  by (simp add: stop_task_def when_running_def)

lemma linked_update:
  "(\<And>t. tk_cancel_token (f t) = tk_cancel_token t) \<Longrightarrow> linked (U, task_update j f w) i tok \<longleftrightarrow> linked (U, w) i tok"
  by (auto simp: linked_def)

lemma tracked_update: "world_ok (task_update j f w) \<Longrightarrow> tracked (U, w) \<Longrightarrow> tracked (U, task_update j f w)"
  by (auto simp: tracked_def)

lemma task_step_tracked: "task_step s s' \<Longrightarrow> tracked s \<Longrightarrow> tracked s'"
proof -
  assume step: "task_step s s'" and tr: "tracked s"
  have "\<forall>j t. task_get (snd s') j = Some t \<longrightarrow> j \<in> fst s'"
    using step tr
  proof (induction rule: task_step.induct)
    case (st_cleanup U w now age)
    then show ?case by (simp add: tracked_def task_get_cleanup)
  qed (auto simp: tracked_def mark_uncancellable_def set_query_text_def complete_def complete_with_details_def
      append_details_def fail_def fail_with_details_def update_progress_def cancel_all_def cancel_get
      cancel_each_get split: if_splits)
  with task_step_ok [OF step] tr show ?thesis by (simp add: tracked_def)
qed

lemma task_step_linked: "task_step s s' \<Longrightarrow> tracked s \<Longrightarrow> linked s i tok \<Longrightarrow> linked s' i tok"
proof (induction rule: task_step.induct)
  case (st_start j U w now kind descr target)
  then show ?case by (auto simp: linked_def)
next
  case (st_cleanup U w now age)
  then show ?case by (simp add: tracked_def linked_def task_get_cleanup) (simp add: cleanup_completed_def)
next
  case (st_cancel U w now j)
  then show ?case by (auto simp: linked_def cancel_get cancel_cells when_running_def)
next
  case (st_cancel_all U w order now)
  then show ?case by (auto simp: linked_def cancel_all_def cancel_each_get)
next
  case (st_remove U w j)
  then show ?case by (simp add: linked_def) (simp add: remove_task_def)
next
  case (st_token U w k)
  then show ?case by (simp add: linked_def)
qed (simp_all add: mark_uncancellable_def set_query_text_def complete_def complete_with_details_def
    append_details_def fail_def fail_with_details_def update_progress_def when_running_def linked_update)

definition runner_ok :: "task_id set \<times> task_runner \<Rightarrow> bool" where
  "runner_ok s \<longleftrightarrow> tracked (fst s, rn_world (snd s)) \<and>
    (\<forall>i tok. rn_primary (snd s) = Some (i, tok) \<longrightarrow> linked (fst s, rn_world (snd s)) i tok)"

text \<open>
  One call of the runner, or one step of anybody else on the application's tasks.
  Mutations go through the task manager alone, so they are steps of the second kind
  followed by nothing on the slot.
\<close>

inductive runner_step :: "task_id set \<times> task_runner \<Rightarrow> task_id set \<times> task_runner \<Rightarrow> bool" where
  rs_profile: "runner_step (U, r) (U, set_profile_id p r)"
| rs_no_profile: "runner_step (U, r) (U, clear_profile_id r)"
| rs_start: "i \<notin> U \<Longrightarrow>
    runner_step (U, r) (insert i U, fst (start_primary_for_target i now kind descr target r))"
| rs_complete: "runner_step (U, r) (U, complete_primary now i r)"
| rs_fail: "runner_step (U, r) (U, fail_primary now i e r)"
| rs_cancel: "runner_step (U, r) (U, fst (cancel_primary now r))"
| rs_clear: "runner_step (U, r) (U, clear_primary i r)"
| rs_mutation: "i \<notin> U \<Longrightarrow> runner_step (U, r) (insert i U, fst (start_mutation i now kind descr r))"
| rs_cancellable: "i \<notin> U \<Longrightarrow>
    runner_step (U, r) (insert i U, fst (start_cancellable_mutation i now kind descr r))"
| rs_cancel_mutation: "runner_step (U, r) (U, cancel_mutation now i r)"
| rs_complete_mutation: "runner_step (U, r) (U, complete_mutation now i r)"
| rs_fail_mutation: "runner_step (U, r) (U, fail_mutation now i e r)"
| rs_outside: "task_step (U, rn_world r) (U', w') \<Longrightarrow> runner_step (U, r) (U', r\<lparr>rn_world := w'\<rparr>)"

lemma runner_ok_world:
  assumes "task_step\<^sup>*\<^sup>* (U, rn_world r) (U', w')" and "runner_ok (U, r)"
  shows "runner_ok (U', r\<lparr>rn_world := w'\<rparr>)"
proof -
  have "tracked (U', w') \<and> (\<forall>i tok. linked (U, rn_world r) i tok \<longrightarrow> linked (U', w') i tok)"
    using assms(1)
  proof (induction rule: rtranclp_induct)
    case base
    then show ?case using assms(2) by (simp add: runner_ok_def)
  next
    case (step y z)
    then show ?case using task_step_tracked task_step_linked by blast
  qed
  with assms(2) show ?thesis by (simp add: runner_ok_def)
qed

lemma runner_ok_step:
  "task_step (U, rn_world r) (U', w') \<Longrightarrow> runner_ok (U, r) \<Longrightarrow> runner_ok (U', r\<lparr>rn_world := w'\<rparr>)"
  by (blast intro: runner_ok_world)

lemma runner_ok_empty_slot:
  "runner_ok (U, r) \<Longrightarrow> runner_ok (U, r\<lparr>rn_primary := None\<rparr>)"
  "runner_ok (U, r\<lparr>rn_world := w\<rparr>) \<Longrightarrow> runner_ok (U, r\<lparr>rn_primary := None, rn_world := w\<rparr>)"
  by (simp_all add: runner_ok_def)

lemma slot_take_if_cases:
  "slot_take_if i slot = (if \<exists>tok. slot = Some (i, tok) then (None, slot) else (slot, None))"
  by (cases slot) (auto simp: slot_take_if_def slot_take_def)

lemma start_for_target_answer [simp]:
  "snd (start_for_target i now kind descr target w) = (i, length (tw_flags w))"
  by (rule prod_eqI) simp_all

lemma is_cancelled_start [simp]:
  "is_cancelled (fst (start_for_target i now kind descr target w)) k \<longleftrightarrow> is_cancelled w k"
  by (auto simp: is_cancelled_def nth_append less_Suc_eq)

lemma start_primary_simps:
  "rn_primary (fst (start_primary_for_target i now kind descr target r)) = Some (i, length (tw_flags (rn_world r)))"
  "rn_world (fst (start_primary_for_target i now kind descr target r)) =
    (let w1 = fst (start_for_target i now kind descr target (rn_world r))
     in case rn_primary r of None \<Rightarrow> w1
        | Some (old_id, old_token) \<Rightarrow> fst (cancel now old_id (token_cancel old_token w1)))"
  "snd (start_primary_for_target i now kind descr target r) = (i, length (tw_flags (rn_world r)))"
  by (simp_all add: start_primary_for_target_def slot_start_def Let_def case_prod_unfold split: option.split)

lemma runner_ok_start:
  assumes ok: "runner_ok (U, r)" and fresh: "i \<notin> U"
  shows "runner_ok (insert i U, fst (start_primary_for_target i now kind descr target r))"
proof -
  let ?w = "rn_world r" and ?r = "fst (start_primary_for_target i now kind descr target r)"
  let ?w1 = "fst (start_for_target i now kind descr target ?w)"
  have one: "task_step (U, ?w) (insert i U, ?w1)" using fresh by (rule st_start)
  have tr: "tracked (insert i U, ?w1)" using task_step_tracked [OF one] ok by (simp add: runner_ok_def)
  have ln: "linked (insert i U, ?w1) i (length (tw_flags ?w))" by (simp add: linked_def)
  have "tracked (insert i U, rn_world ?r) \<and> linked (insert i U, rn_world ?r) i (length (tw_flags ?w))"
  proof (cases "rn_primary r")
    case None
    with tr ln show ?thesis by (simp add: start_primary_simps Let_def)
  next
    case (Some a)
    obtain old otok where a: "a = (old, otok)" by (cases a)
    have steps: "task_step (insert i U, ?w1) (insert i U, token_cancel otok ?w1)"
      "task_step (insert i U, token_cancel otok ?w1) (insert i U, fst (cancel now old (token_cancel otok ?w1)))"
      by (rule st_token, rule st_cancel)
    show ?thesis
      using task_step_tracked [OF steps(1) tr] task_step_linked [OF steps(1) tr ln]
        task_step_tracked [OF steps(2)] task_step_linked [OF steps(2)]
      by (simp add: start_primary_simps Let_def Some a)
  qed
  then show ?thesis by (simp add: runner_ok_def start_primary_simps(1))
qed

lemma runner_ok_finish:
  "runner_ok (U, r) \<Longrightarrow> runner_ok (U, complete_primary now i r)"
  "runner_ok (U, r) \<Longrightarrow> runner_ok (U, fail_primary now i e r)"
  "runner_ok (U, r) \<Longrightarrow> runner_ok (U, clear_primary i r)"
  by (simp_all add: complete_primary_def fail_primary_def clear_primary_def slot_take_if_cases
      runner_ok_empty_slot(1) runner_ok_empty_slot(2) [OF runner_ok_step [OF st_complete]]
      runner_ok_empty_slot(2) [OF runner_ok_step [OF st_fail]] split: option.split)

lemma runner_ok_cancel:
  assumes "runner_ok (U, r)" shows "runner_ok (U, fst (cancel_primary now r))"
proof (cases "rn_primary r")
  case (Some a)
  obtain i tok where a: "a = (i, tok)" by (cases a)
  let ?w = "fst (cancel now i (token_cancel tok (rn_world r)))"
  have "task_step\<^sup>*\<^sup>* (U, rn_world r) (U, ?w)"
    by (rule rtranclp_trans [OF r_into_rtranclp r_into_rtranclp]) (rule st_token, rule st_cancel)
  from runner_ok_empty_slot(2) [OF runner_ok_world [OF this assms]] show ?thesis
    by (simp add: cancel_primary_def slot_cancel_def Some a)
qed (use assms in \<open>simp add: cancel_primary_def slot_cancel_def runner_ok_empty_slot\<close>)

lemma runner_ok_start_mutation:
  assumes "runner_ok (U, r)" and "i \<notin> U"
  shows "runner_ok (insert i U, fst (start_mutation i now kind descr r))"
    and "runner_ok (insert i U, fst (start_cancellable_mutation i now kind descr r))"
proof -
  let ?w = "fst (start_for_target i now kind descr (default_target r) (rn_world r))"
  have one: "task_step\<^sup>*\<^sup>* (U, rn_world r) (insert i U, ?w)"
    using st_start [OF assms(2)] by (rule r_into_rtranclp)
  have two: "task_step\<^sup>*\<^sup>* (U, rn_world r) (insert i U, mark_uncancellable i ?w)"
    using one st_mark by (rule rtranclp.rtrancl_into_rtrancl)
  show "runner_ok (insert i U, fst (start_mutation i now kind descr r))"
    using runner_ok_world [OF two assms(1)] by (simp add: start_mutation_def case_prod_unfold Let_def)
  show "runner_ok (insert i U, fst (start_cancellable_mutation i now kind descr r))"
    using runner_ok_world [OF one assms(1)] by (simp add: start_cancellable_mutation_def case_prod_unfold Let_def)
qed

lemma runner_step_ok: "runner_step s s' \<Longrightarrow> runner_ok s \<Longrightarrow> runner_ok s'"
proof (induction rule: runner_step.induct)
  case (rs_outside U r U' w')
  then show ?case by (rule runner_ok_step)
next
  case (rs_cancel_mutation U r now i)
  then show ?case
    unfolding cancel_mutation_def by (rule runner_ok_step [OF st_cancel])
next
  case (rs_complete_mutation U r now i)
  then show ?case
    unfolding complete_mutation_def by (rule runner_ok_step [OF st_complete])
next
  case (rs_fail_mutation U r now i e)
  then show ?case
    unfolding fail_mutation_def by (rule runner_ok_step [OF st_fail])
qed (simp_all add: runner_ok_start runner_ok_finish runner_ok_cancel runner_ok_start_mutation,
    simp_all add: runner_ok_def set_profile_id_def clear_profile_id_def)

section \<open>What callers rely on\<close>

text \<open>
  C32. Whatever calls follow, in any order, the manager's invariant holds: a task has
  an end time exactly when it has ended, a cancelled task's flag is set, and the
  output of a running task stays within four mebibytes.  A task that has ended is
  final: it disappears or keeps its status, end time, output and progress, whoever
  completes, fails, cancels or appends to it later.
\<close>

theorem ended_tasks_are_final:
  assumes "world_ok w" and "task_get w i = Some t" and "is_terminal (tk_status t)" and "i \<in> U"
    and "task_step\<^sup>*\<^sup>* (U, w) (U', w')"
  shows "world_ok w' \<and> (task_get w' i = None \<or> (\<exists>u. task_get w' i = Some u \<and> ended_as t u))"
proof -
  have "frozen t i (U, w)" using assms(2,4) by (simp add: frozen_def ended_as_def)
  with assms(5,1,3) have "world_ok (snd (U', w')) \<and> frozen t i (U', w')"
    by (induction "(U', w')" arbitrary: U' w' rule: rtranclp_induct)
      (auto dest: task_step_ok task_step_frozen)
  then show ?thesis by (cases "task_get w' i") (auto simp: frozen_def)
qed

theorem ended_tasks_are_final_witness:
  "let w = complete 9 7 (fst (start_task 7 5 TkQuery ''select'' task_manager_new));
       w' = append_details 7 ''late'' (fst (cancel 12 7 w))
   in map_option tk_status (task_get w 7) = Some Completed \<and> world_ok w' \<and>
      (task_get w' 7 = None \<or> (\<exists>u. task_get w' 7 = Some u \<and> ended_as (the (task_get w 7)) u))"
proof -
  let ?w = "complete 9 7 (fst (start_task 7 5 TkQuery ''select'' task_manager_new))"
  let ?w' = "append_details 7 ''late'' (fst (cancel 12 7 ?w))"
  have run: "task_step\<^sup>*\<^sup>* ({7}, ?w) ({7}, ?w')"
    by (rule rtranclp_trans [OF r_into_rtranclp r_into_rtranclp]) (rule st_cancel, rule st_append)
  have "world_ok ?w"
    by (simp add: start_task_def world_ok_ops world_ok_start world_ok_new)
  moreover have "map_option tk_status (task_get ?w 7) = Some Completed"
    by (simp add: complete_def start_task_def when_running_def)
  moreover from this obtain t where t: "task_get ?w 7 = Some t" "tk_status t = Completed" by auto
  ultimately show ?thesis
    using ended_tasks_are_final [OF _ t(1) _ _ run] unfolding Let_def by simp
qed

text \<open>
  \<open>cancel_all\<close> leaves nothing running, in whatever order the map is walked: it
  answers the number of tasks that were running, cancels and stamps exactly those,
  sets exactly their flags, and touches no other task.
\<close>

lemma cancel_all_stops_everything:
  assumes "world_ok w" and "hash_order order" and "cancel_all order now w = (w', n)"
  shows "n = active_count w \<and> \<not> has_running_tasks w' \<and>
    (\<forall>i. task_get w' i = map_option (stop_task now) (task_get w i)) \<and>
    (\<forall>k. is_cancelled w' k \<longleftrightarrow> is_cancelled w k \<or>
       (\<exists>i t. task_get w i = Some t \<and> tk_status t = Running \<and> tk_cancel_token t = k))"
proof -
  have d: "distinct (map fst (tw_tasks w))" using assms(1) by (simp add: world_ok_def)
  let ?ids = "map fst (filter (\<lambda>(_, t). tk_status t = Running) (order (tw_tasks w)))"
  note ids = running_ids [OF assms(2) d]
  have w': "w' = fst (cancel_each now ?ids 0 w)" and n: "n = snd (cancel_each now ?ids 0 w)"
    using assms(3) by (simp_all add: cancel_all_def)
  have "tk_status t \<noteq> Running \<Longrightarrow> stop_task now t = t" for t
    by (simp add: stop_task_def when_running_def)
  then have get: "task_get w' i = map_option (stop_task now) (task_get w i)" for i
    unfolding w' cancel_each_get ids by (cases "task_get w i") auto
  have "world_ok w'" unfolding w' using assms(1) by (rule world_ok_cancel_each)
  then have "\<not> has_running_tasks w'"
    by (auto simp: has_running_iff world_ok_def get)
  moreover have "n = active_count w"
    unfolding n cancel_each_count ids active_count_card [OF d] by simp
  moreover have "is_cancelled w' k \<longleftrightarrow> is_cancelled w k \<or>
       (\<exists>i t. task_get w i = Some t \<and> tk_status t = Running \<and> tk_cancel_token t = k)" for k
    unfolding w' cancel_each_flags ids
    using world_okD [OF assms(1)] by (auto simp: is_some_and_iff task_ok_def)
  ultimately show ?thesis using get by blast
qed


text \<open>
  C33. A new primary task supersedes the one before it, at every moment of every
  run: its own token is fresh and its slot active, the previous task is no longer
  running and its token tells its worker to stop, no other task is touched, and
  when the worker reports back late, completing or failing the old identifier
  changes nothing.
\<close>

theorem new_primary_supersedes:
  assumes "runner_step\<^sup>*\<^sup>* ({}, runner_new task_manager_new) (U, r)" and "i \<notin> U"
    and "start_primary i now kind descr r = (r', j, tok)"
  shows "j = i \<and> is_primary_active r' \<and> \<not> is_cancelled (rn_world r') tok \<and>
    map_option tk_status (task_get (rn_world r') i) = Some Running \<and>
    (\<forall>old otok. rn_primary r = Some (old, otok) \<longrightarrow>
       is_cancelled (rn_world r') otok \<and>
       is_none_or (task_get (rn_world r') old) (\<lambda>t. tk_status t \<noteq> Running) \<and>
       complete_primary now' old r' = r' \<and> fail_primary now' old e r' = r') \<and>
    (\<forall>k. k \<noteq> i \<longrightarrow> (\<forall>otok. rn_primary r \<noteq> Some (k, otok)) \<longrightarrow>
       task_get (rn_world r') k = task_get (rn_world r) k)"
proof -
  let ?w = "rn_world r" and ?n = "length (tw_flags (rn_world r))"
  have "runner_ok ({}, runner_new task_manager_new)"
    by (simp add: runner_ok_def runner_new_def slot_new_def tracked_def world_ok_new)
      (simp add: task_manager_new_def task_get_def)
  with assms(1) have ok: "runner_ok (U, r)"
    by (induction rule: rtranclp_induct) (auto dest: runner_step_ok)
  have r': "r' = fst (start_primary_for_target i now kind descr (default_target r) r)"
    and j: "j = i" "tok = ?n"
    using assms(3) start_primary_simps(3) [of i now kind descr "default_target r" r]
    by (auto simp: start_primary_def)
  have slot: "rn_primary r' = Some (i, ?n)" by (simp add: r' start_primary_simps)
  have old: "old \<noteq> i \<and> otok < ?n \<and> (\<forall>t. task_get ?w old = Some t \<longrightarrow> tk_cancel_token t = otok)"
    if "rn_primary r = Some (old, otok)" for old otok
    using ok that assms(2) by (auto simp: runner_ok_def linked_def)
  have fresh: "\<not> is_cancelled ?w ?n" by (simp add: is_cancelled_def)
  have active: "\<not> is_cancelled (rn_world r') ?n"
    and run: "map_option tk_status (task_get (rn_world r') i) = Some Running"
    using old fresh by (auto simp: r' start_primary_simps Let_def cancel_flags is_cancelled_token_cancel
        cancel_get is_some_and_iff split: option.split)
  have superseded: "is_cancelled (rn_world r') otok \<and>
      is_none_or (task_get (rn_world r') old) (\<lambda>t. tk_status t \<noteq> Running)"
    if s: "rn_primary r = Some (old, otok)" for old otok
    using old [OF s] by (auto simp: r' start_primary_simps Let_def s cancel_flags is_cancelled_token_cancel
        cancel_get is_none_or_iff stop_task_def [symmetric])
  have stale: "complete_primary now' old r' = r' \<and> fail_primary now' old e r' = r'"
    if "old \<noteq> i" for old
    using that slot by (simp add: complete_primary_def fail_primary_def slot_take_if_cases)
  have others: "task_get (rn_world r') k = task_get ?w k"
    if "k \<noteq> i" "\<forall>otok. rn_primary r \<noteq> Some (k, otok)" for k
    using that by (auto simp: r' start_primary_simps Let_def cancel_get split: option.split)
  show ?thesis
    using j active run superseded stale old others slot
    by (auto simp: is_primary_active_def slot_is_active_def)
qed

theorem new_primary_supersedes_witness:
  "let (r, _) = start_primary 7 5 TkQuery ''first'' (runner_new task_manager_new);
       (r', j, tok) = start_primary 8 6 TkQuery ''second'' r
   in rn_primary r = Some (7, 0) \<and> j = 8 \<and> is_primary_active r' \<and> is_cancelled (rn_world r') 0 \<and>
      complete_primary 9 7 r' = r'"
proof -
  let ?r = "fst (start_primary 7 5 TkQuery ''first'' (runner_new task_manager_new))"
  have "runner_step ({}, runner_new task_manager_new) ({7}, ?r)"
    unfolding start_primary_def by (rule rs_start) simp
  then have run: "runner_step\<^sup>*\<^sup>* ({}, runner_new task_manager_new) ({7}, ?r)" by (rule r_into_rtranclp)
  have slot: "rn_primary ?r = Some (7, 0)"
    by (simp add: start_primary_def start_primary_simps runner_new_def task_manager_new_def)
  obtain r' j tok where r': "start_primary 8 6 TkQuery ''second'' ?r = (r', j, tok)"
    by (cases "start_primary 8 6 TkQuery ''second'' ?r") auto
  show ?thesis
    using new_primary_supersedes [OF run _ r', of 9 "[]"] slot r' by (simp add: case_prod_unfold)
qed

end
