(* ===== verification/Shutdown.thy ===== *)
theory Shutdown
  imports Tasks
begin

text \<open>
  Graceful shutdown: the coordinator shared by all threads
  (crates/dbflux_core/src/core/shutdown.rs), the facade and application calls that
  move it through its phases (dbflux_core/src/facade/session.rs,
  dbflux_core/src/connection/manager.rs, dbflux_app/src/app_state/mod.rs), and the
  entry point and sequence that drive them (crates/dbflux/src/main.rs), with the two
  loops it waits in elsewhere: the document flush (dbflux_ui/src/ui/views/workspace/mod.rs)
  and the end of the tracing bridge (dbflux_core/src/observability/tracing_bridge/mod.rs).

  The coordinator's fields are atomics, so every load, store, swap and
  compare-exchange is one step of an interleaving.  Any number of callers may enter
  \<open>initiate_graceful_shutdown\<close> at once, from the window and from signals, and the
  rest of the application keeps running tasks meanwhile.
\<close>

section \<open>Phases\<close>

datatype shutdown_phase =
  NotStarted | SignalSent | CancellingTasks | ClosingConnections | FlushingLogs | ShutdownComplete | ShutdownFailed

fun phase_u8 :: "shutdown_phase \<Rightarrow> 8 word" where
  "phase_u8 NotStarted = 0"
| "phase_u8 SignalSent = 1"
| "phase_u8 CancellingTasks = 2"
| "phase_u8 ClosingConnections = 3"
| "phase_u8 FlushingLogs = 4"
| "phase_u8 ShutdownComplete = 5"
| "phase_u8 ShutdownFailed = 6"

definition from_u8 :: "8 word \<Rightarrow> shutdown_phase" where
  "from_u8 v =
    (if v = 0 then NotStarted
     else if v = 1 then SignalSent
     else if v = 2 then CancellingTasks
     else if v = 3 then ClosingConnections
     else if v = 4 then FlushingLogs
     else if v = 5 then ShutdownComplete
     else ShutdownFailed)"

fun phase_message :: "shutdown_phase \<Rightarrow> string" where
  "phase_message NotStarted = ''''"
| "phase_message SignalSent = ''Shutting down...''"
| "phase_message CancellingTasks = ''Cancelling tasks...''"
| "phase_message ClosingConnections = ''Closing connections...''"
| "phase_message FlushingLogs = ''Flushing logs...''"
| "phase_message ShutdownComplete = ''Shutdown complete''"
| "phase_message ShutdownFailed = ''Shutdown failed''"

definition phase_is_active :: "shutdown_phase \<Rightarrow> bool" where
  "phase_is_active p \<longleftrightarrow> p = SignalSent \<or> p = CancellingTasks \<or> p = ClosingConnections \<or> p = FlushingLogs"

lemma from_u8_phase [simp]: "from_u8 (phase_u8 p) = p"
  by (cases p) (simp_all add: from_u8_def)

lemma phase_u8_inject [simp]: "phase_u8 p = phase_u8 q \<longleftrightarrow> p = q"
  by (metis from_u8_phase)

section \<open>The coordinator\<close>

record shutdown_coordinator =
  sc_shutdown_requested :: bool
  sc_phase :: "8 word"
  sc_start_time :: "int option"

definition coordinator_new :: shutdown_coordinator where
  "coordinator_new = \<lparr>sc_shutdown_requested = False, sc_phase = phase_u8 NotStarted, sc_start_time = None\<rparr>"

text \<open>The three atomic accesses of \<open>request_shutdown\<close>, and the call as a whole.\<close>

definition swap_requested :: "shutdown_coordinator \<Rightarrow> shutdown_coordinator \<times> bool" where
  "swap_requested c = (c\<lparr>sc_shutdown_requested := True\<rparr>, sc_shutdown_requested c)"

definition set_phase :: "shutdown_phase \<Rightarrow> shutdown_coordinator \<Rightarrow> shutdown_coordinator" where
  "set_phase p c = c\<lparr>sc_phase := phase_u8 p\<rparr>"

definition set_start_time :: "int \<Rightarrow> shutdown_coordinator \<Rightarrow> shutdown_coordinator" where
  "set_start_time now c = c\<lparr>sc_start_time := Some now\<rparr>"

definition request_shutdown :: "int \<Rightarrow> shutdown_coordinator \<Rightarrow> shutdown_coordinator \<times> bool" where
  "request_shutdown now c =
    (let (c', was_requested) = swap_requested c
     in if \<not> was_requested then (set_start_time now (set_phase SignalSent c'), True) else (c', False))"

definition current_phase :: "shutdown_coordinator \<Rightarrow> shutdown_phase" where
  "current_phase c = from_u8 (sc_phase c)"

definition advance_phase ::
  "shutdown_phase \<Rightarrow> shutdown_phase \<Rightarrow> shutdown_coordinator \<Rightarrow> shutdown_coordinator \<times> bool" where
  "advance_phase expected next_phase c =
    (if sc_phase c = phase_u8 expected then (c\<lparr>sc_phase := phase_u8 next_phase\<rparr>, True) else (c, False))"

definition is_complete :: "shutdown_coordinator \<Rightarrow> bool" where
  "is_complete c \<longleftrightarrow> current_phase c = ShutdownComplete \<or> current_phase c = ShutdownFailed"

definition shutdown_elapsed :: "int \<Rightarrow> shutdown_coordinator \<Rightarrow> int option" where
  "shutdown_elapsed now c = map_option (\<lambda>start. max 0 (now - start)) (sc_start_time c)"

definition complete_shutdown :: "shutdown_coordinator \<Rightarrow> shutdown_coordinator" where
  "complete_shutdown = set_phase ShutdownComplete"

definition fail_shutdown :: "shutdown_coordinator \<Rightarrow> shutdown_coordinator" where
  "fail_shutdown = set_phase ShutdownFailed"

section \<open>What the application does in each phase\<close>

text \<open>
  The tables of the connection manager that closing everything clears; the others
  it leaves alone.  A connection is opaque here: its teardown runs on a thread of
  its own.
\<close>

record 'c connection_tables =
  cn_connections :: "(uuid \<times> 'c) list"
  cn_active_connection_id :: "uuid option"
  cn_session_passwords :: "(uuid \<times> string) list"
  cn_database_lists :: "(uuid \<times> string list) list"
  cn_session_generations :: "(uuid \<times> 64 word) list"
  cn_invalidation_revisions :: "(uuid \<times> 64 word) list"
  cn_slot_revisions :: "((uuid \<times> string) \<times> 64 word) list"
  cn_view_refresh_revisions :: "((uuid \<times> string \<times> string) \<times> 64 word) list"
  cn_table_details_revisions :: "((uuid \<times> string \<times> string option \<times> string) \<times> 64 word) list"

definition close_all_tables :: "'c connection_tables \<Rightarrow> 'c connection_tables" where
  "close_all_tables m = m\<lparr>cn_connections := [], cn_active_connection_id := None, cn_session_passwords := [],
     cn_database_lists := [], cn_session_generations := [], cn_invalidation_revisions := [],
     cn_slot_revisions := [], cn_view_refresh_revisions := [], cn_table_details_revisions := []\<rparr>"

definition close_all_connections ::
  "((uuid \<times> 'c) list \<Rightarrow> (uuid \<times> 'c) list) \<Rightarrow> shutdown_coordinator \<times> 'c connection_tables \<Rightarrow>
    (shutdown_coordinator \<times> 'c connection_tables) \<times> 'c list" where
  "close_all_connections order cm =
    (case cm of (c, m) \<Rightarrow>
       (case advance_phase CancellingTasks ClosingConnections c of
          (c', False) \<Rightarrow> ((c', m), [])
        | (c', True) \<Rightarrow> ((c', close_all_tables m), map snd (order (cn_connections m)))))"

record 'c app_state =
  ap_shutdown :: shutdown_coordinator
  ap_tasks :: task_world
  ap_connections :: "'c connection_tables"
  ap_detached_hook_tasks :: "(uuid \<times> task_id list) list"
  ap_last_connected :: "uuid list"

definition cancel_all_tasks ::
  "((task_id \<times> task) list \<Rightarrow> (task_id \<times> task) list) \<Rightarrow> int \<Rightarrow> 'c app_state \<Rightarrow> 'c app_state \<times> nat" where
  "cancel_all_tasks order now a =
    (case advance_phase SignalSent CancellingTasks (ap_shutdown a) of
       (c', False) \<Rightarrow> (a\<lparr>ap_shutdown := c'\<rparr>, 0)
     | (c', True) \<Rightarrow>
         (let (w, count) = cancel_all order now (ap_tasks a)
          in (a\<lparr>ap_shutdown := c', ap_tasks := w\<rparr>, count)))"

text \<open>The hook tasks left running on purpose, cancelled per profile.\<close>

definition cancel_detached_hook_tasks :: "int \<Rightarrow> uuid \<Rightarrow> 'c app_state \<Rightarrow> 'c app_state \<times> nat" where
  "cancel_detached_hook_tasks now profile_id a =
    (case map_of (ap_detached_hook_tasks a) profile_id of
       None \<Rightarrow> (a, 0)
     | Some ids \<Rightarrow>
         (let (w, count) = cancel_each now ids 0 (ap_tasks a)
          in (a\<lparr>ap_detached_hook_tasks := AList.delete profile_id (ap_detached_hook_tasks a), ap_tasks := w\<rparr>, count)))"

fun cancel_hooks_of :: "int \<Rightarrow> uuid list \<Rightarrow> nat \<Rightarrow> 'c app_state \<Rightarrow> 'c app_state \<times> nat" where
  "cancel_hooks_of now [] n a = (a, n)"
| "cancel_hooks_of now (p # ps) n a =
    (let (a', k) = cancel_detached_hook_tasks now p a in cancel_hooks_of now ps (n + k) a')"

definition cancel_all_detached_hook_tasks :: "int \<Rightarrow> 'c app_state \<Rightarrow> 'c app_state \<times> nat" where
  "cancel_all_detached_hook_tasks now a = cancel_hooks_of now (map fst (ap_detached_hook_tasks a)) 0 a"

definition app_close_all_connections ::
  "((uuid \<times> 'c) list \<Rightarrow> (uuid \<times> 'c) list) \<Rightarrow> int \<Rightarrow> 'c app_state \<Rightarrow> 'c app_state \<times> 'c list" where
  "app_close_all_connections order now a =
    (let a1 = fst (cancel_all_detached_hook_tasks now a);
         ((c, m), handles) = close_all_connections order (ap_shutdown a1, ap_connections a1)
     in (a1\<lparr>ap_shutdown := c, ap_connections := m\<rparr>, handles))"

text \<open>A failed write of the profile list is only logged; \<open>stored\<close> tells whether it succeeded.\<close>

definition remember_connected_profiles :: "bool \<Rightarrow> 'c app_state \<Rightarrow> 'c app_state" where
  "remember_connected_profiles stored a =
    (if stored then a\<lparr>ap_last_connected := sort (map fst (cn_connections (ap_connections a)))\<rparr> else a)"

section \<open>The shutdown sequence\<close>

text \<open>In nanoseconds.\<close>

definition TASK_CANCEL_TIMEOUT :: int where "TASK_CANCEL_TIMEOUT = 2000 * 10 ^ 6"
definition CONNECTION_CLOSE_TIMEOUT :: int where "CONNECTION_CLOSE_TIMEOUT = 3000 * 10 ^ 6"
definition DOCUMENT_FLUSH_TIMEOUT :: int where "DOCUMENT_FLUSH_TIMEOUT = 2000 * 10 ^ 6"
definition TOTAL_SHUTDOWN_TIMEOUT :: int where "TOTAL_SHUTDOWN_TIMEOUT = 10000 * 10 ^ 6"
definition POLL_INTERVAL :: int where "POLL_INTERVAL = 50 * 10 ^ 6"
definition SHUTDOWN_BUDGET :: int where "SHUTDOWN_BUDGET = 2 * 10 ^ 9"

text \<open>
  Where \<open>run_shutdown_sequence\<close> stands, with its local variables: the start, the
  deadline of the loop it is in, and the teardown handles still open.  In a loop, and in
  the last wait before completion, the last number is the time before which the timer or
  the sleep it waits for does not end.
\<close>

datatype 'c seq_pc =
    SeqStart
  | SeqFlushEdits int
  | SeqPollFlush int int int
  | SeqCancel int
  | SeqPollTasks int int int
  | SeqClose int
  | SeqPollTeardown int int "'c list" int
  | SeqFlushLogs
  | SeqBridge
  | SeqPollBridge int int
  | SeqComplete int
  | SeqDone
  | SeqForced

text \<open>
  What the sequence finds when it looks: whether the workspace is still there, whether
  document writes are outstanding, which teardown threads have finished, whether the
  tracing bridge has a drain thread, and whether that thread has finished.
\<close>

record 'c surroundings =
  su_workspace :: bool
  su_outstanding :: bool
  su_is_finished :: "'c \<Rightarrow> bool"
  su_bridge :: bool
  su_drained :: bool

text \<open>One round of each polling loop.\<close>

definition poll_flush :: "int \<Rightarrow> bool \<Rightarrow> int \<Rightarrow> int \<Rightarrow> 'c seq_pc" where
  "poll_flush now outstanding start deadline =
    (if \<not> outstanding then SeqCancel start
     else if now > deadline then SeqCancel start
     else SeqPollFlush start deadline (now + POLL_INTERVAL))"

definition poll_tasks :: "int \<Rightarrow> bool \<Rightarrow> int \<Rightarrow> int \<Rightarrow> 'c seq_pc" where
  "poll_tasks now still_running start task_deadline =
    (if now - start > TOTAL_SHUTDOWN_TIMEOUT then SeqForced
     else if \<not> still_running then SeqClose start
     else if now > task_deadline then SeqClose start
     else SeqPollTasks start task_deadline (now + POLL_INTERVAL))"

definition poll_teardown :: "int \<Rightarrow> ('c \<Rightarrow> bool) \<Rightarrow> int \<Rightarrow> int \<Rightarrow> 'c list \<Rightarrow> 'c seq_pc" where
  "poll_teardown now is_finished start conn_deadline handles =
    (if now - start > TOTAL_SHUTDOWN_TIMEOUT then SeqForced
     else let pending = filter (\<lambda>h. \<not> is_finished h) handles
       in if pending = [] then SeqFlushLogs
          else if now > conn_deadline then SeqFlushLogs
          else SeqPollTeardown start conn_deadline pending (now + POLL_INTERVAL))"

text \<open>
  The bridge's loop sleeps 50 milliseconds between its looks.  It reports a thread that
  panicked or did not end in time to the standard error only.  Whatever it finds, the
  sequence waits 100 milliseconds more and completes.
\<close>

definition poll_bridge :: "int \<Rightarrow> bool \<Rightarrow> int \<Rightarrow> 'c seq_pc" where
  "poll_bridge now is_finished deadline =
    (if is_finished then SeqComplete (now + 100 * 10 ^ 6)
     else if now \<ge> deadline then SeqComplete (now + 100 * 10 ^ 6)
     else SeqPollBridge deadline (now + 50 * 10 ^ 6))"

text \<open>Where a caller of \<open>initiate_graceful_shutdown\<close> stands.\<close>

datatype caller_pc = CallSwap | CallStore | CallTime | CallRemember | CallSpawn | CallDone bool

record 'c shutdown_state =
  sd_app :: "'c app_state"
  sd_callers :: "nat \<Rightarrow> caller_pc"
  sd_sequences :: "'c seq_pc list"

definition on_shutdown :: "(shutdown_coordinator \<Rightarrow> shutdown_coordinator) \<Rightarrow> 'c shutdown_state \<Rightarrow> 'c shutdown_state" where
  "on_shutdown f s = s\<lparr>sd_app := (sd_app s)\<lparr>ap_shutdown := f (ap_shutdown (sd_app s))\<rparr>\<rparr>"

definition goto_caller :: "nat \<Rightarrow> caller_pc \<Rightarrow> 'c shutdown_state \<Rightarrow> 'c shutdown_state" where
  "goto_caller i pc s = s\<lparr>sd_callers := (sd_callers s)(i := pc)\<rparr>"

text \<open>One atomic step of caller \<open>i\<close> at time \<open>now\<close>.\<close>

definition caller_move :: "int \<Rightarrow> bool \<Rightarrow> nat \<Rightarrow> 'c shutdown_state \<Rightarrow> 'c shutdown_state" where
  "caller_move now stored i s =
    (case sd_callers s i of
       CallSwap \<Rightarrow>
         (if snd (swap_requested (ap_shutdown (sd_app s)))
          then goto_caller i (CallDone False) (on_shutdown (\<lambda>c. fst (swap_requested c)) s)
          else goto_caller i CallStore (on_shutdown (\<lambda>c. fst (swap_requested c)) s))
     | CallStore \<Rightarrow> goto_caller i CallTime (on_shutdown (set_phase SignalSent) s)
     | CallTime \<Rightarrow> goto_caller i CallRemember (on_shutdown (set_start_time now) s)
     | CallRemember \<Rightarrow>
         goto_caller i CallSpawn (s\<lparr>sd_app := remember_connected_profiles stored (sd_app s)\<rparr>)
     | CallSpawn \<Rightarrow>
         goto_caller i (CallDone True) (s\<lparr>sd_sequences := sd_sequences s @ [SeqStart]\<rparr>)
     | CallDone _ \<Rightarrow> s)"

text \<open>
  One step of a sequence: the application afterwards and where the sequence stands.  A
  lock of the bridge's handle poisoned by a panic, on which the sequence panics, is left out,
  and so is stopping the managed host processes once the sequence has ended.
\<close>

definition seq_move ::
  "((task_id \<times> task) list \<Rightarrow> (task_id \<times> task) list) \<Rightarrow> ((uuid \<times> 'c) list \<Rightarrow> (uuid \<times> 'c) list) \<Rightarrow>
    'c surroundings \<Rightarrow> int \<Rightarrow> 'c seq_pc \<Rightarrow> 'c app_state \<Rightarrow> 'c app_state \<times> 'c seq_pc" where
  "seq_move torder corder su now pc a =
    (case pc of
       SeqStart \<Rightarrow> (a, SeqFlushEdits now)
     | SeqFlushEdits start \<Rightarrow>
         (a, if su_workspace su then SeqPollFlush start (now + DOCUMENT_FLUSH_TIMEOUT) now else SeqCancel start)
     | SeqPollFlush start deadline _ \<Rightarrow> (a, poll_flush now (su_outstanding su) start deadline)
     | SeqCancel start \<Rightarrow>
         (fst (cancel_all_tasks torder now a), SeqPollTasks start (now + TASK_CANCEL_TIMEOUT) now)
     | SeqPollTasks start deadline _ \<Rightarrow> (a, poll_tasks now (has_running_tasks (ap_tasks a)) start deadline)
     | SeqClose start \<Rightarrow>
         (let (a', handles) = app_close_all_connections corder now a
          in (a', SeqPollTeardown start (now + CONNECTION_CLOSE_TIMEOUT) handles now))
     | SeqPollTeardown start deadline handles _ \<Rightarrow>
         (a, poll_teardown now (su_is_finished su) start deadline handles)
     | SeqFlushLogs \<Rightarrow>
         (a\<lparr>ap_shutdown := fst (advance_phase ClosingConnections FlushingLogs (ap_shutdown a))\<rparr>, SeqBridge)
     | SeqBridge \<Rightarrow>
         (a, if su_bridge su then SeqPollBridge (now + SHUTDOWN_BUDGET) now else SeqComplete (now + 100 * 10 ^ 6))
     | SeqPollBridge deadline _ \<Rightarrow> (a, poll_bridge now (su_drained su) deadline)
     | SeqComplete _ \<Rightarrow> (a\<lparr>ap_shutdown := complete_shutdown (ap_shutdown a)\<rparr>, SeqDone)
     | SeqDone \<Rightarrow> (a, SeqDone)
     | SeqForced \<Rightarrow> (a, SeqForced))"

text \<open>Whether what a sequence waits for has ended.\<close>

fun seq_ready :: "int \<Rightarrow> 'c seq_pc \<Rightarrow> bool" where
  "seq_ready now (SeqPollFlush _ _ wake) \<longleftrightarrow> wake \<le> now"
| "seq_ready now (SeqPollTasks _ _ wake) \<longleftrightarrow> wake \<le> now"
| "seq_ready now (SeqPollTeardown _ _ _ wake) \<longleftrightarrow> wake \<le> now"
| "seq_ready now (SeqPollBridge _ wake) \<longleftrightarrow> wake \<le> now"
| "seq_ready now (SeqComplete wake) \<longleftrightarrow> wake \<le> now"
| "seq_ready now _ \<longleftrightarrow> True"

text \<open>
  Callers, the sequences spawned, and everybody else: tasks go through the task
  manager's calls, the connection tables and hook tasks change in any way at all.
  Only the coordinator is out of their reach, since nothing else in the program
  writes it.  A sequence may move here even before its timer has ended.
\<close>

inductive shutdown_step :: "'c shutdown_state \<Rightarrow> 'c shutdown_state \<Rightarrow> bool" where
  ss_caller: "shutdown_step s (caller_move now stored i s)"
| ss_sequence: "k < length (sd_sequences s) \<Longrightarrow>
    seq_move torder corder su now (sd_sequences s ! k) (sd_app s) = (a, pc) \<Longrightarrow>
    shutdown_step s (s\<lparr>sd_app := a, sd_sequences := (sd_sequences s)[k := pc]\<rparr>)"
| ss_tasks: "task_step (U, ap_tasks (sd_app s)) (U', w) \<Longrightarrow>
    shutdown_step s (s\<lparr>sd_app := (sd_app s)\<lparr>ap_tasks := w\<rparr>\<rparr>)"
| ss_rest: "shutdown_step s (s\<lparr>sd_app := (sd_app s)\<lparr>ap_connections := m, ap_detached_hook_tasks := h\<rparr>\<rparr>)"

definition shutdown_initial :: "'c app_state \<Rightarrow> 'c shutdown_state" where
  "shutdown_initial a =
    \<lparr>sd_app = a\<lparr>ap_shutdown := coordinator_new\<rparr>, sd_callers = (\<lambda>_. CallSwap), sd_sequences = []\<rparr>"

section \<open>Every interleaving is orderly\<close>

text \<open>The caller whose swap found the flag clear, and the phase each point of the sequence is in.\<close>

fun won :: "caller_pc \<Rightarrow> bool" where
  "won CallSwap = False"
| "won (CallDone b) = b"
| "won _ = True"

fun in_phase :: "'c seq_pc \<Rightarrow> shutdown_phase \<Rightarrow> bool" where
  "in_phase SeqStart p \<longleftrightarrow> p = SignalSent"
| "in_phase (SeqFlushEdits _) p \<longleftrightarrow> p = SignalSent"
| "in_phase (SeqPollFlush _ _ _) p \<longleftrightarrow> p = SignalSent"
| "in_phase (SeqCancel _) p \<longleftrightarrow> p = SignalSent"
| "in_phase (SeqPollTasks _ _ _) p \<longleftrightarrow> p = CancellingTasks"
| "in_phase (SeqClose _) p \<longleftrightarrow> p = CancellingTasks"
| "in_phase (SeqPollTeardown _ _ _ _) p \<longleftrightarrow> p = ClosingConnections"
| "in_phase SeqFlushLogs p \<longleftrightarrow> p = ClosingConnections"
| "in_phase SeqBridge p \<longleftrightarrow> p = FlushingLogs"
| "in_phase (SeqPollBridge _ _) p \<longleftrightarrow> p = FlushingLogs"
| "in_phase (SeqComplete _) p \<longleftrightarrow> p = FlushingLogs"
| "in_phase SeqDone p \<longleftrightarrow> p = ShutdownComplete"
| "in_phase SeqForced p \<longleftrightarrow> p = CancellingTasks \<or> p = ClosingConnections"

fun caller_at :: "caller_pc \<Rightarrow> 'c seq_pc list \<Rightarrow> 8 word \<Rightarrow> bool" where
  "caller_at CallStore qs v \<longleftrightarrow> qs = [] \<and> v = phase_u8 NotStarted"
| "caller_at (CallDone True) qs v \<longleftrightarrow> (\<exists>pc p. qs = [pc] \<and> v = phase_u8 p \<and> in_phase pc p)"
| "caller_at (CallDone False) qs v \<longleftrightarrow> True"
| "caller_at CallSwap qs v \<longleftrightarrow> True"
| "caller_at _ qs v \<longleftrightarrow> qs = [] \<and> v = phase_u8 SignalSent"

abbreviation sd_phase :: "'c shutdown_state \<Rightarrow> 8 word" where
  "sd_phase s \<equiv> sc_phase (ap_shutdown (sd_app s))"

abbreviation sd_requested :: "'c shutdown_state \<Rightarrow> bool" where
  "sd_requested s \<equiv> sc_shutdown_requested (ap_shutdown (sd_app s))"

definition orderly :: "'c shutdown_state \<Rightarrow> bool" where
  "orderly s \<longleftrightarrow>
    (if sd_requested s
     then \<exists>i. won (sd_callers s i) \<and> (\<forall>j. won (sd_callers s j) \<longrightarrow> j = i) \<and>
       caller_at (sd_callers s i) (sd_sequences s) (sd_phase s)
     else (\<forall>i. \<not> won (sd_callers s i)) \<and> sd_sequences s = [] \<and> sd_phase s = phase_u8 NotStarted)"

lemma orderly_initial: "orderly (shutdown_initial a)"
  by (simp add: orderly_def shutdown_initial_def coordinator_new_def)

lemma orderlyE:
  assumes "orderly s" and "won (sd_callers s i)"
  shows "sd_requested s" "caller_at (sd_callers s i) (sd_sequences s) (sd_phase s)"
    "won (sd_callers s j) \<Longrightarrow> j = i"
  using assms by (auto simp: orderly_def split: if_splits)

lemma orderlyI:
  assumes "sd_requested s" "won (sd_callers s i)" "\<And>j. won (sd_callers s j) \<Longrightarrow> j = i"
    "caller_at (sd_callers s i) (sd_sequences s) (sd_phase s)"
  shows "orderly s"
  unfolding orderly_def if_P [OF assms(1)] using assms(2-4) by blast

lemmas caller_move_defs = caller_move_def goto_caller_def on_shutdown_def swap_requested_def set_phase_def
  set_start_time_def remember_connected_profiles_def

text \<open>What one move of a caller does to the four things the invariant speaks of.\<close>

lemma caller_move_other: "j \<noteq> i \<Longrightarrow> sd_callers (caller_move now stored i s) j = sd_callers s j"
  by (cases "sd_callers s i") (simp_all add: caller_move_defs)

lemma caller_move_lost:
  assumes "sd_callers s i = CallSwap" and "sd_requested s"
  shows "sd_callers (caller_move now stored i s) i = CallDone False"
    and "sd_requested (caller_move now stored i s)"
    and "sd_sequences (caller_move now stored i s) = sd_sequences s"
    and "sd_phase (caller_move now stored i s) = sd_phase s"
  using assms by (simp_all add: caller_move_defs)

lemma caller_move_wins:
  assumes "sd_callers s i = CallSwap" and "\<not> sd_requested s"
  shows "sd_callers (caller_move now stored i s) i = CallStore"
    and "sd_requested (caller_move now stored i s)"
    and "sd_sequences (caller_move now stored i s) = sd_sequences s"
    and "sd_phase (caller_move now stored i s) = sd_phase s"
  using assms by (simp_all add: caller_move_defs)

lemma caller_move_winner:
  assumes "won (sd_callers s i)" and "sd_requested s"
    and "caller_at (sd_callers s i) (sd_sequences s) (sd_phase s)"
  shows "won (sd_callers (caller_move now stored i s) i)" (is ?won)
    and "sd_requested (caller_move now stored i s)" (is ?req)
    and "caller_at (sd_callers (caller_move now stored i s) i) (sd_sequences (caller_move now stored i s))
      (sd_phase (caller_move now stored i s))" (is ?at)
proof -
  have "?won \<and> ?req \<and> ?at"
  proof (cases "sd_callers s i")
    case (CallDone b)
    with assms show ?thesis by (simp add: caller_move_defs)
  qed (use assms in \<open>simp_all add: caller_move_defs\<close>)
  then show ?won ?req ?at by simp_all
qed

lemma orderly_caller_move:
  assumes o: "orderly s"
  shows "orderly (caller_move now stored i s)"
proof (cases "won (sd_callers s i)")
  case True
  note w = orderlyE [OF o True]
  show ?thesis
  proof (rule orderlyI [of _ i])
    show "j = i" if "won (sd_callers (caller_move now stored i s) j)" for j
      using that w(3) [of j] by (cases "j = i") (simp_all add: caller_move_other)
  qed (use caller_move_winner [OF True w(1,2)] in simp_all)
next
  case False
  show ?thesis
  proof (cases "sd_callers s i")
    case CallSwap
    show ?thesis
    proof (cases "sd_requested s")
      case True
      then obtain k where k: "won (sd_callers s k)" "\<forall>j. won (sd_callers s j) \<longrightarrow> j = k"
        "caller_at (sd_callers s k) (sd_sequences s) (sd_phase s)"
        using o unfolding orderly_def if_P [OF True] by blast
      have ki: "k \<noteq> i" using k(1) False by blast
      note lost = caller_move_lost [OF CallSwap True, of now stored]
      show ?thesis
      proof (rule orderlyI [of _ k])
        show "j = k" if "won (sd_callers (caller_move now stored i s) j)" for j
          using that k(2) [rule_format, of j] lost(1) by (cases "j = i") (simp_all add: caller_move_other)
      qed (use k(1,3) ki lost in \<open>simp_all add: caller_move_other\<close>)
    next
      case no: False
      then have none: "\<forall>j. \<not> won (sd_callers s j)" "sd_sequences s = []" "sd_phase s = phase_u8 NotStarted"
        using o by (simp_all add: orderly_def)
      note wins = caller_move_wins [OF CallSwap no, of now stored]
      show ?thesis
      proof (rule orderlyI [of _ i])
        show "j = i" if "won (sd_callers (caller_move now stored i s) j)" for j
          using that none(1) by (cases "j = i") (simp_all add: caller_move_other)
      qed (use none wins in simp_all)
    qed
  next
    case (CallDone b)
    with o show ?thesis by (simp add: caller_move_def)
  qed (use False in simp_all)
qed

text \<open>The sequence always finds the phase it expects, so every transition succeeds.\<close>

lemma cancel_hooks_frame:
  "ap_shutdown (fst (cancel_hooks_of now ps n a)) = ap_shutdown a \<and>
   ap_connections (fst (cancel_hooks_of now ps n a)) = ap_connections a"
proof (induction ps arbitrary: n a)
  case (Cons p ps)
  have "ap_shutdown (fst (cancel_detached_hook_tasks now p a)) = ap_shutdown a"
    "ap_connections (fst (cancel_detached_hook_tasks now p a)) = ap_connections a"
    by (simp_all add: cancel_detached_hook_tasks_def case_prod_unfold Let_def split: option.split)
  then show ?case by (simp add: Cons case_prod_unfold Let_def)
qed simp

lemma cancel_all_tasks_phase:
  assumes "sc_phase (ap_shutdown a) = phase_u8 SignalSent"
  shows "fst (cancel_all_tasks order now a) =
      a\<lparr>ap_shutdown := set_phase CancellingTasks (ap_shutdown a),
        ap_tasks := fst (cancel_all order now (ap_tasks a))\<rparr>"
    and "snd (cancel_all_tasks order now a) = snd (cancel_all order now (ap_tasks a))"
  using assms by (simp_all add: cancel_all_tasks_def advance_phase_def set_phase_def case_prod_unfold Let_def)

lemma app_close_all_phase:
  assumes "sc_phase (ap_shutdown a) = phase_u8 CancellingTasks"
  shows "ap_shutdown (fst (app_close_all_connections order now a)) = set_phase ClosingConnections (ap_shutdown a)"
    and "ap_connections (fst (app_close_all_connections order now a)) = close_all_tables (ap_connections a)"
    and "snd (app_close_all_connections order now a) = map snd (order (cn_connections (ap_connections a)))"
  using assms
  by (simp_all add: app_close_all_connections_def close_all_connections_def advance_phase_def set_phase_def
      cancel_all_detached_hook_tasks_def cancel_hooks_frame case_prod_unfold Let_def)

lemma poll_tasks_phase: "in_phase (poll_tasks now r start d) CancellingTasks"
  by (simp add: poll_tasks_def)

lemma poll_teardown_phase: "in_phase (poll_teardown now f start d hs) ClosingConnections"
  by (simp add: poll_teardown_def Let_def)

lemma poll_flush_phase: "in_phase (poll_flush now r start d) SignalSent"
  by (simp add: poll_flush_def)

lemma poll_bridge_phase: "in_phase (poll_bridge now r d) FlushingLogs"
  by (simp add: poll_bridge_def)

lemma seq_move_phase:
  assumes "in_phase pc p" and "sc_phase (ap_shutdown a) = phase_u8 p"
    and "seq_move torder corder su now pc a = (a', pc')"
  shows "\<exists>p'. sc_phase (ap_shutdown a') = phase_u8 p' \<and> in_phase pc' p' \<and> phase_u8 p \<le> phase_u8 p' \<and>
    sc_shutdown_requested (ap_shutdown a') = sc_shutdown_requested (ap_shutdown a)"
proof (cases pc)
  case (SeqFlushEdits start)
  with assms show ?thesis by (intro exI [of _ SignalSent]) (auto simp: seq_move_def)
next
  case (SeqPollFlush start d w)
  with assms poll_flush_phase show ?thesis
    by (intro exI [of _ SignalSent]) (auto simp: seq_move_def)
next
  case (SeqCancel start)
  with assms show ?thesis
    by (intro exI [of _ CancellingTasks])
      (auto simp: seq_move_def cancel_all_tasks_phase set_phase_def)
next
  case (SeqPollTasks start d w)
  with assms poll_tasks_phase show ?thesis
    by (intro exI [of _ CancellingTasks]) (auto simp: seq_move_def)
next
  case (SeqClose start)
  with assms show ?thesis
    by (intro exI [of _ ClosingConnections])
      (auto simp: seq_move_def app_close_all_phase set_phase_def case_prod_unfold Let_def)
next
  case (SeqPollTeardown start d hs w)
  with assms poll_teardown_phase show ?thesis
    by (intro exI [of _ ClosingConnections]) (auto simp: seq_move_def)
next
  case SeqFlushLogs
  with assms show ?thesis
    by (intro exI [of _ FlushingLogs]) (auto simp: seq_move_def advance_phase_def)
next
  case SeqBridge
  with assms show ?thesis by (intro exI [of _ FlushingLogs]) (auto simp: seq_move_def)
next
  case (SeqPollBridge d w)
  with assms poll_bridge_phase show ?thesis
    by (intro exI [of _ FlushingLogs]) (auto simp: seq_move_def)
next
  case (SeqComplete w)
  with assms show ?thesis
    by (intro exI [of _ ShutdownComplete]) (auto simp: seq_move_def complete_shutdown_def set_phase_def)
qed (use assms in \<open>auto simp: seq_move_def\<close>)

lemma orderly_sequence:
  assumes o: "orderly s" and k: "k < length (sd_sequences s)"
  obtains i pc p where "won (sd_callers s i)" "sd_callers s i = CallDone True"
    "\<forall>j. won (sd_callers s j) \<longrightarrow> j = i" "sd_requested s"
    "k = 0" "sd_sequences s = [pc]" "sd_phase s = phase_u8 p" "in_phase pc p"
proof -
  have req: "sd_requested s" using assms by (auto simp: orderly_def split: if_splits)
  then obtain i where i: "won (sd_callers s i)" "\<forall>j. won (sd_callers s j) \<longrightarrow> j = i"
    and at: "caller_at (sd_callers s i) (sd_sequences s) (sd_phase s)"
    using o unfolding orderly_def if_P [OF req] by blast
  have c: "sd_callers s i = CallDone True"
    using i(1) at k by (cases "sd_callers s i") auto
  with at obtain pc p where "sd_sequences s = [pc]" "sd_phase s = phase_u8 p" "in_phase pc p" by auto
  with k show ?thesis using that [OF i(1) c i(2) req, of pc p] by simp
qed

lemma orderly_sequences:
  assumes o: "orderly s"
  shows "sd_sequences s = [] \<or>
    (\<exists>pc p. sd_sequences s = [pc] \<and> sd_phase s = phase_u8 p \<and> in_phase pc p)"
proof (cases "sd_sequences s = []")
  case False
  then have "0 < length (sd_sequences s)" by simp
  from orderly_sequence [OF o this] show ?thesis by blast
qed simp

lemma orderly_step_phase:
  "shutdown_step s s' \<Longrightarrow> orderly s \<Longrightarrow> orderly s' \<and> sd_phase s \<le> sd_phase s'"
proof (induction rule: shutdown_step.induct)
  case (ss_caller s now stored i)
  have "sd_phase s \<le> sd_phase (caller_move now stored i s)"
  proof (cases "sd_callers s i")
    case CallStore
    then have "sd_phase s = 0" using orderlyE(2) [OF ss_caller, of i] by simp
    then show ?thesis by simp
  qed (simp_all add: caller_move_defs)
  with ss_caller show ?case by (simp add: orderly_caller_move)
next
  case (ss_sequence k s torder corder su now a pc')
  obtain i pc p where w: "won (sd_callers s i)" "sd_callers s i = CallDone True"
    "\<forall>j. won (sd_callers s j) \<longrightarrow> j = i" "sd_requested s"
    and q: "k = 0" "sd_sequences s = [pc]" "sd_phase s = phase_u8 p" "in_phase pc p"
    by (rule orderly_sequence [OF ss_sequence(3,1)])
  obtain p' where p': "sc_phase (ap_shutdown a) = phase_u8 p'" "in_phase pc' p'" "phase_u8 p \<le> phase_u8 p'"
    "sc_shutdown_requested (ap_shutdown a) = sd_requested s"
    using seq_move_phase [OF q(4,3), of torder corder su now a pc'] ss_sequence(2) q(1,2) by auto
  have "orderly (s\<lparr>sd_app := a, sd_sequences := (sd_sequences s)[k := pc']\<rparr>)"
    by (rule orderlyI [of _ i]) (use w(1,2,4) w(3) [rule_format] q p' in simp_all)
  with p'(1,3) q(3) show ?case by simp
qed (simp_all add: orderly_def)

lemma orderly_reachable:
  "shutdown_step\<^sup>*\<^sup>* (shutdown_initial a) s \<Longrightarrow> orderly s"
  by (induction rule: rtranclp_induct) (auto simp: orderly_initial dest: orderly_step_phase)

section \<open>The sequence ends\<close>

text \<open>
  How many more rounds a loop with a deadline can make when the next one is not before
  \<open>wake\<close>, and how many more moves the sequence can make.
\<close>

definition poll_rounds :: "int \<Rightarrow> int \<Rightarrow> nat" where
  "poll_rounds deadline wake =
    (if wake > deadline then 1 else nat ((deadline - wake) div POLL_INTERVAL) + 2)"

fun moves_left :: "'c seq_pc \<Rightarrow> nat" where
  "moves_left SeqStart = 195"
| "moves_left (SeqFlushEdits _) = 194"
| "moves_left (SeqPollFlush _ deadline wake) = poll_rounds deadline wake + 151"
| "moves_left (SeqCancel _) = 151"
| "moves_left (SeqPollTasks _ deadline wake) = poll_rounds deadline wake + 108"
| "moves_left (SeqClose _) = 108"
| "moves_left (SeqPollTeardown _ deadline _ wake) = poll_rounds deadline wake + 45"
| "moves_left SeqFlushLogs = 45"
| "moves_left SeqBridge = 44"
| "moves_left (SeqPollBridge deadline wake) = poll_rounds deadline wake + 1"
| "moves_left (SeqComplete _) = 1"
| "moves_left SeqDone = 0"
| "moves_left SeqForced = 0"

lemma poll_rounds_pos: "0 < poll_rounds deadline wake"
  by (simp add: poll_rounds_def)

lemma poll_rounds_next:
  assumes "wake \<le> now" and "now \<le> deadline"
  shows "poll_rounds deadline (now + POLL_INTERVAL) < poll_rounds deadline wake"
proof (cases "now + POLL_INTERVAL > deadline")
  case False
  have "(deadline - (now + POLL_INTERVAL)) div POLL_INTERVAL = (deadline - now) div POLL_INTERVAL - 1"
    using div_add_self2 [of POLL_INTERVAL "deadline - now - POLL_INTERVAL"]
    by (simp add: POLL_INTERVAL_def algebra_simps)
  moreover have "(deadline - now) div POLL_INTERVAL \<le> (deadline - wake) div POLL_INTERVAL"
    using assms(1) by (intro zdiv_mono1) (simp_all add: POLL_INTERVAL_def)
  moreover have "1 \<le> (deadline - now) div POLL_INTERVAL"
    using False zdiv_mono1 [of POLL_INTERVAL "deadline - now" POLL_INTERVAL] by (simp add: POLL_INTERVAL_def)
  ultimately show ?thesis using assms False by (simp add: poll_rounds_def)
qed (use assms in \<open>simp add: poll_rounds_def\<close>)

lemma first_rounds:
  "poll_rounds (now + DOCUMENT_FLUSH_TIMEOUT) now = 42" "poll_rounds (now + TASK_CANCEL_TIMEOUT) now = 42"
  "poll_rounds (now + CONNECTION_CLOSE_TIMEOUT) now = 62" "poll_rounds (now + SHUTDOWN_BUDGET) now = 42"
  by (simp_all add: poll_rounds_def POLL_INTERVAL_def DOCUMENT_FLUSH_TIMEOUT_def TASK_CANCEL_TIMEOUT_def
      CONNECTION_CLOSE_TIMEOUT_def SHUTDOWN_BUDGET_def)

lemma moves_left_decreases:
  assumes "seq_ready now pc"
  shows "moves_left (snd (seq_move torder corder su now pc a)) \<le> moves_left pc - 1"
proof -
  have again: "Suc (poll_rounds d (now + POLL_INTERVAL)) \<le> poll_rounds d w" if "w \<le> now" "\<not> d < now" for d w
    using poll_rounds_next [of w now d] that by simp
  have once: "Suc 0 \<le> poll_rounds d w" for d w using poll_rounds_pos [of d w] by simp
  have "50000000 = POLL_INTERVAL" by (simp add: POLL_INTERVAL_def)
  note loops = poll_flush_def poll_tasks_def poll_teardown_def poll_bridge_def this
  show ?thesis
  proof (cases pc)
    case (SeqPollBridge d w)
    with assms again [of w d] once [of d w] show ?thesis by (auto simp: seq_move_def loops)
  qed (use assms again once in \<open>auto simp: seq_move_def loops case_prod_unfold Let_def first_rounds\<close>)
qed

text \<open>
  Moves at given times, with what the surroundings show then and what the rest of the
  program did meanwhile, and that each of them came after the wait before it.
\<close>

fun seq_run ::
  "((task_id \<times> task) list \<Rightarrow> (task_id \<times> task) list) \<Rightarrow> ((uuid \<times> 'c) list \<Rightarrow> (uuid \<times> 'c) list) \<Rightarrow>
    (int \<times> 'c surroundings \<times> ('c app_state \<Rightarrow> 'c app_state)) list \<Rightarrow> 'c app_state \<times> 'c seq_pc \<Rightarrow>
    'c app_state \<times> 'c seq_pc" where
  "seq_run torder corder [] ap = ap"
| "seq_run torder corder ((now, su, meanwhile) # es) ap =
    seq_run torder corder es (seq_move torder corder su now (snd ap) (meanwhile (fst ap)))"

fun seq_paced ::
  "((task_id \<times> task) list \<Rightarrow> (task_id \<times> task) list) \<Rightarrow> ((uuid \<times> 'c) list \<Rightarrow> (uuid \<times> 'c) list) \<Rightarrow>
    (int \<times> 'c surroundings \<times> ('c app_state \<Rightarrow> 'c app_state)) list \<Rightarrow> 'c app_state \<times> 'c seq_pc \<Rightarrow> bool" where
  "seq_paced torder corder [] ap \<longleftrightarrow> True"
| "seq_paced torder corder ((now, su, meanwhile) # es) ap \<longleftrightarrow>
    seq_ready now (snd ap) \<and>
    seq_paced torder corder es (seq_move torder corder su now (snd ap) (meanwhile (fst ap)))"

lemma seq_run_moves_left:
  "seq_paced torder corder es ap \<Longrightarrow>
   moves_left (snd (seq_run torder corder es ap)) \<le> moves_left (snd ap) - length es"
proof (induction es arbitrary: ap)
  case (Cons e es)
  obtain now su m where e: "e = (now, su, m)" by (cases e)
  let ?r = "seq_move torder corder su now (snd ap) (m (fst ap))"
  have "moves_left (snd (seq_run torder corder es ?r)) \<le> moves_left (snd ?r) - length es"
    using Cons e by simp
  moreover have "moves_left (snd ?r) \<le> moves_left (snd ap) - 1"
    using Cons.prems e by (intro moves_left_decreases) simp
  ultimately show ?case by (simp add: e)
qed simp

lemma moves_left_end: "moves_left pc = 0 \<Longrightarrow> pc = SeqDone \<or> pc = SeqForced"
  by (cases pc) (simp_all add: poll_rounds_pos)

section \<open>What the program relies on\<close>

text \<open>
  C34. However many callers ask for shutdown at once and however the threads
  interleave, one of them wins, one sequence runs, and the phase only moves forward.
  The sequence always finds the phase it expects: when it cancels the tasks, every
  running task is cancelled, and when it closes the connections, all session tables
  are emptied and each connection is handed to a teardown.
\<close>

theorem one_orderly_shutdown:
  assumes "shutdown_step\<^sup>*\<^sup>* (shutdown_initial a) s"
  shows "length (sd_sequences s) \<le> 1 \<and>
    (\<forall>i j. sd_callers s i = CallDone True \<and> sd_callers s j = CallDone True \<longrightarrow> i = j) \<and>
    (\<forall>s'. shutdown_step s s' \<longrightarrow> sd_phase s \<le> sd_phase s') \<and>
    (\<forall>start order now. SeqCancel start \<in> set (sd_sequences s) \<longrightarrow>
       world_ok (ap_tasks (sd_app s)) \<longrightarrow> hash_order order \<longrightarrow>
       \<not> has_running_tasks (ap_tasks (fst (cancel_all_tasks order now (sd_app s))))) \<and>
    (\<forall>start order now. SeqClose start \<in> set (sd_sequences s) \<longrightarrow>
       ap_connections (fst (app_close_all_connections order now (sd_app s))) =
         close_all_tables (ap_connections (sd_app s)) \<and>
       snd (app_close_all_connections order now (sd_app s)) =
         map snd (order (cn_connections (ap_connections (sd_app s)))))"
proof -
  have o: "orderly s" using assms by (rule orderly_reachable)
  have one: "length (sd_sequences s) \<le> 1"
    using orderly_sequences [OF o] by auto
  have phase: "pc \<in> set (sd_sequences s) \<Longrightarrow> \<exists>p. sd_phase s = phase_u8 p \<and> in_phase pc p" for pc
    using orderly_sequences [OF o] by auto
  have winner: "i = j" if "sd_callers s i = CallDone True" "sd_callers s j = CallDone True" for i j
    using orderlyE(3) [OF o, where i = j and j = i] that by simp
  have mono: "shutdown_step s s' \<Longrightarrow> sd_phase s \<le> sd_phase s'" for s'
    using orderly_step_phase [OF _ o] by blast
  have stopped: "\<not> has_running_tasks (ap_tasks (fst (cancel_all_tasks order now (sd_app s))))"
    if "SeqCancel start \<in> set (sd_sequences s)" "world_ok (ap_tasks (sd_app s))" "hash_order order"
    for start order now
    using phase [OF that(1)] that(2,3) cancel_all_leaves_none
    by (auto simp: cancel_all_tasks_phase)
  have closed: "ap_connections (fst (app_close_all_connections order now (sd_app s))) =
         close_all_tables (ap_connections (sd_app s)) \<and>
       snd (app_close_all_connections order now (sd_app s)) =
         map snd (order (cn_connections (ap_connections (sd_app s))))"
    if "SeqClose start \<in> set (sd_sequences s)" for start order now
    using phase [OF that] by (auto simp: app_close_all_phase)
  show ?thesis using one winner mono stopped closed by blast
qed

definition sample_app :: "nat app_state" where
  "sample_app = \<lparr>ap_shutdown = coordinator_new, ap_tasks = task_manager_new,
     ap_connections = \<lparr>cn_connections = [(5, 50), (3, 30)], cn_active_connection_id = Some 5,
       cn_session_passwords = [], cn_database_lists = [], cn_session_generations = [],
       cn_invalidation_revisions = [], cn_slot_revisions = [], cn_view_refresh_revisions = [],
       cn_table_details_revisions = []\<rparr>,
     ap_detached_hook_tasks = [], ap_last_connected = []\<rparr>"

theorem one_orderly_shutdown_witness:
  "let s = ((caller_move 9 True 0) ^^ 5) (caller_move 9 True 1 (shutdown_initial sample_app))
   in sd_callers s 0 = CallDone False \<and> sd_callers s 1 = CallStore \<and> length (sd_sequences s) \<le> 1 \<and>
      (\<forall>s'. shutdown_step s s' \<longrightarrow> sd_phase s \<le> sd_phase s')"
proof -
  let ?s0 = "shutdown_initial sample_app"
  have iter: "shutdown_step\<^sup>*\<^sup>* s ((caller_move 9 True 0 ^^ n) s)" for s :: "nat shutdown_state" and n
    by (induction n) (auto intro: rtranclp.rtrancl_into_rtrancl ss_caller)
  have run: "shutdown_step\<^sup>*\<^sup>* ?s0 ((caller_move 9 True 0 ^^ 5) (caller_move 9 True 1 ?s0))"
    by (rule rtranclp_trans [OF r_into_rtranclp iter]) (rule ss_caller)
  have "sd_callers ((caller_move 9 True 0 ^^ 5) (caller_move 9 True 1 ?s0)) 0 = CallDone False"
    "sd_callers ((caller_move 9 True 0 ^^ 5) (caller_move 9 True 1 ?s0)) 1 = CallStore"
    by (simp_all add: numeral_eq_Suc caller_move_defs shutdown_initial_def coordinator_new_def sample_app_def)
  then show ?thesis using one_orderly_shutdown [OF run] unfolding Let_def by blast
qed

text \<open>
  C35. The shutdown sequence cannot hang in any of its waits: 195 of its moves, each made
  once the timer or sleep before it has ended, bring it from its start to the end, complete
  or forced, whatever the document writes, the tasks, the teardown threads, the drain
  thread of the tracing bridge and the rest of the program do meanwhile.  The count is that
  of the rounds of the four polling loops (document flush, tasks, teardowns, bridge), each
  stopped by its own deadline, and of the moves between them.
\<close>

theorem shutdown_sequence_ends:
  assumes "seq_paced torder corder es (a, SeqStart)" and "195 \<le> length es"
  shows "snd (seq_run torder corder es (a, SeqStart)) = SeqDone \<or>
    snd (seq_run torder corder es (a, SeqStart)) = SeqForced"
  using seq_run_moves_left [OF assms(1)] assms(2) by (intro moves_left_end) simp

text \<open>Surroundings in which nothing ever finishes, looked at once a second.\<close>

definition stuck :: "nat surroundings" where
  "stuck = \<lparr>su_workspace = True, su_outstanding = True, su_is_finished = (\<lambda>_. False), su_bridge = True,
     su_drained = False\<rparr>"

lemma seq_ready_second_later: "seq_ready (now + 10 ^ 9) (snd (seq_move torder corder su now pc a))"
  by (cases pc) (simp_all add: seq_move_def poll_flush_def poll_tasks_def poll_teardown_def poll_bridge_def
    case_prod_unfold Let_def POLL_INTERVAL_def)

lemma seq_paced_seconds:
  "seq_ready (int k * 10 ^ 9) (snd ap) \<Longrightarrow>
   seq_paced torder corder (map (\<lambda>i. (int i * 10 ^ 9, su, m)) [k..<k + n]) ap"
proof (induction n arbitrary: k ap)
  case (Suc n)
  have "seq_ready (int (Suc k) * 10 ^ 9) (snd (seq_move torder corder su (int k * 10 ^ 9) (snd ap) (m (fst ap))))"
    using seq_ready_second_later [of "int k * 10 ^ 9"] by (simp add: algebra_simps)
  note rest = Suc.IH [OF this]
  have "[k..<k + Suc n] = k # [Suc k..<Suc k + n]" by (simp add: upt_conv_Cons del: upt_Suc)
  with rest Suc.prems show ?case by (simp del: upt_Suc)
qed simp

theorem shutdown_sequence_ends_witness:
  "let es = map (\<lambda>i. (int i * 10 ^ 9, stuck, (\<lambda>a. a))) [0..<0 + 195];
       r = seq_run (\<lambda>ts. ts) (\<lambda>cs. cs) es (sample_app, SeqStart)
   in snd r = SeqDone \<or> snd r = SeqForced"
  unfolding Let_def
  by (intro shutdown_sequence_ends seq_paced_seconds) simp_all

end
