(* ===== verification/Dependency_Order.thy ===== *)
theory Dependency_Order
  imports Prelude "HOL-Library.Char_ord" "HOL-Library.List_Lexorder" "HOL-Library.Product_Lexorder"
begin

text \<open>
  The load order of a same-engine migration
  (crates/dbflux_core/src/schema/dependency_order.rs): parents before the children
  that reference them, by Kahn's algorithm over the foreign keys, and what remains
  unordered, gathered by Tarjan's algorithm, when the references are cyclic.

  The queue loop is a partial function; \<open>strongconnect\<close> recurses at most once per
  node, so it carries that many units of fuel.  Both are shown to return.  Nodes are
  indices into the table list; the maps of \<open>strongconnect\<close> are maps.
\<close>

section \<open>Tables and foreign keys\<close>

record table_ref =
  tr_schema :: "string option"
  tr_name :: string

record schema_foreign_key_info =
  fk_name :: string
  fk_table_name :: string
  fk_columns :: "string list"
  fk_referenced_schema :: "string option"
  fk_referenced_table :: string
  fk_referenced_columns :: "string list"
  fk_on_delete :: "string option"
  fk_on_update :: "string option"

datatype order_result =
    Ordered "table_ref list"
  | Cyclic (ordered_prefix: "table_ref list") (cycle: "table_ref list")

text \<open>\<open>name_to_indices\<close>: a name without an entry has no indices.\<close>

definition indices_named :: "table_ref list \<Rightarrow> string \<Rightarrow> nat list" where
  "indices_named tables name = filter (\<lambda>i. tr_name (tables ! i) = name) [0..<length tables]"

text \<open>\<open>children\<close>, \<open>in_degree\<close> and \<open>seen_edges\<close> while the foreign keys are read.\<close>

type_synonym edge_tables = "nat list list \<times> nat list \<times> (nat \<times> nat) list"

definition add_edge :: "nat \<Rightarrow> nat \<Rightarrow> edge_tables \<Rightarrow> edge_tables" where
  "add_edge child parent st =
    (case st of (children, in_degree, seen) \<Rightarrow>
       if child = parent then st
       else if (parent, child) \<in> set seen then st
       else (children[parent := children ! parent @ [child]], in_degree[child := in_degree ! child + 1],
             (parent, child) # seen))"

definition add_foreign_key :: "table_ref list \<Rightarrow> schema_foreign_key_info \<Rightarrow> edge_tables \<Rightarrow> edge_tables" where
  "add_foreign_key tables fk =
    fold (\<lambda>child. fold (add_edge child) (indices_named tables (fk_referenced_table fk)))
      (indices_named tables (fk_table_name fk))"

definition collect_edges :: "table_ref list \<Rightarrow> schema_foreign_key_info list \<Rightarrow> edge_tables" where
  "collect_edges tables fks =
    fold (add_foreign_key tables) fks
      (replicate (length tables) [], replicate (length tables) 0, [])"

definition order_key :: "table_ref list \<Rightarrow> nat \<Rightarrow> string \<times> string" where
  "order_key tables i = (unwrap_or [] (tr_schema (tables ! i)), tr_name (tables ! i))"

section \<open>The queue\<close>

text \<open>Subtracting one from a \<open>usize\<close>.\<close>

definition usize_pred :: "nat \<Rightarrow> nat" where
  "usize_pred n = (if n = 0 then 2 ^ 64 - 1 else n - 1)"

fun release :: "nat list \<Rightarrow> nat list \<Rightarrow> nat list \<Rightarrow> nat list \<times> nat list" where
  "release [] in_degree newly_ready = (in_degree, newly_ready)"
| "release (child # cs) in_degree newly_ready =
    (let d = usize_pred (in_degree ! child)
     in release cs (in_degree[child := d]) (if d = 0 then newly_ready @ [child] else newly_ready))"

partial_function (option) kahn ::
  "(nat \<Rightarrow> string \<times> string) \<Rightarrow> nat list list \<Rightarrow> nat list \<Rightarrow> nat list \<Rightarrow> nat list \<Rightarrow> nat list option" where
  "kahn key children queue in_degree ordered =
    (case queue of
       [] \<Rightarrow> Some ordered
     | node # rest \<Rightarrow>
         (let (in_degree', newly_ready) = release (children ! node) in_degree []
          in kahn key children (rest @ sort_key key newly_ready) in_degree' (ordered @ [node])))"

section \<open>Strongly connected components\<close>

record scc_state =
  sc_index_counter :: nat
  sc_stack :: "nat list"
  sc_on_stack :: "nat set"
  sc_indices :: "nat \<rightharpoonup> nat"
  sc_lowlink :: "nat \<rightharpoonup> nat"
  sc_sccs :: "nat list list"

text \<open>The stack is a list with its top first.\<close>

fun pop_component :: "nat \<Rightarrow> nat list \<Rightarrow> nat set \<Rightarrow> nat list \<Rightarrow> nat list \<times> nat set \<times> nat list" where
  "pop_component v [] on_stack component = ([], on_stack, component)"
| "pop_component v (w # stack) on_stack component =
    (if w = v then (stack, on_stack - {w}, component @ [w])
     else pop_component v stack (on_stack - {w}) (component @ [w]))"

definition lower_link :: "nat \<Rightarrow> nat \<Rightarrow> scc_state \<Rightarrow> scc_state" where
  "lower_link v low s = s\<lparr>sc_lowlink := (sc_lowlink s)(v \<mapsto> min (the (sc_lowlink s v)) low)\<rparr>"

definition enter_node :: "nat \<Rightarrow> scc_state \<Rightarrow> scc_state" where
  "enter_node v s = s\<lparr>sc_indices := (sc_indices s)(v \<mapsto> sc_index_counter s),
     sc_lowlink := (sc_lowlink s)(v \<mapsto> sc_index_counter s), sc_index_counter := sc_index_counter s + 1,
     sc_stack := v # sc_stack s, sc_on_stack := insert v (sc_on_stack s)\<rparr>"

definition close_component :: "nat \<Rightarrow> scc_state \<Rightarrow> scc_state" where
  "close_component v s =
    (if the (sc_lowlink s v) = the (sc_indices s v)
     then (let (stack, on_stack, component) = pop_component v (sc_stack s) (sc_on_stack s) []
           in s\<lparr>sc_stack := stack, sc_on_stack := on_stack, sc_sccs := sc_sccs s @ [component]\<rparr>)
     else s)"

fun strongconnect :: "nat list list \<Rightarrow> nat set \<Rightarrow> nat \<Rightarrow> nat \<Rightarrow> scc_state \<Rightarrow> scc_state option"
and scc_children :: "nat list list \<Rightarrow> nat set \<Rightarrow> nat \<Rightarrow> nat \<Rightarrow> nat list \<Rightarrow> scc_state \<Rightarrow> scc_state option" where
  "strongconnect children allowed 0 v s = None"
| "strongconnect children allowed (Suc fuel) v s =
    map_option (close_component v) (scc_children children allowed fuel v (children ! v) (enter_node v s))"
| "scc_children children allowed fuel v [] s = Some s"
| "scc_children children allowed fuel v (w # ws) s =
    (if w \<notin> allowed then scc_children children allowed fuel v ws s
     else if sc_indices s w = None
       then Option.bind (strongconnect children allowed fuel w s)
         (\<lambda>s'. scc_children children allowed fuel v ws (lower_link v (the (sc_lowlink s' w)) s'))
     else if w \<in> sc_on_stack s
       then scc_children children allowed fuel v ws (lower_link v (the (sc_indices s w)) s)
     else scc_children children allowed fuel v ws s)"

fun scc_roots :: "nat list list \<Rightarrow> nat set \<Rightarrow> nat \<Rightarrow> nat list \<Rightarrow> scc_state \<Rightarrow> scc_state option" where
  "scc_roots children allowed fuel [] s = Some s"
| "scc_roots children allowed fuel (v # vs) s =
    (if sc_indices s v = None
     then Option.bind (strongconnect children allowed fuel v s) (scc_roots children allowed fuel vs)
     else scc_roots children allowed fuel vs s)"

definition tarjan_scc :: "nat list \<Rightarrow> nat list list \<Rightarrow> nat list list option" where
  "tarjan_scc nodes children =
    map_option sc_sccs (scc_roots children (set nodes) (length nodes) nodes
      \<lparr>sc_index_counter = 0, sc_stack = [], sc_on_stack = {}, sc_indices = Map.empty,
       sc_lowlink = Map.empty, sc_sccs = []\<rparr>)"

section \<open>The order\<close>

definition topological_order ::
  "table_ref list \<Rightarrow> schema_foreign_key_info list \<Rightarrow> order_result option" where
  "topological_order tables fks =
    (let n = length tables;
         (children, in_degree, _) = collect_edges tables fks;
         ready = sort_key (order_key tables) (filter (\<lambda>i. in_degree ! i = 0) [0..<n])
     in Option.bind (kahn (order_key tables) children ready in_degree []) (\<lambda>ordered.
          if length ordered = n then Some (Ordered (map (\<lambda>i. tables ! i) ordered))
          else let remaining = filter (\<lambda>i. i \<notin> set ordered) [0..<n]
            in map_option (\<lambda>sccs. Cyclic (map (\<lambda>i. tables ! i) ordered)
                 (map (\<lambda>i. tables ! i) (sort_key (order_key tables) (concat sccs))))
               (tarjan_scc remaining children)))"

section \<open>The collected edges\<close>

text \<open>An edge for every foreign key between two different tables of the list.\<close>

definition fk_edges :: "table_ref list \<Rightarrow> schema_foreign_key_info list \<Rightarrow> (nat \<times> nat) set" where
  "fk_edges tables fks = {(p, c). p < length tables \<and> c < length tables \<and> p \<noteq> c \<and>
     (\<exists>fk\<in>set fks. tr_name (tables ! p) = fk_referenced_table fk \<and> tr_name (tables ! c) = fk_table_name fk)}"

definition tables_of :: "nat \<Rightarrow> (nat \<times> nat) set \<Rightarrow> edge_tables \<Rightarrow> bool" where
  "tables_of n E st \<longleftrightarrow> (case st of (children, in_degree, seen) \<Rightarrow>
     set seen = E \<and> E \<subseteq> {..<n} \<times> {..<n} \<and> length children = n \<and> length in_degree = n \<and>
     (\<forall>p<n. distinct (children ! p) \<and> set (children ! p) = {c. (p, c) \<in> E}) \<and>
     (\<forall>c<n. in_degree ! c = card {p. (p, c) \<in> E}))"

lemma finite_parents: "E \<subseteq> {..<n} \<times> {..<n} \<Longrightarrow> finite {p. (p, c) \<in> E \<and> P p}" for n :: nat
  by (rule finite_subset [of _ "{..<n}"]) auto

lemma tables_of_add_edge:
  assumes st: "tables_of n E st" and "p < n" "c < n"
  shows "tables_of n (if c = p then E else insert (p, c) E) (add_edge c p st)"
proof -
  obtain children in_degree seen where st_eq: "st = (children, in_degree, seen)" by (cases st)
  have seen: "set seen = E" using st by (simp add: tables_of_def st_eq)
  show ?thesis
  proof (cases "c = p \<or> (p, c) \<in> E")
    case True
    then show ?thesis using st seen by (auto simp: add_edge_def st_eq insert_absorb)
  next
    case False
    have fin: "finite {q. (q, c) \<in> E}" using st finite_parents [of E n c "\<lambda>_. True"]
      by (simp add: tables_of_def st_eq)
    have "{q. q = p \<or> (q, c) \<in> E} = insert p {q. (q, c) \<in> E}" by auto
    with False fin have card: "card {q. q = p \<or> (q, c) \<in> E} = Suc (card {q. (q, c) \<in> E})" by simp
    have ch: "\<forall>q<n. distinct ((children[p := children ! p @ [c]]) ! q) \<and>
        set ((children[p := children ! p @ [c]]) ! q) = {x. (q, x) \<in> insert (p, c) E}"
      using st False assms(2) by (auto simp: tables_of_def st_eq nth_list_update)
    have deg: "\<forall>x<n. (in_degree[c := in_degree ! c + 1]) ! x = card {q. (q, x) \<in> insert (p, c) E}"
      using st card assms(3) by (auto simp: tables_of_def st_eq nth_list_update)
    show ?thesis
      using st False ch deg assms(2,3) seen by (simp add: tables_of_def add_edge_def st_eq)
  qed
qed

lemma indices_named_iff: "i \<in> set (indices_named tables name) \<longleftrightarrow> i < length tables \<and> tr_name (tables ! i) = name"
  by (auto simp: indices_named_def)

lemma tables_of_parents:
  assumes "tables_of n E st" "c < n" "\<forall>p\<in>set ps. p < n"
  shows "tables_of n (E \<union> {(p, c) | p. p \<in> set ps \<and> p \<noteq> c}) (fold (add_edge c) ps st)"
  using assms
proof (induction ps arbitrary: E st)
  case (Cons p ps)
  let ?E = "if c = p then E else insert (p, c) E"
  have "tables_of n ?E (add_edge c p st)" using Cons.prems by (intro tables_of_add_edge) auto
  from Cons.IH [OF this] Cons.prems
  have "tables_of n (?E \<union> {(q, c) | q. q \<in> set ps \<and> q \<noteq> c}) (fold (add_edge c) (p # ps) st)" by simp
  moreover have "?E \<union> {(q, c) | q. q \<in> set ps \<and> q \<noteq> c} = E \<union> {(q, c) | q. q \<in> set (p # ps) \<and> q \<noteq> c}"
    by auto
  ultimately show ?case by simp
qed simp

lemma tables_of_children:
  assumes "tables_of n E st" "\<forall>c\<in>set cs. c < n" "\<forall>p\<in>set ps. p < n"
  shows "tables_of n (E \<union> {(p, c) | p c. c \<in> set cs \<and> p \<in> set ps \<and> p \<noteq> c})
    (fold (\<lambda>c. fold (add_edge c) ps) cs st)"
  using assms
proof (induction cs arbitrary: E st)
  case (Cons c cs)
  let ?E = "E \<union> {(p, c) | p. p \<in> set ps \<and> p \<noteq> c}"
  have "tables_of n ?E (fold (add_edge c) ps st)" using Cons.prems by (intro tables_of_parents) auto
  from Cons.IH [OF this] Cons.prems
  have "tables_of n (?E \<union> {(p, d) | p d. d \<in> set cs \<and> p \<in> set ps \<and> p \<noteq> d})
    (fold (\<lambda>c. fold (add_edge c) ps) (c # cs) st)" by simp
  moreover have "?E \<union> {(p, d) | p d. d \<in> set cs \<and> p \<in> set ps \<and> p \<noteq> d} =
      E \<union> {(p, d) | p d. d \<in> set (c # cs) \<and> p \<in> set ps \<and> p \<noteq> d}" by auto
  ultimately show ?case by simp
qed simp

lemma tables_of_foreign_keys:
  "tables_of (length tables) (fk_edges tables gks) st \<Longrightarrow>
   tables_of (length tables) (fk_edges tables (gks @ fks)) (fold (add_foreign_key tables) fks st)"
proof (induction fks arbitrary: gks st)
  case (Cons fk fks)
  let ?new = "{(p, c) | p c. c \<in> set (indices_named tables (fk_table_name fk)) \<and>
    p \<in> set (indices_named tables (fk_referenced_table fk)) \<and> p \<noteq> c}"
  have "tables_of (length tables) (fk_edges tables gks \<union> ?new) (add_foreign_key tables fk st)"
    unfolding add_foreign_key_def using Cons.prems
    by (intro tables_of_children) (auto simp: indices_named_iff)
  moreover have "fk_edges tables gks \<union> ?new = fk_edges tables (gks @ [fk])"
    by (auto simp: fk_edges_def indices_named_iff)
  ultimately show ?case using Cons.IH [of "gks @ [fk]"] by simp
qed simp

lemma collect_edges_tables: "tables_of (length tables) (fk_edges tables fks) (collect_edges tables fks)"
proof -
  have "tables_of (length tables) (fk_edges tables [])
      (replicate (length tables) [], replicate (length tables) 0, [])"
    by (simp add: tables_of_def fk_edges_def)
  from tables_of_foreign_keys [OF this, of fks] show ?thesis by (simp add: collect_edges_def)
qed

section \<open>The queue ends with every orderable node\<close>

lemma release_spec:
  assumes "distinct cs" and "\<forall>c\<in>set cs. c < length deg \<and> 0 < deg ! c"
  shows "length (fst (release cs deg ready)) = length deg"
    and "\<forall>c<length deg. fst (release cs deg ready) ! c = (if c \<in> set cs then deg ! c - 1 else deg ! c)"
    and "snd (release cs deg ready) = ready @ filter (\<lambda>c. deg ! c = 1) cs"
proof -
  have "length (fst (release cs deg ready)) = length deg \<and>
    (\<forall>c<length deg. fst (release cs deg ready) ! c = (if c \<in> set cs then deg ! c - 1 else deg ! c)) \<and>
    snd (release cs deg ready) = ready @ filter (\<lambda>c. deg ! c = 1) cs"
    using assms
  proof (induction cs arbitrary: deg ready)
    case (Cons c cs)
    let ?deg = "deg[c := deg ! c - 1]"
    have c: "0 < deg ! c" "c < length deg" "c \<notin> set cs" "distinct cs" using Cons.prems by auto
    have keep: "?deg ! d = deg ! d" if "d \<in> set cs" for d
      using c(3) that by (metis nth_list_update_neq)
    have "\<forall>d\<in>set cs. d < length ?deg \<and> 0 < ?deg ! d" using Cons.prems(2) keep by simp
    note IH = Cons.IH [OF c(4) this]
    have same: "filter (\<lambda>d. ?deg ! d = 1) cs = filter (\<lambda>d. deg ! d = 1) cs"
      using keep by (intro filter_cong) auto
    have "release (c # cs) deg ready = release cs ?deg (if deg ! c = 1 then ready @ [c] else ready)"
      using c(1) by (simp add: usize_pred_def Let_def)
    with IH [of "if deg ! c = 1 then ready @ [c] else ready"] c same show ?case
      by (auto simp: nth_list_update)
  qed simp
  then show "length (fst (release cs deg ready)) = length deg"
    "\<forall>c<length deg. fst (release cs deg ready) ! c = (if c \<in> set cs then deg ! c - 1 else deg ! c)"
    "snd (release cs deg ready) = ready @ filter (\<lambda>c. deg ! c = 1) cs" by simp_all
qed

text \<open>
  Between two rounds: the degrees count the parents not yet ordered, the nodes of
  degree zero are those ordered or queued, and parents come first.
\<close>

definition parents_first :: "(nat \<times> nat) set \<Rightarrow> nat list \<Rightarrow> bool" where
  "parents_first E xs \<longleftrightarrow> (\<forall>i<length xs. \<forall>p. (p, xs ! i) \<in> E \<longrightarrow> p \<in> set (take i xs))"

definition kahn_inv :: "nat \<Rightarrow> (nat \<times> nat) set \<Rightarrow> nat list \<Rightarrow> nat list \<Rightarrow> nat list \<Rightarrow> bool" where
  "kahn_inv n E queue deg ordered \<longleftrightarrow>
    length deg = n \<and> distinct (ordered @ queue) \<and> set (ordered @ queue) = {c. c < n \<and> deg ! c = 0} \<and>
    (\<forall>c<n. deg ! c = card {p. (p, c) \<in> E \<and> p \<notin> set ordered}) \<and> parents_first E ordered"

lemma parents_first_snoc:
  "parents_first E (xs @ [x]) \<longleftrightarrow> parents_first E xs \<and> (\<forall>p. (p, x) \<in> E \<longrightarrow> p \<in> set xs)"
  unfolding parents_first_def by (auto simp: nth_append less_Suc_eq split: if_splits)

lemma kahn_inv_step:
  assumes tables: "tables_of n E (children, deg0, seen)"
    and inv: "kahn_inv n E (x # queue) deg ordered"
    and rel: "release (children ! x) deg [] = (deg', ready)"
    and perm: "set ready' = set ready" "distinct ready' = distinct ready"
  shows "kahn_inv n E (queue @ ready') deg' (ordered @ [x])"
proof -
  let ?cs = "children ! x"
  have E: "E \<subseteq> {..<n} \<times> {..<n}" using tables by (simp add: tables_of_def)
  have x: "x < n" "x \<notin> set ordered" "x \<notin> set queue" "deg ! x = 0"
    using inv by (auto simp: kahn_inv_def)
  have cs: "distinct ?cs" "set ?cs = {c. (x, c) \<in> E}" using tables x(1) by (auto simp: tables_of_def)
  have deg: "deg ! c = card {p. (p, c) \<in> E \<and> p \<notin> set ordered}" if "c < n" for c
    using inv that by (simp add: kahn_inv_def)
  have split: "card {p. (p, c) \<in> E \<and> p \<notin> set ordered} =
      (if (x, c) \<in> E then Suc (card {p. (p, c) \<in> E \<and> p \<notin> set (ordered @ [x])})
       else card {p. (p, c) \<in> E \<and> p \<notin> set (ordered @ [x])})" for c
  proof -
    have "{p. (p, c) \<in> E \<and> p \<notin> set ordered} =
      (if (x, c) \<in> E then insert x {p. (p, c) \<in> E \<and> p \<notin> set (ordered @ [x])}
       else {p. (p, c) \<in> E \<and> p \<notin> set (ordered @ [x])})"
      using x(2) by auto
    then show ?thesis using finite_parents [OF E, of c] by simp
  qed
  have pos: "\<forall>c\<in>set ?cs. c < length deg \<and> 0 < deg ! c"
    using cs(2) E deg split inv by (auto simp: kahn_inv_def)
  note rel_spec = release_spec [OF cs(1) pos, of "[]", unfolded rel, simplified]
  have len: "length deg = n" using inv by (simp add: kahn_inv_def)
  have deg': "deg' ! c = card {p. (p, c) \<in> E \<and> p \<notin> set (ordered @ [x])}" if "c < n" for c
    using rel_spec(2) len that cs(2) deg [OF that] split [of c] by auto
  have ready: "c \<in> set ready \<longleftrightarrow> c < n \<and> (x, c) \<in> E \<and> deg ! c = 1" for c
    using rel_spec(3) cs(2) E by auto
  have zero: "deg' ! c = 0 \<longleftrightarrow> deg ! c = 0 \<or> (x, c) \<in> E \<and> deg ! c = 1" if "c < n" for c
    using rel_spec(2) len that cs(2) by auto
  have old: "c \<in> set ordered \<union> insert x (set queue) \<longleftrightarrow> c < n \<and> deg ! c = 0" for c
    using inv by (auto simp: kahn_inv_def)
  have "set ((ordered @ [x]) @ queue @ ready') = {c. c < n \<and> deg' ! c = 0}"
  proof (rule set_eqI)
    fix c
    have "c \<in> set ((ordered @ [x]) @ queue @ ready') \<longleftrightarrow>
        c \<in> set ordered \<union> insert x (set queue) \<or> c \<in> set ready"
      using perm(1) by auto
    then show "c \<in> set ((ordered @ [x]) @ queue @ ready') \<longleftrightarrow> c \<in> {c. c < n \<and> deg' ! c = 0}"
      unfolding old ready mem_Collect_eq using zero [of c] by argo
  qed
  moreover have "c \<notin> set ordered \<union> insert x (set queue)" if "c \<in> set ready" for c
    using old [of c] ready [of c] that by simp
  then have "(set ordered \<union> insert x (set queue)) \<inter> set ready = {}" by blast
  then have "distinct ((ordered @ [x]) @ queue @ ready')"
    using inv perm rel_spec(3) cs(1) by (auto simp: kahn_inv_def)
  moreover have "{p. (p, x) \<in> E \<and> p \<notin> set ordered} = {}"
    using deg [OF x(1)] x(4) finite_parents [OF E, of x] by simp
  then have "parents_first E (ordered @ [x])"
    using inv by (auto simp: kahn_inv_def parents_first_snoc)
  ultimately show ?thesis
    using rel_spec(1) len deg' by (simp add: kahn_inv_def)
qed

lemma kahn_returns:
  assumes tables: "tables_of n E (children, deg0, seen)" and "kahn_inv n E queue deg ordered"
  shows "\<exists>xs deg'. kahn key children queue deg ordered = Some xs \<and> kahn_inv n E [] deg' xs"
  using assms(2)
proof (induction "n - length ordered" arbitrary: queue deg ordered rule: less_induct)
  case less
  show ?case
  proof (cases queue)
    case Nil
    with less.prems show ?thesis by (subst kahn.simps) auto
  next
    case (Cons x rest)
    obtain deg' ready where rel: "release (children ! x) deg [] = (deg', ready)" by fastforce
    have inv': "kahn_inv n E (rest @ sort_key key ready) deg' (ordered @ [x])"
      using kahn_inv_step [OF tables less.prems [unfolded Cons] rel] by simp
    have "set (ordered @ [x]) \<subseteq> {..<n}" and "distinct (ordered @ [x])"
      using inv' by (auto simp: kahn_inv_def)
    then have "length (ordered @ [x]) \<le> n"
      by (metis card_lessThan card_mono distinct_card finite_lessThan)
    then have "n - length (ordered @ [x]) < n - length ordered" by simp
    from less.hyps [OF this inv'] show ?thesis
      by (subst kahn.simps) (simp add: Cons rel)
  qed
qed

lemma kahn_inv_start:
  assumes "tables_of n E (children, deg, seen)" and "set queue = set (filter (\<lambda>i. deg ! i = 0) [0..<n])"
    and "distinct queue"
  shows "kahn_inv n E queue deg []"
  using assms by (auto simp: kahn_inv_def tables_of_def parents_first_def)

text \<open>What is left when the queue is empty has a parent that is left too.\<close>

lemma kahn_inv_end:
  assumes "kahn_inv n E [] deg xs" and "c < n" and "c \<notin> set xs" and "E \<subseteq> {..<n} \<times> {..<n}"
  shows "\<exists>p. p < n \<and> p \<notin> set xs \<and> (p, c) \<in> E"
proof -
  have "set (xs @ []) = {c. c < n \<and> deg ! c = 0}" and "deg ! c = card {p. (p, c) \<in> E \<and> p \<notin> set xs}"
    using assms(1,2) unfolding kahn_inv_def by blast+
  with assms(2,3) have "card {p. (p, c) \<in> E \<and> p \<notin> set xs} \<noteq> 0"
    by (metis (mono_tags, lifting) append_Nil2 mem_Collect_eq)
  then have "{p. (p, c) \<in> E \<and> p \<notin> set xs} \<noteq> {}" by (simp only: card_eq_0_iff) blast
  with assms(4) show ?thesis by blast
qed

lemma no_source_cyclic:
  assumes "finite E" and "R \<noteq> {}" and "\<forall>c\<in>R. \<exists>p\<in>R. (p, c) \<in> E"
  shows "\<not> acyclic E"
proof
  assume "acyclic E"
  with assms(1) have "wf E" by (rule finite_acyclic_wf)
  with assms(2,3) show False by (metis all_not_in_conv wf_eq_minimal)
qed

lemma parents_first_acyclic:
  assumes "parents_first E xs" and "distinct xs" and "E \<subseteq> set xs \<times> set xs"
  shows "acyclic E"
proof -
  define pos where "pos x = (THE i. i < length xs \<and> xs ! i = x)" for x
  have pos: "pos (xs ! i) = i" if "i < length xs" for i
    unfolding pos_def using assms(2) that by (intro the_equality) (auto simp: nth_eq_iff_index_eq)
  have "E \<subseteq> measure pos"
  proof clarify
    fix p c assume pc: "(p, c) \<in> E"
    with assms(3) have "c \<in> set xs" by blast
    then obtain i where i: "i < length xs" "c = xs ! i" by (auto simp: in_set_conv_nth)
    with assms(1) pc have "p \<in> set (take i xs)" by (auto simp: parents_first_def)
    then obtain j where "j < i" "p = xs ! j" using i(1) by (auto simp: in_set_conv_nth)
    with i pos show "(p, c) \<in> measure pos" by simp
  qed
  then have "wf E" by (rule wf_subset [OF wf_measure])
  then show ?thesis by (rule wf_acyclic)
qed

section \<open>The component search partitions its nodes\<close>

text \<open>
  Visited nodes are on the stack or in a finished component, never both; indices and
  links are recorded for exactly the visited nodes, and a link is at most the index.
\<close>

definition scc_inv :: "nat set \<Rightarrow> scc_state \<Rightarrow> bool" where
  "scc_inv A s \<longleftrightarrow>
    sc_on_stack s = set (sc_stack s) \<and> distinct (sc_stack s @ concat (sc_sccs s)) \<and>
    dom (sc_indices s) = set (sc_stack s) \<union> set (concat (sc_sccs s)) \<and>
    dom (sc_lowlink s) = dom (sc_indices s) \<and> set (sc_stack s) \<subseteq> A \<and> set (concat (sc_sccs s)) \<subseteq> A \<and>
    (\<forall>w\<in>dom (sc_indices s). the (sc_indices s w) < sc_index_counter s) \<and>
    (\<forall>w\<in>dom (sc_indices s). the (sc_lowlink s w) \<le> the (sc_indices s w))"

text \<open>Nothing numbered from \<open>b\<close> on links below \<open>b\<close>, and the stack holds nothing older.\<close>

definition above :: "nat \<Rightarrow> scc_state \<Rightarrow> bool" where
  "above b s \<longleftrightarrow> (\<forall>w\<in>set (sc_stack s). b \<le> the (sc_indices s w)) \<and>
    (\<forall>w\<in>dom (sc_indices s). b \<le> the (sc_indices s w) \<longrightarrow> b \<le> the (sc_lowlink s w))"

definition extends :: "scc_state \<Rightarrow> scc_state \<Rightarrow> bool" where
  "extends s s' \<longleftrightarrow> dom (sc_indices s) \<subseteq> dom (sc_indices s') \<and>
    (\<forall>w\<in>dom (sc_indices s). sc_indices s' w = sc_indices s w) \<and>
    sc_index_counter s \<le> sc_index_counter s' \<and> (\<exists>xs. sc_stack s' = xs @ sc_stack s)"

lemma extends_refl [simp]: "extends s s"
  by (simp add: extends_def)

lemma extends_trans: "extends s s' \<Longrightarrow> extends s' s'' \<Longrightarrow> extends s s''"
  unfolding extends_def by (metis append.assoc order_trans subsetD)

lemma pop_component_stack:
  "v \<notin> set xs \<Longrightarrow> pop_component v (xs @ v # st) os acc = (st, os - insert v (set xs), acc @ xs @ [v])"
  by (induction xs arbitrary: os acc) auto

lemma lower_link_simps [simp]:
  "sc_index_counter (lower_link v l s) = sc_index_counter s" "sc_stack (lower_link v l s) = sc_stack s"
  "sc_on_stack (lower_link v l s) = sc_on_stack s" "sc_indices (lower_link v l s) = sc_indices s"
  "sc_sccs (lower_link v l s) = sc_sccs s"
  by (simp_all add: lower_link_def)

lemma lower_link_inv:
  assumes "scc_inv A s" and "above b s" and "v \<in> dom (sc_indices s)" and "b \<le> the (sc_indices s v)" and "b \<le> l"
  shows "scc_inv A (lower_link v l s)" and "above b (lower_link v l s)"
proof -
  let ?low = "(sc_lowlink s)(v \<mapsto> min (the (sc_lowlink s v)) l)"
  have low: "dom (sc_lowlink s) = dom (sc_indices s)"
    "\<And>w. w \<in> dom (sc_indices s) \<Longrightarrow> the (sc_lowlink s w) \<le> the (sc_indices s w)"
    using assms(1) by (simp_all add: scc_inv_def)
  then have "dom ?low = dom (sc_indices s)" using assms(3) by auto
  moreover have "the (?low w) \<le> the (sc_indices s w)" if "w \<in> dom (sc_indices s)" for w
    using low(2) [OF that] low(2) [OF assms(3)] by (simp add: min.coboundedI1)
  ultimately show "scc_inv A (lower_link v l s)"
    using assms(1) unfolding scc_inv_def lower_link_def by (simp del: set_concat)
  have "b \<le> the (sc_lowlink s v)" using assms(2-4) by (simp add: above_def)
  with assms(2,5) show "above b (lower_link v l s)" by (simp add: above_def lower_link_def)
qed

lemma extends_lower_link: "extends s s' \<Longrightarrow> extends s (lower_link v l s')"
  by (simp add: extends_def)

lemma enter_node_inv:
  assumes inv: "scc_inv A s" and ab: "above b s" and v: "v \<in> A" "sc_indices s v = None"
    and b: "b \<le> sc_index_counter s"
  shows "scc_inv A (enter_node v s)" and "above b (enter_node v s)"
    and "b \<le> the (sc_indices (enter_node v s) v)" and "extends s (enter_node v s)"
proof -
  have new: "v \<notin> dom (sc_indices s)" using v(2) by auto
  let ?D = "set (concat (sc_sccs s))"
  have old: "sc_on_stack s = set (sc_stack s)" "distinct (sc_stack s @ concat (sc_sccs s))"
    "dom (sc_indices s) = set (sc_stack s) \<union> ?D" "dom (sc_lowlink s) = dom (sc_indices s)"
    "set (sc_stack s) \<subseteq> A" "?D \<subseteq> A"
    "\<And>w. w \<in> dom (sc_indices s) \<Longrightarrow> the (sc_indices s w) < sc_index_counter s"
    "\<And>w. w \<in> dom (sc_indices s) \<Longrightarrow> the (sc_lowlink s w) \<le> the (sc_indices s w)"
    using inv by (simp_all add: scc_inv_def del: set_concat)
  have "v \<notin> set (sc_stack s)" "v \<notin> ?D" using new old(3) by blast+
  then have "distinct ((v # sc_stack s) @ concat (sc_sccs s))"
    "dom ((sc_indices s)(v \<mapsto> n)) = set (v # sc_stack s) \<union> ?D" for n
    using old(2,3) by (simp_all del: set_concat)
  with old v(1) show "scc_inv A (enter_node v s)"
    by (simp add: scc_inv_def enter_node_def less_SucI del: set_concat)
  show "above b (enter_node v s)"
    using ab b \<open>v \<notin> set (sc_stack s)\<close> by (simp add: above_def enter_node_def)
  show "b \<le> the (sc_indices (enter_node v s) v)" using b by (simp add: enter_node_def)
  show "extends s (enter_node v s)" using new by (auto simp: extends_def enter_node_def)
qed

lemma close_component_inv:
  assumes inv: "scc_inv A s" and ab: "above b s" and st: "sc_stack s = xs @ v # st"
  shows "scc_inv A (close_component v s)" and "above b (close_component v s)"
    and "sc_indices (close_component v s) = sc_indices s" "sc_lowlink (close_component v s) = sc_lowlink s"
    and "sc_index_counter (close_component v s) = sc_index_counter s"
    and "sc_stack (close_component v s) = (if the (sc_lowlink s v) = the (sc_indices s v) then st else sc_stack s)"
proof -
  have fresh: "v \<notin> set xs" "v \<notin> set st" "set xs \<inter> set st = {}" "sc_on_stack s = insert v (set xs \<union> set st)"
    using inv by (auto simp: scc_inv_def st)
  then have "sc_on_stack s - insert v (set xs) = set st" by auto
  then have pop: "pop_component v (sc_stack s) (sc_on_stack s) [] = (st, set st, xs @ [v])"
    using fresh(1) by (simp add: st pop_component_stack)
  have eq: "close_component v s = (if the (sc_lowlink s v) = the (sc_indices s v)
      then s\<lparr>sc_stack := st, sc_on_stack := set st, sc_sccs := sc_sccs s @ [xs @ [v]]\<rparr> else s)"
    by (simp add: close_component_def pop)
  then show "sc_stack (close_component v s) = (if the (sc_lowlink s v) = the (sc_indices s v) then st else sc_stack s)"
    "sc_indices (close_component v s) = sc_indices s" "sc_lowlink (close_component v s) = sc_lowlink s"
    "sc_index_counter (close_component v s) = sc_index_counter s"
    by simp_all
  let ?c = "s\<lparr>sc_stack := st, sc_on_stack := set st, sc_sccs := sc_sccs s @ [xs @ [v]]\<rparr>"
  have mem: "set st \<union> set (concat (sc_sccs ?c)) = set (sc_stack s) \<union> set (concat (sc_sccs s))"
    by (auto simp: st)
  have "distinct (st @ concat (sc_sccs ?c))" "set st \<subseteq> A" "set (concat (sc_sccs ?c)) \<subseteq> A"
    using inv by (auto simp: scc_inv_def st simp del: set_concat)
  with inv mem have "scc_inv A ?c"
    unfolding scc_inv_def by (simp del: set_concat concat_append)
  then show "scc_inv A (close_component v s)" using inv eq by simp
  show "above b (close_component v s)"
    using ab eq by (simp add: above_def st)
qed

text \<open>
  What a call of \<open>strongconnect\<close> guarantees when there is fuel for the nodes not yet
  visited, and what the loop over the children of a node does.
\<close>

definition connects :: "nat set \<Rightarrow> nat \<Rightarrow> nat \<Rightarrow> scc_state \<Rightarrow> scc_state \<Rightarrow> bool" where
  "connects A b v s s' \<longleftrightarrow> scc_inv A s' \<and> above b s' \<and> extends s s' \<and>
    sc_indices s' v = Some (sc_index_counter s) \<and> b \<le> the (sc_lowlink s' v) \<and>
    (the (sc_lowlink s' v) = sc_index_counter s \<longrightarrow> sc_stack s' = sc_stack s)"

definition unvisited :: "nat set \<Rightarrow> scc_state \<Rightarrow> nat set" where
  "unvisited A s = A - dom (sc_indices s)"

lemma unvisited_mono: "finite A \<Longrightarrow> extends s s' \<Longrightarrow> card (unvisited A s') \<le> card (unvisited A s)"
  by (rule card_mono) (auto simp: unvisited_def extends_def)

lemma extends_dom: "extends s s' \<Longrightarrow> v \<in> dom (sc_indices s) \<Longrightarrow> v \<in> dom (sc_indices s') \<and> sc_indices s' v = sc_indices s v"
  by (auto simp: extends_def)

lemma unvisited_enter:
  assumes "finite A" and "v \<in> A" and "sc_indices s v = None"
  shows "card (unvisited A s) = Suc (card (unvisited A (enter_node v s)))"
proof -
  have "unvisited A s = insert v (unvisited A (enter_node v s))" and "v \<notin> unvisited A (enter_node v s)"
    using assms by (auto simp: unvisited_def enter_node_def)
  with assms(1) show ?thesis by (simp add: unvisited_def)
qed

text \<open>Leaving a node, after the loop over its children.\<close>

lemma connects_leave:
  assumes inv: "scc_inv A s" and ab: "above b s" and v: "v \<in> A" "sc_indices s v = None"
    and b: "b \<le> sc_index_counter s"
    and s': "scc_inv A s'" "above b s'" "extends (enter_node v s) s'"
  shows "connects A b v s (close_component v s')"
proof -
  note enter = enter_node_inv [OF inv ab v b]
  have ind: "sc_indices s' v = Some (sc_index_counter s)" and dom: "v \<in> dom (sc_indices s')"
    using extends_dom [OF s'(3), of v] by (auto simp: enter_node_def)
  obtain xs where xs: "sc_stack s' = xs @ v # sc_stack s"
    using s'(3) by (auto simp: extends_def enter_node_def)
  note close = close_component_inv [OF s'(1,2) xs]
  have "b \<le> the (sc_lowlink s' v)"
    using s'(2) dom ind b by (auto simp: above_def)
  moreover have "extends s (close_component v s')"
    using extends_trans [OF enter(4) s'(3)] close(3,5,6) xs by (auto simp: extends_def)
  ultimately show ?thesis
    using close ind by (auto simp: connects_def)
qed

lemma strongconnect_spec:
  shows "finite A \<Longrightarrow> scc_inv A s \<Longrightarrow> above b s \<Longrightarrow> v \<in> A \<Longrightarrow> sc_indices s v = None \<Longrightarrow>
      b \<le> sc_index_counter s \<Longrightarrow> card (unvisited A s) \<le> fuel \<Longrightarrow>
      \<exists>s'. strongconnect children A fuel v s = Some s' \<and> connects A b v s s'"
    and "finite A \<Longrightarrow> scc_inv A s \<Longrightarrow> above b s \<Longrightarrow> v \<in> dom (sc_indices s) \<Longrightarrow>
      b \<le> the (sc_indices s v) \<Longrightarrow> b \<le> sc_index_counter s \<Longrightarrow> card (unvisited A s) \<le> fuel \<Longrightarrow>
      \<exists>s'. scc_children children A fuel v ws s = Some s' \<and> scc_inv A s' \<and> above b s' \<and> extends s s'"
proof (induction children A fuel v s and children A fuel v ws s rule: strongconnect_scc_children.induct)
  case (1 children A v s)
  then show ?case using unvisited_enter [of A v s] by simp
next
  case (2 children A fuel v s)
  note enter = enter_node_inv [OF "2.prems"(2-6)]
  have "card (unvisited A (enter_node v s)) \<le> fuel"
    using unvisited_enter [of A v s] "2.prems" by simp
  moreover have "v \<in> dom (sc_indices (enter_node v s))" "b \<le> sc_index_counter (enter_node v s)"
    using "2.prems"(6) by (simp_all add: enter_node_def)
  ultimately obtain s' where "scc_children children A fuel v (children ! v) (enter_node v s) = Some s'"
    "scc_inv A s'" "above b s'" "extends (enter_node v s) s'"
    using "2.IH" [OF "2.prems"(1) enter(1,2) _ enter(3)] by blast
  then show ?case using connects_leave [OF "2.prems"(2-6)] by auto
next
  case (3 children A fuel v s)
  then show ?case by simp
next
  case (4 children A fuel v w ws s)
  show ?case
  proof (cases "w \<in> A")
    case False
    then show ?thesis using "4.IH"(1) "4.prems" by simp
  next
    case wA: True
    show ?thesis
    proof (cases "sc_indices s w")
      case None
      obtain s1 where s1: "strongconnect children A fuel w s = Some s1" "connects A b w s s1"
        using "4.IH"(2) [OF _ None "4.prems"(1-3) wA None "4.prems"(6,7)] wA by auto
      let ?s = "lower_link v (the (sc_lowlink s1 w)) s1"
      have ext: "extends s s1" using s1(2) by (simp add: connects_def)
      have v: "v \<in> dom (sc_indices s1)" "b \<le> the (sc_indices s1 v)"
        using extends_dom [OF ext "4.prems"(4)] "4.prems"(5) by auto
      have low: "scc_inv A ?s" "above b ?s"
        using lower_link_inv [OF _ _ v] s1(2) by (auto simp: connects_def)
      have "b \<le> sc_index_counter s1" "card (unvisited A ?s) \<le> fuel"
        using ext "4.prems"(6,7) unvisited_mono [OF "4.prems"(1) ext]
        by (auto simp: extends_def unvisited_def)
      then obtain s2 where "scc_children children A fuel v ws ?s = Some s2" "scc_inv A s2" "above b s2" "extends ?s s2"
        using "4.IH"(3) [OF _ None s1(1) "4.prems"(1) low] wA v by auto
      moreover from this(4) have "extends s s2"
        using extends_trans [OF extends_lower_link [OF ext]] by blast
      ultimately show ?thesis using wA None s1(1) by simp
    next
      case (Some i)
      show ?thesis
      proof (cases "w \<in> sc_on_stack s")
        case True
        let ?s = "lower_link v (the (sc_indices s w)) s"
        have "b \<le> the (sc_indices s w)" using "4.prems"(2,3) True by (auto simp: scc_inv_def above_def)
        note low = lower_link_inv [OF "4.prems"(2,3,4,5) this]
        have "card (unvisited A ?s) \<le> fuel" using "4.prems"(7) by (simp add: unvisited_def)
        then obtain s2 where "scc_children children A fuel v ws ?s = Some s2" "scc_inv A s2" "above b s2" "extends ?s s2"
          using "4.IH"(4) [OF _ _ True "4.prems"(1) low] wA Some "4.prems"(4-6) by auto
        then show ?thesis using wA Some True by (auto simp: extends_def)
      next
        case False
        then show ?thesis using "4.IH"(5) [OF _ _ False "4.prems"] wA Some by auto
      qed
    qed
  qed
qed

text \<open>A root starts on an empty stack, so its link cannot fall below its own index.\<close>

lemma strongconnect_root:
  assumes "finite A" "scc_inv A s" "sc_stack s = []" "v \<in> A" "sc_indices s v = None"
    and "card (unvisited A s) \<le> fuel"
  shows "\<exists>s'. strongconnect children A fuel v s = Some s' \<and> scc_inv A s' \<and> sc_stack s' = [] \<and>
    extends s s' \<and> v \<in> dom (sc_indices s')"
proof -
  have "above (sc_index_counter s) s"
    using assms(2,3) by (force simp: above_def scc_inv_def)
  then obtain s' where s': "strongconnect children A fuel v s = Some s'"
    "connects A (sc_index_counter s) v s s'"
    using strongconnect_spec(1) [OF assms(1,2) _ assms(4,5) order_refl assms(6)] by blast
  then have ind: "sc_indices s' v = Some (sc_index_counter s)" and inv: "scc_inv A s'"
    by (simp_all add: connects_def)
  then have "the (sc_lowlink s' v) \<le> sc_index_counter s"
    unfolding scc_inv_def by (metis domI option.sel)
  with s' assms(3) ind show ?thesis by (auto simp: connects_def)
qed

lemma scc_roots_spec:
  assumes "finite A" "scc_inv A s" "sc_stack s = []" "set vs \<subseteq> A" "card (unvisited A s) \<le> fuel"
  shows "\<exists>s'. scc_roots children A fuel vs s = Some s' \<and> scc_inv A s' \<and> sc_stack s' = [] \<and>
    extends s s' \<and> set vs \<subseteq> dom (sc_indices s')"
  using assms
proof (induction vs arbitrary: s)
  case (Cons v vs)
  obtain s1 where s1: "(if sc_indices s v = None then strongconnect children A fuel v s else Some s) = Some s1"
    "scc_inv A s1" "sc_stack s1 = []" "extends s s1" "v \<in> dom (sc_indices s1)"
    using strongconnect_root [OF Cons.prems(1-3), of v fuel children] Cons.prems
    by (cases "sc_indices s v") auto
  have "card (unvisited A s1) \<le> fuel"
    using unvisited_mono [OF Cons.prems(1) s1(4)] Cons.prems(5) by simp
  then obtain s2 where s2: "scc_roots children A fuel vs s1 = Some s2" "scc_inv A s2" "sc_stack s2 = []"
    "extends s1 s2" "set vs \<subseteq> dom (sc_indices s2)"
    using Cons.IH [OF Cons.prems(1) s1(2,3)] Cons.prems(4) by auto
  moreover have "extends s s2" "v \<in> dom (sc_indices s2)"
    using extends_trans [OF s1(4) s2(4)] extends_dom [OF s2(4) s1(5)] by blast+
  ultimately show ?case using s1(1) by (auto split: if_splits)
qed simp

lemma tarjan_scc_partition:
  "\<exists>sccs. tarjan_scc nodes children = Some sccs \<and> distinct (concat sccs) \<and> set (concat sccs) = set nodes"
proof -
  let ?s = "\<lparr>sc_index_counter = 0, sc_stack = [], sc_on_stack = {}, sc_indices = Map.empty,
       sc_lowlink = Map.empty, sc_sccs = []\<rparr>"
  have "scc_inv (set nodes) ?s" by (simp add: scc_inv_def)
  moreover have "card (unvisited (set nodes) ?s) \<le> length nodes"
    by (simp add: unvisited_def card_length)
  ultimately obtain s' where "scc_roots children (set nodes) (length nodes) nodes ?s = Some s'"
    "scc_inv (set nodes) s'" "sc_stack s' = []" "set nodes \<subseteq> dom (sc_indices s')"
    using scc_roots_spec [of "set nodes" ?s nodes "length nodes" children] by auto
  then show ?thesis by (auto simp: tarjan_scc_def scc_inv_def simp del: set_concat)
qed

section \<open>The result\<close>

text \<open>What follows the queue loop, with the tables' list of children and the order found.\<close>

abbreviation topological_result ::
  "table_ref list \<Rightarrow> nat list list \<Rightarrow> nat list \<Rightarrow> order_result option" where
  "topological_result tables children xs \<equiv>
    (if length xs = length tables then Some (Ordered (map (\<lambda>i. tables ! i) xs))
     else map_option (\<lambda>sccs. Cyclic (map (\<lambda>i. tables ! i) xs)
         (map (\<lambda>i. tables ! i) (sort_key (order_key tables) (concat sccs))))
       (tarjan_scc (filter (\<lambda>i. i \<notin> set xs) [0..<length tables]) children))"

lemma fk_edges_range: "fk_edges tables fks \<subseteq> {..<length tables} \<times> {..<length tables}"
  by (auto simp: fk_edges_def)

lemma topological_order_run:
  "\<exists>children xs deg. topological_order tables fks = topological_result tables children xs \<and>
     kahn_inv (length tables) (fk_edges tables fks) [] deg xs"
proof -
  obtain children deg seen where edges: "collect_edges tables fks = (children, deg, seen)"
    by (cases "collect_edges tables fks")
  have tables: "tables_of (length tables) (fk_edges tables fks) (children, deg, seen)"
    using collect_edges_tables [of tables fks] by (simp only: edges)
  let ?ready = "sort_key (order_key tables) (filter (\<lambda>i. deg ! i = 0) [0..<length tables])"
  obtain xs deg' where "kahn (order_key tables) children ?ready deg [] = Some xs"
    "kahn_inv (length tables) (fk_edges tables fks) [] deg' xs"
    using kahn_returns [OF tables kahn_inv_start [OF tables, of ?ready], of "order_key tables"] by auto
  then show ?thesis by (auto simp: topological_order_def edges Let_def)
qed

lemma kahn_inv_order:
  "kahn_inv n E [] deg xs \<Longrightarrow> distinct xs \<and> set xs \<subseteq> {..<n} \<and> parents_first E xs"
  unfolding kahn_inv_def by auto

lemma kahn_all:
  assumes "kahn_inv n E [] deg xs" and "E \<subseteq> {..<n} \<times> {..<n}" and "length xs = n"
  shows "distinct xs \<and> set xs = {..<n} \<and> parents_first E xs \<and> acyclic E"
proof -
  note d = kahn_inv_order [OF assms(1)]
  then have "set xs = {..<n}" using assms(3) by (intro card_subset_eq) (auto simp: distinct_card)
  with d assms(2) show ?thesis using parents_first_acyclic [of E xs] by simp
qed

lemma kahn_rest:
  assumes "kahn_inv n E [] deg xs" and "E \<subseteq> {..<n} \<times> {..<n}" and "length xs \<noteq> n"
    and "distinct cs" and "set cs = {..<n} - set xs"
  shows "distinct xs \<and> set xs \<inter> set cs = {} \<and> set xs \<union> set cs = {..<n} \<and> parents_first E xs \<and>
    cs \<noteq> [] \<and> (\<forall>c\<in>set cs. \<exists>p\<in>set cs. (p, c) \<in> E) \<and> \<not> acyclic E"
proof -
  note d = kahn_inv_order [OF assms(1)]
  have "set xs \<noteq> {..<n}" using assms(3) d distinct_card [of xs] by auto
  with d assms(5) have ne: "set cs \<noteq> {}" by auto
  have parent: "\<forall>c\<in>set cs. \<exists>p\<in>set cs. (p, c) \<in> E"
    unfolding assms(5) using kahn_inv_end [OF assms(1) _ _ assms(2)] by blast
  have "finite E" using assms(2) by (rule finite_subset) simp
  then have "\<not> acyclic E" using ne parent by (rule no_source_cyclic)
  with d parent ne assms(5) show ?thesis by auto
qed

section \<open>What the migration relies on\<close>

text \<open>
  C36. \<open>topological_order\<close> always returns, and it decides acyclicity: when the foreign
  keys between different tables form no cycle, the result is every table once, each
  after all the tables it references; otherwise the prefix has that order, and prefix
  and cycle together hold every table once, each table of the cycle referencing
  another of the cycle.  (The component search, which gathers the cycle, loses and
  repeats no table.)
\<close>

theorem topological_order_correct:
  "\<exists>xs cs. distinct (xs @ cs) \<and> set (xs @ cs) = {..<length tables} \<and>
     parents_first (fk_edges tables fks) xs \<and>
     (if acyclic (fk_edges tables fks)
      then cs = [] \<and> topological_order tables fks = Some (Ordered (map (\<lambda>i. tables ! i) xs))
      else cs \<noteq> [] \<and> (\<forall>c\<in>set cs. \<exists>p\<in>set cs. (p, c) \<in> fk_edges tables fks) \<and>
        topological_order tables fks =
          Some (Cyclic (map (\<lambda>i. tables ! i) xs) (map (\<lambda>i. tables ! i) cs)))"
proof -
  obtain children xs deg where run: "topological_order tables fks = topological_result tables children xs"
    "kahn_inv (length tables) (fk_edges tables fks) [] deg xs"
    using topological_order_run by blast
  show ?thesis
  proof (cases "length xs = length tables")
    case True
    from kahn_all [OF run(2) fk_edges_range True] True show ?thesis
      by (intro exI [of _ xs] exI [of _ "[]"]) (simp add: run(1))
  next
    case False
    obtain sccs where sccs: "tarjan_scc (filter (\<lambda>i. i \<notin> set xs) [0..<length tables]) children = Some sccs"
      "distinct (concat sccs)" "set (concat sccs) = {..<length tables} - set xs"
      using tarjan_scc_partition by fastforce
    show ?thesis
      using kahn_rest [OF run(2) fk_edges_range False, of "sort_key (order_key tables) (concat sccs)"] sccs False
      by (intro exI [of _ xs] exI [of _ "sort_key (order_key tables) (concat sccs)"])
        (simp add: run(1) del: set_concat)
  qed
qed

definition plain_table :: "string \<Rightarrow> table_ref" where
  "plain_table name = \<lparr>tr_schema = None, tr_name = name\<rparr>"

definition plain_fk :: "string \<Rightarrow> string \<Rightarrow> schema_foreign_key_info" where
  "plain_fk child parent =
    \<lparr>fk_name = [], fk_table_name = child, fk_columns = [], fk_referenced_schema = None,
     fk_referenced_table = parent, fk_referenced_columns = [], fk_on_delete = None, fk_on_update = None\<rparr>"

theorem topological_order_correct_witness:
  "\<exists>cs. topological_order [plain_table ''a'', plain_table ''b''] [plain_fk ''a'' ''b'', plain_fk ''b'' ''a''] =
     Some (Cyclic [] (map (\<lambda>i. [plain_table ''a'', plain_table ''b''] ! i) cs)) \<and> set cs = {0, 1}"
proof -
  let ?tables = "[plain_table ''a'', plain_table ''b'']" and ?fks = "[plain_fk ''a'' ''b'', plain_fk ''b'' ''a'']"
  have edges: "(0, 1) \<in> fk_edges ?tables ?fks" "(1, 0) \<in> fk_edges ?tables ?fks"
    by (simp_all add: fk_edges_def plain_table_def plain_fk_def)
  then have cyclic: "\<not> acyclic (fk_edges ?tables ?fks)"
    unfolding acyclic_def by (meson r_into_trancl trancl_into_trancl)
  obtain xs cs where order: "distinct (xs @ cs)" "set (xs @ cs) = {..<length ?tables}"
    "parents_first (fk_edges ?tables ?fks) xs" "cs \<noteq> []"
    "topological_order ?tables ?fks =
      Some (Cyclic (map (\<lambda>i. ?tables ! i) xs) (map (\<lambda>i. ?tables ! i) cs))"
    using topological_order_correct [of ?tables ?fks] unfolding if_not_P [OF cyclic] by blast
  have "xs = []"
  proof (cases xs)
    case (Cons x ys)
    then have "x = 0 \<or> x = 1" using order(2) by (auto simp: lessThan_Suc)
    moreover have "(p, x) \<notin> fk_edges ?tables ?fks" for p
      using order(3) Cons by (auto simp: parents_first_def)
    ultimately show ?thesis using edges by blast
  qed
  then have "set cs = {0, 1}" using order(2) by (auto simp: lessThan_Suc)
  with order(5) \<open>xs = []\<close> show ?thesis by (intro exI [of _ cs]) simp
qed

end
