(* ===== verification/Tx_Control.thy ===== *)
theory Tx_Control
  imports Rust_Text
begin

text \<open>
  Transaction control typed by the user
  (\<^verbatim>\<open>src/crates/dbflux_core/src/sql/transaction_control.rs\<close>) and the statements the
  mutation executor issues itself (\<^verbatim>\<open>src/crates/dbflux_core/src/query/tx_vocab.rs\<close>).
  The lexer works on the text that is left instead of a position in it. Lemmas: the
  lexer reads back every SQL text that is composed of words, symbols, quoted text and
  comments; what the classification says about such a text; how the two vocabularies
  agree; and the escape rule on which the lexer differs from standard SQL.
\<close>

section \<open>The lexer\<close>

datatype transaction_control = Begin | Commit | Rollback | Unsupported | NotControl

datatype token = Word string | Semicolon | Other

abbreviation backslash :: char where "backslash \<equiv> CHR 0x5C"
abbreviation quote_char :: char where "quote_char \<equiv> CHR 0x27"
abbreviation line_feed :: char where "line_feed \<equiv> CHR 0x0A"
abbreviation carriage_return :: char where "carriage_return \<equiv> CHR 0x0D"

definition is_identifier_character :: "char \<Rightarrow> bool" where
  "is_identifier_character c \<longleftrightarrow> is_ascii_alphanumeric c \<or> c = CHR ''_''"

fun skip_line_comment :: "string \<Rightarrow> string" where
  "skip_line_comment [] = []"
| "skip_line_comment (c # s) =
    (if c = line_feed \<or> c = carriage_return then s else skip_line_comment s)"

fun skip_block_comment :: "int \<Rightarrow> string \<Rightarrow> (unit, string) result" where
  "skip_block_comment depth [] = Err ()"
| "skip_block_comment depth (c # s) =
    (if starts_with (c # s) ''/*'' then skip_block_comment (depth + 1) (drop 1 s)
     else if starts_with (c # s) ''*/'' then
       (if depth - 1 = 0 then Ok (drop 1 s) else skip_block_comment (depth - 1) (drop 1 s))
     else skip_block_comment depth s)"

definition closing_of :: "char \<Rightarrow> char" where
  "closing_of opening = (if opening = CHR ''['' then CHR '']'' else opening)"

text \<open>The text after the opening character; \<open>q\<close> is the closing one.\<close>

fun skip_quoted :: "char \<Rightarrow> string \<Rightarrow> (unit, string) result" where
  "skip_quoted q [] = Err ()"
| "skip_quoted q (c # s) =
    (if c = backslash then (case s of [] \<Rightarrow> Err () | _ # t \<Rightarrow> skip_quoted q t)
     else if c = q then (case s of d # t \<Rightarrow> if d = q then skip_quoted q t else Ok s | [] \<Rightarrow> Ok [])
     else skip_quoted q s)"

definition is_tag :: "string \<Rightarrow> bool" where
  "is_tag tag \<longleftrightarrow>
    (tag = [] \<or> is_ascii_alphabetic (hd tag) \<or> hd tag = CHR ''_'') \<and>
    (\<forall>c\<in>set (tl tag). is_identifier_character c)"

definition dollar_quote_delimiter :: "string \<Rightarrow> string option" where
  "dollar_quote_delimiter s =
    (if starts_with s ''$''
     then Option.bind (split_once (CHR ''$'') (tl s)) (\<lambda>(tag, _).
       if is_tag tag then Some (''$'' @ tag @ ''$'') else None)
     else None)"

definition skip_dollar_quote :: "string \<Rightarrow> string \<Rightarrow> (unit, string) result" where
  "skip_dollar_quote delimiter s =
    (case split_at_sub delimiter (drop (length delimiter) s) of
       None \<Rightarrow> Err ()
     | Some (_, rest) \<Rightarrow> Ok rest)"

lemma skip_line_comment_length: "length (skip_line_comment s) \<le> length s"
  by (induction s) auto

lemma skip_block_comment_length: "skip_block_comment d s = Ok t \<Longrightarrow> length t < length s"
  by (induction d s rule: skip_block_comment.induct) (force split: if_splits)+

lemma skip_quoted_length: "skip_quoted q s = Ok t \<Longrightarrow> length t \<le> length s"
  by (induction q s rule: skip_quoted.induct) (auto split: if_splits list.splits)

lemma skip_dollar_quote_length:
  assumes "skip_dollar_quote d s = Ok t" and "d \<noteq> []" and "s \<noteq> []"
  shows "length t < length s"
proof -
  obtain a where "drop (length d) s = a @ d @ t"
    using assms(1) split_at_sub_Some
    by (fastforce simp: skip_dollar_quote_def split: option.splits)
  then have "length s - length d = length a + length d + length t"
    by (metis length_append length_drop add.assoc)
  with assms(2,3) show ?thesis by (cases d; cases s) auto
qed

lemma dollar_quote_delimiter_nonempty [simp]: "dollar_quote_delimiter s \<noteq> Some []"
  by (auto simp: dollar_quote_delimiter_def bind_eq_Some_conv split: if_splits)

definition push_token :: "token \<Rightarrow> (unit, token list) result \<Rightarrow> (unit, token list) result" where
  "push_token tok r = and_then r (\<lambda>toks. Ok (tok # toks))"

function lex :: "string \<Rightarrow> (unit, token list) result" where
  "lex [] = Ok []"
| "lex (c # s) =
    (if is_whitespace c then lex s
     else if starts_with (c # s) ''--'' then lex (skip_line_comment (drop 1 s))
     else if starts_with (c # s) ''/*'' then
       (case skip_block_comment 0 (c # s) of Inl e \<Rightarrow> Err e | Inr t \<Rightarrow> lex t)
     else if c = quote_char \<or> c = CHR 0x22 \<or> c = CHR 0x60 \<or> c = CHR ''['' then
       (case skip_quoted (closing_of c) s of Inl e \<Rightarrow> Err e | Inr t \<Rightarrow> push_token Other (lex t))
     else if c = CHR ''$'' then
       (case dollar_quote_delimiter (c # s) of
          Some delimiter \<Rightarrow>
            (case skip_dollar_quote delimiter (c # s) of Inl e \<Rightarrow> Err e | Inr t \<Rightarrow> push_token Other (lex t))
        | None \<Rightarrow> push_token Other (lex s))
     else if c = CHR '';'' then push_token Semicolon (lex s)
     else if is_identifier_character c then
       push_token (Word (c # takeWhile is_identifier_character s)) (lex (dropWhile is_identifier_character s))
     else push_token Other (lex s))"
  by pat_completeness auto
termination
proof (relation "measure length", goal_cases)
  case (2 c s)
  then show ?case by simp
next
  case (3 c s)
  then show ?case using skip_line_comment_length [of "drop 1 s"] by simp
next
  case (4 c s t)
  then show ?case by (auto dest: skip_block_comment_length)
next
  case (5 c s t)
  then show ?case by (auto dest: skip_quoted_length)
next
  case (7 c s d t)
  then show ?case by (auto dest: skip_dollar_quote_length)
qed (auto simp: le_imp_less_Suc length_dropWhile_le)

section \<open>Classification\<close>

fun split_tokens :: "token list \<Rightarrow> token list list" where
  "split_tokens [] = [[]]"
| "split_tokens (tok # toks) =
    (if tok = Semicolon then [] # split_tokens toks
     else (tok # hd (split_tokens toks)) # tl (split_tokens toks))"

definition statements :: "token list \<Rightarrow> token list list" where
  "statements toks = filter (\<lambda>st. st \<noteq> []) (split_tokens toks)"

definition keyword :: "string \<Rightarrow> string \<Rightarrow> bool" where
  "keyword word expected = eq_ignore_ascii_case word expected"

definition is_transaction_control_lead :: "string \<Rightarrow> bool" where
  "is_transaction_control_lead word \<longleftrightarrow>
    (\<exists>k\<in>set [''BEGIN'', ''COMMIT'', ''ROLLBACK'', ''SAVEPOINT'', ''RELEASE'', ''START'', ''END'', ''SET''].
       keyword word k)"

fun words_of :: "token list \<Rightarrow> string list option" where
  "words_of [] = Some []"
| "words_of (Word w # toks) = map_option ((#) w) (words_of toks)"
| "words_of (_ # toks) = None"

definition leads :: "token list \<Rightarrow> bool" where
  "leads toks \<longleftrightarrow> (case toks of Word first # _ \<Rightarrow> is_transaction_control_lead first | _ \<Rightarrow> False)"

definition classify_words :: "string list \<Rightarrow> transaction_control" where
  "classify_words ws =
    (case ws of
       [] \<Rightarrow> NotControl
     | [w] \<Rightarrow>
         if keyword w ''BEGIN'' then Begin
         else if keyword w ''COMMIT'' then Commit
         else if keyword w ''ROLLBACK'' then Rollback
         else if is_transaction_control_lead w then Unsupported else NotControl
     | [w, v] \<Rightarrow>
         if keyword w ''BEGIN'' \<and> (keyword v ''IMMEDIATE'' \<or> keyword v ''TRANSACTION'') then Begin
         else if is_transaction_control_lead w then Unsupported else NotControl
     | w # _ \<Rightarrow> if is_transaction_control_lead w then Unsupported else NotControl)"

definition classify_statement :: "token list \<Rightarrow> transaction_control" where
  "classify_statement toks =
    (if leads toks \<and> Other \<in> set toks then Unsupported
     else (case words_of toks of None \<Rightarrow> NotControl | Some ws \<Rightarrow> classify_words ws))"

definition classify_tokens :: "token list \<Rightarrow> transaction_control" where
  "classify_tokens toks =
    (case statements toks of
       [] \<Rightarrow> Unsupported
     | [st] \<Rightarrow> classify_statement st
     | batch \<Rightarrow> if \<forall>st\<in>set batch. classify_statement st = NotControl then NotControl else Unsupported)"

definition classify_sql_transaction_control :: "string \<Rightarrow> transaction_control" where
  "classify_sql_transaction_control sql =
    (case lex sql of Inl _ \<Rightarrow> Unsupported | Inr toks \<Rightarrow> classify_tokens toks)"

section \<open>The vocabulary of the mutation executor\<close>

datatype db_kind =
    Postgres | SQLite | MySQL | MariaDB | MongoDB | Redis | DynamoDB | CloudWatchLogs | InfluxDB
  | SqlServer | Redshift | S3 | ClickHouse | Turso | DuckDB | AwsSecrets

record transaction_vocab =
  tv_begin :: string
  tv_commit :: string
  tv_rollback :: string
  tv_lock_timeout_template :: "string option"
  tv_lock_timeout_before_begin :: bool
  tv_lock_timeout_reset_sql :: "string option"
  tv_autocommit_lock_timeout_template :: "string option"
  tv_autocommit_lock_timeout_reset_sql :: "string option"

definition plain_vocab :: "string \<Rightarrow> transaction_vocab" where
  "plain_vocab begin_sql =
    \<lparr>tv_begin = begin_sql, tv_commit = ''COMMIT'', tv_rollback = ''ROLLBACK'',
     tv_lock_timeout_template = None, tv_lock_timeout_before_begin = False,
     tv_lock_timeout_reset_sql = None, tv_autocommit_lock_timeout_template = None,
     tv_autocommit_lock_timeout_reset_sql = None\<rparr>"

definition postgres_vocab :: transaction_vocab where
  "postgres_vocab = (plain_vocab ''BEGIN'')
    \<lparr>tv_lock_timeout_template := Some (''SET LOCAL lock_timeout = '' @ [quote_char] @ ''{ms}ms'' @ [quote_char]),
     tv_autocommit_lock_timeout_template := Some (''SET lock_timeout = '' @ [quote_char] @ ''{ms}ms'' @ [quote_char]),
     tv_autocommit_lock_timeout_reset_sql := Some ''SET lock_timeout = DEFAULT''\<rparr>"

definition mysql_vocab :: transaction_vocab where
  "mysql_vocab = (plain_vocab ''START TRANSACTION'')
    \<lparr>tv_lock_timeout_template := Some ''SET SESSION innodb_lock_wait_timeout = {seconds}'',
     tv_lock_timeout_before_begin := True,
     tv_lock_timeout_reset_sql := Some ''SET SESSION innodb_lock_wait_timeout = DEFAULT'',
     tv_autocommit_lock_timeout_template := Some ''SET SESSION innodb_lock_wait_timeout = {seconds}'',
     tv_autocommit_lock_timeout_reset_sql := Some ''SET SESSION innodb_lock_wait_timeout = DEFAULT''\<rparr>"

definition sqlserver_vocab :: transaction_vocab where
  "sqlserver_vocab = (plain_vocab ''BEGIN TRANSACTION'')
    \<lparr>tv_lock_timeout_template := Some ''SET LOCK_TIMEOUT {ms}'',
     tv_lock_timeout_reset_sql := Some ''SET LOCK_TIMEOUT -1'',
     tv_autocommit_lock_timeout_template := Some ''SET LOCK_TIMEOUT {ms}'',
     tv_autocommit_lock_timeout_reset_sql := Some ''SET LOCK_TIMEOUT -1''\<rparr>"

fun for_kind :: "db_kind \<Rightarrow> transaction_vocab option" where
  "for_kind Postgres = Some postgres_vocab"
| "for_kind MySQL = Some mysql_vocab"
| "for_kind MariaDB = Some mysql_vocab"
| "for_kind SQLite = Some (plain_vocab ''BEGIN IMMEDIATE'')"
| "for_kind Turso = Some (plain_vocab ''BEGIN IMMEDIATE'')"
| "for_kind DuckDB = Some (plain_vocab ''BEGIN TRANSACTION'')"
| "for_kind SqlServer = Some sqlserver_vocab"
| "for_kind _ = None"

text \<open>\<open>str::replace\<close>, for a pattern that is not empty.\<close>

function str_replace :: "string \<Rightarrow> string \<Rightarrow> string \<Rightarrow> string" where
  "str_replace p r s =
    (if p = [] then s
     else case split_at_sub p s of None \<Rightarrow> s | Some (a, b) \<Rightarrow> a @ r @ str_replace p r b)"
  by pat_completeness auto
termination
  by (relation "measure (\<lambda>(p, r, s). length s)") (auto dest: split_at_sub_Some)

declare str_replace.simps [simp del]

definition fill_template :: "string \<Rightarrow> nat \<Rightarrow> string" where
  "fill_template template timeout_ms =
    (let seconds = max ((timeout_ms + 999) div 1000) 1
     in str_replace ''{seconds}'' (show_nat seconds) (str_replace ''{ms}'' (show_nat timeout_ms) template))"

definition lock_timeout_sql :: "transaction_vocab \<Rightarrow> nat \<Rightarrow> string option" where
  "lock_timeout_sql v timeout_ms =
    map_option (\<lambda>template. fill_template template timeout_ms) (tv_lock_timeout_template v)"

definition autocommit_lock_timeout_sql :: "transaction_vocab \<Rightarrow> nat \<Rightarrow> string option" where
  "autocommit_lock_timeout_sql v timeout_ms =
    map_option (\<lambda>template. fill_template template timeout_ms) (tv_autocommit_lock_timeout_template v)"

section \<open>SQL texts and the lexer\<close>

text \<open>
  A text as its author composes it: blanks, comments (block comments nest), quoted text
  with the closing character and the backslash doubled, dollar-quoted text, semicolons,
  words and single symbols.
\<close>

datatype comment_part = Plain string | Nested "comment_part list"

datatype sql_item =
    Blank string
  | LineComment string
  | BlockComment "comment_part list"
  | Quoted char string
  | DollarQuoted string string
  | Semi
  | Name string
  | Symbol char

fun render_part :: "comment_part \<Rightarrow> string" where
  "render_part (Plain t) = t"
| "render_part (Nested ps) = ''/*'' @ concat (map render_part ps) @ ''*/''"

fun part_ok :: "comment_part \<Rightarrow> bool" where
  "part_ok (Plain t) \<longleftrightarrow> CHR ''/'' \<notin> set t \<and> CHR ''*'' \<notin> set t"
| "part_ok (Nested ps) \<longleftrightarrow> (\<forall>p\<in>set ps. part_ok p)"

definition escape_quoted :: "char \<Rightarrow> string \<Rightarrow> string" where
  "escape_quoted q body = concat (map (\<lambda>c. if c = q \<or> c = backslash then [c, c] else [c]) body)"

fun render_item :: "sql_item \<Rightarrow> string" where
  "render_item (Blank w) = w"
| "render_item (LineComment t) = ''--'' @ t @ [line_feed]"
| "render_item (BlockComment ps) = ''/*'' @ concat (map render_part ps) @ ''*/''"
| "render_item (Quoted opening body) =
    [opening] @ escape_quoted (closing_of opening) body @ [closing_of opening]"
| "render_item (DollarQuoted tag body) = ''$'' @ tag @ ''$'' @ body @ ''$'' @ tag @ ''$''"
| "render_item Semi = '';''"
| "render_item (Name w) = w"
| "render_item (Symbol c) = [c]"

definition render_sql :: "sql_item list \<Rightarrow> string" where
  "render_sql its = concat (map render_item its)"

fun item_tokens :: "sql_item \<Rightarrow> token list" where
  "item_tokens (Quoted _ _) = [Other]"
| "item_tokens (DollarQuoted _ _) = [Other]"
| "item_tokens Semi = [Semicolon]"
| "item_tokens (Name w) = [Word w]"
| "item_tokens (Symbol _) = [Other]"
| "item_tokens _ = []"

abbreviation quote_openings :: "char set" where
  "quote_openings \<equiv> {quote_char, CHR 0x22, CHR 0x60, CHR ''[''}"

text \<open>What an item may contain, and what may follow it.\<close>

fun item_ok :: "sql_item \<Rightarrow> string \<Rightarrow> bool" where
  "item_ok (Blank w) rest \<longleftrightarrow> (\<forall>c\<in>set w. is_whitespace c)"
| "item_ok (LineComment t) rest \<longleftrightarrow> line_feed \<notin> set t \<and> carriage_return \<notin> set t"
| "item_ok (BlockComment ps) rest \<longleftrightarrow> (\<forall>p\<in>set ps. part_ok p)"
| "item_ok (Quoted opening body) rest \<longleftrightarrow>
    opening \<in> quote_openings \<and> \<not> starts_with rest [closing_of opening]"
| "item_ok (DollarQuoted tag body) rest \<longleftrightarrow>
    is_tag tag \<and> split_at_sub (''$'' @ tag @ ''$'') (body @ ''$'' @ tag @ ''$'') = Some (body, [])"
| "item_ok Semi rest \<longleftrightarrow> True"
| "item_ok (Name w) rest \<longleftrightarrow> w \<noteq> [] \<and> (\<forall>c\<in>set w. is_identifier_character c) \<and>
    (rest = [] \<or> \<not> is_identifier_character (hd rest))"
| "item_ok (Symbol c) rest \<longleftrightarrow>
    \<not> is_whitespace c \<and> \<not> is_identifier_character c \<and> c \<notin> quote_openings \<and> c \<noteq> CHR '';'' \<and>
    \<not> starts_with (c # rest) ''--'' \<and> \<not> starts_with (c # rest) ''/*'' \<and>
    (c = CHR ''$'' \<longrightarrow> dollar_quote_delimiter (c # rest) = None)"

fun items_ok :: "sql_item list \<Rightarrow> bool" where
  "items_ok [] \<longleftrightarrow> True"
| "items_ok (it # its) \<longleftrightarrow> item_ok it (render_sql its) \<and> items_ok its"

declare lex.simps(2) [simp del]

lemma starts_with_Cons [simp]: "starts_with (c # s) (d # p) \<longleftrightarrow> c = d \<and> starts_with s p"
  by (auto simp: starts_with_def)

lemma starts_with_empty [simp]: "starts_with [] (d # p) \<longleftrightarrow> False"
  by (simp add: starts_with_def)

lemmas character_tests = is_whitespace_def is_identifier_character_def is_ascii_alphanumeric_def
  is_ascii_alphabetic_def is_ascii_uppercase_def is_ascii_lowercase_def is_ascii_digit_def

lemma push_token_Ok [simp]: "push_token tok (Ok toks) = Ok (tok # toks)"
  by (simp add: push_token_def and_then_def)

lemma lex_blanks: "\<forall>c\<in>set w. is_whitespace c \<Longrightarrow> lex (w @ r) = lex r"
  by (induction w) (auto simp: lex.simps(2))

lemma skip_line_comment_text:
  "line_feed \<notin> set t \<Longrightarrow> carriage_return \<notin> set t \<Longrightarrow> skip_line_comment (t @ line_feed # r) = r"
  by (induction t) auto

lemma skip_block_comment_plain:
  "CHR ''/'' \<notin> set t \<Longrightarrow> CHR ''*'' \<notin> set t \<Longrightarrow> skip_block_comment d (t @ r) = skip_block_comment d r"
  by (induction t) auto

lemma skip_block_comment_part:
  "part_ok p \<Longrightarrow> 1 \<le> d \<Longrightarrow> skip_block_comment d (render_part p @ r) = skip_block_comment d r"
proof (induction p arbitrary: d r)
  case (Plain t)
  then show ?case by (simp add: skip_block_comment_plain)
next
  case (Nested ps)
  have "skip_block_comment (d + 1) (concat (map render_part qs) @ t) = skip_block_comment (d + 1) t"
    if "set qs \<subseteq> set ps" for qs t
    using that by (induction qs) (use Nested in auto)
  with Nested.prems show ?case by simp
qed

lemma skip_block_comment_parts:
  "\<forall>p\<in>set ps. part_ok p \<Longrightarrow>
    skip_block_comment 0 (''/*'' @ concat (map render_part ps) @ ''*/'' @ r) = Ok r"
proof -
  assume "\<forall>p\<in>set ps. part_ok p"
  then have "skip_block_comment 1 (concat (map render_part ps) @ t) = skip_block_comment 1 t" for t
    by (induction ps) (auto simp: skip_block_comment_part)
  then show ?thesis by simp
qed

lemma skip_quoted_escaped:
  assumes "q \<noteq> backslash" and "\<not> starts_with r [q]"
  shows "skip_quoted q (escape_quoted q body @ q # r) = Ok r"
  using assms by (induction body) (auto simp: escape_quoted_def split: list.splits)

lemma split_at_sub_extend:
  "split_at_sub p s = Some (a, b) \<Longrightarrow> split_at_sub p (s @ t) = Some (a, b @ t)"
proof (induction s arbitrary: a)
  case Nil
  then show ?case by (cases t) (auto simp: strip_prefix_def split: if_splits)
next
  case (Cons c s)
  show ?case
  proof (cases "strip_prefix p (c # s)")
    case (Some rest)
    then have "c # s @ t = p @ rest @ t" by (simp add: strip_prefix_Some_iff flip: append_Cons)
    then have "strip_prefix p (c # s @ t) = Some (rest @ t)" by (simp only: strip_prefix_append)
    with Some Cons.prems show ?thesis by simp
  next
    case None
    with Cons.prems obtain a' where a': "a = c # a'" "split_at_sub p s = Some (a', b)" by auto
    have "length p \<le> length s" using split_at_sub_Some [OF a'(2)] by simp
    then have "take (length p) (c # s @ t) = take (length p) (c # s)" by (cases p) simp_all
    then have "strip_prefix p (c # s @ t) = None"
      using None unfolding strip_prefix_def starts_with_def by (metis option.distinct(1))
    with Cons.IH [OF a'(2)] a'(1) show ?thesis by simp
  qed
qed

lemma dollar_delimiter_of_tag:
  assumes "is_tag tag"
  shows "dollar_quote_delimiter (CHR ''$'' # tag @ CHR ''$'' # r) = Some (CHR ''$'' # tag @ ''$'')"
proof -
  have "CHR ''$'' \<notin> set tag"
    using assms by (cases tag) (auto simp: is_tag_def character_tests)
  with assms show ?thesis by (simp add: dollar_quote_delimiter_def)
qed

lemma skip_dollar_quoted:
  assumes "split_at_sub d (body @ d) = Some (body, [])"
  shows "skip_dollar_quote d (d @ body @ d @ r) = Ok r"
  using split_at_sub_extend [OF assms, of r] by (simp add: skip_dollar_quote_def)

lemma identifier_plain:
  assumes "is_identifier_character c"
  shows "\<not> is_whitespace c" "c \<notin> quote_openings" "c \<noteq> CHR ''$''" "c \<noteq> CHR '';''"
    "c \<noteq> CHR ''-''" "c \<noteq> CHR ''/''"
proof -
  show "\<not> is_whitespace c"
  proof (cases "c = CHR ''_''")
    case False
    then show ?thesis using assms unfolding character_tests by linarith
  qed (simp add: is_whitespace_def)
  show "c \<notin> quote_openings" "c \<noteq> CHR ''$''" "c \<noteq> CHR '';''" "c \<noteq> CHR ''-''" "c \<noteq> CHR ''/''"
    using assms by (auto simp: character_tests)
qed

lemma lex_word:
  assumes "w \<noteq> []" and "\<forall>c\<in>set w. is_identifier_character c"
    and "r = [] \<or> \<not> is_identifier_character (hd r)"
  shows "lex (w @ r) = push_token (Word w) (lex r)"
proof (cases w)
  case (Cons c v)
  have split: "takeWhile is_identifier_character (v @ r) = v" "dropWhile is_identifier_character (v @ r) = r"
    using assms Cons by (cases r; simp add: takeWhile_append dropWhile_append)+
  have c: "is_identifier_character c" using assms Cons by simp
  from identifier_plain [OF c] show ?thesis unfolding Cons by (simp add: lex.simps(2) c split)
qed (use assms in simp)

lemma lex_symbol: "item_ok (Symbol c) r \<Longrightarrow> lex (c # r) = push_token Other (lex r)"
  by (auto simp: lex.simps(2))

lemma lex_item:
  assumes "item_ok it r"
  shows "lex (render_item it @ r) = fold push_token (item_tokens it) (lex r)"
proof (cases it)
  case (DollarQuoted tag body)
  then have "skip_dollar_quote (CHR ''$'' # tag @ ''$'') (render_item it @ r) = Ok r"
    using skip_dollar_quoted [of "CHR ''$'' # tag @ ''$''" body r] assms by simp
  with DollarQuoted assms show ?thesis
    by (simp add: lex.simps(2) dollar_delimiter_of_tag character_tests)
next
  case (BlockComment ps)
  then show ?thesis
    using skip_block_comment_parts [of ps r] assms by (simp add: lex.simps(2) character_tests)
next
  case (Quoted ch body)
  then have "skip_quoted (closing_of ch) (escape_quoted (closing_of ch) body @ closing_of ch # r) = Ok r"
    using assms by (intro skip_quoted_escaped) (auto simp: closing_of_def)
  with Quoted assms show ?thesis by (auto simp: lex.simps(2) character_tests)
qed (use assms in \<open>auto simp: lex_blanks lex_word lex_symbol lex.simps(2) skip_line_comment_text character_tests\<close>)

text \<open>
  C39. The lexer reads back every composed text: words, quoted text, symbols and
  semicolons become the tokens the author meant, in order, and neither comments
  (nested ones included) nor what stands inside quotes leaves a token of its own.
\<close>

theorem lex_render:
  "items_ok its \<Longrightarrow> lex (render_sql its) = Ok (concat (map item_tokens its))"
proof (induction its)
  case Nil
  then show ?case by (simp add: render_sql_def)
next
  case (Cons it its)
  have "lex (render_sql (it # its)) = fold push_token (item_tokens it) (lex (render_sql its))"
    using lex_item [of it "render_sql its"] Cons.prems by (simp add: render_sql_def)
  then show ?case using Cons by (cases it) simp_all
qed

theorem lex_render_witness:
  "lex (render_sql
     [Name ''SELECT'', Blank '' '', Quoted quote_char (''a; COMMIT'' @ [quote_char]), Semi,
      BlockComment [Plain '' x '', Nested [Plain '' y '']], Name ''COMMIT'', LineComment '' END'',
      DollarQuoted ''t'' ''BEGIN; $$'']) =
   Ok [Word ''SELECT'', Other, Semicolon, Word ''COMMIT'', Other]"
  by (subst lex_render) (simp_all add: render_sql_def escape_quoted_def closing_of_def is_tag_def
      character_tests strip_prefix_def)

section \<open>What the classification says\<close>

lemma split_tokens_nonempty [simp]: "split_tokens toks \<noteq> []"
  by (cases toks) auto

lemma statements_no_semicolon: "st \<in> set (statements toks) \<Longrightarrow> Semicolon \<notin> set st"
proof -
  have "\<forall>st\<in>set (split_tokens toks). Semicolon \<notin> set st"
    by (induction toks) (auto simp: hd_in_set dest: list.set_sel(2) [OF split_tokens_nonempty])
  then show "st \<in> set (statements toks) \<Longrightarrow> Semicolon \<notin> set st"
    by (auto simp: statements_def)
qed

lemma words_of_None_iff: "words_of toks = None \<longleftrightarrow> Other \<in> set toks \<or> Semicolon \<in> set toks"
  by (induction toks rule: words_of.induct) auto

lemma words_of_Some_iff: "words_of toks = Some ws \<longleftrightarrow> toks = map Word ws"
  by (induction toks arbitrary: ws rule: words_of.induct) (auto simp: Cons_eq_map_conv)

lemma map_Word_eq [simp]: "map Word a = map Word b \<longleftrightarrow> a = b"
  by (rule inj_map_eq_map) (simp add: inj_def)

lemma words_of_words: "words_of (map Word ws) = Some ws"
  by (simp add: words_of_Some_iff)

lemma classify_words_control:
  "classify_words ws = NotControl \<longleftrightarrow> ws = [] \<or> \<not> is_transaction_control_lead (hd ws)"
  by (auto simp: classify_words_def is_transaction_control_lead_def split: list.splits)

lemma classify_statement_NotControl:
  assumes "st \<noteq> []" and "Semicolon \<notin> set st"
  shows "classify_statement st = NotControl \<longleftrightarrow> \<not> leads st"
proof (cases "words_of st")
  case None
  then have "Other \<in> set st" using words_of_None_iff assms(2) by blast
  with None show ?thesis by (simp add: classify_statement_def)
next
  case (Some ws)
  then have st: "st = map Word ws" by (simp add: words_of_Some_iff)
  then obtain w vs where "ws = w # vs" using assms(1) by (cases ws) auto
  with Some st show ?thesis
    by (auto simp: classify_statement_def classify_words_control leads_def)
qed

lemma keyword_exclusive:
  "keyword w ''COMMIT'' \<Longrightarrow> \<not> keyword w ''BEGIN''"
  "keyword w ''ROLLBACK'' \<Longrightarrow> \<not> keyword w ''BEGIN''"
  "keyword w ''ROLLBACK'' \<Longrightarrow> \<not> keyword w ''COMMIT''"
  by (simp_all add: keyword_def eq_ignore_ascii_case_def to_ascii_lower_def is_ascii_uppercase_def)

lemma classify_statement_word:
  "classify_statement st = Commit \<longleftrightarrow> (\<exists>w. st = [Word w] \<and> keyword w ''COMMIT'')"
  "classify_statement st = Rollback \<longleftrightarrow> (\<exists>w. st = [Word w] \<and> keyword w ''ROLLBACK'')"
proof -
  have "classify_words ws = Commit \<longleftrightarrow> (\<exists>w. ws = [w] \<and> keyword w ''COMMIT'')"
    "classify_words ws = Rollback \<longleftrightarrow> (\<exists>w. ws = [w] \<and> keyword w ''ROLLBACK'')" for ws
    by (auto simp: classify_words_def dest: keyword_exclusive split: list.splits)
  moreover have "classify_statement st = c \<longleftrightarrow> (\<exists>ws. st = map Word ws \<and> classify_words ws = c)"
    if "c = Commit \<or> c = Rollback" for c
    using that by (cases "words_of st")
      (auto simp: classify_statement_def words_of_Some_iff words_of_words)
  ultimately show
    "classify_statement st = Commit \<longleftrightarrow> (\<exists>w. st = [Word w] \<and> keyword w ''COMMIT'')"
    "classify_statement st = Rollback \<longleftrightarrow> (\<exists>w. st = [Word w] \<and> keyword w ''ROLLBACK'')"
    by (auto simp: Cons_eq_map_conv)
qed

lemma classify_tokens_NotControl:
  "classify_tokens toks = NotControl \<longleftrightarrow>
    statements toks \<noteq> [] \<and> (\<forall>st\<in>set (statements toks). \<not> leads st)"
proof -
  have "classify_statement st = NotControl \<longleftrightarrow> \<not> leads st" if "st \<in> set (statements toks)" for st
    using that statements_no_semicolon [OF that]
    by (intro classify_statement_NotControl) (auto simp: statements_def)
  then show ?thesis by (auto simp: classify_tokens_def split: list.splits)
qed

lemma classify_tokens_single:
  "c \<in> {Begin, Commit, Rollback} \<Longrightarrow>
    classify_tokens toks = c \<longleftrightarrow> (\<exists>st. statements toks = [st] \<and> classify_statement st = c)"
  by (auto simp: classify_tokens_def split: list.splits)

text \<open>
  C40. Transaction control is never taken for ordinary SQL: a text runs as ordinary SQL
  exactly when it can be read, holds at least one statement, and no statement of it
  starts with a transaction keyword in any letter case; it counts as a commit or a
  rollback exactly when that one word is its only statement.
\<close>

theorem classification_fails_closed:
  "(classify_sql_transaction_control sql = NotControl \<longleftrightarrow>
      (\<exists>toks. lex sql = Ok toks \<and> statements toks \<noteq> [] \<and> (\<forall>st\<in>set (statements toks). \<not> leads st))) \<and>
   (classify_sql_transaction_control sql = Commit \<longleftrightarrow>
      (\<exists>toks w. lex sql = Ok toks \<and> statements toks = [[Word w]] \<and> keyword w ''COMMIT'')) \<and>
   (classify_sql_transaction_control sql = Rollback \<longleftrightarrow>
      (\<exists>toks w. lex sql = Ok toks \<and> statements toks = [[Word w]] \<and> keyword w ''ROLLBACK''))"
  by (cases "lex sql")
    (simp_all add: classify_sql_transaction_control_def classify_tokens_NotControl
      classify_tokens_single classify_statement_word, blast+)

theorem classification_fails_closed_witness:
  "classify_sql_transaction_control ''SELECT 1; select 2'' = NotControl"
proof -
  have "lex ''SELECT 1; select 2'' = Ok [Word ''SELECT'', Word ''1'', Semicolon, Word ''select'', Word ''2'']"
    by (simp add: lex.simps(2) character_tests)
  moreover have "statements [Word ''SELECT'', Word ''1'', Semicolon, Word ''select'', Word ''2''] =
      [[Word ''SELECT'', Word ''1''], [Word ''select'', Word ''2'']]"
    by (simp add: statements_def)
  moreover have "\<not> leads [Word ''SELECT'', Word ''1'']" "\<not> leads [Word ''select'', Word ''2'']"
    by (simp_all add: leads_def is_transaction_control_lead_def keyword_def eq_ignore_ascii_case_def
        to_ascii_lower_def is_ascii_uppercase_def)
  ultimately show ?thesis using classification_fails_closed [of "''SELECT 1; select 2''"] by auto
qed

section \<open>The two vocabularies\<close>

text \<open>
  The executor's commit and rollback are what the classification calls commit and
  rollback, for every kind of database; its begin is a begin except on MySQL and MariaDB,
  whose \<open>START TRANSACTION\<close> an editor session refuses.
\<close>

lemmas classification_code = classify_sql_transaction_control_def classify_tokens_def
  classify_statement_def classify_words_def statements_def keyword_def eq_ignore_ascii_case_def
  is_transaction_control_lead_def leads_def to_ascii_lower_def character_tests lex.simps(2)

lemma classify_executor_words:
  "classify_sql_transaction_control ''COMMIT'' = Commit"
  "classify_sql_transaction_control ''ROLLBACK'' = Rollback"
  "classify_sql_transaction_control ''BEGIN'' = Begin"
  "classify_sql_transaction_control ''BEGIN IMMEDIATE'' = Begin"
  "classify_sql_transaction_control ''BEGIN TRANSACTION'' = Begin"
  "classify_sql_transaction_control ''START TRANSACTION'' = Unsupported"
  by (simp_all add: classification_code)

lemma executor_vocabulary:
  assumes "for_kind kind = Some v"
  shows "classify_sql_transaction_control (tv_commit v) = Commit"
    and "classify_sql_transaction_control (tv_rollback v) = Rollback"
    and "classify_sql_transaction_control (tv_begin v) =
      (if kind \<in> {MySQL, MariaDB} then Unsupported else Begin)"
  using assms
  by (cases kind; auto simp: plain_vocab_def postgres_vocab_def mysql_vocab_def sqlserver_vocab_def
      classify_executor_words)+

text \<open>
  The lock timeouts: milliseconds as they are, or whole seconds, rounded up and at least
  one, so a wait is never shorter than asked for.
\<close>

lemma split_at_sub_absent: "p \<noteq> [] \<Longrightarrow> hd p \<notin> set s \<Longrightarrow> split_at_sub p s = None"
  by (cases p; induction s) (auto simp: strip_prefix_def)

lemma show_nat_no_brace: "CHR ''{'' \<notin> set (show_nat n)"
  using show_nat_digits [of n] by (auto simp: is_ascii_digit_def)

lemma lock_timeouts:
  "lock_timeout_sql mysql_vocab t =
    Some (''SET SESSION innodb_lock_wait_timeout = '' @ show_nat (max ((t + 999) div 1000) 1))"
  "lock_timeout_sql sqlserver_vocab t = Some (''SET LOCK_TIMEOUT '' @ show_nat t)"
  "lock_timeout_sql postgres_vocab t =
    Some (''SET LOCAL lock_timeout = '' @ [quote_char] @ show_nat t @ ''ms'' @ [quote_char])"
  "t \<le> 1000 * max ((t + 999) div 1000) 1"
  by (simp_all add: lock_timeout_sql_def fill_template_def mysql_vocab_def sqlserver_vocab_def
      postgres_vocab_def Let_def str_replace.simps strip_prefix_def split_at_sub_absent
      show_nat_no_brace)

text \<open>
  The lexer takes a backslash inside quotes as an escape, as MySQL does. Under standard
  SQL the string below ends at its second quote and a commit follows; the
  classification calls it ordinary SQL.
\<close>

lemma backslash_hides_commit:
  "classify_sql_transaction_control
     (''SELECT '' @ [quote_char] @ ''a'' @ [backslash, quote_char] @ ''; COMMIT; --'' @ [quote_char]) = NotControl"
  by (simp add: classification_code closing_of_def)

end
