(* ===== verification/Db_Error.thy ===== *)
theory Db_Error
  imports Rust_Text
begin

text \<open>
  Database errors as every driver returns them
  (\<^verbatim>\<open>src/crates/dbflux_core/src/core/error.rs\<close>) and the structured part they carry
  (\<^verbatim>\<open>FormattedError\<close> in \<^verbatim>\<open>src/crates/dbflux_core/src/core/error_formatter.rs\<close>). An
  I/O error of the standard library is kept as its text. Slicing a code in the middle
  of a character panics; the classification of codes returns \<open>None\<close> there.
\<close>

section \<open>Structured errors\<close>

record error_location =
  el_schema :: "string option"
  el_table :: "string option"
  el_column :: "string option"
  el_constraint :: "string option"

record formatted_error =
  fe_message :: string
  fe_detail :: "string option"
  fe_hint :: "string option"
  fe_code :: "string option"
  fe_location :: "error_location option"
  fe_retriable :: bool

definition formatted_new :: "string \<Rightarrow> formatted_error" where
  "formatted_new message =
    \<lparr>fe_message = message, fe_detail = None, fe_hint = None, fe_code = None, fe_location = None,
     fe_retriable = False\<rparr>"

definition location_is_empty :: "error_location \<Rightarrow> bool" where
  "location_is_empty l \<longleftrightarrow>
    el_schema l = None \<and> el_table l = None \<and> el_column l = None \<and> el_constraint l = None"

definition labelled :: "string \<Rightarrow> string option \<Rightarrow> string list" where
  "labelled label v = (case v of None \<Rightarrow> [] | Some t \<Rightarrow> [label @ '': '' @ t])"

definition to_display_string :: "formatted_error \<Rightarrow> string" where
  "to_display_string f = join ''. ''
    ([fe_message f] @ labelled ''Detail'' (fe_detail f) @ labelled ''Hint'' (fe_hint f) @
     (case fe_location f of
        None \<Rightarrow> []
      | Some l \<Rightarrow> labelled ''Table'' (el_table l) @ labelled ''Column'' (el_column l) @
          labelled ''Constraint'' (el_constraint l)) @
     labelled ''Code'' (fe_code f))"

section \<open>Errors\<close>

datatype db_error =
    ConnectionFailed formatted_error
  | QueryFailed formatted_error
  | AuthFailed formatted_error
  | ConstraintViolation formatted_error
  | SyntaxError formatted_error
  | PermissionDenied formatted_error
  | ObjectNotFound formatted_error
  | Timeout
  | QueryCancelled
  | NotSupported string
  | InvalidProfile string
  | ValueResolutionFailed string
  | IoError string
  | ParseError string
  | UnsupportedFormat string

fun show_db_error :: "db_error \<Rightarrow> string" where
  "show_db_error (ConnectionFailed f) = ''Connection failed: '' @ to_display_string f"
| "show_db_error (QueryFailed f) = to_display_string f"
| "show_db_error (AuthFailed f) = ''Authentication failed: '' @ to_display_string f"
| "show_db_error (ConstraintViolation f) = ''Constraint violation: '' @ to_display_string f"
| "show_db_error (SyntaxError f) = ''Syntax error: '' @ to_display_string f"
| "show_db_error (PermissionDenied f) = ''Permission denied: '' @ to_display_string f"
| "show_db_error (ObjectNotFound f) = ''Object not found: '' @ to_display_string f"
| "show_db_error Timeout = ''Query timed out''"
| "show_db_error QueryCancelled = ''Query cancelled''"
| "show_db_error (NotSupported t) = ''Operation not supported: '' @ t"
| "show_db_error (InvalidProfile t) = ''Invalid profile: '' @ t"
| "show_db_error (ValueResolutionFailed t) = ''Value resolution failed: '' @ t"
| "show_db_error (IoError t) = ''IO error: '' @ t"
| "show_db_error (ParseError t) = ''Parse error: '' @ t"
| "show_db_error (UnsupportedFormat t) = ''Unsupported: '' @ t"

definition query_failed :: "string \<Rightarrow> db_error" where
  "query_failed msg = QueryFailed (formatted_new msg)"

fun formatted :: "db_error \<Rightarrow> formatted_error option" where
  "formatted (ConnectionFailed f) = Some f"
| "formatted (QueryFailed f) = Some f"
| "formatted (AuthFailed f) = Some f"
| "formatted (ConstraintViolation f) = Some f"
| "formatted (SyntaxError f) = Some f"
| "formatted (PermissionDenied f) = Some f"
| "formatted (ObjectNotFound f) = Some f"
| "formatted _ = None"

fun is_retriable :: "db_error \<Rightarrow> bool" where
  "is_retriable (ConnectionFailed f) = fe_retriable f"
| "is_retriable (QueryFailed f) = fe_retriable f"
| "is_retriable (AuthFailed f) = fe_retriable f"
| "is_retriable (ConstraintViolation f) = fe_retriable f"
| "is_retriable (SyntaxError f) = fe_retriable f"
| "is_retriable (PermissionDenied f) = fe_retriable f"
| "is_retriable (ObjectNotFound f) = fe_retriable f"
| "is_retriable Timeout = True"
| "is_retriable _ = False"

datatype transaction_state_note = RolledBack | StillOpen | Aborted

fun note_message :: "transaction_state_note \<Rightarrow> string" where
  "note_message RolledBack = ''The transaction this script opened was rolled back.''"
| "note_message StillOpen =
    ''The connection is still inside a transaction. Run COMMIT or ROLLBACK to end it.''"
| "note_message Aborted =
    ''The connection is inside an aborted transaction. Run ROLLBACK to end it.''"

definition add_note :: "transaction_state_note \<Rightarrow> formatted_error \<Rightarrow> formatted_error" where
  "add_note note f = f\<lparr>fe_hint := Some (case fe_hint f of
     Some hint \<Rightarrow> hint @ '' '' @ note_message note | None \<Rightarrow> note_message note)\<rparr>"

fun with_transaction_note :: "db_error \<Rightarrow> transaction_state_note \<Rightarrow> db_error" where
  "with_transaction_note (ConnectionFailed f) n = ConnectionFailed (add_note n f)"
| "with_transaction_note (QueryFailed f) n = QueryFailed (add_note n f)"
| "with_transaction_note (AuthFailed f) n = AuthFailed (add_note n f)"
| "with_transaction_note (ConstraintViolation f) n = ConstraintViolation (add_note n f)"
| "with_transaction_note (SyntaxError f) n = SyntaxError (add_note n f)"
| "with_transaction_note (PermissionDenied f) n = PermissionDenied (add_note n f)"
| "with_transaction_note (ObjectNotFound f) n = ObjectNotFound (add_note n f)"
| "with_transaction_note e _ = e"

section \<open>Classification by code\<close>

datatype error_class = Syntax | Constraint | Auth | Permission | NotFound

text \<open>\<open>code[..2]\<close>: two bytes, which must end between two characters.\<close>

definition first_two_bytes :: "string \<Rightarrow> string option" where
  "first_two_bytes st =
    (if utf8_len (take 1 st) = 2 then Some (take 1 st)
     else if utf8_len (take 2 st) = 2 then Some (take 2 st) else None)"

definition classify_query_sqlstate :: "string \<Rightarrow> error_class option option" where
  "classify_query_sqlstate st =
    (if st = ''42501'' then Some (Some Permission)
     else if st \<in> {''42P01'', ''42703'', ''42883'', ''1146'', ''1054''} then Some (Some NotFound)
     else if st \<in> {''1044'', ''1045''} then Some (Some Auth)
     else if utf8_len st \<ge> 2 then
       map_option (\<lambda>class_code.
         if class_code = ''23'' then Some Constraint
         else if class_code = ''28'' then Some Auth
         else if class_code = ''42'' then Some Syntax
         else None) (first_two_bytes st)
     else Some None)"

fun error_of_class :: "error_class option \<Rightarrow> formatted_error \<Rightarrow> db_error" where
  "error_of_class (Some Syntax) f = SyntaxError f"
| "error_of_class (Some Constraint) f = ConstraintViolation f"
| "error_of_class (Some Auth) f = AuthFailed f"
| "error_of_class (Some Permission) f = PermissionDenied f"
| "error_of_class (Some NotFound) f = ObjectNotFound f"
| "error_of_class None f = QueryFailed f"

definition into_query_error :: "formatted_error \<Rightarrow> db_error option" where
  "into_query_error f =
    (case fe_code f of
       None \<Rightarrow> Some (QueryFailed f)
     | Some st \<Rightarrow> map_option (\<lambda>cl. error_of_class cl f) (classify_query_sqlstate st))"

definition into_connection_error :: "formatted_error \<Rightarrow> db_error" where
  "into_connection_error f =
    (if is_some_and (fe_code f) (\<lambda>c. starts_with c ''28'') then AuthFailed f else ConnectionFailed f)"

section \<open>Lemmas\<close>

lemma ascii_len: "\<forall>c\<in>set s. of_char c < (128 :: nat) \<Longrightarrow> utf8_len s = length s"
  by (induction s) (auto simp: len_utf8_def)

text \<open>Classifying keeps the whole structured error, and ASCII codes never panic.\<close>

lemma into_query_error_keeps:
  "into_query_error f = Some e \<Longrightarrow> formatted e = Some f \<and> is_retriable e = fe_retriable f"
  by (cases e) (auto simp: into_query_error_def split: option.splits elim!: error_of_class.elims)

lemma first_two_bytes_ascii:
  assumes "\<forall>c\<in>set st. of_char c < (128 :: nat)" and "2 \<le> length st"
  shows "first_two_bytes st = Some (take 2 st)"
proof -
  have "\<forall>c\<in>set (take n st). of_char c < (128 :: nat)" for n
    using assms(1) in_set_takeD by fast
  with assms(2) show ?thesis by (simp add: first_two_bytes_def ascii_len)
qed

lemma into_query_error_ascii:
  assumes "\<forall>st c. fe_code f = Some st \<longrightarrow> c \<in> set st \<longrightarrow> of_char c < (128 :: nat)"
  shows "\<exists>e. into_query_error f = Some e"
  using assms
  by (auto simp: into_query_error_def classify_query_sqlstate_def ascii_len first_two_bytes_ascii
      split: option.splits)

text \<open>A note changes only the hint, and is what the reader sees.\<close>

lemma transaction_note_only_hint:
  "formatted (with_transaction_note e n) = map_option (add_note n) (formatted e)"
  "is_retriable (with_transaction_note e n) = is_retriable e"
  by (cases e; simp add: add_note_def)+

text \<open>
  The documentation of \<open>into_query_error\<close> routes code 42000 to \<open>PermissionDenied\<close> in
  a permission context; the code always makes it a syntax error.
\<close>

lemma code_42000_is_syntax:
  "fe_code f = Some ''42000'' \<Longrightarrow> into_query_error f = Some (SyntaxError f)"
  by (simp add: into_query_error_def classify_query_sqlstate_def first_two_bytes_def len_utf8_def)

end
