(* ===== verification/Edit_Session.thy ===== *)
theory Edit_Session
  imports Tx_Control Db_Error
begin

text \<open>
  The isolated session of an editor document
  (\<^verbatim>\<open>src/crates/dbflux_ui_document/src/code/execution_session.rs\<close>): the generation
  counter, which the foreground advances at any moment, and the slot, which a mutex
  guards for the whole of one execution. The counter is a natural number, where the source has a 64-bit atomic
  that would come back to an old value only after 2 to the 64 invalidations. Calls run on
  background threads; a step is what
  one thread does between two moments at which another can act. What a driver answers
  is an argument of the step, and the calls to drivers are kept in a log. Lemmas: what
  every interleaving preserves, and one interleaving in which a late call closes the
  session of the current context.
\<close>

section \<open>Data\<close>

text \<open>Connections and sessions are shared pointers: their identity is a number.\<close>

type_synonym conn = nat
type_synonym session = nat

record 'q query_request =
  rq_sql :: string
  rq_options :: 'q

record 'r session_execution =
  ex_result :: "(db_error, 'r) result"
  ex_isolated :: bool

datatype session_slot =
    Empty
  | Ready nat conn "string option" session
  | SlotFailed nat
  | SlotClosed nat

text \<open>A call of \<open>execute\<close>: the connection, the database and the request.\<close>

record 'q call =
  ca_root :: conn
  ca_database :: "string option"
  ca_request :: "'q query_request"

datatype ('q, 'r) driver_event =
    OpenedSession session nat conn "string option"
  | CloseCalled session
  | RanOnSession session nat "'q call"
  | RanOnRoot "'q call"
  | Answered nat nat "'r session_execution"

datatype ('q, 'r) thread =
    Idle
  | Loaded nat "'q call"
  | Opening nat "'q call"
  | Running nat "'q call" session
  | Finished "'r session_execution"
  | Closing nat
  | CloseDone "(db_error, unit) result"
  | Panicked

record ('q, 'r) binding =
  eb_generation :: nat
  eb_slot :: session_slot
  eb_poisoned :: bool
  eb_holder :: "nat option"
  eb_threads :: "nat \<Rightarrow> ('q, 'r) thread"
  eb_log :: "('q, 'r) driver_event list"

definition binding_new :: "('q, 'r) binding" where
  "binding_new = \<lparr>eb_generation = 0, eb_slot = Empty, eb_poisoned = False, eb_holder = None,
     eb_threads = (\<lambda>_. Idle), eb_log = []\<rparr>"

section \<open>Operations\<close>

definition failure :: "string \<Rightarrow> bool \<Rightarrow> 'r session_execution" where
  "failure message isolated = \<lparr>ex_result = Err (query_failed message), ex_isolated = isolated\<rparr>"

definition isolated :: "(db_error, 'r) result \<Rightarrow> 'r session_execution" where
  "isolated result = \<lparr>ex_result = result, ex_isolated = True\<rparr>"

fun combine_cleanup ::
  "(db_error, 'r) result \<Rightarrow> (db_error, unit) result \<Rightarrow> string \<Rightarrow> (db_error, 'r) result" where
  "combine_cleanup (Inr _) (Inr _) stale_message = Err (query_failed stale_message)"
| "combine_cleanup (Inr _) (Inl cleanup) stale_message = Err cleanup"
| "combine_cleanup (Inl primary) (Inr _) stale_message = Err primary"
| "combine_cleanup (Inl primary) (Inl cleanup) stale_message =
    Err (query_failed (show_db_error primary @ [line_feed] @ ''Cleanup failed: '' @ show_db_error cleanup))"

definition slot_matches :: "session_slot \<Rightarrow> nat \<Rightarrow> 'q call \<Rightarrow> bool \<Rightarrow> bool" where
  "slot_matches slot g ca closed \<longleftrightarrow>
    (case slot of
       Ready g' root database _ \<Rightarrow> g' = g \<and> database = ca_database ca \<and> root = ca_root ca \<and> \<not> closed
     | _ \<Rightarrow> False)"

definition slot_refuses :: "session_slot \<Rightarrow> nat \<Rightarrow> bool" where
  "slot_refuses slot g \<longleftrightarrow> (case slot of SlotFailed g' \<Rightarrow> g' = g | SlotClosed g' \<Rightarrow> g' = g | _ \<Rightarrow> False)"

text \<open>
  From taking the mutex to the call of \<open>open\<close> or of the session's \<open>execute\<close>. The answers:
  whether the connection has a session factory, the root connection's result, whether the
  bound session is closed, and the result of closing it.
\<close>

record 'r enter_answers =
  an_factory :: bool
  an_root_result :: "(db_error, 'r) result"
  an_closed :: bool
  an_close :: "(db_error, unit) result"

definition execute_enter ::
  "'r enter_answers \<Rightarrow> nat \<Rightarrow> 'q call \<Rightarrow> session_slot \<Rightarrow>
   session_slot \<times> ('q, 'r) thread \<times> ('q, 'r) driver_event list" where
  "execute_enter an g ca slot =
    (if \<not> an_factory an then
       (slot, Finished \<lparr>ex_result = an_root_result an, ex_isolated = False\<rparr>, [RanOnRoot ca])
     else if classify_sql_transaction_control (rq_sql (ca_request ca)) = Unsupported then
       (slot, Finished (failure
          ''unsupported or multiple transaction-control statements in the editor'' True), [])
     else if slot_refuses slot g then
       (slot, Finished (failure ''editor session is closed or previously failed'' True), [])
     else (case slot of
         Ready _ _ _ sid \<Rightarrow>
           if slot_matches slot g ca (an_closed an) then (slot, Running g ca sid, [])
           else (case an_close an of
               Inl e \<Rightarrow> (Empty, Finished (isolated (Err e)), [CloseCalled sid])
             | Inr _ \<Rightarrow> (Empty, Opening g ca, [CloseCalled sid]))
       | _ \<Rightarrow> (Empty, Opening g ca, [])))"

text \<open>From the answer of \<open>open\<close>, with the generation read then, to the session's \<open>execute\<close>.\<close>

definition execute_opened ::
  "(db_error, session) result \<Rightarrow> (db_error, unit) result \<Rightarrow> nat \<Rightarrow> nat \<Rightarrow> 'q call \<Rightarrow>
   session_slot \<times> ('q, 'r) thread \<times> ('q, 'r) driver_event list" where
  "execute_opened opened cleanup current g ca =
    (case opened of
       Inl e \<Rightarrow> (SlotFailed g, Finished (isolated (Err e)), [])
     | Inr sid \<Rightarrow>
         if g \<noteq> current then
           (SlotClosed g,
            Finished (isolated (combine_cleanup (Err (query_failed ''editor session became stale while opening''))
              cleanup ''editor session became stale while opening'')),
            [OpenedSession sid g (ca_root ca) (ca_database ca), CloseCalled sid])
         else
           (Ready g (ca_root ca) (ca_database ca) sid, Running g ca sid,
            [OpenedSession sid g (ca_root ca) (ca_database ca)]))"

text \<open>From the answer of the session's \<open>execute\<close> to the release of the mutex.\<close>

definition execute_finish ::
  "(db_error, 'r) result \<Rightarrow> bool \<Rightarrow> (db_error, unit) result \<Rightarrow> nat \<Rightarrow> nat \<Rightarrow> 'q call \<Rightarrow> session \<Rightarrow> session_slot \<Rightarrow>
   session_slot \<times> ('q, 'r) thread \<times> ('q, 'r) driver_event list" where
  "execute_finish result closed cleanup current g ca sid slot =
    (if g \<noteq> current \<or> closed then
       (SlotClosed g, Finished (isolated (combine_cleanup result cleanup ''editor session became stale'')),
        [RanOnSession sid g ca, CloseCalled sid])
     else (slot, Finished (isolated result), [RanOnSession sid g ca]))"

definition close_invalidated ::
  "(db_error, unit) result \<Rightarrow> nat \<Rightarrow> session_slot \<Rightarrow>
   session_slot \<times> (db_error, unit) result \<times> ('q, 'r) driver_event list" where
  "close_invalidated close g slot =
    (case slot of
       Ready g' _ _ sid \<Rightarrow> if g' < g then (Empty, close, [CloseCalled sid]) else (slot, Ok (), [])
     | SlotFailed g' \<Rightarrow> (if g' < g then Empty else slot, Ok (), [])
     | SlotClosed g' \<Rightarrow> (if g' < g then Empty else slot, Ok (), [])
     | Empty \<Rightarrow> (slot, Ok (), []))"

section \<open>Interleavings\<close>

text \<open>The outcome of a segment: the mutex is released when the call has its answer.\<close>

definition put_segment ::
  "nat \<Rightarrow> nat \<Rightarrow> session_slot \<times> ('q, 'r) thread \<times> ('q, 'r) driver_event list \<Rightarrow>
   ('q, 'r) binding \<Rightarrow> ('q, 'r) binding" where
  "put_segment i g seg b =
    (let (slot, th, events) = seg
     in b\<lparr>eb_slot := slot, eb_threads := (eb_threads b)(i := th),
          eb_holder := (case th of Finished _ \<Rightarrow> None | _ \<Rightarrow> Some i),
          eb_log := eb_log b @ events @
            (case th of Finished ex \<Rightarrow> [Answered g (eb_generation b) ex] | _ \<Rightarrow> [])\<rparr>)"

definition opened_sessions :: "('q, 'r) driver_event list \<Rightarrow> session list" where
  "opened_sessions evs =
    concat (map (\<lambda>ev. case ev of OpenedSession sid _ _ _ \<Rightarrow> [sid] | _ \<Rightarrow> []) evs)"

definition closed_sessions :: "('q, 'r) driver_event list \<Rightarrow> session list" where
  "closed_sessions evs = concat (map (\<lambda>ev. case ev of CloseCalled sid \<Rightarrow> [sid] | _ \<Rightarrow> []) evs)"

text \<open>A thread that panics while it holds the mutex poisons it; the slot is then out of use.\<close>

definition at_driver :: "('q, 'r) thread \<Rightarrow> bool" where
  "at_driver th \<longleftrightarrow>
    (case th of Loaded _ _ \<Rightarrow> True | Opening _ _ \<Rightarrow> True | Running _ _ _ \<Rightarrow> True | Closing _ \<Rightarrow> True | _ \<Rightarrow> False)"

inductive session_step :: "('q, 'r) binding \<Rightarrow> ('q, 'r) binding \<Rightarrow> bool" where
  invalidate:
    "eb_threads b i = Idle \<Longrightarrow>
     session_step b (b\<lparr>eb_generation := eb_generation b + 1,
       eb_threads := (eb_threads b)(i := Closing (eb_generation b + 1))\<rparr>)"
| load:
    "eb_threads b i = Idle \<Longrightarrow>
     session_step b (b\<lparr>eb_threads := (eb_threads b)(i := Loaded (eb_generation b) ca)\<rparr>)"
| enter:
    "eb_threads b i = Loaded g ca \<Longrightarrow> eb_holder b = None \<Longrightarrow> \<not> eb_poisoned b \<Longrightarrow>
     session_step b (put_segment i g (execute_enter an g ca (eb_slot b)) b)"
| enter_poisoned:
    "eb_threads b i = Loaded g ca \<Longrightarrow> eb_holder b = None \<Longrightarrow> eb_poisoned b \<Longrightarrow>
     session_step b (put_segment i g
       (eb_slot b, Finished (failure ''editor session state is unavailable'' False), []) b)"
| opened:
    "eb_threads b i = Opening g ca \<Longrightarrow> eb_holder b = Some i \<Longrightarrow>
     \<forall>sid. answer = Ok sid \<longrightarrow> sid \<notin> set (opened_sessions (eb_log b)) \<Longrightarrow>
     session_step b (put_segment i g (execute_opened answer cleanup (eb_generation b) g ca) b)"
| finish:
    "eb_threads b i = Running g ca sid \<Longrightarrow> eb_holder b = Some i \<Longrightarrow>
     session_step b (put_segment i g
       (execute_finish result closed cleanup (eb_generation b) g ca sid (eb_slot b)) b)"
| close:
    "eb_threads b i = Closing g \<Longrightarrow> eb_holder b = None \<Longrightarrow> \<not> eb_poisoned b \<Longrightarrow>
     close_invalidated answer g (eb_slot b) = (slot, res, events) \<Longrightarrow>
     session_step b (b\<lparr>eb_slot := slot, eb_threads := (eb_threads b)(i := CloseDone res),
       eb_log := eb_log b @ events\<rparr>)"
| close_poisoned:
    "eb_threads b i = Closing g \<Longrightarrow> eb_holder b = None \<Longrightarrow> eb_poisoned b \<Longrightarrow>
     session_step b (b\<lparr>eb_threads := (eb_threads b)(i :=
       CloseDone (Err (query_failed ''editor session state is unavailable'')))\<rparr>)"
| panics:
    "at_driver (eb_threads b i) \<Longrightarrow> eb_holder b = None \<or> eb_holder b = Some i \<Longrightarrow> \<not> eb_poisoned b \<Longrightarrow>
     session_step b (b\<lparr>eb_slot := slot, eb_poisoned := True, eb_holder := None,
       eb_threads := (eb_threads b)(i := Panicked)\<rparr>)"

abbreviation session_reachable :: "('q, 'r) binding \<Rightarrow> bool" where
  "session_reachable b \<equiv> session_step\<^sup>*\<^sup>* binding_new b"

section \<open>What a segment can do\<close>

fun slot_sessions :: "session_slot \<Rightarrow> session list" where
  "slot_sessions (Ready _ _ _ sid) = [sid]"
| "slot_sessions _ = []"

abbreviation supported :: "'q call \<Rightarrow> bool" where
  "supported ca \<equiv> classify_sql_transaction_control (rq_sql (ca_request ca)) \<noteq> Unsupported"

abbreviation bound_to :: "nat \<Rightarrow> 'q call \<Rightarrow> session \<Rightarrow> session_slot" where
  "bound_to g ca sid \<equiv> Ready g (ca_root ca) (ca_database ca) sid"

abbreviation succeeded :: "'r session_execution \<Rightarrow> bool" where
  "succeeded ex \<equiv> ex_isolated ex \<and> (\<exists>r. ex_result ex = Ok r)"

lemma execute_enter_cases:
  assumes "seg = execute_enter an g ca slot"
  obtains (answered) ex evs where "seg = (slot, Finished ex, evs)" "set evs \<subseteq> {RanOnRoot ca}" "\<not> succeeded ex"
  | (bound) sid where "slot = bound_to g ca sid" "seg = (slot, Running g ca sid, [])" "supported ca"
  | (failed) e where "seg = (Empty, Finished (isolated (Err e)), map CloseCalled (slot_sessions slot))"
  | (opens) "seg = (Empty, Opening g ca, map CloseCalled (slot_sessions slot))" "supported ca"
proof (cases "an_factory an \<and> supported ca \<and> \<not> slot_refuses slot g")
  case False
  then have "\<exists>ex evs. seg = (slot, Finished ex, evs) \<and> set evs \<subseteq> {RanOnRoot ca} \<and> \<not> succeeded ex"
    unfolding assms by (auto simp: execute_enter_def failure_def)
  then show thesis using answered by blast
next
  case True
  show thesis
  proof (cases "slot_matches slot g ca (an_closed an)")
    case match: True
    then obtain sid where "slot = bound_to g ca sid" by (auto simp: slot_matches_def split: session_slot.splits)
    with True match show thesis
      using assms by (intro bound) (simp_all add: execute_enter_def)
  next
    case False
    with True show thesis
      using failed opens assms
      by (cases slot; cases "an_close an") (simp_all add: execute_enter_def)
  qed
qed

lemma combine_cleanup_Err: "\<exists>e. combine_cleanup result cleanup m = Err e"
  by (cases "(result, cleanup, m)" rule: combine_cleanup.cases) auto

lemma execute_opened_cases:
  assumes "seg = (execute_opened answer cleanup current g ca ::
    session_slot \<times> ('q, 'r) thread \<times> ('q, 'r) driver_event list)"
  obtains (failed) e where "seg = (SlotFailed g, Finished (isolated (Err e)), [])"
  | (stale) sid e where "answer = Ok sid"
      "seg = (SlotClosed g, Finished (isolated (Err e)),
        [OpenedSession sid g (ca_root ca) (ca_database ca), CloseCalled sid])"
  | (bound) sid where "answer = Ok sid" "g = current"
      "seg = (bound_to g ca sid, Running g ca sid, [OpenedSession sid g (ca_root ca) (ca_database ca)])"
proof (cases answer)
  case (Inl e)
  with assms show thesis by (intro failed) (simp add: execute_opened_def)
next
  case (Inr sid)
  obtain e where "combine_cleanup (Err (query_failed ''editor session became stale while opening'') :: (db_error, 'r) result)
      cleanup ''editor session became stale while opening'' = Err e"
    using combine_cleanup_Err by blast
  with Inr assms stale [of sid e] bound [of sid] show thesis
    by (cases "g = current") (auto simp: execute_opened_def)
qed

lemma execute_finish_cases:
  assumes "seg = execute_finish result closed cleanup current g ca sid slot"
  obtains (stale) e where
      "seg = (SlotClosed g, Finished (isolated (Err e)), [RanOnSession sid g ca, CloseCalled sid])"
  | (kept) "g = current" "seg = (slot, Finished (isolated result), [RanOnSession sid g ca])"
proof -
  obtain e where "combine_cleanup result cleanup ''editor session became stale'' = Err e"
    using combine_cleanup_Err by blast
  with assms stale [of e] kept show thesis
    by (cases "g \<noteq> current \<or> closed") (auto simp: execute_finish_def)
qed

lemma close_invalidated_cases:
  assumes "close_invalidated answer g slot = (slot', res, evs)"
  obtains (closed) g' r d sid where "slot = Ready g' r d sid" "g' < g" "slot' = Empty" "evs = [CloseCalled sid]"
  | (kept) "evs = []" "slot_sessions slot' = slot_sessions slot"
      "\<forall>g' r d sid. slot' = Ready g' r d sid \<longrightarrow> slot = slot' \<and> g \<le> g'"
  using assms by (auto simp: close_invalidated_def split: session_slot.splits if_splits)

lemma put_segment_finished [simp]:
  "put_segment i g (slot, Finished ex, evs) b =
    b\<lparr>eb_slot := slot, eb_threads := (eb_threads b)(i := Finished ex), eb_holder := None,
      eb_log := eb_log b @ evs @ [Answered g (eb_generation b) ex]\<rparr>"
  by (simp add: put_segment_def)

lemma put_segment_goes_on [simp]:
  "put_segment i g (slot, Opening g' ca, evs) b =
    b\<lparr>eb_slot := slot, eb_threads := (eb_threads b)(i := Opening g' ca), eb_holder := Some i,
      eb_log := eb_log b @ evs\<rparr>"
  "put_segment i g (slot, Running g' ca sid, evs) b =
    b\<lparr>eb_slot := slot, eb_threads := (eb_threads b)(i := Running g' ca sid), eb_holder := Some i,
      eb_log := eb_log b @ evs\<rparr>"
  by (simp_all add: put_segment_def)


text \<open>Every step, with the segment's outcomes told apart.\<close>

lemma session_step_outcome:
  assumes "session_step b b'"
  obtains (invalidate) i where "eb_threads b i = Idle"
      "b' = b\<lparr>eb_generation := eb_generation b + 1,
        eb_threads := (eb_threads b)(i := Closing (eb_generation b + 1))\<rparr>"
  | (load) i ca where "eb_threads b i = Idle"
      "b' = b\<lparr>eb_threads := (eb_threads b)(i := Loaded (eb_generation b) ca)\<rparr>"
  | (answered) i g ca ex evs where "eb_threads b i = Loaded g ca" "eb_holder b = None"
      "set evs \<subseteq> {RanOnRoot ca}" "\<not> succeeded ex"
      "b' = b\<lparr>eb_threads := (eb_threads b)(i := Finished ex),
        eb_log := eb_log b @ evs @ [Answered g (eb_generation b) ex]\<rparr>"
  | (bound) i g ca sid where "eb_threads b i = Loaded g ca" "eb_holder b = None" "\<not> eb_poisoned b"
      "eb_slot b = bound_to g ca sid" "supported ca"
      "b' = b\<lparr>eb_threads := (eb_threads b)(i := Running g ca sid), eb_holder := Some i\<rparr>"
  | (not_closed) i g ca e where "eb_threads b i = Loaded g ca" "eb_holder b = None" "\<not> eb_poisoned b"
      "b' = b\<lparr>eb_slot := Empty, eb_threads := (eb_threads b)(i := Finished (isolated (Err e))),
        eb_log := eb_log b @ map CloseCalled (slot_sessions (eb_slot b)) @
          [Answered g (eb_generation b) (isolated (Err e))]\<rparr>"
  | (opens) i g ca where "eb_threads b i = Loaded g ca" "eb_holder b = None" "\<not> eb_poisoned b" "supported ca"
      "b' = b\<lparr>eb_slot := Empty, eb_threads := (eb_threads b)(i := Opening g ca), eb_holder := Some i,
        eb_log := eb_log b @ map CloseCalled (slot_sessions (eb_slot b))\<rparr>"
  | (open_failed) i g ca e where "eb_threads b i = Opening g ca" "eb_holder b = Some i"
      "b' = b\<lparr>eb_slot := SlotFailed g, eb_threads := (eb_threads b)(i := Finished (isolated (Err e))),
        eb_holder := None, eb_log := eb_log b @ [Answered g (eb_generation b) (isolated (Err e))]\<rparr>"
  | (open_stale) i g ca sid e where "eb_threads b i = Opening g ca" "eb_holder b = Some i"
      "sid \<notin> set (opened_sessions (eb_log b))"
      "b' = b\<lparr>eb_slot := SlotClosed g, eb_threads := (eb_threads b)(i := Finished (isolated (Err e))),
        eb_holder := None, eb_log := eb_log b @ [OpenedSession sid g (ca_root ca) (ca_database ca),
          CloseCalled sid, Answered g (eb_generation b) (isolated (Err e))]\<rparr>"
  | (open_bound) i g ca sid where "eb_threads b i = Opening g ca" "eb_holder b = Some i"
      "sid \<notin> set (opened_sessions (eb_log b))" "g = eb_generation b"
      "b' = b\<lparr>eb_slot := bound_to g ca sid, eb_threads := (eb_threads b)(i := Running g ca sid),
        eb_holder := Some i, eb_log := eb_log b @ [OpenedSession sid g (ca_root ca) (ca_database ca)]\<rparr>"
  | (run_stale) i g ca sid e where "eb_threads b i = Running g ca sid" "eb_holder b = Some i"
      "b' = b\<lparr>eb_slot := SlotClosed g, eb_threads := (eb_threads b)(i := Finished (isolated (Err e))),
        eb_holder := None, eb_log := eb_log b @
          [RanOnSession sid g ca, CloseCalled sid, Answered g (eb_generation b) (isolated (Err e))]\<rparr>"
  | (run_kept) i g ca sid r where "eb_threads b i = Running g ca sid" "eb_holder b = Some i" "g = eb_generation b"
      "b' = b\<lparr>eb_threads := (eb_threads b)(i := Finished (isolated r)), eb_holder := None,
        eb_log := eb_log b @ [RanOnSession sid g ca, Answered g (eb_generation b) (isolated r)]\<rparr>"
  | (closed) i g g' r d sid res where "eb_threads b i = Closing g" "eb_holder b = None" "\<not> eb_poisoned b"
      "eb_slot b = Ready g' r d sid" "g' < g"
      "b' = b\<lparr>eb_slot := Empty, eb_threads := (eb_threads b)(i := CloseDone res),
        eb_log := eb_log b @ [CloseCalled sid]\<rparr>"
  | (nothing_closed) i g slot res where "eb_threads b i = Closing g" "eb_holder b = None"
      "slot_sessions slot = slot_sessions (eb_slot b)"
      "\<forall>g' r d sid. slot = Ready g' r d sid \<longrightarrow> eb_slot b = slot \<and> (eb_poisoned b \<or> g \<le> g')"
      "b' = b\<lparr>eb_slot := slot, eb_threads := (eb_threads b)(i := CloseDone res)\<rparr>"
  | (panics) i slot where "at_driver (eb_threads b i)" "eb_holder b = None \<or> eb_holder b = Some i" "\<not> eb_poisoned b"
      "b' = b\<lparr>eb_slot := slot, eb_poisoned := True, eb_holder := None,
        eb_threads := (eb_threads b)(i := Panicked)\<rparr>"
  using assms
proof cases
  case invalidate
  then show thesis by (rule that(1) [rotated])
next
  case load
  then show thesis by (rule that(2) [rotated])
next
  case (enter i g ca an)
  obtain seg where seg: "seg = execute_enter an g ca (eb_slot b)" "b' = put_segment i g seg b"
    using enter(1) by blast
  from seg(1) show thesis
  proof (cases rule: execute_enter_cases)
    case (answered ex evs)
    show thesis by (rule that(3) [OF enter(2,3) answered(2,3)]) (simp add: seg(2) answered(1) enter(3))
  next
    case (bound sid)
    show thesis by (rule that(4) [OF enter(2,3,4) bound(1,3)]) (simp add: seg(2) bound(2))
  next
    case (failed e)
    show thesis by (rule that(5) [OF enter(2,3,4), of e]) (simp add: seg(2) failed enter(3))
  next
    case opens
    show thesis by (rule that(6) [OF enter(2,3,4) opens(2)]) (simp add: seg(2) opens(1))
  qed
next
  case (enter_poisoned i g ca)
  show thesis
    by (rule that(3) [OF enter_poisoned(2,3), of "[]" "failure ''editor session state is unavailable'' False"])
      (simp_all add: enter_poisoned(1,3) failure_def)
next
  case (opened i g ca answer cleanup)
  obtain seg where seg: "seg = execute_opened answer cleanup (eb_generation b) g ca" "b' = put_segment i g seg b"
    using opened(1) by blast
  from seg(1) show thesis
  proof (cases rule: execute_opened_cases)
    case (failed e)
    show thesis by (rule that(7) [OF opened(2,3)]) (simp add: seg(2) failed)
  next
    case (stale sid e)
    show thesis by (rule that(8) [OF opened(2,3)]) (use opened(4) in \<open>simp_all add: seg(2) stale\<close>)
  next
    case (bound sid)
    show thesis by (rule that(9) [OF opened(2,3) _ bound(2)]) (use opened(4) in \<open>simp_all add: seg(2) bound\<close>)
  qed
next
  case (finish i g ca sid result closed cleanup)
  obtain seg where seg: "seg = execute_finish result closed cleanup (eb_generation b) g ca sid (eb_slot b)"
    "b' = put_segment i g seg b"
    using finish(1) by blast
  from seg(1) show thesis
  proof (cases rule: execute_finish_cases)
    case (stale e)
    show thesis by (rule that(10) [OF finish(2,3)]) (simp add: seg(2) stale)
  next
    case kept
    show thesis by (rule that(11) [OF finish(2,3) kept(1)]) (simp add: seg(2) kept(2))
  qed
next
  case (close i g answer slot res events)
  from close(5) show thesis
  proof (cases rule: close_invalidated_cases)
    case (closed g' r d sid)
    show thesis by (rule that(12) [OF close(2-4) closed(1,2)]) (simp add: close(1) closed(3,4))
  next
    case kept
    show thesis by (rule that(13) [OF close(2,3) kept(2)]) (use kept(3) in \<open>simp_all add: close(1) kept(1)\<close>)
  qed
next
  case (close_poisoned i g)
  show thesis by (rule that(13) [OF close_poisoned(2,3), of "eb_slot b"]) (simp_all add: close_poisoned(1,4))
next
  case (panics i slot)
  show thesis by (rule that(14) [OF panics(2-4,1)])
qed

section \<open>Invariants\<close>

definition holds :: "('q, 'r) thread \<Rightarrow> bool" where
  "holds th \<longleftrightarrow> (case th of Opening _ _ \<Rightarrow> True | Running _ _ _ \<Rightarrow> True | _ \<Rightarrow> False)"

text \<open>The mutex: its holder is the one thread inside the critical section.\<close>

definition lock_inv :: "('q, 'r) binding \<Rightarrow> bool" where
  "lock_inv b \<longleftrightarrow>
    (\<forall>i. holds (eb_threads b i) \<longrightarrow> eb_holder b = Some i) \<and>
    (\<forall>i. eb_holder b = Some i \<longrightarrow> holds (eb_threads b i)) \<and> (eb_poisoned b \<longrightarrow> eb_holder b = None)"

text \<open>The slot: what the holder relies on.\<close>

definition held_inv :: "session_slot \<Rightarrow> ('q, 'r) thread \<Rightarrow> bool" where
  "held_inv slot th \<longleftrightarrow>
    (case th of
       Opening g ca \<Rightarrow> slot = Empty \<and> supported ca
     | Running g ca sid \<Rightarrow> slot = bound_to g ca sid \<and> supported ca
     | _ \<Rightarrow> True)"

definition slot_inv :: "('q, 'r) binding \<Rightarrow> bool" where
  "slot_inv b \<longleftrightarrow> (\<forall>i. held_inv (eb_slot b) (eb_threads b i)) \<and>
    (\<not> eb_poisoned b \<longrightarrow>
      (\<forall>g r d sid. eb_slot b = Ready g r d sid \<longrightarrow> OpenedSession sid g r d \<in> set (eb_log b)))"

text \<open>The books: every opened session is in the slot or was closed, once.\<close>

definition books_inv :: "('q, 'r) driver_event list \<Rightarrow> session_slot \<Rightarrow> bool" where
  "books_inv evs slot \<longleftrightarrow>
    distinct (opened_sessions evs) \<and> distinct (closed_sessions evs @ slot_sessions slot) \<and>
    set (opened_sessions evs) = set (closed_sessions evs @ slot_sessions slot)"

text \<open>The log: where statements ran, and which calls succeeded.\<close>

definition log_inv :: "('q, 'r) driver_event list \<Rightarrow> bool" where
  "log_inv evs \<longleftrightarrow>
    (\<forall>sid g ca. RanOnSession sid g ca \<in> set evs \<longrightarrow>
       OpenedSession sid g (ca_root ca) (ca_database ca) \<in> set evs \<and> supported ca) \<and>
    (\<forall>g now ex. Answered g now ex \<in> set evs \<longrightarrow> succeeded ex \<longrightarrow> g = now)"

text \<open>Staleness: a session of an earlier generation awaits a call that closes it.\<close>

definition stale_inv :: "('q, 'r) binding \<Rightarrow> bool" where
  "stale_inv b \<longleftrightarrow>
    (\<forall>g r d sid. eb_slot b = Ready g r d sid \<longrightarrow>
       g \<le> eb_generation b \<and> (g < eb_generation b \<longrightarrow> (\<exists>j g'. eb_threads b j = Closing g' \<and> g < g')))"

lemma event_lists [simp]:
  "opened_sessions [] = []" "closed_sessions [] = []"
  "opened_sessions (ev # evs) = (case ev of OpenedSession sid _ _ _ \<Rightarrow> [sid] | _ \<Rightarrow> []) @ opened_sessions evs"
  "closed_sessions (ev # evs) = (case ev of CloseCalled sid \<Rightarrow> [sid] | _ \<Rightarrow> []) @ closed_sessions evs"
  "opened_sessions (evs @ evs') = opened_sessions evs @ opened_sessions evs'"
  "closed_sessions (evs @ evs') = closed_sessions evs @ closed_sessions evs'"
  "opened_sessions (map CloseCalled sids) = []" "closed_sessions (map CloseCalled sids) = sids"
  by (simp_all add: opened_sessions_def closed_sessions_def comp_def)

lemma holds_simps [simp]:
  "\<not> holds Idle" "\<not> holds (Loaded g ca)" "holds (Opening g ca)" "holds (Running g ca sid)"
  "\<not> holds (Finished ex)" "\<not> holds (Closing g)" "\<not> holds (CloseDone r)" "\<not> holds Panicked"
  by (simp_all add: holds_def)


lemma lock_inv_other: "lock_inv b \<Longrightarrow> eb_holder b = None \<or> eb_holder b = Some i \<Longrightarrow> j \<noteq> i \<Longrightarrow> \<not> holds (eb_threads b j)"
  unfolding lock_inv_def by (metis option.distinct(1) option.sel)

text \<open>A thread acts while the mutex is free or its own, or outside the critical section.\<close>

lemma lock_inv_own:
  assumes "lock_inv b" and "eb_holder b = None \<or> eb_holder b = Some i"
    and "eb_holder b' = (if holds th then Some i else None)" and "eb_poisoned b' \<longrightarrow> \<not> holds th"
    and "eb_threads b' = (eb_threads b)(i := th)"
  shows "lock_inv b'"
  using lock_inv_other [OF assms(1,2)] assms(3-5) by (simp add: lock_inv_def)

lemma lock_inv_outside:
  assumes "lock_inv b" and "\<not> holds (eb_threads b i)" and "\<not> holds th"
    and "eb_threads b' = (eb_threads b)(i := th)" and "eb_holder b' = eb_holder b"
    and "eb_poisoned b' = eb_poisoned b"
  shows "lock_inv b'"
  using assms unfolding lock_inv_def by (metis fun_upd_apply)

lemma lock_inv_step:
  assumes "session_step b b'" and "lock_inv b"
  shows "lock_inv b'"
  using assms(1)
proof (cases rule: session_step_outcome)
  case (invalidate i)
  then show ?thesis by (intro lock_inv_outside [OF assms(2), of i]) simp_all
next
  case (load i ca)
  then show ?thesis by (intro lock_inv_outside [OF assms(2), of i]) simp_all
next
  case (open_bound i g ca sid)
  then show ?thesis using assms(2) by (intro lock_inv_own [OF assms(2), of i]) (auto simp: lock_inv_def)
qed (rule lock_inv_own [OF assms(2)]; simp)+

lemma log_inv_snoc [simp]:
  "log_inv (evs @ evs') \<longleftrightarrow>
    (\<forall>sid g ca. RanOnSession sid g ca \<in> set evs \<union> set evs' \<longrightarrow>
       OpenedSession sid g (ca_root ca) (ca_database ca) \<in> set evs \<union> set evs' \<and> supported ca) \<and>
    (\<forall>g now ex. Answered g now ex \<in> set evs \<union> set evs' \<longrightarrow> succeeded ex \<longrightarrow> g = now)"
  by (simp add: log_inv_def)

lemma isolated_simps [simp]: "ex_result (isolated r) = r" "ex_isolated (isolated r)"
  by (simp_all add: isolated_def)

lemma held_inv_simps [simp]:
  "held_inv slot Idle" "held_inv slot (Loaded g ca)" "held_inv slot (Finished ex)"
  "held_inv slot (Closing g)" "held_inv slot (CloseDone r)" "held_inv slot Panicked"
  "held_inv slot (Opening g ca) \<longleftrightarrow> slot = Empty \<and> supported ca"
  "held_inv slot (Running g ca sid) \<longleftrightarrow> slot = bound_to g ca sid \<and> supported ca"
  by (simp_all add: held_inv_def)

lemma held_inv_free: "\<not> holds th \<Longrightarrow> held_inv slot th"
  by (cases th) auto

lemma slot_inv_step:
  assumes "session_step b b'" and "lock_inv b" and "slot_inv b"
  shows "slot_inv b'"
proof -
  note free = held_inv_free [OF lock_inv_other [OF assms(2)]]
  have held: "held_inv (eb_slot b) (eb_threads b i)" for i using assms(3) by (simp add: slot_inv_def)
  from assms(1) show ?thesis
  proof (cases rule: session_step_outcome)
    case (panics i slot)
    have "held_inv slot (if j = i then Panicked else eb_threads b j)" for j
      using free [OF panics(2)] by simp
    then show ?thesis by (simp add: slot_inv_def panics(4))
  next
    case (open_bound i g ca sid)
    then show ?thesis using held [of i] assms(3) free [of i] by (auto simp: slot_inv_def)
  qed (use assms(3) free in \<open>auto simp: slot_inv_def\<close>)
qed

lemma holder_unpoisoned: "lock_inv b \<Longrightarrow> eb_holder b = Some i \<Longrightarrow> \<not> eb_poisoned b"
  by (auto simp: lock_inv_def)

lemma slot_inv_held: "slot_inv b \<Longrightarrow> eb_threads b i = th \<Longrightarrow> held_inv (eb_slot b) th"
  by (auto simp: slot_inv_def)

lemma books_inv_step:
  assumes "session_step b b'" and "lock_inv b" and "slot_inv b"
    and "\<not> eb_poisoned b \<Longrightarrow> books_inv (eb_log b) (eb_slot b)"
  shows "\<not> eb_poisoned b' \<Longrightarrow> books_inv (eb_log b') (eb_slot b')"
proof -
  note open_now = holder_unpoisoned [OF assms(2)] slot_inv_held [OF assms(3)]
  from assms(1) show "\<not> eb_poisoned b' \<Longrightarrow> books_inv (eb_log b') (eb_slot b')"
  proof (cases rule: session_step_outcome)
    case (answered i g ca ex evs)
    then have "opened_sessions evs = []" "closed_sessions evs = []"
      by (auto simp: opened_sessions_def closed_sessions_def)
    with answered assms(4) show "\<not> eb_poisoned b' \<Longrightarrow> ?thesis" by (simp add: books_inv_def)
  next
    case (open_failed i g ca e)
    with open_now(1) [of i] open_now(2) [of i] assms(4) show ?thesis by (auto simp: books_inv_def)
  next
    case (open_stale i g ca sid e)
    with open_now(1) [of i] open_now(2) [of i] assms(4) show ?thesis by (auto simp: books_inv_def)
  next
    case (open_bound i g ca sid)
    with open_now(1) [of i] open_now(2) [of i] assms(4) show ?thesis by (auto simp: books_inv_def)
  next
    case (run_stale i g ca sid e)
    with open_now(1) [of i] open_now(2) [of i] assms(4) show ?thesis by (auto simp: books_inv_def)
  qed (use assms(4) in \<open>auto simp: books_inv_def\<close>)
qed

lemma log_inv_step:
  assumes "session_step b b'" and "lock_inv b" and "slot_inv b" and "log_inv (eb_log b)"
  shows "log_inv (eb_log b')"
proof -
  have ran: "OpenedSession sid g (ca_root ca) (ca_database ca) \<in> set (eb_log b) \<and> supported ca"
    if "eb_threads b i = Running g ca sid" "eb_holder b = Some i" for i g ca sid
    using holder_unpoisoned [OF assms(2) that(2)] slot_inv_held [OF assms(3) that(1)] assms(3)
    by (simp add: slot_inv_def)
  from assms(1) show ?thesis
  proof (cases rule: session_step_outcome)
    case (run_stale i g ca sid e)
    with ran [of i g ca sid] assms(4) show ?thesis by (auto simp: log_inv_def)
  next
    case (run_kept i g ca sid r)
    with ran [of i g ca sid] assms(4) show ?thesis by (auto simp: log_inv_def)
  qed (use assms(4) in \<open>auto simp: log_inv_def\<close>)
qed

lemma stale_inv_step:
  assumes "session_step b b'" and "\<not> eb_poisoned b \<Longrightarrow> stale_inv b"
  shows "\<not> eb_poisoned b' \<Longrightarrow> stale_inv b'"
proof -
  have other: "\<exists>j g'. eb_threads b j = Closing g' \<and> g < g' \<and> j \<noteq> i"
    if "\<not> eb_poisoned b" "eb_slot b = Ready g r d sid" "g < eb_generation b"
      "\<forall>g'. eb_threads b i = Closing g' \<longrightarrow> g' \<le> g" for g r d sid i
  proof -
    have "\<exists>j g'. eb_threads b j = Closing g' \<and> g < g'"
      using assms(2) [OF that(1)] that(2,3) unfolding stale_inv_def by blast
    with that(4) show ?thesis by (metis leD)
  qed
  have keep: "stale_inv b'" if "\<not> eb_poisoned b" "\<forall>g r d sid. eb_slot b' = Ready g r d sid \<longrightarrow> eb_slot b = eb_slot b' \<and>
      (\<forall>g'. eb_threads b i = Closing g' \<longrightarrow> g' \<le> g)"
    "eb_generation b' = eb_generation b" "eb_threads b' = (eb_threads b)(i := th)" for i th
    unfolding stale_inv_def
  proof (intro allI impI conjI)
    fix g r d sid
    assume "eb_slot b' = Ready g r d sid"
    with that(2) have slot: "eb_slot b = Ready g r d sid" "\<forall>g'. eb_threads b i = Closing g' \<longrightarrow> g' \<le> g" by auto
    then show "g \<le> eb_generation b'" using assms(2) that(1,3) by (auto simp: stale_inv_def)
    assume "g < eb_generation b'"
    then show "\<exists>j g'. eb_threads b' j = Closing g' \<and> g < g'"
      using other [OF that(1) slot(1) _ slot(2)] that(3,4) by auto
  qed
  assume alive: "\<not> eb_poisoned b'"
  from assms(1) show "stale_inv b'"
  proof (cases rule: session_step_outcome)
    case (invalidate i)
    with alive assms(2) show ?thesis by (force simp: stale_inv_def)
  next
    case (open_bound i g ca sid)
    then show ?thesis by (simp add: stale_inv_def)
  next
    case (nothing_closed i g slot res)
    with alive show ?thesis by (intro keep [of i]) auto
  next
    case (run_kept i g ca sid r)
    with alive show ?thesis by (intro keep [of i]) auto
  qed (insert alive, (rule keep; simp))+
qed

definition session_inv :: "('q, 'r) binding \<Rightarrow> bool" where
  "session_inv b \<longleftrightarrow> lock_inv b \<and> slot_inv b \<and> log_inv (eb_log b) \<and>
    (\<not> eb_poisoned b \<longrightarrow> books_inv (eb_log b) (eb_slot b) \<and> stale_inv b)"

lemma session_inv_reachable: "session_reachable b \<Longrightarrow> session_inv b"
proof (induction rule: rtranclp_induct)
  case base
  show ?case
    by (simp add: session_inv_def binding_new_def lock_inv_def slot_inv_def log_inv_def books_inv_def stale_inv_def)
next
  case (step b b')
  then show ?case
    unfolding session_inv_def
    by (meson lock_inv_step slot_inv_step log_inv_step books_inv_step stale_inv_step)
qed

section \<open>Runs\<close>

datatype ('q, 'r) move =
    Invalidate nat
  | Load nat "'q call"
  | Enter nat "'r enter_answers"
  | Open nat "(db_error, session) result" "(db_error, unit) result"
  | Finish nat "(db_error, 'r) result" bool "(db_error, unit) result"
  | Close nat "(db_error, unit) result"

fun run_move :: "('q, 'r) move \<Rightarrow> ('q, 'r) binding \<Rightarrow> ('q, 'r) binding option" where
  "run_move (Invalidate i) b =
    (case eb_threads b i of
       Idle \<Rightarrow> Some (b\<lparr>eb_generation := eb_generation b + 1,
         eb_threads := (eb_threads b)(i := Closing (eb_generation b + 1))\<rparr>)
     | _ \<Rightarrow> None)"
| "run_move (Load i ca) b =
    (case eb_threads b i of
       Idle \<Rightarrow> Some (b\<lparr>eb_threads := (eb_threads b)(i := Loaded (eb_generation b) ca)\<rparr>)
     | _ \<Rightarrow> None)"
| "run_move (Enter i an) b =
    (case eb_threads b i of
       Loaded g ca \<Rightarrow>
         if eb_holder b = None \<and> \<not> eb_poisoned b
         then Some (put_segment i g (execute_enter an g ca (eb_slot b)) b) else None
     | _ \<Rightarrow> None)"
| "run_move (Open i answer cleanup) b =
    (case eb_threads b i of
       Opening g ca \<Rightarrow>
         if eb_holder b = Some i \<and>
           (case answer of Inr sid \<Rightarrow> sid \<notin> set (opened_sessions (eb_log b)) | Inl _ \<Rightarrow> True)
         then Some (put_segment i g (execute_opened answer cleanup (eb_generation b) g ca) b) else None
     | _ \<Rightarrow> None)"
| "run_move (Finish i result closed cleanup) b =
    (case eb_threads b i of
       Running g ca sid \<Rightarrow>
         if eb_holder b = Some i
         then Some (put_segment i g
           (execute_finish result closed cleanup (eb_generation b) g ca sid (eb_slot b)) b) else None
     | _ \<Rightarrow> None)"
| "run_move (Close i answer) b =
    (case eb_threads b i of
       Closing g \<Rightarrow>
         if eb_holder b = None \<and> \<not> eb_poisoned b
         then (case close_invalidated answer g (eb_slot b) of (slot, res, events) \<Rightarrow>
           Some (b\<lparr>eb_slot := slot, eb_threads := (eb_threads b)(i := CloseDone res),
             eb_log := eb_log b @ events\<rparr>)) else None
     | _ \<Rightarrow> None)"

fun run_moves :: "('q, 'r) move list \<Rightarrow> ('q, 'r) binding \<Rightarrow> ('q, 'r) binding option" where
  "run_moves [] b = Some b"
| "run_moves (m # ms) b = Option.bind (run_move m b) (run_moves ms)"

lemma run_move_step: "run_move m b = Some b' \<Longrightarrow> session_step b b'"
  by (cases m)
    (auto split: thread.splits if_splits sum.splits prod.splits
      intro!: session_step.invalidate [unfolded Suc_eq_plus1 [symmetric]] session_step.load
        session_step.enter session_step.opened
        session_step.finish session_step.close)

lemma run_moves_steps: "run_moves ms b = Some b' \<Longrightarrow> session_step\<^sup>*\<^sup>* b b'"
  by (induction ms arbitrary: b)
    (auto simp: bind_eq_Some_conv dest!: run_move_step intro: converse_rtranclp_into_rtranclp)

section \<open>What the editor relies on\<close>

text \<open>
  C37. In every interleaving of calls, invalidations and clean-ups, whatever the drivers
  answer: a statement runs on an isolated session only if the session was opened for the
  call's own generation, connection and database, and never if it is unsupported
  transaction control; an isolated call succeeds only if no invalidation came between
  its start and its answer; and while no thread has panicked, every session that was
  opened is either the one in the slot or was closed, exactly once.
\<close>

theorem editor_session_safe:
  assumes "session_reachable b"
  shows "(\<forall>sid g ca. RanOnSession sid g ca \<in> set (eb_log b) \<longrightarrow>
      OpenedSession sid g (ca_root ca) (ca_database ca) \<in> set (eb_log b) \<and>
      classify_sql_transaction_control (rq_sql (ca_request ca)) \<noteq> Unsupported) \<and>
    (\<forall>g now ex r. Answered g now ex \<in> set (eb_log b) \<longrightarrow> ex_isolated ex \<longrightarrow> ex_result ex = Ok r \<longrightarrow> g = now) \<and>
    (\<not> eb_poisoned b \<longrightarrow>
      distinct (opened_sessions (eb_log b)) \<and> distinct (closed_sessions (eb_log b)) \<and>
      set (closed_sessions (eb_log b)) \<inter> set (slot_sessions (eb_slot b)) = {} \<and>
      set (opened_sessions (eb_log b)) = set (closed_sessions (eb_log b)) \<union> set (slot_sessions (eb_slot b)))"
  using session_inv_reachable [OF assms] by (auto simp: session_inv_def log_inv_def books_inv_def)

text \<open>
  C38. An invalidated session does not linger: once every clean-up call that an
  invalidation scheduled has run, a session in the slot belongs to the current
  generation.
\<close>

theorem stale_sessions_are_retired:
  assumes "session_reachable b" and "\<not> eb_poisoned b" and "\<forall>i g. eb_threads b i \<noteq> Closing g"
    and "eb_slot b = Ready g r d sid"
  shows "g = eb_generation b"
  using session_inv_reachable [OF assms(1)] assms(2-4) by (auto simp: session_inv_def stale_inv_def)

text \<open>A run: one statement on a new session, then an invalidation and its clean-up.\<close>

definition sample_call :: "unit call" where
  "sample_call = \<lparr>ca_root = 1, ca_database = None, ca_request = \<lparr>rq_sql = ''BEGIN'', rq_options = ()\<rparr>\<rparr>"

definition factory_answers :: "nat enter_answers" where
  "factory_answers = \<lparr>an_factory = True, an_root_result = Ok 0, an_closed = False, an_close = Ok ()\<rparr>"

lemmas segment_defs = put_segment_def execute_enter_def execute_opened_def execute_finish_def
  close_invalidated_def slot_matches_def slot_refuses_def binding_new_def sample_call_def
  factory_answers_def isolated_def

lemma sample_run:
  "\<exists>b. run_moves [Load 0 sample_call, Enter 0 factory_answers, Open 0 (Ok 5) (Ok ()), Finish 0 (Ok 7) False (Ok ())]
     binding_new = Some b \<and>
   eb_log b = [OpenedSession 5 0 1 None, RanOnSession 5 0 sample_call, Answered 0 0 (isolated (Ok (7 :: nat)))] \<and>
   eb_slot b = Ready 0 1 None 5 \<and> \<not> eb_poisoned b \<and> eb_generation b = 0 \<and> (\<forall>i g. eb_threads b i \<noteq> Closing g)"
  by (simp add: segment_defs classify_executor_words)

theorem editor_session_safe_witness:
  "\<exists>b. session_reachable b \<and> RanOnSession 5 0 sample_call \<in> set (eb_log b) \<and>
     classify_sql_transaction_control ''BEGIN'' \<noteq> Unsupported \<and>
     Answered 0 0 (isolated (Ok (7 :: nat))) \<in> set (eb_log b) \<and>
     set (opened_sessions (eb_log b)) = set (closed_sessions (eb_log b)) \<union> {5}"
proof -
  obtain b where b: "run_moves [Load 0 sample_call, Enter 0 factory_answers, Open 0 (Ok 5) (Ok ()),
      Finish 0 (Ok 7) False (Ok ())] binding_new = Some b"
    "eb_log b = [OpenedSession 5 0 1 None, RanOnSession 5 0 sample_call, Answered 0 0 (isolated (Ok (7 :: nat)))]"
    "eb_slot b = Ready 0 1 None 5" "\<not> eb_poisoned b"
    using sample_run by blast
  have reach: "session_reachable b" by (rule run_moves_steps [OF b(1)])
  have "RanOnSession 5 0 sample_call \<in> set (eb_log b)" by (simp add: b(2))
  with editor_session_safe [OF reach] have "classify_sql_transaction_control ''BEGIN'' \<noteq> Unsupported"
    by (fastforce simp: sample_call_def)
  with editor_session_safe [OF reach] reach b show ?thesis by (intro exI [of _ b]) auto
qed

theorem stale_sessions_are_retired_witness:
  "\<exists>b :: (unit, nat) binding. session_reachable b \<and> eb_slot b = Ready 0 1 None 5 \<and> eb_generation b = 0"
proof -
  obtain b :: "(unit, nat) binding" where b:
    "run_moves [Load 0 sample_call, Enter 0 factory_answers, Open 0 (Ok 5) (Ok ()), Finish 0 (Ok 7) False (Ok ())]
      binding_new = Some b" "eb_slot b = Ready 0 1 None 5" "\<not> eb_poisoned b" "\<forall>i g. eb_threads b i \<noteq> Closing g"
    using sample_run by blast
  have reach: "session_reachable b" by (rule run_moves_steps [OF b(1)])
  from stale_sessions_are_retired [OF reach b(3,4,2)] reach b(2) show ?thesis by auto
qed

text \<open>
  A call that read the generation before an invalidation and takes the mutex after the
  next call closes that call's session, which is of the current generation and may have
  a transaction open: staleness is tested only after the slot was given up.
\<close>

lemma late_call_closes_current_session:
  "\<exists>b :: (unit, nat) binding. session_reachable b \<and> eb_generation b = 1 \<and>
     OpenedSession 5 1 1 None \<in> set (eb_log b) \<and> Answered 1 1 (isolated (Ok 7)) \<in> set (eb_log b) \<and>
     CloseCalled 5 \<in> set (eb_log b)"
proof -
  have "\<exists>b. run_moves [Load 0 sample_call, Invalidate 1, Close 1 (Ok ()), Load 2 sample_call,
      Enter 2 factory_answers, Open 2 (Ok 5) (Ok ()), Finish 2 (Ok 7) False (Ok ()),
      Enter 0 factory_answers] (binding_new :: (unit, nat) binding) = Some b \<and> eb_generation b = 1 \<and>
     OpenedSession 5 1 1 None \<in> set (eb_log b) \<and> Answered 1 1 (isolated (Ok 7)) \<in> set (eb_log b) \<and>
     CloseCalled 5 \<in> set (eb_log b)"
    by (simp add: segment_defs classify_executor_words)
  then show ?thesis using run_moves_steps by blast
qed

end
