(* ===== verification/Wire.thy ===== *)
theory Wire
  imports Prelude "HOL-Library.Product_Lexorder"
begin

text \<open>
  The transport between the application and its out-of-process drivers: length-prefixed
  frames (\<^verbatim>\<open>src/crates/dbflux_ipc/src/framing.rs\<close>) and protocol versions with their
  negotiation (\<^verbatim>\<open>src/crates/dbflux_ipc/src/envelope.rs\<close>). Bytes and lengths keep their
  width. The \<^verbatim>\<open>postcard\<close> crate, which turns messages into bytes, is a record of
  functions; of it only that decoding undoes encoding is assumed, where it is used. A
  writer is a record of functions over its state, a reader the bytes still to come and
  the error that ends them. Lemmas: a sequence of messages is read back as it was sent;
  what the length check lets through; what negotiation chooses.
\<close>

unbundle bit_operations_syntax

section \<open>Framing\<close>

type_synonym byte = "8 word"

datatype io_error = UnexpectedEof string | IoOther string

record 'a codec =
  cd_to_allocvec :: "'a \<Rightarrow> (string, byte list) result"
  cd_from_bytes :: "byte list \<Rightarrow> (string, 'a) result"

record 's writer =
  wr_write_all :: "byte list \<Rightarrow> 's \<Rightarrow> 's \<times> (io_error, unit) result"
  wr_flush :: "'s \<Rightarrow> 's \<times> (io_error, unit) result"

record reader =
  rd_bytes :: "byte list"
  rd_end :: "io_error option"

definition MAX_MSG_SIZE :: "32 word" where
  "MAX_MSG_SIZE = 16 * 1024 * 1024"

definition to_le_bytes :: "32 word \<Rightarrow> byte list" where
  "to_le_bytes w = map (\<lambda>i. ucast (drop_bit (8 * i) w)) [0..<4]"

definition from_le_bytes :: "byte list \<Rightarrow> 32 word" where
  "from_le_bytes bs = foldr (\<lambda>b w. push_bit 8 w OR ucast b) bs 0"

text \<open>\<open>bytes.len() as u32\<close> keeps the low 32 bits of the length.\<close>

definition send_msg :: "'a codec \<Rightarrow> 's writer \<Rightarrow> 'a \<Rightarrow> 's \<Rightarrow> 's \<times> (io_error, unit) result" where
  "send_msg c w msg s =
    (case cd_to_allocvec c msg of
       Inl e \<Rightarrow> (s, Err (IoOther e))
     | Inr bytes \<Rightarrow>
         let len = (of_nat (length bytes) :: 32 word)
         in if len > MAX_MSG_SIZE then (s, Err (IoOther ''message too large''))
            else (case wr_write_all w (to_le_bytes len) s of
                (s1, Inl e) \<Rightarrow> (s1, Err e)
              | (s1, Inr _) \<Rightarrow> (case wr_write_all w bytes s1 of
                    (s2, Inl e) \<Rightarrow> (s2, Err e)
                  | (s2, Inr _) \<Rightarrow> wr_flush w s2)))"

definition read_exact :: "nat \<Rightarrow> reader \<Rightarrow> reader \<times> (io_error, byte list) result" where
  "read_exact n r =
    (r\<lparr>rd_bytes := drop n (rd_bytes r)\<rparr>,
     if n \<le> length (rd_bytes r) then Ok (take n (rd_bytes r))
     else Err (case rd_end r of Some e \<Rightarrow> e | None \<Rightarrow> UnexpectedEof ''failed to fill whole buffer''))"

text \<open>\<open>reader.take(len).read_to_end\<close>: fewer bytes only at the end of the stream.\<close>

definition take_read_to_end :: "nat \<Rightarrow> reader \<Rightarrow> reader \<times> (io_error, byte list) result" where
  "take_read_to_end n r =
    (r\<lparr>rd_bytes := drop n (rd_bytes r)\<rparr>,
     if length (rd_bytes r) < n \<and> rd_end r \<noteq> None then Err (the (rd_end r))
     else Ok (take n (rd_bytes r)))"

definition recv_msg :: "'a codec \<Rightarrow> reader \<Rightarrow> reader \<times> (io_error, 'a) result" where
  "recv_msg c r =
    (case read_exact 4 r of
       (r1, Inl e) \<Rightarrow> (r1, Err e)
     | (r1, Inr len_bytes) \<Rightarrow>
         let len = unat (from_le_bytes len_bytes)
         in if len > unat MAX_MSG_SIZE then (r1, Err (IoOther ''message too large''))
            else (case take_read_to_end len r1 of
                (r2, Inl e) \<Rightarrow> (r2, Err e)
              | (r2, Inr buf) \<Rightarrow>
                  if length buf \<noteq> len
                  then (r2, Err (UnexpectedEof ''framed message body shorter than announced length''))
                  else (r2, map_err IoOther (cd_from_bytes c buf))))"

section \<open>Versions\<close>

record protocol_version =
  pv_major :: "16 word"
  pv_minor :: "16 word"

definition protocol_version_new :: "16 word \<Rightarrow> 16 word \<Rightarrow> protocol_version" where
  "protocol_version_new major minor = \<lparr>pv_major = major, pv_minor = minor\<rparr>"

definition version_compatible :: "protocol_version \<Rightarrow> protocol_version \<Rightarrow> bool" where
  "version_compatible v w \<longleftrightarrow> pv_major v = pv_major w"

datatype rpc_api_family = DriverRpc | AuthProviderRpc | SecretProviderRpc

record rpc_api_contract =
  ct_family :: rpc_api_family
  ct_version :: protocol_version

definition contract_compatible :: "rpc_api_contract \<Rightarrow> rpc_api_contract \<Rightarrow> bool" where
  "contract_compatible c d \<longleftrightarrow>
    ct_family c = ct_family d \<and> version_compatible (ct_version c) (ct_version d)"

definition DRIVER_RPC_VERSION :: protocol_version where
  "DRIVER_RPC_VERSION = protocol_version_new 1 8"

definition AUTH_PROVIDER_RPC_VERSION :: protocol_version where
  "AUTH_PROVIDER_RPC_VERSION = protocol_version_new 1 3"

definition SECRET_PROVIDER_RPC_VERSION :: protocol_version where
  "SECRET_PROVIDER_RPC_VERSION = protocol_version_new 1 0"

definition DRIVER_RPC_SUPPORTED_VERSIONS :: "protocol_version list" where
  "DRIVER_RPC_SUPPORTED_VERSIONS = map (protocol_version_new 1) [0, 1, 2, 3, 4, 5, 6, 7, 8]"

definition AUTH_PROVIDER_RPC_SUPPORTED_VERSIONS :: "protocol_version list" where
  "AUTH_PROVIDER_RPC_SUPPORTED_VERSIONS = map (protocol_version_new 1) [3, 2, 1, 0]"

definition SECRET_PROVIDER_RPC_SUPPORTED_VERSIONS :: "protocol_version list" where
  "SECRET_PROVIDER_RPC_SUPPORTED_VERSIONS = [protocol_version_new 1 0]"

definition version_key :: "protocol_version \<Rightarrow> nat \<times> nat" where
  "version_key v = (unat (pv_major v), unat (pv_minor v))"

definition negotiate_highest_mutual_version ::
  "rpc_api_family \<Rightarrow> protocol_version list \<Rightarrow> protocol_version list \<Rightarrow> protocol_version option" where
  "negotiate_highest_mutual_version family local_versions remote_versions =
    max_by_key version_key (filter (\<lambda>v. v \<in> set remote_versions) local_versions)"

section \<open>Lemmas\<close>

lemma to_le_bytes_length [simp]: "length (to_le_bytes w) = 4"
  by (simp add: to_le_bytes_def)

lemma from_to_le_bytes: "from_le_bytes (to_le_bytes w) = w"
proof -
  have four: "[0..<4] = [0, 1, 2, 3 :: nat]" by code_simp
  show ?thesis
  proof (rule bit_word_eqI)
    fix n :: nat
    assume "n < LENGTH(32)"
    then consider "n < 8" | "8 \<le> n" "n < 16" | "16 \<le> n" "n < 24" | "24 \<le> n" "n < 32" by fastforce
    then show "bit (from_le_bytes (to_le_bytes w)) n = bit w n"
      by cases (auto simp: from_le_bytes_def to_le_bytes_def four bit_simps)
  qed
qed

text \<open>\<open>Write\<close> for a byte vector, and sequences of messages.\<close>

definition buffer_writer :: "byte list writer" where
  "buffer_writer = \<lparr>wr_write_all = (\<lambda>bs s. (s @ bs, Ok ())), wr_flush = (\<lambda>s. (s, Ok ()))\<rparr>"

fun send_all :: "'a codec \<Rightarrow> 's writer \<Rightarrow> 'a list \<Rightarrow> 's \<Rightarrow> 's \<times> (io_error, unit) result" where
  "send_all c w [] s = (s, Ok ())"
| "send_all c w (m # ms) s =
    (case send_msg c w m s of (s1, Inl e) \<Rightarrow> (s1, Err e) | (s1, Inr _) \<Rightarrow> send_all c w ms s1)"

fun recv_all :: "'a codec \<Rightarrow> nat \<Rightarrow> reader \<Rightarrow> reader \<times> (io_error, 'a list) result" where
  "recv_all c 0 r = (r, Ok [])"
| "recv_all c (Suc n) r =
    (case recv_msg c r of
       (r1, Inl e) \<Rightarrow> (r1, Err e)
     | (r1, Inr m) \<Rightarrow> (case recv_all c n r1 of
           (r2, Inl e) \<Rightarrow> (r2, Err e)
         | (r2, Inr ms) \<Rightarrow> (r2, Ok (m # ms))))"

definition frame :: "byte list \<Rightarrow> byte list" where
  "frame bs = to_le_bytes (of_nat (length bs)) @ bs"

text \<open>A message that encodes to a body of admissible length and decodes again.\<close>

definition sendable :: "'a codec \<Rightarrow> 'a \<Rightarrow> bool" where
  "sendable c m \<longleftrightarrow>
    (\<exists>bs. cd_to_allocvec c m = Ok bs \<and> length bs \<le> unat MAX_MSG_SIZE \<and> cd_from_bytes c bs = Ok m)"

lemma MAX_MSG_SIZE_value: "unat MAX_MSG_SIZE = 16777216"
  by (simp add: MAX_MSG_SIZE_def)

lemma length_fits: "n \<le> unat MAX_MSG_SIZE \<Longrightarrow> unat (of_nat n :: 32 word) = n"
  by (simp add: MAX_MSG_SIZE_value unat_of_nat take_bit_nat_eq_self)

lemma send_msg_buffer:
  assumes "cd_to_allocvec c m = Ok bs" and "length bs \<le> unat MAX_MSG_SIZE"
  shows "send_msg c buffer_writer m s = (s @ frame bs, Ok ())"
  using assms length_fits [OF assms(2)]
  by (simp add: send_msg_def buffer_writer_def frame_def Let_def word_less_nat_alt)

lemma recv_msg_frame:
  assumes "length bs \<le> unat MAX_MSG_SIZE"
  shows "recv_msg c \<lparr>rd_bytes = frame bs @ rest, rd_end = e\<rparr> =
    (\<lparr>rd_bytes = rest, rd_end = e\<rparr>, map_err IoOther (cd_from_bytes c bs))"
  using assms length_fits [OF assms]
  by (simp add: recv_msg_def frame_def read_exact_def take_read_to_end_def from_to_le_bytes Let_def)

text \<open>
  Whether a message fits under the limit, and an encoding that decodes what it encoded and
  yields no message of 4 GiB or more.
\<close>

definition fits :: "'a codec \<Rightarrow> 'a \<Rightarrow> bool" where
  "fits c m \<longleftrightarrow> (case cd_to_allocvec c m of Inl _ \<Rightarrow> False | Inr bs \<Rightarrow> length bs \<le> unat MAX_MSG_SIZE)"

definition faithful_codec :: "'a codec \<Rightarrow> bool" where
  "faithful_codec c \<longleftrightarrow>
    (\<forall>m bs. cd_to_allocvec c m = Ok bs \<longrightarrow> length bs < 2 ^ 32 \<and> cd_from_bytes c bs = Ok m)"

definition the_bytes :: "'a codec \<Rightarrow> 'a \<Rightarrow> byte list" where
  "the_bytes c m = (case cd_to_allocvec c m of Inl _ \<Rightarrow> [] | Inr bs \<Rightarrow> bs)"

lemma send_fits: "fits c m \<Longrightarrow> send_msg c buffer_writer m s = (s @ frame (the_bytes c m), Ok ())"
  by (cases "cd_to_allocvec c m") (simp_all add: fits_def the_bytes_def send_msg_buffer)

lemma recv_sent:
  assumes "faithful_codec c" and "fits c m"
  shows "recv_msg c \<lparr>rd_bytes = frame (the_bytes c m) @ rest, rd_end = e\<rparr> = (\<lparr>rd_bytes = rest, rd_end = e\<rparr>, Ok m)"
  using assms
  by (cases "cd_to_allocvec c m") (simp_all add: fits_def the_bytes_def faithful_codec_def recv_msg_frame map_err_def)

lemma send_unfit:
  assumes "faithful_codec c" and "\<not> fits c m"
  shows "\<exists>e. send_msg c w m s = (s, Err e)"
proof (cases "cd_to_allocvec c m")
  case (Inr bs)
  then have "length bs < 2 ^ 32" using assms(1) by (simp add: faithful_codec_def)
  then have "unat (of_nat (length bs) :: 32 word) = length bs"
    by (simp add: unat_of_nat take_bit_nat_eq_self)
  with Inr assms(2) show ?thesis by (simp add: send_msg_def fits_def Let_def word_less_nat_alt)
qed (simp add: send_msg_def)

lemma send_all_buffer:
  assumes "\<forall>m\<in>set ms. sendable c m"
  shows "\<exists>out. send_all c buffer_writer ms s = (s @ out, Ok ()) \<and>
    (\<forall>rest e. recv_all c (length ms) \<lparr>rd_bytes = out @ rest, rd_end = e\<rparr> =
      (\<lparr>rd_bytes = rest, rd_end = e\<rparr>, Ok ms))"
  using assms
proof (induction ms arbitrary: s)
  case (Cons m ms)
  obtain bs where bs: "cd_to_allocvec c m = Ok bs" "length bs \<le> unat MAX_MSG_SIZE" "cd_from_bytes c bs = Ok m"
    using Cons.prems by (auto simp: sendable_def)
  obtain out where "send_all c buffer_writer ms (s @ frame bs) = ((s @ frame bs) @ out, Ok ())"
    "\<forall>rest e. recv_all c (length ms) \<lparr>rd_bytes = out @ rest, rd_end = e\<rparr> =
      (\<lparr>rd_bytes = rest, rd_end = e\<rparr>, Ok ms)"
    using Cons.IH [of "s @ frame bs"] Cons.prems by auto
  then show ?case
    using bs by (intro exI [of _ "frame bs @ out"])
      (simp add: send_msg_buffer recv_msg_frame map_err_def)
qed simp

text \<open>
  C21. Messages arrive as they were sent: any sequence of messages that encode to at most
  the size limit is written without error, and reading as many messages from those bytes,
  whatever follows them, yields the same sequence and leaves exactly what follows.
\<close>

theorem frames_roundtrip:
  assumes "\<forall>m\<in>set ms. sendable c m" and "send_all c buffer_writer ms [] = (out, outcome)"
  shows "outcome = Ok () \<and>
    recv_all c (length ms) \<lparr>rd_bytes = out @ rest, rd_end = e\<rparr> = (\<lparr>rd_bytes = rest, rd_end = e\<rparr>, Ok ms)"
  using send_all_buffer [OF assms(1), of "[]"] assms(2) by auto

definition byte_codec :: "byte codec" where
  "byte_codec = \<lparr>cd_to_allocvec = (\<lambda>b. Ok [b]),
     cd_from_bytes = (\<lambda>bs. case bs of [b] \<Rightarrow> Ok b | _ \<Rightarrow> Err ''length'')\<rparr>"

theorem frames_roundtrip_witness:
  "recv_all byte_codec 2 \<lparr>rd_bytes = [1, 0, 0, 0, 7, 1, 0, 0, 0, 9, 5], rd_end = None\<rparr> =
    (\<lparr>rd_bytes = [5], rd_end = None\<rparr>, Ok [7, 9])"
proof -
  have four: "[0..<4] = [0, 1, 2, 3 :: nat]" by code_simp
  have send: "send_all byte_codec buffer_writer [7, 9] [] = ([1, 0, 0, 0, 7, 1, 0, 0, 0, 9], Ok ())"
    by (simp add: send_msg_def buffer_writer_def byte_codec_def MAX_MSG_SIZE_def to_le_bytes_def four Let_def
        word_less_nat_alt)
  have "\<forall>m\<in>set [7, 9]. sendable byte_codec m"
    by (simp add: sendable_def byte_codec_def MAX_MSG_SIZE_value)
  from frames_roundtrip [OF this send, of "[5]" None] show ?thesis
    by (simp add: numeral_2_eq_2 del: recv_all.simps)
qed

text \<open>A frame that is cut short is an error, never a message.\<close>

lemma truncated_frame_is_error:
  assumes "length bs \<le> unat MAX_MSG_SIZE" and "k < length (frame bs)"
  shows "\<exists>r t. recv_msg c \<lparr>rd_bytes = take k (frame bs), rd_end = None\<rparr> = (r, Err (UnexpectedEof t))"
proof (cases "k < 4")
  case True
  then show ?thesis by (simp add: recv_msg_def read_exact_def)
next
  case False
  then obtain j where j: "k = 4 + j" by (metis add.commute le_Suc_ex linorder_not_less)
  with assms length_fits [OF assms(1)] show ?thesis
    by (simp add: recv_msg_def frame_def read_exact_def take_read_to_end_def from_to_le_bytes Let_def)
qed

text \<open>
  The length is cut to 32 bits before it is compared with the limit: a body of
  \<open>2 ^ 32 + k\<close> bytes passes as one of \<open>k\<close>, and the reader takes the rest for frames.
\<close>

lemma length_check_wraps:
  assumes "cd_to_allocvec c m = Ok bs" and "length bs = 2 ^ 32 + k" and "k \<le> unat MAX_MSG_SIZE"
  shows "send_msg c buffer_writer m s = (s @ to_le_bytes (of_nat k) @ bs, Ok ())"
proof -
  have "(of_nat (length bs) :: 32 word) = of_nat k"
    by (simp add: assms(2) word_of_nat_eq_iff take_bit_eq_mod)
  moreover have "\<not> MAX_MSG_SIZE < (of_nat k :: 32 word)"
    using length_fits [OF assms(3)] assms(3) by (simp add: word_less_nat_alt)
  ultimately show ?thesis by (simp add: send_msg_def assms(1) buffer_writer_def Let_def)
qed

lemma version_key_inj: "version_key v = version_key w \<Longrightarrow> v = w"
  by (rule protocol_version.equality) (simp_all add: version_key_def word_unat_eq_iff)

text \<open>Both ends choose the same version: the greatest both support.\<close>

lemma negotiate_Some_iff:
  "negotiate_highest_mutual_version family l r = Some v \<longleftrightarrow>
    v \<in> set l \<inter> set r \<and> (\<forall>w\<in>set l \<inter> set r. version_key w \<le> version_key v)"
proof
  assume "negotiate_highest_mutual_version family l r = Some v"
  from max_by_key_Some [OF this [unfolded negotiate_highest_mutual_version_def]]
  show "v \<in> set l \<inter> set r \<and> (\<forall>w\<in>set l \<inter> set r. version_key w \<le> version_key v)" by auto
next
  assume v: "v \<in> set l \<inter> set r \<and> (\<forall>w\<in>set l \<inter> set r. version_key w \<le> version_key v)"
  then obtain w where w: "negotiate_highest_mutual_version family l r = Some w"
    by (cases "negotiate_highest_mutual_version family l r")
      (auto simp: negotiate_highest_mutual_version_def max_by_key_None_iff filter_empty_conv)
  from max_by_key_Some [OF w [unfolded negotiate_highest_mutual_version_def]] v
  have "version_key w = version_key v" by (simp add: order_antisym)
  with w show "negotiate_highest_mutual_version family l r = Some v" using version_key_inj by blast
qed

lemma negotiate_None_iff:
  "negotiate_highest_mutual_version family l r = None \<longleftrightarrow> set l \<inter> set r = {}"
  by (auto simp: negotiate_highest_mutual_version_def max_by_key_None_iff filter_empty_conv)

lemma negotiate_symmetric:
  "negotiate_highest_mutual_version family l r = negotiate_highest_mutual_version family' r l"
proof (cases "negotiate_highest_mutual_version family l r")
  case None
  then show ?thesis by (metis negotiate_None_iff Int_commute)
next
  case (Some v)
  moreover from this have "negotiate_highest_mutual_version family' r l = Some v"
    by (simp add: negotiate_Some_iff Int_commute)
  ultimately show ?thesis by simp
qed

end
