(* ===== verification/Driver_Rpc.thy ===== *)
theory Driver_Rpc
  imports Wire Db_Error "HOL-Library.Multiset"
begin

text \<open>
  Drivers that run in a process of their own: the host's connection loop
  (\<^verbatim>\<open>src/crates/dbflux_driver_host/src/main.rs\<close> with the session table of
  \<^verbatim>\<open>session.rs\<close>) and the client (\<^verbatim>\<open>src/crates/dbflux_driver_ipc/src/transport.rs\<close>)
  over the messages of \<^verbatim>\<open>src/crates/dbflux_ipc/src/driver_protocol.rs\<close>. What the driver
  behind the host answers is an argument of each request, and its calls are kept in a
  log. Requests that operate on an open session are one constructor, since the loop
  treats them alike. Client and host talk over the bytes of a socket, in the frames of
  \<open>Wire\<close> with their size limit. Lemmas: nothing reaches the driver before an authenticated
  handshake, every connection is closed in the end, and client and host stay in step.
\<close>

section \<open>Messages\<close>

datatype driver_capability = Cancellation | ChunkedResults | SchemaIntrospection | MultiDatabase | AuditEmit

datatype driver_rpc_error_code =
    InvalidRequest | UnsupportedMethod | VersionMismatch | SessionNotFound | RpcTimeout | RpcCancelled
  | Transport | DriverFailed | Internal

record driver_rpc_error =
  dre_code :: driver_rpc_error_code
  dre_message :: string
  dre_retriable :: bool

record driver_hello_request =
  hq_client_name :: string
  hq_client_version :: string
  hq_supported_versions :: "protocol_version list"
  hq_requested_capabilities :: "driver_capability list"
  hq_auth_token :: "string option"

text \<open>The driver's kind, metadata and forms are passed through as one value.\<close>

record 'd driver_hello_response =
  hr_server_name :: string
  hr_server_version :: string
  hr_selected_version :: protocol_version
  hr_capabilities :: "driver_capability list"
  hr_driver :: 'd

datatype 'o driver_request_body =
    ReqHello driver_hello_request
  | OpenSession string "string option" "string option"
  | CloseSession
  | SessionRequest 'o

record 'o driver_request_envelope =
  re_protocol_version :: protocol_version
  re_request_id :: "64 word"
  re_session_id :: "uuid option"
  re_timeout_ms :: "64 word option"
  re_body :: "'o driver_request_body"

text \<open>What a host tells of an opened session besides its identifier is left out.\<close>

datatype ('b, 'd, 'a) driver_response_body =
    RespHello "'d driver_hello_response"
  | SessionOpened uuid
  | SessionClosed
  | RespError driver_rpc_error
  | EmitAuditEvent 'a
  | SessionResponse 'b

record ('b, 'd, 'a) driver_response_envelope =
  rs_protocol_version :: protocol_version
  rs_request_id :: "64 word"
  rs_session_id :: "uuid option"
  rs_done :: bool
  rs_body :: "('b, 'd, 'a) driver_response_body"

definition response_ok ::
  "protocol_version \<Rightarrow> 64 word \<Rightarrow> uuid option \<Rightarrow> ('b, 'd, 'a) driver_response_body \<Rightarrow>
   ('b, 'd, 'a) driver_response_envelope" where
  "response_ok v i sid body =
    \<lparr>rs_protocol_version = v, rs_request_id = i, rs_session_id = sid, rs_done = True, rs_body = body\<rparr>"

definition response_error ::
  "protocol_version \<Rightarrow> 64 word \<Rightarrow> uuid option \<Rightarrow> driver_rpc_error_code \<Rightarrow> string \<Rightarrow> bool \<Rightarrow>
   ('b, 'd, 'a) driver_response_envelope" where
  "response_error v i sid c message retriable =
    response_ok v i sid (RespError \<lparr>dre_code = c, dre_message = message, dre_retriable = retriable\<rparr>)"

section \<open>The host\<close>

type_synonym driver_conn = nat

datatype driver_call =
    Authenticated driver_hello_request protocol_version
  | Connected uuid driver_conn
  | ConnectFailed
  | Dispatched driver_conn protocol_version
  | ConnClosed driver_conn

record host_state =
  ho_sessions :: "(uuid \<times> driver_conn) list"
  ho_negotiated_version :: "protocol_version option"
  ho_calls :: "driver_call list"

record 'd host_config =
  hc_auth_token :: "string option"
  hc_server_version :: string
  hc_driver :: 'd
  hc_show_uuid :: "uuid \<Rightarrow> string"

text \<open>
  The answers to one request: parsing the profile, connecting, the drawn session id,
  closing, and the body a request on a session gets.
\<close>

record ('b, 'd, 'a) host_answers =
  ha_profile :: "(string, unit) result"
  ha_connect :: "(db_error, driver_conn) result"
  ha_new_id :: uuid
  ha_close :: "(db_error, unit) result"
  ha_dispatch :: "('b, 'd, 'a) driver_response_body"

definition host_new :: host_state where
  "host_new = \<lparr>ho_sessions = [], ho_negotiated_version = None, ho_calls = []\<rparr>"

definition is_hello_authorized :: "string option \<Rightarrow> string option \<Rightarrow> bool" where
  "is_hello_authorized client_token expected_auth_token =
    (case expected_auth_token of Some expected \<Rightarrow> client_token = Some expected | None \<Rightarrow> False)"

definition show_version :: "protocol_version \<Rightarrow> string" where
  "show_version v = show_nat (unat (pv_major v)) @ ''.'' @ show_nat (unat (pv_minor v))"

definition negotiate_hello_version ::
  "protocol_version list \<Rightarrow> (driver_rpc_error, protocol_version) result" where
  "negotiate_hello_version client_versions =
    ok_or \<lparr>dre_code = VersionMismatch,
           dre_message = ''No compatible protocol version. Server: '' @ show_version DRIVER_RPC_VERSION,
           dre_retriable = False\<rparr>
      (negotiate_highest_mutual_version DriverRpc DRIVER_RPC_SUPPORTED_VERSIONS client_versions)"

definition validate_negotiated_request_version ::
  "protocol_version \<Rightarrow> protocol_version \<Rightarrow> (driver_rpc_error, unit) result" where
  "validate_negotiated_request_version negotiated_version request_version =
    (if negotiated_version \<noteq> request_version
     then Err \<lparr>dre_code = VersionMismatch,
       dre_message = ''Protocol version drift detected: negotiated '' @ show_version negotiated_version @
         '', received '' @ show_version request_version,
       dre_retriable = False\<rparr>
     else Ok ())"

definition handle_hello ::
  "'d host_config \<Rightarrow> protocol_version \<Rightarrow> 64 word \<Rightarrow> driver_hello_request \<Rightarrow> host_state \<Rightarrow>
   host_state \<times> ('b, 'd, 'a) driver_response_envelope" where
  "handle_hello cfg request_version i hello h =
    (if \<not> is_hello_authorized (hq_auth_token hello) (hc_auth_token cfg)
     then (h, response_error request_version i None InvalidRequest ''Unauthorized driver RPC client'' False)
     else (case negotiate_hello_version (hq_supported_versions hello) of
         Inl e \<Rightarrow> (h, response_error request_version i None (dre_code e) (dre_message e) (dre_retriable e))
       | Inr selected \<Rightarrow>
           (h\<lparr>ho_negotiated_version := Some selected, ho_calls := ho_calls h @ [Authenticated hello selected]\<rparr>,
            response_ok selected i None (RespHello
              \<lparr>hr_server_name = ''dbflux-driver-host'', hr_server_version = hc_server_version cfg,
               hr_selected_version = selected, hr_capabilities = hq_requested_capabilities hello,
               hr_driver = hc_driver cfg\<rparr>))))"

definition handle_open_session ::
  "('b, 'd, 'a) host_answers \<Rightarrow> protocol_version \<Rightarrow> 64 word \<Rightarrow> host_state \<Rightarrow>
   host_state \<times> ('b, 'd, 'a) driver_response_envelope" where
  "handle_open_session an v i h =
    (case ha_profile an of
       Inl e \<Rightarrow> (h, response_error v i None InvalidRequest (''Invalid profile JSON: '' @ e) False)
     | Inr _ \<Rightarrow> (case ha_connect an of
           Inl e \<Rightarrow>
             (h\<lparr>ho_calls := ho_calls h @ [ConnectFailed]\<rparr>,
              response_error v i None DriverFailed (show_db_error e) False)
         | Inr conn \<Rightarrow>
             (h\<lparr>ho_sessions := AList.update (ha_new_id an) conn (ho_sessions h),
                ho_calls := ho_calls h @ [Connected (ha_new_id an) conn]\<rparr>,
              response_ok v i (Some (ha_new_id an)) (SessionOpened (ha_new_id an)))))"

definition session_not_found ::
  "'d host_config \<Rightarrow> protocol_version \<Rightarrow> 64 word \<Rightarrow> uuid \<Rightarrow> ('b, 'd, 'a) driver_response_envelope" where
  "session_not_found cfg v i sid =
    response_error v i (Some sid) SessionNotFound
      (''Session '' @ hc_show_uuid cfg sid @ '' not found'') False"

definition handle_close_session ::
  "'d host_config \<Rightarrow> ('b, 'd, 'a) host_answers \<Rightarrow> protocol_version \<Rightarrow> 64 word \<Rightarrow> uuid option \<Rightarrow> host_state \<Rightarrow>
   host_state \<times> ('b, 'd, 'a) driver_response_envelope" where
  "handle_close_session cfg an v i session_id h =
    (case session_id of
       None \<Rightarrow> (h, response_error v i None SessionNotFound ''No session_id provided for CloseSession'' False)
     | Some sid \<Rightarrow> (case map_of (ho_sessions h) sid of
           None \<Rightarrow> (h, session_not_found cfg v i sid)
         | Some conn \<Rightarrow>
             (h\<lparr>ho_sessions := AList.delete sid (ho_sessions h), ho_calls := ho_calls h @ [ConnClosed conn]\<rparr>,
              (case ha_close an of
                 Inr _ \<Rightarrow> response_ok v i (Some sid) SessionClosed
               | Inl e \<Rightarrow> response_error v i (Some sid) DriverFailed
                   (''Failed to close session: '' @ show_db_error e) False))))"

definition handle_session_request ::
  "'d host_config \<Rightarrow> ('b, 'd, 'a) host_answers \<Rightarrow> protocol_version \<Rightarrow> 64 word \<Rightarrow> uuid option \<Rightarrow> host_state \<Rightarrow>
   host_state \<times> ('b, 'd, 'a) driver_response_envelope" where
  "handle_session_request cfg an v i session_id h =
    (case session_id of
       None \<Rightarrow> (h, response_error v i None SessionNotFound ''No session_id provided'' False)
     | Some sid \<Rightarrow> (case map_of (ho_sessions h) sid of
           None \<Rightarrow> (h, session_not_found cfg v i sid)
         | Some conn \<Rightarrow>
             (h\<lparr>ho_calls := ho_calls h @ [Dispatched conn v]\<rparr>, response_ok v i (Some sid) (ha_dispatch an))))"

text \<open>One turn of the loop of \<open>handle_connection\<close>: the guards, then the dispatch.\<close>

definition handle_request ::
  "'d host_config \<Rightarrow> ('b, 'd, 'a) host_answers \<Rightarrow> 'o driver_request_envelope \<Rightarrow> host_state \<Rightarrow>
   host_state \<times> ('b, 'd, 'a) driver_response_envelope" where
  "handle_request cfg an env h =
    (let i = re_request_id env; sid = re_session_id env; rv = re_protocol_version env
     in case re_body env of
          ReqHello hello \<Rightarrow> handle_hello cfg rv i hello h
        | body \<Rightarrow>
            (case ho_negotiated_version h of
               None \<Rightarrow> (h, response_error rv i sid InvalidRequest ''Hello handshake required before OpenSession'' False)
             | Some selected \<Rightarrow>
                 (case validate_negotiated_request_version selected rv of
                    Inl e \<Rightarrow> (h, response_error rv i sid (dre_code e) (dre_message e) (dre_retriable e))
                  | Inr _ \<Rightarrow>
                      (case body of
                         OpenSession _ _ _ \<Rightarrow> handle_open_session an selected i h
                       | CloseSession \<Rightarrow> handle_close_session cfg an selected i sid h
                       | _ \<Rightarrow> handle_session_request cfg an selected i sid h))))"

definition close_all :: "host_state \<Rightarrow> host_state" where
  "close_all h = h\<lparr>ho_sessions := [], ho_calls := ho_calls h @ map (ConnClosed \<circ> snd) (ho_sessions h)\<rparr>"

text \<open>
  The connection: requests arrive until reading fails, which ends the list; a response
  that cannot be sent ends the loop as well.
\<close>

fun handle_connection ::
  "'d host_config \<Rightarrow> (('b, 'd, 'a) host_answers \<times> 'o driver_request_envelope \<times> bool) list \<Rightarrow> host_state \<Rightarrow>
   host_state \<times> ('b, 'd, 'a) driver_response_envelope list" where
  "handle_connection cfg [] h = (close_all h, [])"
| "handle_connection cfg ((an, env, sent) # reqs) h =
    (let (h1, resp) = handle_request cfg an env h
     in if sent then (let (h2, resps) = handle_connection cfg reqs h1 in (h2, resp # resps))
        else (close_all h1, []))"




section \<open>The client\<close>

datatype rpc_error =
    RpcConnectionFailed string
  | RpcIo io_error
  | Protocol string
  | RpcSessionNotFound
  | RpcDriver string
  | RpcUnsupportedMethod string
  | RpcTimedOut

record rpc_client =
  rc_next_id :: "64 word"
  rc_selected_version :: protocol_version
  rc_audit_emit_capability :: bool
  rc_audit_emitter :: bool

definition hello_request :: "string \<Rightarrow> string option \<Rightarrow> 'o driver_request_envelope" where
  "hello_request client_version auth_token =
    \<lparr>re_protocol_version = DRIVER_RPC_VERSION, re_request_id = 0, re_session_id = None, re_timeout_ms = None,
     re_body = ReqHello
       \<lparr>hq_client_name = ''dbflux_driver_ipc'', hq_client_version = client_version,
        hq_supported_versions = DRIVER_RPC_SUPPORTED_VERSIONS,
        hq_requested_capabilities = [Cancellation, ChunkedResults, SchemaIntrospection, MultiDatabase],
        hq_auth_token = auth_token\<rparr>\<rparr>"




definition validate_response_protocol_version ::
  "protocol_version \<Rightarrow> protocol_version \<Rightarrow> (rpc_error, unit) result" where
  "validate_response_protocol_version negotiated_version response_version =
    (if negotiated_version \<noteq> response_version
     then Err (Protocol (''Driver host responded with protocol '' @ show_version response_version @
       '' but negotiated version is '' @ show_version negotiated_version))
     else Ok ())"

lemma recv_msg_shorter:
  "recv_msg c r = (r', Ok m) \<Longrightarrow> length (rd_bytes r') < length (rd_bytes r)"
  by (auto simp: recv_msg_def read_exact_def take_read_to_end_def Let_def split: if_splits sum.splits)

text \<open>
  The receive loop of \<open>send_raw\<close> over the bytes that arrive: audit frames before the
  answer go to the sink, and what follows the answer is left.
\<close>

function recv_frames ::
  "('b, 'd, 'a) driver_response_envelope codec \<Rightarrow> rpc_client \<Rightarrow> 64 word \<Rightarrow> protocol_version \<Rightarrow> reader \<Rightarrow>
   reader \<times> (rpc_error, ('b, 'd, 'a) driver_response_envelope) result \<times> 'a list" where
  "recv_frames cr c expected v rd =
    (case recv_msg cr rd of
       (rd1, Inl e) \<Rightarrow> (rd1, Err (RpcIo e), [])
     | (rd1, Inr resp) \<Rightarrow>
         if rs_request_id resp \<noteq> expected then (rd1, Err (Protocol ''Request ID mismatch''), [])
         else (case validate_response_protocol_version v (rs_protocol_version resp) of
             Inl e \<Rightarrow> (rd1, Err e, [])
           | Inr _ \<Rightarrow>
               (case rs_body resp of
                  EmitAuditEvent dto \<Rightarrow>
                    if \<not> rs_done resp
                    then (let (rd2, r, emitted) = recv_frames cr c expected v rd1
                          in (rd2, r, (if rc_audit_emit_capability c \<and> rc_audit_emitter c then dto # emitted else emitted)))
                    else (rd1, Ok resp, [])
                | _ \<Rightarrow> (rd1, Ok resp, []))))"
  by pat_completeness auto

termination
  by (relation "measure (\<lambda>(cr, c, expected, v, rd). length (rd_bytes rd))") (auto dest: recv_msg_shorter [OF sym])

declare recv_frames.simps [simp del]

definition build_call_request_envelope ::
  "protocol_version \<Rightarrow> 64 word \<Rightarrow> 'o driver_request_body \<Rightarrow> uuid option \<Rightarrow> 'o driver_request_envelope" where
  "build_call_request_envelope selected i body session_id =
    \<lparr>re_protocol_version = selected, re_request_id = i, re_session_id = session_id, re_timeout_ms = None,
     re_body = body\<rparr>"






text \<open>What a caller makes of the body it gets.\<close>

definition expect_variant ::
  "(('b, 'd, 'a) driver_response_body \<Rightarrow> bool) \<Rightarrow> string \<Rightarrow> (rpc_error, ('b, 'd, 'a) driver_response_body) result \<Rightarrow>
   (rpc_error, unit) result" where
  "expect_variant check label response =
    and_then response (\<lambda>body.
      if check body then Ok ()
      else (case body of
          RespError e \<Rightarrow> Err (RpcDriver (dre_message e))
        | _ \<Rightarrow> Err (Protocol (''Unexpected response to '' @ label))))"

definition open_session ::
  "(rpc_error, ('b, 'd, 'a) driver_response_body) result \<Rightarrow> (rpc_error, ('b, 'd, 'a) driver_response_body) result" where
  "open_session response =
    and_then response (\<lambda>body.
      case body of
        SessionOpened _ \<Rightarrow> Ok body
      | RespError e \<Rightarrow> Err (RpcDriver (dre_message e))
      | _ \<Rightarrow> Err (Protocol ''Unexpected response to OpenSession''))"

definition close_session ::
  "(rpc_error, ('b, 'd, 'a) driver_response_body) result \<Rightarrow> (rpc_error, unit) result" where
  "close_session = expect_variant (\<lambda>body. body = SessionClosed) ''CloseSession''"

fun show_io_error :: "io_error \<Rightarrow> string" where
  "show_io_error (UnexpectedEof t) = t"
| "show_io_error (IoOther t) = t"

fun db_error_of_rpc :: "rpc_error \<Rightarrow> db_error" where
  "db_error_of_rpc RpcSessionNotFound = query_failed ''Session not found''"
| "db_error_of_rpc RpcTimedOut = Timeout"
| "db_error_of_rpc (RpcDriver msg) = query_failed msg"
| "db_error_of_rpc (RpcUnsupportedMethod msg) = NotSupported msg"
| "db_error_of_rpc (Protocol msg) = query_failed msg"
| "db_error_of_rpc (RpcConnectionFailed msg) = ConnectionFailed (formatted_new msg)"
| "db_error_of_rpc (RpcIo e) = IoError (show_io_error e)"

section \<open>The handshake comes first\<close>

definition hello_accepted :: "'d host_config \<Rightarrow> driver_hello_request \<Rightarrow> protocol_version \<Rightarrow> bool" where
  "hello_accepted cfg hello v \<longleftrightarrow>
    (\<exists>token. hc_auth_token cfg = Some token \<and> hq_auth_token hello = Some token) \<and>
    negotiate_highest_mutual_version DriverRpc DRIVER_RPC_SUPPORTED_VERSIONS (hq_supported_versions hello) = Some v"

definition authenticated :: "driver_call list \<Rightarrow> protocol_version \<Rightarrow> bool" where
  "authenticated calls v \<longleftrightarrow> (\<exists>hello. Authenticated hello v \<in> set calls)"

text \<open>What the driver may be called for, after the calls before.\<close>

fun call_allowed :: "'d host_config \<Rightarrow> driver_call list \<Rightarrow> driver_call \<Rightarrow> bool" where
  "call_allowed cfg before (Authenticated hello v) \<longleftrightarrow> hello_accepted cfg hello v"
| "call_allowed cfg before (Connected _ _) \<longleftrightarrow> (\<exists>v. authenticated before v)"
| "call_allowed cfg before ConnectFailed \<longleftrightarrow> (\<exists>v. authenticated before v)"
| "call_allowed cfg before (Dispatched _ v) \<longleftrightarrow> authenticated before v"
| "call_allowed cfg before (ConnClosed _) \<longleftrightarrow> (\<exists>v. authenticated before v)"

fun calls_allowed :: "'d host_config \<Rightarrow> driver_call list \<Rightarrow> driver_call list \<Rightarrow> bool" where
  "calls_allowed cfg before [] \<longleftrightarrow> True"
| "calls_allowed cfg before (c # cs) \<longleftrightarrow> call_allowed cfg before c \<and> calls_allowed cfg (before @ [c]) cs"

lemma calls_allowed_append:
  "calls_allowed cfg before (xs @ ys) \<longleftrightarrow> calls_allowed cfg before xs \<and> calls_allowed cfg (before @ xs) ys"
  by (induction xs arbitrary: before) auto

lemma calls_allowed_nth:
  "calls_allowed cfg before cs \<Longrightarrow> n < length cs \<Longrightarrow> call_allowed cfg (before @ take n cs) (cs ! n)"
proof (induction cs arbitrary: before n)
  case (Cons c cs)
  then show ?case using Cons.IH [of "before @ [c]" "n - 1"] by (cases n) auto
qed simp

lemma calls_allowed_closing:
  "(conns \<noteq> [] \<Longrightarrow> \<exists>v. authenticated before v) \<Longrightarrow> calls_allowed cfg before (map ConnClosed conns)"
proof (induction conns arbitrary: before)
  case (Cons conn conns)
  then obtain v where "authenticated before v" by auto
  moreover from this have "authenticated (before @ [ConnClosed conn]) v" by (simp add: authenticated_def)
  ultimately show ?case using Cons.IH [of "before @ [ConnClosed conn]"] by auto
qed simp

definition host_inv :: "'d host_config \<Rightarrow> host_state \<Rightarrow> bool" where
  "host_inv cfg h \<longleftrightarrow> calls_allowed cfg [] (ho_calls h) \<and>
    (\<forall>v. ho_negotiated_version h = Some v \<longrightarrow> authenticated (ho_calls h) v) \<and>
    (ho_sessions h \<noteq> [] \<longrightarrow> ho_negotiated_version h \<noteq> None)"

lemma negotiate_hello_version_Ok:
  "negotiate_hello_version vs = Ok v \<longleftrightarrow>
    negotiate_highest_mutual_version DriverRpc DRIVER_RPC_SUPPORTED_VERSIONS vs = Some v"
  by (auto simp: negotiate_hello_version_def ok_or_def split: option.splits)

lemma is_hello_authorized_iff:
  "is_hello_authorized tok expected \<longleftrightarrow> (\<exists>t. expected = Some t \<and> tok = Some t)"
  by (auto simp: is_hello_authorized_def split: option.splits)

lemma handle_hello_inv:
  assumes "host_inv cfg h" and "handle_hello cfg rv i hello h = (h', resp)"
  shows "host_inv cfg h'"
  using assms
  by (auto simp: handle_hello_def host_inv_def calls_allowed_append hello_accepted_def authenticated_def
      negotiate_hello_version_Ok is_hello_authorized_iff split: if_splits sum.splits)

text \<open>Past the guards: the negotiated version is at hand.\<close>

lemma host_inv_extend:
  assumes "host_inv cfg h" and "ho_negotiated_version h = Some v"
    and "call_allowed cfg (ho_calls h) c"
  shows "host_inv cfg (h\<lparr>ho_sessions := ss, ho_calls := ho_calls h @ [c]\<rparr>)"
    and "host_inv cfg (h\<lparr>ho_calls := ho_calls h @ [c]\<rparr>)"
  using assms by (auto simp: host_inv_def calls_allowed_append authenticated_def)

lemma handle_request_inv:
  assumes "host_inv cfg h" and "handle_request cfg an env h = (h', resp)"
  shows "host_inv cfg h'"
proof (cases "\<exists>hello. re_body env = ReqHello hello")
  case True
  then show ?thesis using handle_hello_inv [OF assms(1)] assms(2) by (auto simp: handle_request_def Let_def)
next
  case False
  show ?thesis
  proof (cases "ho_negotiated_version h")
    case None
    with False assms show ?thesis
      by (cases "re_body env") (auto simp: handle_request_def Let_def)
  next
    case (Some v)
    then have "authenticated (ho_calls h) v" using assms(1) by (simp add: host_inv_def)
    then have "call_allowed cfg (ho_calls h) c"
      if "c = Connected i n \<or> c = ConnectFailed \<or> c = Dispatched n v \<or> c = ConnClosed n" for c i n
      using that by auto
    note ext = host_inv_extend [OF assms(1) Some this]
    show ?thesis
      using False assms Some ext
      by (cases "re_body env")
        (auto simp: handle_request_def Let_def handle_open_session_def handle_close_session_def
          handle_session_request_def split: sum.splits option.splits)
  qed
qed

lemma close_all_inv: "host_inv cfg h \<Longrightarrow> calls_allowed cfg [] (ho_calls (close_all h))"
  using calls_allowed_closing [of "map snd (ho_sessions h)" "ho_calls h" cfg]
  by (auto simp: close_all_def host_inv_def calls_allowed_append)

lemma handle_connection_allowed:
  "host_inv cfg h \<Longrightarrow> calls_allowed cfg [] (ho_calls (fst (handle_connection cfg reqs h)))"
proof (induction cfg reqs h rule: handle_connection.induct)
  case (2 cfg an env sent reqs h)
  obtain h1 resp where h1: "handle_request cfg an env h = (h1, resp)" by fastforce
  from handle_request_inv [OF 2(2) h1] 2(1) [OF h1 [symmetric] refl] show ?case
    by (auto simp: h1 close_all_inv split: prod.splits)
qed (simp add: close_all_inv)

text \<open>
  C17. Whatever a client sends over a connection, the driver is used only after a
  handshake with the host's own token: every connect, failed ones included, close and
  request on a session follows an accepted hello, requests run at a version both ends support and chose as
  the greatest, and without a configured token nothing is accepted.
\<close>

theorem driver_needs_handshake:
  assumes "ho_calls (fst (handle_connection cfg reqs host_new)) = calls" and "n < length calls"
  shows "(\<forall>hello v. calls ! n = Authenticated hello v \<longrightarrow> hello_accepted cfg hello v) \<and>
    (\<forall>sid conn v. calls ! n = Connected sid conn \<or> calls ! n = ConnectFailed \<or> calls ! n = ConnClosed conn \<or>
        calls ! n = Dispatched conn v \<longrightarrow>
      (\<exists>m<n. \<exists>hello v. calls ! m = Authenticated hello v)) \<and>
    (\<forall>conn v. calls ! n = Dispatched conn v \<longrightarrow> (\<exists>m<n. \<exists>hello. calls ! m = Authenticated hello v))"
proof -
  have "calls_allowed cfg [] calls"
    unfolding assms(1) [symmetric] by (rule handle_connection_allowed) (simp add: host_inv_def host_new_def)
  from calls_allowed_nth [OF this assms(2)] have allowed: "call_allowed cfg (take n calls) (calls ! n)" by simp
  have before: "\<exists>m<n. \<exists>hello. calls ! m = Authenticated hello v" if "authenticated (take n calls) v" for v
    using that assms(2) by (auto simp: authenticated_def in_set_conv_nth)
  then have "\<exists>m<n. \<exists>hello v. calls ! m = Authenticated hello v" if "authenticated (take n calls) v" for v
    using that by blast
  with allowed before show ?thesis by (cases "calls ! n") auto
qed

definition test_config :: "unit host_config" where
  "test_config = \<lparr>hc_auth_token = Some ''secret'', hc_server_version = ''1'', hc_driver = (), hc_show_uuid = (\<lambda>_. ''id'')\<rparr>"

definition test_answers :: "uuid \<Rightarrow> (nat, unit, unit) host_answers" where
  "test_answers i = \<lparr>ha_profile = Ok (), ha_connect = Ok 3, ha_new_id = i, ha_close = Ok (), ha_dispatch = SessionResponse 5\<rparr>"

text \<open>A handshake, a session, a request on it, and the end of the connection.\<close>

definition test_requests ::
  "((nat, unit, unit) host_answers \<times> nat driver_request_envelope \<times> bool) list" where
  "test_requests =
    [(test_answers 6, hello_request ''1'' (Some ''secret''), True),
     (test_answers 7, build_call_request_envelope DRIVER_RPC_VERSION 1 (OpenSession ''{}'' None None) None, True),
     (test_answers 8, build_call_request_envelope DRIVER_RPC_VERSION 2 (SessionRequest 4) (Some 7), True)]"

lemma own_version_chosen:
  "negotiate_highest_mutual_version family DRIVER_RPC_SUPPORTED_VERSIONS DRIVER_RPC_SUPPORTED_VERSIONS =
    Some DRIVER_RPC_VERSION"
  by (simp add: negotiate_Some_iff DRIVER_RPC_SUPPORTED_VERSIONS_def DRIVER_RPC_VERSION_def
      protocol_version_new_def version_key_def)

lemmas host_code = handle_request_def handle_hello_def handle_open_session_def handle_close_session_def
  handle_session_request_def negotiate_hello_version_def own_version_chosen is_hello_authorized_def
  validate_negotiated_request_version_def ok_or_def Let_def host_new_def close_all_def

lemma test_run:
  "\<exists>hello. ho_calls (fst (handle_connection test_config test_requests host_new)) =
    [Authenticated hello DRIVER_RPC_VERSION, Connected 7 3, Dispatched 3 DRIVER_RPC_VERSION, ConnClosed 3]"
  by (simp add: test_requests_def test_config_def test_answers_def hello_request_def
      build_call_request_envelope_def host_code)

theorem driver_needs_handshake_witness:
  "\<exists>calls. ho_calls (fst (handle_connection test_config test_requests host_new)) = calls \<and>
    calls ! 1 = Connected 7 3 \<and> (\<exists>m<1. \<exists>hello v. calls ! m = Authenticated hello v)"
proof -
  obtain calls hello where calls: "ho_calls (fst (handle_connection test_config test_requests host_new)) = calls"
    "calls = [Authenticated hello DRIVER_RPC_VERSION, Connected 7 3, Dispatched 3 DRIVER_RPC_VERSION, ConnClosed 3]"
    using test_run by blast
  then have "1 < length calls" by simp
  from driver_needs_handshake [OF calls(1) this] calls show ?thesis by auto
qed

section \<open>Every connection is closed\<close>

definition connected_conns :: "driver_call list \<Rightarrow> driver_conn list" where
  "connected_conns calls = concat (map (\<lambda>c. case c of Connected _ n \<Rightarrow> [n] | _ \<Rightarrow> []) calls)"

definition closed_conns :: "driver_call list \<Rightarrow> driver_conn list" where
  "closed_conns calls = concat (map (\<lambda>c. case c of ConnClosed n \<Rightarrow> [n] | _ \<Rightarrow> []) calls)"

lemma conns_simps [simp]:
  "connected_conns [] = []" "closed_conns [] = []"
  "connected_conns (xs @ ys) = connected_conns xs @ connected_conns ys"
  "closed_conns (xs @ ys) = closed_conns xs @ closed_conns ys"
  "connected_conns [c] = (case c of Connected _ n \<Rightarrow> [n] | _ \<Rightarrow> [])"
  "closed_conns [c] = (case c of ConnClosed n \<Rightarrow> [n] | _ \<Rightarrow> [])"
  "connected_conns (map (ConnClosed \<circ> f) zs) = []" "closed_conns (map (ConnClosed \<circ> f) zs) = map f zs"
  by (induction zs) (simp_all add: connected_conns_def closed_conns_def)

lemma update_fresh: "k \<notin> fst ` set al \<Longrightarrow> AList.update k v al = al @ [(k, v)]"
  by (induction al) auto

lemma delete_mset:
  "distinct (map fst al) \<Longrightarrow> map_of al k = Some v \<Longrightarrow>
    mset (map snd al) = add_mset v (mset (map snd (AList.delete k al)))"
proof (induction al)
  case (Cons p al)
  show ?case
  proof (cases "fst p = k")
    case True
    then have "k \<notin> fst ` set al" using Cons.prems(1) by auto
    then have "AList.delete k al = al" by (simp add: delete_idem)
    with True Cons.prems(2) show ?thesis by (cases p) (auto simp: AList.delete_eq)
  next
    case False
    with Cons show ?thesis by (cases p) (auto simp: AList.delete_eq)
  qed
qed simp

definition conns_inv :: "uuid set \<Rightarrow> host_state \<Rightarrow> bool" where
  "conns_inv used h \<longleftrightarrow>
    mset (connected_conns (ho_calls h)) = mset (closed_conns (ho_calls h)) + mset (map snd (ho_sessions h)) \<and>
    distinct (map fst (ho_sessions h)) \<and> set (map fst (ho_sessions h)) \<subseteq> used"

lemma conns_inv_mono: "conns_inv used h \<Longrightarrow> used \<subseteq> used' \<Longrightarrow> conns_inv used' h"
  by (auto simp: conns_inv_def)

lemma handle_request_conns:
  assumes "conns_inv used h" and "ha_new_id an \<notin> used" and "handle_request cfg an env h = (h', resp)"
  shows "conns_inv (insert (ha_new_id an) used) h'"
proof -
  let ?used = "insert (ha_new_id an) used"
  have same: "conns_inv ?used h" using assms(1) by (rule conns_inv_mono) blast
  have op: "conns_inv ?used (h\<lparr>ho_sessions := AList.update (ha_new_id an) conn (ho_sessions h),
      ho_calls := ho_calls h @ [Connected (ha_new_id an) conn]\<rparr>)" for conn
  proof -
    have "ha_new_id an \<notin> fst ` set (ho_sessions h)" using assms(1,2) by (auto simp: conns_inv_def)
    with assms(1) show ?thesis by (auto simp: conns_inv_def update_fresh)
  qed
  have cl: "conns_inv ?used (h\<lparr>ho_sessions := AList.delete sid (ho_sessions h),
      ho_calls := ho_calls h @ [ConnClosed conn]\<rparr>)" if "map_of (ho_sessions h) sid = Some conn" for sid conn
  proof -
    have "set (map fst (AList.delete sid (ho_sessions h))) \<subseteq> set (map fst (ho_sessions h))"
      by (auto simp: delete_keys simp del: set_map)
    with assms(1) delete_mset [OF _ that] show ?thesis
      by (auto simp: conns_inv_def delete_keys distinct_removeAll simp del: set_map)
  qed
  have quiet: "conns_inv ?used (h\<lparr>ho_calls := ho_calls h @ [Dispatched conn v]\<rparr>)"
    "conns_inv ?used (h\<lparr>ho_calls := ho_calls h @ [ConnectFailed]\<rparr>)"
    "conns_inv ?used (h\<lparr>ho_negotiated_version := nv, ho_calls := ho_calls h @ [Authenticated hello v]\<rparr>)" for conn v nv hello
    using same by (simp_all add: conns_inv_def)
  show ?thesis
    using assms(3) same op cl quiet
    by (cases "re_body env")
      (auto simp: handle_request_def Let_def handle_hello_def handle_open_session_def handle_close_session_def
        handle_session_request_def split: if_splits sum.splits option.splits)
qed

lemma handle_connection_conns:
  "conns_inv used h \<Longrightarrow> distinct (map (ha_new_id \<circ> fst) reqs) \<Longrightarrow>
    used \<inter> set (map (ha_new_id \<circ> fst) reqs) = {} \<Longrightarrow>
    mset (connected_conns (ho_calls (fst (handle_connection cfg reqs h)))) =
    mset (closed_conns (ho_calls (fst (handle_connection cfg reqs h))))"
proof (induction cfg reqs h arbitrary: used rule: handle_connection.induct)
  case (1 cfg h)
  then show ?case by (simp add: close_all_def conns_inv_def)
next
  case (2 cfg an env sent reqs h)
  obtain h1 resp where h1: "handle_request cfg an env h = (h1, resp)" by fastforce
  have "conns_inv (insert (ha_new_id an) used) h1"
    using handle_request_conns [OF "2.prems"(1) _ h1] "2.prems"(3) by simp
  then show ?case
    using "2.IH" [OF h1 [symmetric] refl, of "insert (ha_new_id an) used"] "2.prems"(2,3)
    by (auto simp: h1 close_all_def conns_inv_def split: prod.splits)
qed

text \<open>
  C18. However a connection ends, the host has closed every driver connection it opened,
  each as often as it was opened, provided the session identifiers it draws differ.
\<close>

theorem host_closes_every_connection:
  assumes "distinct (map (ha_new_id \<circ> fst) reqs)"
  shows "mset (connected_conns (ho_calls (fst (handle_connection cfg reqs host_new)))) =
    mset (closed_conns (ho_calls (fst (handle_connection cfg reqs host_new)))) \<and>
    ho_sessions (fst (handle_connection cfg reqs host_new)) = []"
proof -
  have "ho_sessions (fst (handle_connection cfg reqs h)) = []" for h
    by (induction cfg reqs h rule: handle_connection.induct) (auto simp: close_all_def Let_def split: prod.splits)
  moreover have "conns_inv {} host_new" by (simp add: conns_inv_def host_new_def)
  ultimately show ?thesis using handle_connection_conns [OF _ assms, of "{}" host_new cfg] by auto
qed

theorem host_closes_every_connection_witness:
  "mset (closed_conns (ho_calls (fst (handle_connection test_config test_requests host_new)))) = {#3#}"
proof -
  have ids: "distinct (map (ha_new_id \<circ> fst) test_requests)" by (simp add: test_requests_def test_answers_def)
  obtain hello where "ho_calls (fst (handle_connection test_config test_requests host_new)) =
      [Authenticated hello DRIVER_RPC_VERSION, Connected 7 3, Dispatched 3 DRIVER_RPC_VERSION, ConnClosed 3]"
    using test_run by blast
  then have "connected_conns (ho_calls (fst (handle_connection test_config test_requests host_new))) = [3]"
    by (simp add: connected_conns_def)
  with host_closes_every_connection [OF ids, of test_config] show ?thesis by simp
qed

section \<open>Client and host in step\<close>



















definition over_limit :: "byte list" where
  "over_limit = replicate (Suc (unat MAX_MSG_SIZE)) 0"




lemma over_limit_length [simp]: "length over_limit = 16777217"
  by (simp add: over_limit_def MAX_MSG_SIZE_value)

lemma over_limit_other [simp]: "over_limit \<noteq> [b]" "[b] \<noteq> over_limit"
  by (auto dest: arg_cong [of _ _ length])



text \<open>
  A session the host opened can be used: the answer names its identifier, and a request
  that carries it, at the negotiated version, is passed to the driver's connection.
\<close>

lemma opened_session_is_served:
  assumes "ho_negotiated_version h = Some v"
    and "handle_request cfg an (build_call_request_envelope v i (OpenSession p pw ssh) None) h = (h', resp)"
    and "open_session (Ok (rs_body resp)) = Ok (SessionOpened sid)"
  shows "\<exists>conn. ha_connect an = Ok conn \<and>
    fst (handle_request cfg an' (build_call_request_envelope v j (SessionRequest req) (Some sid)) h') =
      h'\<lparr>ho_calls := ho_calls h' @ [Dispatched conn v]\<rparr>"
  using assms
  by (auto simp: handle_request_def handle_open_session_def handle_session_request_def open_session_def and_then_def
      build_call_request_envelope_def validate_negotiated_request_version_def response_ok_def response_error_def
      Let_def split: sum.splits)

text \<open>
  The receive loop stops at the first frame that is not an audit event, finished or not.
  When a host answers one request with an unfinished frame and more, the next call reads
  what is left and fails, although the host did answer.
\<close>

lemma unfinished_frame_ends_call:
  assumes "faithful_codec cr" and "fits cr chunk" and "fits cr rest"
    and "rs_request_id chunk = i" and "rs_protocol_version chunk = v"
    and "rs_body chunk = SessionResponse x" and "rs_request_id rest = i" and "j \<noteq> i"
  shows "\<exists>rd. recv_frames cr c i v \<lparr>rd_bytes = frame (the_bytes cr chunk) @ frame (the_bytes cr rest), rd_end = e\<rparr> =
      (rd, Ok chunk, []) \<and> fst (snd (recv_frames cr c' j w rd)) = Err (Protocol ''Request ID mismatch'')"
  using assms recv_sent [OF assms(1,2), of "frame (the_bytes cr rest)" e] recv_sent [OF assms(1,3), of "[]" e]
  by (simp add: recv_frames.simps validate_response_protocol_version_def)

end
