(* ===== verification/Dotenv.thy ===== *)
theory Dotenv
  imports Rust_Text Db_Error "HOL-Library.Word"
begin

text \<open>
  Secrets read from a dotenv file at the moment they are used
  (\<^verbatim>\<open>src/crates/dbflux_core/src/values/dotenv/mod.rs\<close>): path resolution, the checks on
  the open file, the parser and the read of one key, on Unix. The file system is a
  record of functions; a file's text is given decoded, with the number of bytes when it
  is not UTF-8. Lemmas: the parser returns the last definition of a key, for files
  written with quoting; which errors can occur; files others can read are refused; and
  two forms in which a comment becomes part of a value.
\<close>

unbundle bit_operations_syntax

section \<open>The parser\<close>

definition MAX_FILE_BYTES :: nat where
  "MAX_FILE_BYTES = 64 * 1024"

definition MAX_ENTRIES :: nat where
  "MAX_ENTRIES = 1024"

datatype parse_failure = MalformedEntry nat | TooManyEntries

definition is_valid_key :: "string \<Rightarrow> bool" where
  "is_valid_key key \<longleftrightarrow>
    (case key of
       [] \<Rightarrow> False
     | first # characters \<Rightarrow> (is_ascii_alphabetic first \<or> first = CHR ''_'') \<and>
         (\<forall>c\<in>set characters. is_ascii_alphanumeric c \<or> c = CHR ''_'' \<or> c = CHR ''.''))"

definition only_comment_after :: "string \<Rightarrow> bool" where
  "only_comment_after rest \<longleftrightarrow> (let r = trim_start rest in r = [] \<or> starts_with r ''#'')"

definition unescape :: "char \<Rightarrow> string" where
  "unescape c =
    (if c = CHR ''n'' then [CHR 0x0A]
     else if c = CHR ''r'' then [CHR 0x0D]
     else if c = CHR ''t'' then [CHR 0x09]
     else if c = CHR 0x22 \<or> c = CHR 0x5C \<or> c = CHR ''$'' then [c]
     else [CHR 0x5C, c])"

fun parse_double_quoted :: "string \<Rightarrow> string option" where
  "parse_double_quoted [] = None"
| "parse_double_quoted (c # s) =
    (if c = CHR 0x22 then (if only_comment_after s then Some [] else None)
     else if c = CHR 0x5C then
       (case s of [] \<Rightarrow> None | e # t \<Rightarrow> map_option (\<lambda>v. unescape e @ v) (parse_double_quoted t))
     else map_option ((#) c) (parse_double_quoted s))"

definition parse_value :: "string \<Rightarrow> string option" where
  "parse_value raw =
    (case strip_prefix [CHR 0x27] raw of
       Some rest \<Rightarrow>
         Option.bind (split_once (CHR 0x27) rest) (\<lambda>(v, after).
           if only_comment_after after then Some v else None)
     | None \<Rightarrow>
         (case strip_prefix [CHR 0x22] raw of
            Some rest \<Rightarrow> parse_double_quoted rest
          | None \<Rightarrow>
              Some (trim_end (case split_at_sub '' #'' raw of
                  Some (v, _) \<Rightarrow> v
                | None \<Rightarrow> (case split_at_sub [CHR 0x09, CHR ''#''] raw of
                      Some (v, _) \<Rightarrow> v
                    | None \<Rightarrow> raw)))))"

definition strip_export :: "string \<Rightarrow> string" where
  "strip_export line =
    (case strip_prefix ''export'' line of
       Some (c # rest) \<Rightarrow> if is_whitespace c then trim_start (c # rest) else line
     | _ \<Rightarrow> line)"

definition split_entry :: "string \<Rightarrow> (string \<times> string) option" where
  "split_entry line =
    Option.bind (split_once (CHR ''='') (strip_export line)) (\<lambda>(key, value).
      if is_valid_key (trim_end key) then Some (trim_end key, trim_start value) else None)"

fun find_lines ::
  "string \<Rightarrow> nat \<Rightarrow> nat \<Rightarrow> string option \<Rightarrow> string list \<Rightarrow> (parse_failure, string option) result" where
  "find_lines key line_number entries found [] = Ok found"
| "find_lines key line_number entries found (raw_line # raw_lines) =
    (let line = trim raw_line
     in if line = [] \<or> starts_with line ''#'' then find_lines key (line_number + 1) entries found raw_lines
        else (case split_entry line of
            None \<Rightarrow> Err (MalformedEntry line_number)
          | Some (entry_key, raw_value) \<Rightarrow>
              if entries + 1 > MAX_ENTRIES then Err TooManyEntries
              else (case parse_value raw_value of
                  None \<Rightarrow> Err (MalformedEntry line_number)
                | Some v \<Rightarrow> find_lines key (line_number + 1) (entries + 1)
                    (if entry_key = key then Some v else found) raw_lines)))"

definition find_value :: "string \<Rightarrow> string \<Rightarrow> (parse_failure, string option) result" where
  "find_value content key = find_lines key 1 0 None (lines content)"

section \<open>The file\<close>

datatype open_error = NotFound | PermissionDeniedIo | OpenFailed string

datatype file_text = Utf8 string | NotUtf8 nat

record file_metadata =
  fm_is_file :: bool
  fm_mode :: "32 word"
  fm_len :: nat

record dotenv_file =
  df_metadata :: "(string, file_metadata) result"
  df_read :: "(string, file_text) result"

record dotenv_env =
  de_home_dir :: "string option"
  de_open :: "string \<Rightarrow> (open_error, dotenv_file) result"

abbreviation dotenv_error :: "string \<Rightarrow> db_error" where
  "dotenv_error message \<equiv> ValueResolutionFailed message"

text \<open>\<open>Dotenv file 'path'\<close>, the start of most messages.\<close>

definition dotenv_file_named :: "string \<Rightarrow> string" where
  "dotenv_file_named path = ''Dotenv file '' @ [CHR 0x27] @ path @ [CHR 0x27]"

definition key_named :: "string \<Rightarrow> string \<Rightarrow> string" where
  "key_named word key = word @ [CHR 0x27] @ key @ [CHR 0x27]"

definition path_join :: "string \<Rightarrow> string \<Rightarrow> string" where
  "path_join base rest =
    (if starts_with rest ''/'' then rest
     else if base = [] \<or> last base = CHR ''/'' then base @ rest else base @ ''/'' @ rest)"

definition resolve_path :: "dotenv_env \<Rightarrow> string \<Rightarrow> (db_error, string) result" where
  "resolve_path x path =
    (let trimmed = trim path
     in if trimmed = [] then Err (dotenv_error ''Dotenv file path is empty'')
        else (case strip_prefix ''~/'' trimmed of
            Some rest \<Rightarrow>
              (case de_home_dir x of
                 Some home \<Rightarrow> Ok (path_join home rest)
               | None \<Rightarrow> Err (dotenv_error (dotenv_file_named path @
                   '' starts with '' @ [CHR 0x27] @ ''~'' @ [CHR 0x27] @ '' but the home directory is unknown'')))
          | None \<Rightarrow>
              if \<not> starts_with trimmed ''/''
              then Err (dotenv_error (dotenv_file_named path @
                '' must be an absolute path or start with '' @ [CHR 0x27] @ ''~/'' @ [CHR 0x27]))
              else Ok trimmed))"

definition UNSAFE_MODE_BITS :: "32 word" where
  "UNSAFE_MODE_BITS = 54"

fun show_octal :: "nat \<Rightarrow> string" where
  "show_octal n = (if n < 8 then [digit_char n] else show_octal (n div 8) @ [digit_char (n mod 8)])"

declare show_octal.simps [simp del]

definition check_permissions :: "string \<Rightarrow> file_metadata \<Rightarrow> (db_error, unit) result" where
  "check_permissions display_path m =
    (let mode = fm_mode m AND 511
     in if mode AND UNSAFE_MODE_BITS \<noteq> 0
        then Err (dotenv_error (dotenv_file_named display_path @
          '' can be read or changed by other users (mode '' @ show_octal (unat mode) @
          ''); restrict it with chmod 600''))
        else Ok ())"

definition too_large :: "string \<Rightarrow> db_error" where
  "too_large display_path = dotenv_error (dotenv_file_named display_path @ '' is larger than '' @
    show_nat (MAX_FILE_BYTES div 1024) @ '' KiB'')"

fun text_bytes :: "file_text \<Rightarrow> nat" where
  "text_bytes (Utf8 s) = utf8_len s"
| "text_bytes (NotUtf8 n) = n"

definition describe_open :: "string \<Rightarrow> open_error \<Rightarrow> db_error" where
  "describe_open display_path e = dotenv_error (dotenv_file_named display_path @
    (case e of
       NotFound \<Rightarrow> '' does not exist''
     | PermissionDeniedIo \<Rightarrow> '' cannot be read: permission denied''
     | OpenFailed t \<Rightarrow> '' cannot be opened: '' @ t))"

definition read_file :: "dotenv_env \<Rightarrow> string \<Rightarrow> string \<Rightarrow> (db_error, string) result" where
  "read_file x display_path path =
    and_then (map_err (describe_open display_path) (de_open x path)) (\<lambda>file.
    and_then (map_err (\<lambda>t. dotenv_error (dotenv_file_named display_path @ '' cannot be inspected: '' @ t))
      (df_metadata file)) (\<lambda>metadata.
    if \<not> fm_is_file metadata
    then Err (dotenv_error (dotenv_file_named display_path @ '' is not a regular file''))
    else and_then (check_permissions display_path metadata) (\<lambda>_.
    if fm_len metadata > MAX_FILE_BYTES then Err (too_large display_path)
    else and_then (map_err (\<lambda>t. dotenv_error (dotenv_file_named display_path @ '' cannot be read: '' @ t))
      (df_read file)) (\<lambda>bytes.
    if text_bytes bytes > MAX_FILE_BYTES then Err (too_large display_path)
    else (case bytes of
        Utf8 content \<Rightarrow> Ok content
      | NotUtf8 _ \<Rightarrow> Err (dotenv_error (dotenv_file_named display_path @ '' is not valid UTF-8'')))))))"

fun describe :: "parse_failure \<Rightarrow> string \<Rightarrow> string" where
  "describe (MalformedEntry line) display_path =
    dotenv_file_named display_path @ '' has a malformed entry on line '' @ show_nat line"
| "describe TooManyEntries display_path =
    dotenv_file_named display_path @ '' defines more than '' @ show_nat MAX_ENTRIES @ '' entries''"

definition read_dotenv_value :: "dotenv_env \<Rightarrow> string \<Rightarrow> string \<Rightarrow> (db_error, string) result" where
  "read_dotenv_value x path key =
    (if \<not> is_valid_key key
     then Err (dotenv_error (key_named ''Dotenv key '' key @ '' is not a valid variable name''))
     else and_then (resolve_path x path) (\<lambda>resolved_path.
       and_then (read_file x path resolved_path) (\<lambda>content.
       and_then (map_err (\<lambda>failure. dotenv_error (describe failure path)) (find_value content key)) (\<lambda>found.
         case found of
           None \<Rightarrow> Err (dotenv_error (key_named ''Key '' key @ '' is not defined in dotenv file '' @
             [CHR 0x27] @ path @ [CHR 0x27]))
         | Some v \<Rightarrow>
             if v = [] then Err (dotenv_error (key_named ''Key '' key @ '' in dotenv file '' @
               [CHR 0x27] @ path @ [CHR 0x27] @ '' is empty''))
             else Ok v))))"

section \<open>What a reader gets\<close>

text \<open>A file as another program writes it: one quoted definition per line.\<close>

definition escape_char :: "char \<Rightarrow> string" where
  "escape_char c =
    (if c = CHR 0x0A then [CHR 0x5C, CHR ''n'']
     else if c = CHR 0x0D then [CHR 0x5C, CHR ''r'']
     else if c = CHR 0x09 then [CHR 0x5C, CHR ''t'']
     else if c = CHR 0x22 \<or> c = CHR 0x5C \<or> c = CHR ''$'' then [CHR 0x5C, c]
     else [c])"

definition write_entry :: "string \<times> string \<Rightarrow> string" where
  "write_entry e = fst e @ ''='' @ [CHR 0x22] @ concat (map escape_char (snd e)) @ [CHR 0x22]"

definition write_entries :: "(string \<times> string) list \<Rightarrow> string" where
  "write_entries es = concat (map (\<lambda>e. write_entry e @ [CHR 0x0A]) es)"

lemma parse_escaped:
  "parse_double_quoted (concat (map escape_char v) @ CHR 0x22 # rest) =
    (if only_comment_after rest then Some v else None)"
  by (induction v) (auto simp: escape_char_def unescape_def)

lemma split_lf_line:
  "CHR 0x0A \<notin> set k \<Longrightarrow> c \<noteq> CHR 0x0A \<Longrightarrow> c \<noteq> CHR 0x0D \<Longrightarrow>
    split_lf acc (k @ c # CHR 0x0A # s) = (rev acc @ k @ [c]) # split_lf [] s"
  by (induction k arbitrary: acc) auto

lemma lines_of_entries:
  assumes "\<forall>l\<in>set ls. CHR 0x0A \<notin> set l \<and> l \<noteq> [] \<and> last l \<noteq> CHR 0x0D"
  shows "lines (concat (map (\<lambda>l. l @ [CHR 0x0A]) ls)) = ls"
  using assms unfolding lines_def
proof (induction ls)
  case (Cons l ls)
  then obtain k c where "l = k @ [c]" "c \<noteq> CHR 0x0D" by (metis append_butlast_last_id list.set_intros(1))
  with Cons show ?case by (auto simp: split_lf_line)
qed simp

text \<open>Keys are made of characters that no step of the parser acts on.\<close>

lemma key_plain:
  assumes "is_valid_key key"
  shows "key \<noteq> []" "\<forall>c\<in>set key. \<not> is_whitespace c \<and> c \<noteq> CHR ''='' \<and> c \<noteq> CHR 0x0A" "hd key \<noteq> CHR ''#''"
proof -
  have plain: "\<not> is_whitespace c" if "is_ascii_alphanumeric c \<or> c = CHR ''_'' \<or> c = CHR ''.''" for c
  proof (cases "c = CHR ''_'' \<or> c = CHR ''.''")
    case False
    with that show ?thesis
      unfolding is_ascii_alphanumeric_def is_ascii_alphabetic_def is_ascii_uppercase_def
        is_ascii_lowercase_def is_ascii_digit_def is_whitespace_def by linarith
  qed (auto simp: is_whitespace_def)
  have chars: "\<forall>c\<in>set key. is_ascii_alphanumeric c \<or> c = CHR ''_'' \<or> c = CHR ''.''"
    using assms by (auto simp: is_valid_key_def is_ascii_alphanumeric_def split: list.splits)
  have "\<not> (is_ascii_alphanumeric c \<or> c = CHR ''_'' \<or> c = CHR ''.'')" if "c = CHR ''='' \<or> c = CHR 0x0A" for c
    using that by (auto simp: is_ascii_alphanumeric_def is_ascii_alphabetic_def is_ascii_uppercase_def
        is_ascii_lowercase_def is_ascii_digit_def)
  with chars plain show "\<forall>c\<in>set key. \<not> is_whitespace c \<and> c \<noteq> CHR ''='' \<and> c \<noteq> CHR 0x0A" by blast
  show "key \<noteq> []" "hd key \<noteq> CHR ''#''"
    using assms by (auto simp: is_valid_key_def is_ascii_alphabetic_def is_ascii_uppercase_def
        is_ascii_lowercase_def split: list.splits)
qed

lemma after_prefix: "key @ e # rest = p @ c # u \<Longrightarrow> e \<notin> set p \<Longrightarrow> c \<in> set key \<or> c = e"
proof (induction p arbitrary: key)
  case Nil
  then show ?case by (cases key) auto
next
  case (Cons x p)
  then show ?case by (cases key) auto
qed

lemma strip_export_entry:
  assumes "is_valid_key key"
  shows "strip_export (key @ CHR ''='' # rest) = key @ CHR ''='' # rest"
proof (cases "strip_prefix ''export'' (key @ CHR ''='' # rest)")
  case (Some t)
  then have t: "key @ CHR ''='' # rest = ''export'' @ t" unfolding strip_prefix_Some_iff .
  show ?thesis
  proof (cases t)
    case (Cons c u)
    have "c \<in> set key \<or> c = CHR ''=''"
      by (rule after_prefix [OF t [unfolded Cons]]) simp
    moreover have "\<not> is_whitespace (CHR ''='')" by (simp add: is_whitespace_def)
    ultimately have "\<not> is_whitespace c" using key_plain(2) [OF assms] by blast
    with Some Cons show ?thesis by (simp add: strip_export_def)
  qed (simp add: strip_export_def Some)
qed (simp add: strip_export_def)

lemma split_written_entry:
  assumes "is_valid_key key"
  shows "split_entry (write_entry (key, v)) = Some (key, CHR 0x22 # concat (map escape_char v) @ [CHR 0x22])"
proof -
  have "CHR ''='' \<notin> set key" using key_plain(2) [OF assms] by auto
  moreover have "trim_end key = key"
    using key_plain(1,2) [OF assms] last_in_set by (intro trim_end_id disjI2) blast
  moreover have "trim_start (CHR 0x22 # s) = CHR 0x22 # s" for s
    by (rule trim_start_id) (simp add: is_whitespace_def)
  ultimately show ?thesis
    using assms by (simp add: split_entry_def write_entry_def strip_export_entry)
qed

lemma parse_written_value: "parse_value (CHR 0x22 # concat (map escape_char v) @ [CHR 0x22]) = Some v"
  using parse_escaped [of v "[]"]
  by (simp add: parse_value_def strip_prefix_def starts_with_def only_comment_after_def)

lemma trim_written_entry:
  assumes "is_valid_key key"
  shows "trim (write_entry (key, v)) = write_entry (key, v)" "\<not> starts_with (write_entry (key, v)) ''#''"
proof -
  let ?e = "write_entry (key, v)"
  have "hd ?e = hd key" "last ?e = CHR 0x22" "?e \<noteq> []"
    using key_plain(1) [OF assms] by (auto simp: write_entry_def)
  moreover have "\<not> is_whitespace (hd key)" using key_plain(1,2) [OF assms] by simp
  ultimately show "trim ?e = ?e" "\<not> starts_with ?e ''#''"
    using key_plain(3) [OF assms]
    by (auto simp: trim_def trim_start_id trim_end_id is_whitespace_def starts_with_def neq_Nil_conv)
qed

lemma find_written_lines:
  assumes "\<forall>e\<in>set es. is_valid_key (fst e)" and "entries + length es \<le> MAX_ENTRIES"
  shows "find_lines key n entries found (map write_entry es) =
    Ok (case map_of (rev es) key of Some v \<Rightarrow> Some v | None \<Rightarrow> found)"
  using assms
proof (induction es arbitrary: n entries found)
  case (Cons e es)
  obtain k v where e: "e = (k, v)" by (cases e)
  have k: "is_valid_key k" using Cons.prems(1) e by simp
  have "write_entry (k, v) \<noteq> []" by (simp add: write_entry_def)
  with Cons e trim_written_entry [OF k] split_written_entry [OF k] parse_written_value show ?case
    by (auto simp: map_add_def split: option.splits)
qed simp

lemma find_written_value:
  assumes "\<forall>e\<in>set es. is_valid_key (fst e)" and "length es \<le> MAX_ENTRIES"
  shows "find_value (write_entries es) key = Ok (map_of (rev es) key)"
proof -
  have "CHR 0x0A \<notin> set (concat (map escape_char v))" for v
    by (auto simp: escape_char_def split: if_splits)
  moreover have "CHR 0x0A \<notin> set (fst e)" if "e \<in> set es" for e
    using key_plain(2) assms(1) that by blast
  ultimately have "\<forall>l\<in>set (map write_entry es). CHR 0x0A \<notin> set l \<and> l \<noteq> [] \<and> last l \<noteq> CHR 0x0D"
    by (auto simp: write_entry_def)
  from lines_of_entries [OF this] have "lines (write_entries es) = map write_entry es"
    by (simp add: write_entries_def comp_def)
  then show ?thesis
    using find_written_lines [OF assms(1), of 0 key 1 None] assms(2)
    by (simp add: find_value_def split: option.splits)
qed

text \<open>A file that passes the checks: regular, private to its owner, and small.\<close>

definition private_file :: "dotenv_env \<Rightarrow> string \<Rightarrow> string \<Rightarrow> bool" where
  "private_file x path content \<longleftrightarrow>
    (\<exists>p m. resolve_path x path = Ok p \<and> de_open x p = Ok \<lparr>df_metadata = Ok m, df_read = Ok (Utf8 content)\<rparr> \<and>
      fm_is_file m \<and> (fm_mode m AND 511) AND UNSAFE_MODE_BITS = 0 \<and>
      fm_len m \<le> MAX_FILE_BYTES \<and> utf8_len content \<le> MAX_FILE_BYTES)"

lemma read_private_file:
  "private_file x path content \<Longrightarrow> \<exists>p. resolve_path x path = Ok p \<and> read_file x path p = Ok content"
  by (auto simp: private_file_def read_file_def check_permissions_def and_then_def map_err_def Let_def)

lemma read_file_private:
  assumes "resolve_path x path = Ok p" and "read_file x path p = Ok content"
  shows "private_file x path content"
proof (cases "de_open x p")
  case (Inr fl)
  then show ?thesis
    using assms
    by (cases fl) (fastforce simp: private_file_def read_file_def check_permissions_def and_then_def map_err_def
        Let_def split: sum.splits if_splits file_text.splits)
qed (use assms in \<open>simp add: read_file_def and_then_def map_err_def\<close>)

text \<open>
  C22. What another program writes is what the application uses: from a private file of
  quoted definitions, at most the number of entries and bytes allowed, a read of a key
  gives the text of its last definition, whatever characters the text has, and fails
  exactly when the key is not defined or defined last as empty.
\<close>

theorem written_value_is_read:
  assumes "private_file x path (write_entries es)" and "\<forall>e\<in>set es. is_valid_key (fst e)"
    and "length es \<le> MAX_ENTRIES" and "is_valid_key key"
  shows "case map_of (rev es) key of
      Some v \<Rightarrow> if v \<noteq> [] then read_dotenv_value x path key = Ok v else (\<exists>e. read_dotenv_value x path key = Err e)
    | None \<Rightarrow> \<exists>e. read_dotenv_value x path key = Err e"
proof -
  obtain p where "resolve_path x path = Ok p" "read_file x path p = Ok (write_entries es)"
    using read_private_file [OF assms(1)] by blast
  with assms(4) find_written_value [OF assms(2,3), of key] show ?thesis
    by (auto simp: read_dotenv_value_def and_then_def map_err_def split: option.splits)
qed

definition sample_env :: dotenv_env where
  "sample_env = \<lparr>de_home_dir = Some ''/home/me'',
     de_open = (\<lambda>p. if p = ''/home/me/.env''
       then Ok \<lparr>df_metadata = Ok \<lparr>fm_is_file = True, fm_mode = 33152, fm_len = 20\<rparr>,
                df_read = Ok (Utf8 (write_entries [(''KEY'', ''a b''), (''KEY'', ''c # d'')]))\<rparr>
       else Err NotFound)\<rparr>"

lemma sample_private: "private_file sample_env ''~/.env'' (write_entries [(''KEY'', ''a b''), (''KEY'', ''c # d'')])"
  by (simp add: private_file_def sample_env_def resolve_path_def trim_def trim_start_def trim_end_def is_whitespace_def
      strip_prefix_def starts_with_def path_join_def UNSAFE_MODE_BITS_def MAX_FILE_BYTES_def write_entries_def
      write_entry_def escape_char_def len_utf8_def)

theorem written_value_is_read_witness:
  "read_dotenv_value sample_env ''~/.env'' ''KEY'' = Ok ''c # d''"
proof -
  have key: "is_valid_key ''KEY''"
    by (simp add: is_valid_key_def is_ascii_alphanumeric_def is_ascii_alphabetic_def is_ascii_uppercase_def)
  then have "\<forall>e\<in>set [(''KEY'', ''a b''), (''KEY'', ''c # d'')]. is_valid_key (fst e)" by simp
  from written_value_is_read [OF sample_private this _ key] show ?thesis by (simp add: MAX_ENTRIES_def)
qed

lemma malformed_line_exists:
  assumes "find_value content key = Err (MalformedEntry line)"
  shows "1 \<le> line \<and> line \<le> length (lines content)"
proof -
  have "n \<le> l \<and> l < n + length ls"
    if "find_lines key n k f ls = Err (MalformedEntry l)" for n k f ls l
    using that
    by (induction key n k f ls rule: find_lines.induct)
      (fastforce simp: Let_def split: if_splits option.splits prod.splits)+
  with assms show ?thesis by (fastforce simp: find_value_def)
qed

text \<open>
  C23. For any file, path and key: a value is read only from a private, regular, small file
  and is the non-empty last definition of the key in it. An error is either decided before
  any of the file's text is parsed (the key is not a variable name, the path cannot be
  resolved, or opening, checking or reading the file failed, and then it is that error), or
  it comes from a private file and says nothing of its text: it is one of four messages
  made of the path, the key and a line number.
\<close>

theorem dotenv_outcome:
  "case read_dotenv_value x path key of
     Inr v \<Rightarrow> v \<noteq> [] \<and> is_valid_key key \<and>
       (\<exists>content. private_file x path content \<and> find_value content key = Ok (Some v))
   | Inl e \<Rightarrow>
       \<not> is_valid_key key \<and> e = dotenv_error (key_named ''Dotenv key '' key @ '' is not a valid variable name'') \<or>
       resolve_path x path = Err e \<or>
       (\<exists>p. resolve_path x path = Ok p \<and> read_file x path p = Err e) \<or>
       (\<exists>content. private_file x path content \<and>
         ((\<exists>line. 1 \<le> line \<and> line \<le> length (lines content) \<and> e = dotenv_error (describe (MalformedEntry line) path)) \<or>
          e = dotenv_error (describe TooManyEntries path) \<or>
          e = dotenv_error (key_named ''Key '' key @ '' is not defined in dotenv file '' @ [CHR 0x27] @ path @ [CHR 0x27]) \<or>
          e = dotenv_error (key_named ''Key '' key @ '' in dotenv file '' @ [CHR 0x27] @ path @ [CHR 0x27] @ '' is empty'')))"
proof (cases "is_valid_key key")
  case valid: True
  show ?thesis
  proof (cases "resolve_path x path")
    case p: (Inr p)
    show ?thesis
    proof (cases "read_file x path p")
      case content: (Inr content)
      have priv: "private_file x path content" by (rule read_file_private [OF p content])
      show ?thesis
      proof (cases "find_value content key")
        case (Inl failure)
        with valid p content priv malformed_line_exists [of content key] show ?thesis
          by (cases failure) (auto simp: read_dotenv_value_def and_then_def map_err_def)
      next
        case (Inr found)
        with valid p content priv show ?thesis
          by (auto simp: read_dotenv_value_def and_then_def map_err_def split: option.splits)
      qed
    qed (use valid p in \<open>simp add: read_dotenv_value_def and_then_def\<close>)
  qed (use valid in \<open>simp add: read_dotenv_value_def and_then_def\<close>)
qed (simp add: read_dotenv_value_def)

theorem dotenv_outcome_witness:
  "\<exists>content. private_file sample_env ''~/.env'' content \<and> find_value content ''KEY'' = Ok (Some ''c # d'')"
proof -
  let ?es = "[(''KEY'', ''a b''), (''KEY'', ''c # d'')]"
  have key: "is_valid_key ''KEY''"
    by (simp add: is_valid_key_def is_ascii_alphanumeric_def is_ascii_alphabetic_def is_ascii_uppercase_def)
  obtain p where "resolve_path sample_env ''~/.env'' = Ok p"
    "read_file sample_env ''~/.env'' p = Ok (write_entries ?es)"
    using read_private_file [OF sample_private] by blast
  then have "read_dotenv_value sample_env ''~/.env'' ''KEY'' = Ok ''c # d''"
    using find_written_value [of ?es "''KEY''"] key
    by (simp add: read_dotenv_value_def and_then_def map_err_def MAX_ENTRIES_def)
  with dotenv_outcome [where x = sample_env and path = "''~/.env''" and key = "''KEY''"] show ?thesis by simp
qed

text \<open>
  Two unquoted values keep a comment: a tab before the comment is looked for only when
  no blank before a number sign follows anywhere, and a comment right after the equals
  sign is read as the value.
\<close>

lemma tab_comment_kept:
  "parse_value (''secret'' @ [CHR 0x09] @ ''# note #2'') = Some (''secret'' @ [CHR 0x09] @ ''# note'')"
  by (simp add: parse_value_def strip_prefix_def starts_with_def trim_end_def is_whitespace_def)

lemma comment_as_value: "find_value ''KEY= # not set'' ''KEY'' = Ok (Some ''# not set'')"
  by (simp add: find_value_def lines_def split_entry_def strip_export_def strip_prefix_def starts_with_def
      is_valid_key_def is_ascii_alphanumeric_def is_ascii_alphabetic_def is_ascii_uppercase_def trim_def
      trim_start_def trim_end_def is_whitespace_def parse_value_def MAX_ENTRIES_def)

end
