(* ===== verification/Mcp_Server.thy ===== *)
theory Mcp_Server
  imports Mcp_Runtime Pending_Sqlite
begin

text \<open>
  The MCP server around the runtime: loading the governance settings at start and
  the checks on a connection (\<^verbatim>\<open>src/crates/dbflux_mcp_server/src/state.rs\<close>), and the
  middleware every tool goes through
  (\<^verbatim>\<open>src/crates/dbflux_mcp_server/src/governance.rs\<close>). The stored settings, the read of
  a profile's stored flag, the result of a tool's handler, clocks and drawn identifiers
  are arguments. A call takes the runtime twice, once to be authorized and once to be
  audited after its handler has run; in between others may use the runtime, so a run is
  a sequence of these two halves, of resolutions by a person and of changes to the
  configuration. Lemmas: what a start leaves configured, the audit trail of a call, the
  runtime over SQLite simulates the one in memory, and over any run every tool that ran
  was allowed by the policies or by an approval of its own.
\<close>

section \<open>Profiles and settings\<close>

record connection_mcp_policy_binding =
  mb_actor_id :: string
  mb_role_ids :: "string list"
  mb_policy_ids :: "string list"

record connection_mcp_governance =
  mg_enabled :: bool
  mg_policy_bindings :: "connection_mcp_policy_binding list"

text \<open>Of a connection profile, what the server asks for.\<close>

record connection_profile =
  cp_id :: uuid
  cp_mcp_governance :: "connection_mcp_governance option"
  cp_read_only_flag :: bool

record trusted_client_config =
  tg_id :: string
  tg_name :: string
  tg_issuer :: "string option"
  tg_active :: bool

record policy_role_config =
  rg_id :: string
  rg_policy_ids :: "string list"

record tool_policy_config =
  pg_id :: string
  pg_allowed_tools :: "string list"
  pg_allowed_classes :: "string list"
  pg_approval_classes :: "string list"

record governance_settings =
  gs_mcp_enabled_by_default :: bool
  gs_trusted_clients :: "trusted_client_config list"
  gs_roles :: "policy_role_config list"
  gs_policies :: "tool_policy_config list"

text \<open>What the repository of the settings returns: the flag, the clients with theirs, role ids, policies.\<close>

record governance_repo =
  gp_get :: "(string, int option) result"
  gp_trusted_clients :: "(string, (string \<times> string \<times> string option \<times> int) list) result"
  gp_policy_roles :: "(string, string list) result"
  gp_tool_policies :: "(string, tool_policy_config list) result"

definition load_governance_settings :: "governance_repo \<Rightarrow> (string, governance_settings) result" where
  "load_governance_settings repo =
    and_then (map_err (\<lambda>e. ''Failed to load governance settings from dbflux.db: '' @ e) (gp_get repo)) (\<lambda>dto.
    and_then (map_err (\<lambda>e. ''Failed to load trusted clients from dbflux.db: '' @ e) (gp_trusted_clients repo)) (\<lambda>clients.
    and_then (map_err (\<lambda>e. ''Failed to load policy roles from dbflux.db: '' @ e) (gp_policy_roles repo)) (\<lambda>roles.
    and_then (map_err (\<lambda>e. ''Failed to load tool policies from dbflux.db: '' @ e) (gp_tool_policies repo)) (\<lambda>policies.
      Ok \<lparr>gs_mcp_enabled_by_default = unwrap_or False (map_option (\<lambda>d. d \<noteq> 0) dto),
          gs_trusted_clients = map (\<lambda>(i, n, issuer, active).
            \<lparr>tg_id = i, tg_name = n, tg_issuer = issuer, tg_active = (active \<noteq> 0)\<rparr>) clients,
          gs_roles = map (\<lambda>i. \<lparr>rg_id = i, rg_policy_ids = []\<rparr>) roles,
          gs_policies = policies\<rparr>))))"

section \<open>Starting the server\<close>

text \<open>A loop of insertions that stops at the first error.\<close>

fun upsert_all ::
  "('a \<Rightarrow> 's mcp_runtime \<Rightarrow> 's mcp_runtime \<times> (governance_error, 'b) result) \<Rightarrow> string \<Rightarrow> 'a list \<Rightarrow>
   's mcp_runtime \<Rightarrow> 's mcp_runtime \<times> (string, unit) result" where
  "upsert_all f label [] rt = (rt, Ok ())"
| "upsert_all f label (a # as) rt =
    (case f a rt of
       (rt', Inl e) \<Rightarrow> (rt', Err (label @ '': '' @ governance_error_display e))
     | (rt', Inr _) \<Rightarrow> upsert_all f label as rt')"

text \<open>One part of loading after the other, stopping at the first error.\<close>

definition rt_then ::
  "'s mcp_runtime \<times> ('e, 'a) result \<Rightarrow> ('s mcp_runtime \<Rightarrow> 's mcp_runtime \<times> ('e, 'b) result) \<Rightarrow>
   's mcp_runtime \<times> ('e, 'b) result" where
  "rt_then p f = (case p of (rt, Inl e) \<Rightarrow> (rt, Err e) | (rt, Inr _) \<Rightarrow> f rt)"

definition apply_governance_settings ::
  "governance_settings \<Rightarrow> 's mcp_runtime \<Rightarrow> 's mcp_runtime \<times> (string, unit) result" where
  "apply_governance_settings governance rt =
    rt_then (upsert_all upsert_trusted_client_mut ''failed to load trusted client''
      (map (\<lambda>c. \<lparr>td_id = tg_id c, td_name = tg_name c, td_issuer = tg_issuer c, td_active = tg_active c\<rparr>)
        (gs_trusted_clients governance)) rt) (\<lambda>rt1.
    rt_then (upsert_all upsert_role_mut ''failed to load role''
      (map (\<lambda>r. \<lparr>rd_id = rg_id r, rd_policy_ids = rg_policy_ids r\<rparr>) (gs_roles governance)) rt1) (\<lambda>rt2.
    upsert_all upsert_policy_mut ''failed to load policy''
      (map (\<lambda>p. \<lparr>pd_id = pg_id p, pd_allowed_tools = pg_allowed_tools p,
                 pd_allowed_classes = pg_allowed_classes p, pd_approval_classes = pg_approval_classes p\<rparr>)
        (gs_policies governance)) rt2))"

text \<open>Listing the trusted clients and saving an assignment cannot fail on the runtime.\<close>

definition create_global_assignments ::
  "(trusted_client_dto list \<Rightarrow> trusted_client_dto list) \<Rightarrow> 's mcp_runtime \<Rightarrow>
   's mcp_runtime \<times> (string, unit) result" where
  "create_global_assignments order rt =
    (case rt_list_trusted_clients order rt of
       Inl e \<Rightarrow> (rt, Err (''Failed to list trusted clients: '' @ governance_error_display e))
     | Inr clients \<Rightarrow>
         (let assignments = map (\<lambda>client.
                \<lparr>as_actor_id = td_id client, as_scope = \<lparr>sc_connection_id = []\<rparr>,
                 as_role_ids = [''builtin/read-only''], as_policy_ids = []\<rparr>)
              (filter td_active clients)
          in if clients = [] \<or> assignments = [] then (rt, Ok ())
             else (case save_connection_policy_assignment_mut
                     \<lparr>cd_connection_id = [], cd_assignments = assignments\<rparr> rt of
                 (rt', Inl e) \<Rightarrow> (rt', Err (''Failed to save global assignments: '' @ governance_error_display e))
               | (rt', Inr _) \<Rightarrow> (rt', Ok ()))))"

definition load_governance_into_runtime ::
  "governance_repo \<Rightarrow> (trusted_client_dto list \<Rightarrow> trusted_client_dto list) \<Rightarrow> 's mcp_runtime \<Rightarrow>
   's mcp_runtime \<times> (string, governance_settings) result" where
  "load_governance_into_runtime repo order rt =
    rt_then (upsert_all upsert_role_mut ''failed to load built-in role'' builtin_roles rt) (\<lambda>rt1.
    rt_then (upsert_all upsert_policy_mut ''failed to load built-in policy'' builtin_policies rt1) (\<lambda>rt2.
    (case load_governance_settings repo of
       Inl e \<Rightarrow> (rt2, Err e)
     | Inr governance \<Rightarrow>
         rt_then (apply_governance_settings governance rt2) (\<lambda>rt3.
         rt_then (create_global_assignments order rt3) (\<lambda>rt4. (rt4, Ok governance))))))"

text \<open>Opening the audit database is done by the caller; start-up events are dropped.\<close>

definition build_runtime ::
  "'s pending_store_ops \<Rightarrow> int \<Rightarrow> audit_service \<Rightarrow> 's \<Rightarrow> governance_repo \<Rightarrow>
   (trusted_client_dto list \<Rightarrow> trusted_client_dto list) \<Rightarrow>
   (string, 's mcp_runtime \<times> governance_settings) result" where
  "build_runtime ops now audit_service store repo order =
    (case load_governance_into_runtime repo order (mcp_runtime_new ops now audit_service store) of
       (_, Inl e) \<Rightarrow> Err e
     | (rt, Inr governance) \<Rightarrow> Ok (fst (drain_events rt), governance))"

datatype startup_error = ClientNotRegistered string | StartupFailed string

definition validate_client_id ::
  "(trusted_client_dto list \<Rightarrow> trusted_client_dto list) \<Rightarrow> 's mcp_runtime \<Rightarrow> string \<Rightarrow>
   (startup_error, unit) result" where
  "validate_client_id order rt client_id =
    (case rt_list_trusted_clients order rt of
       Inl e \<Rightarrow> Err (StartupFailed (''Failed to list trusted clients: '' @ governance_error_display e))
     | Inr clients \<Rightarrow>
         if list_ex (\<lambda>client. td_id client = client_id \<and> td_active client) clients then Ok ()
         else Err (ClientNotRegistered client_id))"

text \<open>The bindings of a profile, under its identifier as text.\<close>

definition load_profile_assignment ::
  "uuid_ext \<Rightarrow> connection_profile \<Rightarrow> 's mcp_runtime \<Rightarrow> 's mcp_runtime \<times> bool" where
  "load_profile_assignment u profile rt =
    (case cp_mcp_governance profile of
       None \<Rightarrow> (rt, False)
     | Some governance \<Rightarrow>
         if \<not> mg_enabled governance then (rt, False)
         else (let connection_id = ux_to_string u (cp_id profile);
                   assignments = map (\<lambda>b.
                     \<lparr>as_actor_id = mb_actor_id b, as_scope = \<lparr>sc_connection_id = connection_id\<rparr>,
                      as_role_ids = mb_role_ids b, as_policy_ids = mb_policy_ids b\<rparr>)
                     (mg_policy_bindings governance)
               in if assignments = [] then (rt, False)
                  else (case save_connection_policy_assignment_mut
                          \<lparr>cd_connection_id = connection_id, cd_assignments = assignments\<rparr> rt of
                      (rt', Inl _) \<Rightarrow> (rt', False)
                    | (rt', Inr _) \<Rightarrow> (rt', True))))"

definition load_connection_policy_assignments ::
  "uuid_ext \<Rightarrow> connection_profile list \<Rightarrow> 's mcp_runtime \<Rightarrow> 's mcp_runtime" where
  "load_connection_policy_assignments u profiles rt =
    fst (drain_events (fold (\<lambda>profile rt. fst (load_profile_assignment u profile rt)) profiles rt))"

text \<open>
  The state of the server as far as calls are governed by it: the registries, the
  connection cache and the managers of secrets and processes are read by no check.
  Reading the stored profiles is done by the caller.
\<close>

record 's server_state =
  ss_client_id :: string
  ss_runtime :: "'s mcp_runtime"
  ss_profiles :: "connection_profile list"
  ss_mcp_enabled_by_default :: bool
  ss_profile_store_path :: "string option"

definition server_state_new ::
  "'s pending_store_ops \<Rightarrow> uuid_ext \<Rightarrow> int \<Rightarrow> audit_service \<Rightarrow> 's \<Rightarrow> governance_repo \<Rightarrow>
   (trusted_client_dto list \<Rightarrow> trusted_client_dto list) \<Rightarrow> connection_profile list \<Rightarrow> string \<Rightarrow> string \<Rightarrow>
   (startup_error, 's server_state) result" where
  "server_state_new ops u now audit_service store repo order profiles db_path client_id =
    and_then (map_err StartupFailed (build_runtime ops now audit_service store repo order)) (\<lambda>(rt, governance).
    and_then (validate_client_id order rt client_id) (\<lambda>_.
      Ok \<lparr>ss_client_id = client_id, ss_runtime = load_connection_policy_assignments u profiles rt,
          ss_profiles = profiles, ss_mcp_enabled_by_default = gs_mcp_enabled_by_default governance,
          ss_profile_store_path = Some db_path\<rparr>))"

section \<open>Checks on a connection\<close>

text \<open>
  The identifiers, and the read of a profile's stored flag: an error when the store
  cannot be read or the read does not complete, nothing when it has no such profile.
\<close>

record server_ext =
  se_uuid :: uuid_ext
  se_read_stored_flag :: "string \<Rightarrow> string \<Rightarrow> (string, bool option) result"

definition pm_find_by_id :: "uuid \<Rightarrow> connection_profile list \<Rightarrow> connection_profile option" where
  "pm_find_by_id i profiles = find (\<lambda>p. cp_id p = i) profiles"

definition is_mcp_enabled_for_connection :: "server_ext \<Rightarrow> 's server_state \<Rightarrow> string \<Rightarrow> bool" where
  "is_mcp_enabled_for_connection x st connection_id =
    (case ux_parse_str (se_uuid x) connection_id of
       None \<Rightarrow> False
     | Some profile_uuid \<Rightarrow>
         (case pm_find_by_id profile_uuid (ss_profiles st) of
            None \<Rightarrow> False
          | Some profile \<Rightarrow>
              (case cp_mcp_governance profile of
                 Some governance \<Rightarrow> mg_enabled governance
               | None \<Rightarrow> ss_mcp_enabled_by_default st)))"

definition stored_read_only_flag :: "server_ext \<Rightarrow> 's server_state \<Rightarrow> uuid \<Rightarrow> bool option" where
  "stored_read_only_flag x st profile_uuid =
    Option.bind (ss_profile_store_path st) (\<lambda>db_path.
      case se_read_stored_flag x db_path (ux_to_string (se_uuid x) profile_uuid) of
        Inr flag \<Rightarrow> flag
      | Inl _ \<Rightarrow> Some True)"

definition is_read_only_connection :: "server_ext \<Rightarrow> 's server_state \<Rightarrow> string \<Rightarrow> bool" where
  "is_read_only_connection x st connection_id =
    (case ux_parse_str (se_uuid x) connection_id of
       None \<Rightarrow> False
     | Some profile_uuid \<Rightarrow>
         (case stored_read_only_flag x st profile_uuid of
            Some stored_flag \<Rightarrow> stored_flag
          | None \<Rightarrow> is_some_and (pm_find_by_id profile_uuid (ss_profiles st)) cp_read_only_flag))"

section \<open>The middleware\<close>

text \<open>The results and errors of the \<^verbatim>\<open>rmcp\<close> crate, as far as they are read or built here.\<close>

datatype resource_contents = TextResourceContents string | BlobResourceContents string | OtherResourceContents

datatype content_block =
    ContentText string
  | ContentImage string
  | ContentAudio
  | ContentResource resource_contents
  | ContentResourceLink string
  | ContentOther

record call_tool_result =
  tr_content :: "content_block list"
  tr_is_error :: "bool option"

datatype mcp_error_code = INVALID_REQUEST | INVALID_PARAMS | INTERNAL_ERROR

record mcp_error =
  me_code :: mcp_error_code
  me_message :: string
  me_data :: "json option"

definition internal_error :: "string \<Rightarrow> mcp_error" where
  "internal_error message = \<lparr>me_code = INTERNAL_ERROR, me_message = message, me_data = None\<rparr>"

definition invalid_params :: "string \<Rightarrow> mcp_error" where
  "invalid_params message = \<lparr>me_code = INVALID_PARAMS, me_message = message, me_data = None\<rparr>"

definition call_success :: "content_block list \<Rightarrow> call_tool_result" where
  "call_success content = \<lparr>tr_content = content, tr_is_error = Some False\<rparr>"

record audit_details =
  ad_query :: "string option"

definition audit_details_default :: audit_details where
  "audit_details_default = \<lparr>ad_query = None\<rparr>"

fun policy_engine_error_display :: "policy_engine_error \<Rightarrow> string" where
  "policy_engine_error_display (MissingRole i) = ''role not found: '' @ i"

fun authorization_error_display :: "authorization_error \<Rightarrow> string" where
  "authorization_error_display (AuthPolicy e) = ''policy evaluation failed: '' @ policy_engine_error_display e"
| "authorization_error_display (AuthAuditRecord e) = ''audit record failed: '' @ audit_error_display e"
| "authorization_error_display (AuthApproval m) = ''approval flow failed: '' @ m"

text \<open>A tool call: the tool, its connection, the class of what it does, its arguments.\<close>

record tool_call =
  tl_tool_id :: string
  tl_connection_id :: "string option"
  tl_classification :: execution_classification
  tl_arguments :: json

text \<open>The orders in which the hash containers yield their entries.\<close>

record hash_orders =
  hx_clients :: "trusted_client_dto list \<Rightarrow> trusted_client_dto list"
  hx_assignments :: "connection_policy_assignment_dto list \<Rightarrow> connection_policy_assignment_dto list"
  hx_roles :: "policy_role_dto list \<Rightarrow> policy_role_dto list"
  hx_policies :: "tool_policy_dto list \<Rightarrow> tool_policy_dto list"
  hx_ids :: "string list \<Rightarrow> string list"

text \<open>What a call draws: its correlation id, and the clocks and identifier of its authorization.\<close>

record call_draws =
  dr_correlation_id :: string
  dr_consume_ms :: int
  dr_request_ms :: int
  dr_new_id :: uuid
  dr_created_ms :: int
  dr_now_ms :: int

definition INVALID_REQUEST_error :: "string \<Rightarrow> json option \<Rightarrow> mcp_error" where
  "INVALID_REQUEST_error message data = \<lparr>me_code = INVALID_REQUEST, me_message = message, me_data = data\<rparr>"

definition quoted :: "string \<Rightarrow> string" where
  "quoted s = CHR 0x27 # s @ [CHR 0x27]"

definition approval_required_message :: "string \<Rightarrow> execution_classification \<Rightarrow> string \<Rightarrow> string" where
  "approval_required_message tool_id classification pending_id =
    ''Approval required: the policy requires a person to approve '' @ quoted tool_id @
    '' calls of class '' @ classification_debug classification @
    ''. This call has NOT run; it was queued as pending execution '' @ pending_id @
    ''. Next steps: (1) Tell the user that pending execution '' @ pending_id @
    '' is waiting for their approval in DBFlux (Workspace > Pending Approvals). (2) Wait for the '' @
    ''user. Do not call approve_execution or reject_execution; they are always denied to MCP '' @
    ''clients. (3) To check the status, call get_pending_execution with '' @
    ''{'' @ [CHR 0x22] @ ''pending_id'' @ [CHR 0x22] @ '': '' @ [CHR 0x22] @ pending_id @ [CHR 0x22] @
    ''}: while its status is '' @ quoted ''pending'' @ '', it is still waiting for a decision; status '' @
    quoted ''rejected'' @ '' means the user rejected it, and its '' @ quoted ''reason'' @
    '' field carries what they wrote; once it is no longer found, it was approved or has '' @
    ''expired. (4) After the user approves it, repeat this exact call: the same tool '' @
    quoted tool_id @ '' with identical arguments. It then runs once. If it was rejected or expired, '' @
    ''repeating it queues a new request instead of running.''"

definition authorization_error_of ::
  "authorization_outcome \<Rightarrow> string \<Rightarrow> execution_classification \<Rightarrow> mcp_error" where
  "authorization_error_of outcome tool_id classification =
    (let reason = unwrap_or ''authorization denied'' (ao_deny_reason outcome)
     in if ao_deny_code outcome = Some APPROVAL_REQUIRED_CODE
        then INVALID_REQUEST_error
          (approval_required_message tool_id classification
            (unwrap_or ''unknown'' (ao_pending_execution_id outcome)))
          (Some (JObject (obj_of
            [(''code'', JString APPROVAL_REQUIRED_CODE),
             (''status'', JString ''pending''),
             (''pending_id'', case ao_pending_execution_id outcome of Some i \<Rightarrow> JString i | None \<Rightarrow> JNull),
             (''tool_id'', JString tool_id),
             (''next_action'', JString ''wait_for_human_approval_then_repeat_identical_call''),
             (''status_tool'', JString ''get_pending_execution'')])))
        else INVALID_REQUEST_error reason
          (map_option (\<lambda>c. JObject (obj_of [(''code'', JString c)])) (ao_deny_code outcome)))"

definition auth_request ::
  "server_ext \<Rightarrow> call_draws \<Rightarrow> tool_call \<Rightarrow> 's server_state \<Rightarrow> authorization_request" where
  "auth_request x dr call st =
    \<lparr>aq_identity = \<lparr>ri_client_id = ss_client_id st, ri_issuer = None\<rparr>,
     aq_connection_id = unwrap_or [] (tl_connection_id call),
     aq_tool_id = tl_tool_id call,
     aq_classification = tl_classification call,
     aq_mcp_enabled_for_connection =
       (case tl_connection_id call of
          Some conn_id \<Rightarrow> is_mcp_enabled_for_connection x st conn_id
        | None \<Rightarrow> True),
     aq_read_only_connection =
       (case tl_connection_id call of
          Some conn_id \<Rightarrow> is_read_only_connection x st conn_id
        | None \<Rightarrow> False),
     aq_correlation_id = Some (dr_correlation_id dr)\<rparr>"

text \<open>
  The first half of \<open>authorize_and_execute_audited\<close>, under the write lock of the
  runtime: the answer of the runtime, and what the middleware makes of it. The request
  has its correlation id, so authorization draws none.
\<close>

definition call_clients :: "hash_orders \<Rightarrow> 's mcp_runtime \<Rightarrow> (governance_error, trusted_client_registry) result" where
  "call_clients hx rt =
    and_then (rt_list_trusted_clients (hx_clients hx) rt) (\<lambda>dtos.
      Ok (trusted_client_registry_new (map trusted_client_of_dto dtos)))"

abbreviation call_engine :: "hash_orders \<Rightarrow> 's mcp_runtime \<Rightarrow> policy_engine" where
  "call_engine hx rt \<equiv> runtime_engine (hx_assignments hx) (hx_roles hx) (hx_policies hx) rt"

definition call_outcome ::
  "'s pending_store_ops \<Rightarrow> server_ext \<Rightarrow> audit_ext \<Rightarrow> hash_orders \<Rightarrow> call_draws \<Rightarrow> tool_call \<Rightarrow>
   's server_state \<Rightarrow> 's server_state \<times> (string, authorization_outcome) result" where
  "call_outcome ops x ax hx dr call st =
    (case call_clients hx (ss_runtime st) of
       Inl e \<Rightarrow> (st, Err (''Failed to list trusted clients: '' @ governance_error_display e))
     | Inr trusted_clients \<Rightarrow>
         (let (runtime', r) = authorize_with_approval_mut ops (se_uuid x) ax (hx_ids hx) (dr_correlation_id dr)
                (dr_consume_ms dr) (dr_request_ms dr) (dr_new_id dr) (dr_created_ms dr)
                trusted_clients (call_engine hx (ss_runtime st)) (auth_request x dr call st) (tl_arguments call)
                (dr_now_ms dr) (ss_runtime st)
          in (st\<lparr>ss_runtime := runtime'\<rparr>,
              map_err (\<lambda>e. ''Authorization error: '' @ authorization_error_display e) r)))"

definition authorize_call ::
  "'s pending_store_ops \<Rightarrow> server_ext \<Rightarrow> audit_ext \<Rightarrow> hash_orders \<Rightarrow> call_draws \<Rightarrow> tool_call \<Rightarrow>
   's server_state \<Rightarrow> 's server_state \<times> (mcp_error, authorization_outcome) result" where
  "authorize_call ops x ax hx dr call st =
    (let (st', r) = call_outcome ops x ax hx dr call st
     in (st', and_then (map_err internal_error r) (\<lambda>outcome.
          if ao_allowed outcome then Ok outcome
          else Err (authorization_error_of outcome (tl_tool_id call) (tl_classification call)))))"

definition MCP_TOOL_EXECUTE :: audit_action where "MCP_TOOL_EXECUTE = ''mcp_tool_execute''"
definition MCP_TOOL_EXECUTE_FAILED :: audit_action where "MCP_TOOL_EXECUTE_FAILED = ''mcp_tool_execute_failed''"
definition QUERY_EXECUTE :: audit_action where "QUERY_EXECUTE = ''query_execute''"
definition QUERY_EXECUTE_FAILED :: audit_action where "QUERY_EXECUTE_FAILED = ''query_execute_failed''"
definition SCRIPT_EXECUTE :: audit_action where "SCRIPT_EXECUTE = ''script_execute''"
definition SCRIPT_EXECUTE_FAILED :: audit_action where "SCRIPT_EXECUTE_FAILED = ''script_execute_failed''"

definition is_query_tool :: "string \<Rightarrow> bool" where
  "is_query_tool tool_id \<longleftrightarrow> tool_id \<in> {''select_data'', ''count_records'', ''aggregate_data''}"

definition is_script_tool :: "string \<Rightarrow> bool" where
  "is_script_tool tool_id \<longleftrightarrow> tool_id = ''execute_script''"

definition execution_action :: "string \<Rightarrow> event_outcome \<Rightarrow> audit_action" where
  "execution_action tool_id outcome =
    (if is_query_tool tool_id then (if outcome = OutFailure then QUERY_EXECUTE_FAILED else QUERY_EXECUTE)
     else if is_script_tool tool_id then (if outcome = OutFailure then SCRIPT_EXECUTE_FAILED else SCRIPT_EXECUTE)
     else (if outcome = OutFailure then MCP_TOOL_EXECUTE_FAILED else MCP_TOOL_EXECUTE))"

definition build_execution_event ::
  "int \<Rightarrow> event_severity \<Rightarrow> event_outcome \<Rightarrow> string \<Rightarrow> string \<Rightarrow> event_record" where
  "build_execution_event ts_ms level outcome tool_id actor_id =
    with_object_ref ''tool'' tool_id
      (with_actor_id actor_id
        (with_summary
          ((if is_query_tool tool_id then ''Query '' else if is_script_tool tool_id then ''Script '' else ''MCP tool '') @
           outcome_as_str outcome @ '': tool='' @ tool_id)
          (with_typed_action (execution_action tool_id outcome)
            (event_record_new ts_ms level CatMcp outcome))))"

fun error_text :: "content_block \<Rightarrow> string list" where
  "error_text (ContentText t) = [t]"
| "error_text (ContentImage d) = [''[image: '' @ show_nat (utf8_len d) @ '' bytes]'']"
| "error_text ContentAudio = [''[audio content]'']"
| "error_text (ContentResource (TextResourceContents uri)) = [''[resource: '' @ uri @ '']'']"
| "error_text (ContentResource (BlobResourceContents uri)) = [''[resource: '' @ uri @ '']'']"
| "error_text (ContentResource OtherResourceContents) = []"
| "error_text (ContentResourceLink uri) = [''[resource_link: '' @ uri @ '']'']"
| "error_text ContentOther = []"

definition extract_error_content :: "call_tool_result \<Rightarrow> string" where
  "extract_error_content result = join [CHR 0x0A] (concat (map error_text (tr_content result)))"

text \<open>
  The event of an execution: severity, outcome and what the result adds to it.
  \<open>fresh_id\<close> is drawn only for an outcome without a correlation id.
\<close>

definition execution_event ::
  "audit_ext \<Rightarrow> int \<Rightarrow> string \<Rightarrow> tool_call \<Rightarrow> (mcp_error, call_tool_result) result \<Rightarrow> authorization_outcome \<Rightarrow>
   audit_details \<Rightarrow> event_record" where
  "execution_event ax ts_ms fresh_id call result outcome details =
    (let ctx = ctx_with_connection_id (unwrap_or [] (tl_connection_id call))
           (ctx_with_correlation_id (unwrap_or fresh_id (ao_correlation_id outcome))
             (ctx_with_origin origin_mcp audit_context_new));
         event = (\<lambda>level oc. apply_to ctx (build_execution_event ts_ms level oc (tl_tool_id call) (ao_actor_id outcome)))
     in case result of
          Inr call_result \<Rightarrow>
            if tr_is_error call_result \<noteq> Some True
            then with_details_json (ax_json_display ax (JObject (obj_of
                   ((''content_count'', JNumber (show_nat (length (tr_content call_result)))) #
                    (case ad_query details of Some q \<Rightarrow> [(''query'', JString q)] | None \<Rightarrow> [])))))
                   (event SevInfo OutSuccess)
            else with_error ''handler_error'' (extract_error_content call_result) (event SevWarn OutFailure)
        | Inl e \<Rightarrow> with_error ''handler_error'' (me_message e) (event SevError OutFailure))"

definition audit_execution_with_details ::
  "audit_ext \<Rightarrow> int \<Rightarrow> string \<Rightarrow> tool_call \<Rightarrow> (mcp_error, call_tool_result) result \<Rightarrow> authorization_outcome \<Rightarrow>
   audit_details \<Rightarrow> 's server_state \<Rightarrow> 's server_state \<times> (mcp_error, unit) result" where
  "audit_execution_with_details ax ts_ms fresh_id call result outcome details st =
    (let (au, r) = audit_record ax (execution_event ax ts_ms fresh_id call result outcome details)
           (mr_audit_service (ss_runtime st))
     in (st\<lparr>ss_runtime := (ss_runtime st)\<lparr>mr_audit_service := au\<rparr>\<rparr>,
         case r of
           Inl e \<Rightarrow> Err (internal_error (''Execution audit error: '' @ audit_error_display e))
         | Inr _ \<Rightarrow> Ok ()))"

text \<open>The second half of \<open>authorize_and_execute_audited\<close>, once the handler has returned.\<close>

definition finish_call ::
  "audit_ext \<Rightarrow> int \<Rightarrow> string \<Rightarrow> tool_call \<Rightarrow> authorization_outcome \<Rightarrow>
   (mcp_error, call_tool_result \<times> audit_details) result \<Rightarrow> 's server_state \<Rightarrow>
   's server_state \<times> (mcp_error, call_tool_result) result" where
  "finish_call ax ts_ms fresh_id call outcome handler_result st =
    (let (result, details) = (case handler_result of
           Inr (result, details) \<Rightarrow> (Ok result, details)
         | Inl e \<Rightarrow> (Err e, audit_details_default));
         (st', audited) = audit_execution_with_details ax ts_ms fresh_id call result outcome details st
     in (st', case audited of Inl e \<Rightarrow> Err e | Inr _ \<Rightarrow> result))"

text \<open>
  The whole call: \<open>meanwhile\<close> is what happens to the server while the handler runs, the
  handler's own effects included.
\<close>

definition authorize_and_execute_audited ::
  "'s pending_store_ops \<Rightarrow> server_ext \<Rightarrow> audit_ext \<Rightarrow> hash_orders \<Rightarrow> call_draws \<Rightarrow> int \<Rightarrow> string \<Rightarrow> tool_call \<Rightarrow>
   ('s server_state \<Rightarrow> 's server_state \<times> (mcp_error, call_tool_result \<times> audit_details) result) \<Rightarrow>
   's server_state \<Rightarrow> 's server_state \<times> (mcp_error, call_tool_result) result" where
  "authorize_and_execute_audited ops x ax hx dr end_ms fresh_id call meanwhile st =
    (case authorize_call ops x ax hx dr call st of
       (st1, Inl e) \<Rightarrow> (st1, Err e)
     | (st1, Inr outcome) \<Rightarrow>
         (let (st2, handler_result) = meanwhile st1
          in finish_call ax end_ms fresh_id call outcome handler_result st2))"

definition authorize_and_execute ::
  "'s pending_store_ops \<Rightarrow> server_ext \<Rightarrow> audit_ext \<Rightarrow> hash_orders \<Rightarrow> call_draws \<Rightarrow> int \<Rightarrow> string \<Rightarrow> tool_call \<Rightarrow>
   ('s server_state \<Rightarrow> 's server_state \<times> (mcp_error, call_tool_result) result) \<Rightarrow>
   's server_state \<Rightarrow> 's server_state \<times> (mcp_error, call_tool_result) result" where
  "authorize_and_execute ops x ax hx dr end_ms fresh_id call meanwhile st =
    authorize_and_execute_audited ops x ax hx dr end_ms fresh_id call
      (\<lambda>st1. let (st2, r) = meanwhile st1 in (st2, and_then r (\<lambda>result. Ok (result, audit_details_default)))) st"

record hint_permissions =
  hp_table_names :: bool
  hp_column_names :: bool
  hp_databases :: bool

definition hint_permissions_for :: "hash_orders \<Rightarrow> 's server_state \<Rightarrow> string \<Rightarrow> hint_permissions" where
  "hint_permissions_for hx st connection_id =
    (let engine = call_engine hx (ss_runtime st);
         allowed = (\<lambda>tool_id. evaluate (hx_ids hx) engine
           \<lparr>pr_actor_id = ss_client_id st, pr_connection_id = connection_id, pr_tool_id = tool_id,
            pr_classification = Metadata\<rparr> = Ok Allow)
     in \<lparr>hp_table_names = allowed ''list_tables'', hp_column_names = allowed ''describe_object'',
         hp_databases = allowed ''list_databases''\<rparr>)"

section \<open>What a start leaves configured\<close>

text \<open>Who may act on a connection: active clients outside connections, and the bindings of enabled profiles.\<close>

definition configured ::
  "governance_settings \<Rightarrow> uuid_ext \<Rightarrow> connection_profile list \<Rightarrow> string \<Rightarrow> string \<Rightarrow> bool" where
  "configured g u profiles actor conn \<longleftrightarrow>
    (conn = [] \<and> (\<exists>c\<in>set (gs_trusted_clients g). tg_id c = actor \<and> tg_active c)) \<or>
    (\<exists>p\<in>set profiles. \<exists>gov b. cp_mcp_governance p = Some gov \<and> mg_enabled gov \<and>
       b \<in> set (mg_policy_bindings gov) \<and> mb_actor_id b = actor \<and> ux_to_string u (cp_id p) = conn)"

definition client_from :: "governance_settings \<Rightarrow> trusted_client_dto \<Rightarrow> bool" where
  "client_from g d \<longleftrightarrow> (\<exists>c\<in>set (gs_trusted_clients g). td_id d = tg_id c \<and> td_active d = tg_active c)"

definition policy_from :: "governance_settings \<Rightarrow> tool_policy_dto \<Rightarrow> bool" where
  "policy_from g d \<longleftrightarrow> d \<in> set builtin_policies \<or>
    (\<exists>p\<in>set (gs_policies g). pd_allowed_classes d = pg_allowed_classes p)"

definition assignment_from ::
  "governance_settings \<Rightarrow> uuid_ext \<Rightarrow> connection_profile list \<Rightarrow> connection_policy_assignment_dto \<Rightarrow> bool" where
  "assignment_from g u profiles d \<longleftrightarrow>
    (\<forall>b\<in>set (cd_assignments d). configured g u profiles (as_actor_id b) (cd_connection_id d))"

definition loaded_from ::
  "governance_settings \<Rightarrow> uuid_ext \<Rightarrow> connection_profile list \<Rightarrow> 's mcp_runtime \<Rightarrow> bool" where
  "loaded_from g u profiles rt \<longleftrightarrow>
    (\<forall>e\<in>set (mr_trusted_clients rt). client_from g (snd e)) \<and>
    (\<forall>e\<in>set (mr_policies rt). policy_from g (snd e)) \<and>
    (\<forall>e\<in>set (mr_connection_policy_assignments rt). assignment_from g u profiles (snd e))"

lemma update_values: "\<forall>e\<in>set al. Q (snd e) \<Longrightarrow> Q w \<Longrightarrow> \<forall>e\<in>set (AList.update k w al). Q (snd e)"
  by (induction al) auto

lemma upsert_all_keeps:
  assumes "\<And>a rt. a \<in> set as \<Longrightarrow> P rt \<Longrightarrow> P (fst (f a rt))" and "P rt"
  shows "P (fst (upsert_all f label as rt))"
  using assms
proof (induction as arbitrary: rt)
  case (Cons a as)
  obtain rt' r where f: "f a rt = (rt', r)" by fastforce
  with Cons.prems have "P rt'" by (metis fst_conv list.set_intros(1))
  with Cons f show ?case by (cases r) auto
qed simp

lemma rt_then_keeps:
  assumes "P (fst p)" and "\<And>rt. P rt \<Longrightarrow> P (fst (f rt))"
  shows "P (fst (rt_then p f))"
  using assms by (cases p; cases "snd p") (auto simp: rt_then_def)

lemma upsert_keeps_loaded:
  assumes "loaded_from g u profiles rt"
  shows "client_from g d \<Longrightarrow> loaded_from g u profiles (fst (upsert_trusted_client_mut d rt))"
    and "loaded_from g u profiles (fst (upsert_role_mut r rt))"
    and "policy_from g q \<Longrightarrow> loaded_from g u profiles (fst (upsert_policy_mut q rt))"
    and "assignment_from g u profiles a \<Longrightarrow> loaded_from g u profiles (fst (save_connection_policy_assignment_mut a rt))"
    and "loaded_from g u profiles (fst (drain_events rt))"
  using assms by (auto simp: loaded_from_def config_op_defs intro: update_values [rule_format])

lemmas keeps_loaded = rt_then_keeps [where P = "loaded_from g u profiles" for g u profiles]
  upsert_all_keeps [where P = "loaded_from g u profiles" for g u profiles] upsert_keeps_loaded

lemma apply_settings_loaded:
  assumes "loaded_from g u profiles rt"
  shows "loaded_from g u profiles (fst (apply_governance_settings g rt))"
  unfolding apply_governance_settings_def
  by (intro keeps_loaded assms) (auto simp: client_from_def policy_from_def)

lemma global_assignments_loaded:
  assumes "loaded_from g u profiles rt" and "hash_order order"
  shows "loaded_from g u profiles (fst (create_global_assignments order rt))"
proof -
  let ?a = "\<lparr>cd_connection_id = [], cd_assignments = map (\<lambda>client.
          \<lparr>as_actor_id = td_id client, as_scope = \<lparr>sc_connection_id = []\<rparr>,
           as_role_ids = [''builtin/read-only''], as_policy_ids = []\<rparr>)
        (filter td_active (sort_key td_id (order (map snd (mr_trusted_clients rt)))))\<rparr>"
  have "client_from g d" if "d \<in> set (order (map snd (mr_trusted_clients rt)))" for d
    using that assms by (auto simp: loaded_from_def hash_order_set)
  then have "assignment_from g u profiles ?a"
    by (fastforce simp: assignment_from_def configured_def client_from_def)
  from upsert_keeps_loaded(4) [OF assms(1) this] assms(1) show ?thesis
    by (auto simp: create_global_assignments_def rt_list_trusted_clients_def Let_def split: prod.splits sum.splits)
qed

lemma load_governance_loaded:
  assumes "load_governance_into_runtime repo order (mcp_runtime_new ops now au store) = (rt, Ok g)"
    and "hash_order order"
  shows "loaded_from g u profiles rt"
proof -
  have new: "loaded_from g u profiles (mcp_runtime_new ops now au store)"
    by (simp add: loaded_from_def mcp_runtime_new_def split: prod.splits)
  have g: "load_governance_settings repo = Ok g"
    using assms(1)
    by (auto simp: load_governance_into_runtime_def rt_then_def split: prod.splits sum.splits)
  have "loaded_from g u profiles (fst (load_governance_into_runtime repo order (mcp_runtime_new ops now au store)))"
    unfolding load_governance_into_runtime_def g sum.case
    by (intro keeps_loaded apply_settings_loaded global_assignments_loaded new assms(2))
      (simp_all add: policy_from_def)
  with assms(1) show ?thesis by simp
qed

lemma profile_assignments_loaded:
  assumes "loaded_from g u profiles rt" and "set ps \<subseteq> set profiles"
  shows "loaded_from g u profiles (fold (\<lambda>profile rt. fst (load_profile_assignment u profile rt)) ps rt)"
  using assms
proof (induction ps arbitrary: rt)
  case (Cons p ps)
  have "loaded_from g u profiles (fst (load_profile_assignment u p rt))"
  proof (cases "cp_mcp_governance p")
    case (Some gov)
    let ?a = "\<lparr>cd_connection_id = ux_to_string u (cp_id p), cd_assignments = map (\<lambda>b.
        \<lparr>as_actor_id = mb_actor_id b, as_scope = \<lparr>sc_connection_id = ux_to_string u (cp_id p)\<rparr>,
         as_role_ids = mb_role_ids b, as_policy_ids = mb_policy_ids b\<rparr>) (mg_policy_bindings gov)\<rparr>"
    have "assignment_from g u profiles ?a" if "mg_enabled gov"
      using that Some Cons.prems(2) unfolding assignment_from_def configured_def
      by (intro ballI disjI2 bexI [of _ p]) auto
    from upsert_keeps_loaded(4) [OF Cons.prems(1) this] Cons.prems(1) Some show ?thesis
      by (auto simp: load_profile_assignment_def Let_def split: prod.splits sum.splits)
  qed (use Cons.prems(1) in \<open>simp add: load_profile_assignment_def\<close>)
  with Cons show ?case by simp
qed simp

lemma server_state_new_loaded:
  assumes "server_state_new ops u now au store repo order profiles db client = Ok st" and "hash_order order"
  shows "\<exists>g. load_governance_settings repo = Ok g \<and> loaded_from g u profiles (ss_runtime st)"
proof -
  obtain rt g where rt: "load_governance_into_runtime repo order (mcp_runtime_new ops now au store) = (rt, Ok g)"
    and st: "ss_runtime st = load_connection_policy_assignments u profiles (fst (drain_events rt))"
    using assms(1)
    by (auto simp: server_state_new_def build_runtime_def and_then_eq_Ok map_err_def split: prod.splits sum.splits)
  have "load_governance_settings repo = Ok g"
    using rt by (auto simp: load_governance_into_runtime_def rt_then_def split: prod.splits sum.splits)
  moreover have "loaded_from g u profiles (ss_runtime st)"
    unfolding st load_connection_policy_assignments_def
    by (intro upsert_keeps_loaded(5) profile_assignments_loaded load_governance_loaded [OF rt assms(2)]) simp
  ultimately show ?thesis by blast
qed

text \<open>An allowed or asked request reaches a policy through an assignment of the runtime.\<close>

lemma decision_from_config:
  assumes "hash_order (hx_assignments hx)" "hash_order (hx_policies hx)" "hash_order (hx_ids hx)"
    and "evaluate (hx_ids hx) (call_engine hx rt) request = Ok d" and "\<forall>why. d \<noteq> Deny why"
  shows "(\<exists>e\<in>set (mr_connection_policy_assignments rt). \<exists>b\<in>set (cd_assignments (snd e)).
      as_actor_id b = pr_actor_id request \<and> cd_connection_id (snd e) = pr_connection_id request) \<and>
    (\<exists>p. tool_policy_dto_of p \<in> snd ` set (mr_policies rt) \<and>
      class_decision_of p (pr_classification request) = (if d = Allow then ClassAllow else ClassAsk))"
proof -
  let ?e = "call_engine hx rt"
  have "roles_known ?e request"
    using evaluate_missing_role [of ?e request "hx_ids hx"] assms(4) by fastforce
  from evaluate_best [OF assms(3) this] assms(4) have d: "d = best_decision ?e request" by simp
  have "reached_ids ?e request \<noteq> {}" using d assms(5) by (auto simp: best_decision_def)
  then obtain a where "a \<in> set (policy_assignments_for_engine (hx_assignments hx) rt)"
    "applies_to a (pr_actor_id request) (pr_connection_id request)"
    by (auto simp: reached_ids_def applying_def runtime_engine_def policy_engine_new_def)
  then have "\<exists>e\<in>set (mr_connection_policy_assignments rt). \<exists>b\<in>set (cd_assignments (snd e)).
      as_actor_id b = pr_actor_id request \<and> cd_connection_id (snd e) = pr_connection_id request"
    by (fastforce simp: policy_assignments_for_engine_def applies_to_def hash_order_set [OF assms(1)])
  moreover obtain p where "p \<in> listing ?e request"
    "class_decision_of p (pr_classification request) = (if d = Allow then ClassAllow else ClassAsk)"
    using d assms(5) unfolding best_decision_def Let_def by (auto split: if_splits)
  moreover then have "p \<in> set (policies_for_engine (hx_policies hx) rt)"
    by (auto simp: listing_of_def runtime_engine_def policy_engine_new_def map_of_hm_collect dest!: map_of_SomeD)
  then have "tool_policy_dto_of p \<in> snd ` set (mr_policies rt)"
    by (simp add: in_policies_for_engine [OF assms(2)])
  ultimately show ?thesis by blast
qed

text \<open>
  C8. A started server grants what was configured and no more: a request it allows or
  sends to approval is by an active trusted client outside connections, or by a client
  that an enabled profile binds to the connection; and above a read it allows only a
  class that a stored policy lists as allowed, since the built-in policies at best ask.
\<close>

theorem startup_grants_only_configured:
  assumes "server_state_new ops u now au store repo order profiles db client = Ok st"
    and "hash_order order" "hash_order (hx_assignments hx)" "hash_order (hx_policies hx)" "hash_order (hx_ids hx)"
    and "evaluate (hx_ids hx) (call_engine hx (ss_runtime st)) request = Ok d" and "\<forall>why. d \<noteq> Deny why"
  shows "\<exists>g. load_governance_settings repo = Ok g \<and>
    configured g u profiles (pr_actor_id request) (pr_connection_id request) \<and>
    (d = Allow \<longrightarrow> pr_classification request \<le> Read \<or>
      (\<exists>p\<in>set (gs_policies g). execution_class_id (pr_classification request) \<in> set (pg_allowed_classes p)))"
proof -
  obtain g where g: "load_governance_settings repo = Ok g" "loaded_from g u profiles (ss_runtime st)"
    using server_state_new_loaded [OF assms(1,2)] by blast
  from decision_from_config [OF assms(3-7)] obtain e b p where
    e: "e \<in> set (mr_connection_policy_assignments (ss_runtime st))" "b \<in> set (cd_assignments (snd e))"
      "as_actor_id b = pr_actor_id request" "cd_connection_id (snd e) = pr_connection_id request"
    and p: "tool_policy_dto_of p \<in> snd ` set (mr_policies (ss_runtime st))"
      "class_decision_of p (pr_classification request) = (if d = Allow then ClassAllow else ClassAsk)"
    by blast
  have "configured g u profiles (pr_actor_id request) (pr_connection_id request)"
    using g(2) e unfolding loaded_from_def assignment_from_def by metis
  moreover have "pr_classification request \<le> Read \<or>
      (\<exists>q\<in>set (gs_policies g). execution_class_id (pr_classification request) \<in> set (pg_allowed_classes q))" if "d = Allow"
  proof -
    have listed: "pr_classification request \<in> set (po_allowed_classes p)"
      using p(2) that by (auto simp: class_decision_of_def split: if_splits)
    have "policy_from g (tool_policy_dto_of p)" using g(2) p(1) by (auto simp: loaded_from_def)
    then consider "tool_policy_dto_of p \<in> set builtin_policies"
      | q where "q \<in> set (gs_policies g)" "pd_allowed_classes (tool_policy_dto_of p) = pg_allowed_classes q"
      by (auto simp: policy_from_def)
    then show ?thesis
    proof cases
      case 1
      have "tool_policy_of_dto (tool_policy_dto_of p) = Ok p" by (simp add: tool_policy_of_dto_iff)
      from builtin_policy_classes [OF 1 this] listed show ?thesis
        by (auto simp: less_eq_execution_classification_def)
    next
      case 2
      have "execution_class_id (pr_classification request) \<in> set (map execution_class_id (po_allowed_classes p))"
        using listed by simp
      with 2 show ?thesis by (auto simp: tool_policy_dto_of_def)
    qed
  qed
  ultimately show ?thesis using g(1) by blast
qed

definition sample_repo :: governance_repo where
  "sample_repo =
    \<lparr>gp_get = Ok None, gp_trusted_clients = Ok [(''agent'', ''Agent'', None, 1)],
     gp_policy_roles = Ok [''team''], gp_tool_policies = Ok []\<rparr>"

definition sample_orders :: hash_orders where
  "sample_orders = \<lparr>hx_clients = (\<lambda>xs. xs), hx_assignments = (\<lambda>xs. xs), hx_roles = (\<lambda>xs. xs),
     hx_policies = (\<lambda>xs. xs), hx_ids = rev\<rparr>"

definition sample_listing :: policy_evaluation_request where
  "sample_listing = \<lparr>pr_actor_id = ''agent'', pr_connection_id = [], pr_tool_id = ''list_connections'',
     pr_classification = Metadata\<rparr>"

definition sample_start :: "(startup_error, in_memory_store server_state) result" where
  "sample_start = server_state_new in_memory_ops sample_uuid_ext 0 (audit_service_new []) [] sample_repo
     (\<lambda>xs. xs) [] ''dbflux.db'' ''agent''"

definition sample_global :: connection_policy_assignment where
  "sample_global = \<lparr>as_actor_id = ''agent'', as_scope = \<lparr>sc_connection_id = []\<rparr>,
     as_role_ids = [''builtin/read-only''], as_policy_ids = []\<rparr>"

lemma sample_settings:
  "load_governance_settings sample_repo = Ok \<lparr>gs_mcp_enabled_by_default = False,
     gs_trusted_clients = [\<lparr>tg_id = ''agent'', tg_name = ''Agent'', tg_issuer = None, tg_active = True\<rparr>],
     gs_roles = [\<lparr>rg_id = ''team'', rg_policy_ids = []\<rparr>], gs_policies = []\<rparr>"
  by (simp add: load_governance_settings_def sample_repo_def unwrap_or_def)

lemma sample_ids:
  "trim ''agent'' \<noteq> []" "trim ''team'' \<noteq> []" "trim ''builtin/read-only'' \<noteq> []" "trim ''builtin/write'' \<noteq> []"
  "trim ''builtin/admin'' \<noteq> []" "pd_id builtin_read_only = ''builtin/read-only''"
  "pd_id builtin_write = ''builtin/write''" "pd_id builtin_admin = ''builtin/admin''"
  by (simp_all add: trim_eq_Nil_iff is_whitespace_def builtin_read_only_def builtin_write_def builtin_admin_def)

lemma sample_start_runtime:
  "\<exists>rt. sample_start = Ok \<lparr>ss_client_id = ''agent'', ss_runtime = rt, ss_profiles = [],
       ss_mcp_enabled_by_default = False, ss_profile_store_path = Some ''dbflux.db''\<rparr> \<and>
     mr_trusted_clients rt =
       [(''agent'', \<lparr>td_id = ''agent'', td_name = ''Agent'', td_issuer = None, td_active = True\<rparr>)] \<and>
     map snd (mr_roles rt) = builtin_roles @ [\<lparr>rd_id = ''team'', rd_policy_ids = []\<rparr>] \<and>
     map snd (mr_policies rt) = builtin_policies \<and>
     mr_connection_policy_assignments rt = [([], \<lparr>cd_connection_id = [], cd_assignments = [sample_global]\<rparr>)] \<and>
     mr_audit_service rt = audit_service_new [] \<and> as_store (mr_approval_service rt) = []"
  by (simp add: sample_start_def server_state_new_def build_runtime_def load_governance_into_runtime_def
      sample_settings sample_ids sample_global_def rt_then_def apply_governance_settings_def
      create_global_assignments_def rt_list_trusted_clients_def config_op_defs builtin_roles_def builtin_policies_def
      mcp_runtime_new_def validate_client_id_def load_connection_policy_assignments_def
      svc_purge_terminal_and_expired_def in_memory_ops_def purge_terminal_and_expired_def approval_service_new_def
      split: prod.splits)

lemma sample_global_evaluation:
  "evaluate rev (policy_engine_new [sample_global] (map role_of_dto (builtin_roles @ [\<lparr>rd_id = ''team'', rd_policy_ids = []\<rparr>]))
     builtin_engine_policies) sample_listing = Ok Allow"
  by code_simp

lemma sample_start_allows:
  "\<exists>st. sample_start = Ok st \<and>
     evaluate (hx_ids sample_orders) (call_engine sample_orders (ss_runtime st)) sample_listing = Ok Allow"
proof -
  obtain st where st: "sample_start = Ok st"
    "map snd (mr_roles (ss_runtime st)) = builtin_roles @ [\<lparr>rd_id = ''team'', rd_policy_ids = []\<rparr>]"
    "map snd (mr_policies (ss_runtime st)) = builtin_policies"
    "mr_connection_policy_assignments (ss_runtime st) = [([], \<lparr>cd_connection_id = [], cd_assignments = [sample_global]\<rparr>)]"
    using sample_start_runtime by auto
  then have "call_engine sample_orders (ss_runtime st) = policy_engine_new [sample_global]
      (map role_of_dto (builtin_roles @ [\<lparr>rd_id = ''team'', rd_policy_ids = []\<rparr>])) builtin_engine_policies"
    by (simp add: runtime_engine_def policy_assignments_for_engine_def roles_for_engine_def policies_for_engine_def
        builtin_engine_policies_def sample_orders_def sample_global_def)
  with st(1) sample_global_evaluation show ?thesis by (auto simp: sample_orders_def)
qed

theorem startup_grants_only_configured_witness:
  "\<exists>g. load_governance_settings sample_repo = Ok g \<and> configured g sample_uuid_ext [] ''agent'' []"
proof -
  obtain st where st: "sample_start = Ok st"
    "evaluate (hx_ids sample_orders) (call_engine sample_orders (ss_runtime st)) sample_listing = Ok Allow"
    using sample_start_allows by blast
  have "\<exists>g. load_governance_settings sample_repo = Ok g \<and>
      configured g sample_uuid_ext [] (pr_actor_id sample_listing) (pr_connection_id sample_listing)"
    using startup_grants_only_configured [OF st(1) [unfolded sample_start_def] _ _ _ _ st(2)]
    by (auto simp: sample_orders_def)
  then show ?thesis by (simp add: sample_listing_def)
qed

text \<open>
  A role read from the store has no policies, since the store keeps only its identifier:
  whoever is bound to it alone is granted nothing.
\<close>

lemma stored_role_is_empty:
  assumes "load_governance_settings repo = Ok g" and "r \<in> set (gs_roles g)"
  shows "rg_policy_ids r = []"
  using assms by (auto simp: load_governance_settings_def and_then_eq_Ok)

section \<open>The answer of the runtime\<close>

text \<open>
  What authorization does to the runtime: the queue changes only through the gate, and
  only when the policies ask; a call is allowed by the policies, as a tool of the queue,
  or by an approval the gate names.
\<close>

definition asks ::
  "(string list \<Rightarrow> string list) \<Rightarrow> trusted_client_registry \<Rightarrow> policy_engine \<Rightarrow> authorization_request \<Rightarrow> bool" where
  "asks iter clients engine request \<longleftrightarrow>
    refusal clients request = None \<and> evaluate iter engine (auth_evaluation request) = Ok RequireApproval"

lemma authorize_mut_summary:
  assumes "authorize_with_approval_mut ops u x iter fresh t1 t2 new_id t3 clients engine request payload ts rt = (rt', r)"
  shows "mr_approval_service rt' = (if asks iter clients engine request
      then mr_approval_service (fst (gate_resolve ops u t1 t2 new_id t3 payload request rt))
      else mr_approval_service rt)"
    and "answered request ts (mr_audit_service rt) (mr_audit_service rt') r"
    and "r = Ok out \<Longrightarrow> ao_correlation_id out = Some (unwrap_or fresh (aq_correlation_id request))"
    and "r = Ok out \<Longrightarrow> ao_allowed out \<Longrightarrow>
      (case ao_approved_execution_id out of
         None \<Rightarrow> evaluate iter engine (auth_evaluation request) = Ok Allow \<or>
           asks iter clients engine request \<and> snd (gate_resolve ops u t1 t2 new_id t3 payload request rt) = Ok Exempt
       | Some i \<Rightarrow> asks iter clients engine request \<and>
           snd (gate_resolve ops u t1 t2 new_id t3 payload request rt) = Ok (Granted i))"
proof -
  let ?gate = "gate_resolve ops u t1 t2 new_id t3 payload"
  let ?corr = "unwrap_or fresh (aq_correlation_id request)"
  obtain au rt1 where eq: "authorize_request_with_approval x iter fresh clients engine request (Some ?gate) ts
      (mr_audit_service rt, rt) = ((au, rt1), r)" and rt': "rt' = rt1\<lparr>mr_audit_service := au\<rparr>"
    using assms by (auto simp: authorize_with_approval_mut_def split: prod.splits)
  from eq have "(asks iter clients engine request \<longrightarrow> rt1 = fst (?gate request rt)) \<and>
      (\<not> asks iter clients engine request \<longrightarrow> rt1 = rt) \<and> answered request ts (mr_audit_service rt) au r \<and>
      (\<forall>out. r = Ok out \<longrightarrow> ao_correlation_id out = Some ?corr \<and>
        (ao_allowed out \<longrightarrow> (case ao_approved_execution_id out of
           None \<Rightarrow> evaluate iter engine (auth_evaluation request) = Ok Allow \<or>
             asks iter clients engine request \<and> snd (?gate request rt) = Ok Exempt
         | Some i \<Rightarrow> asks iter clients engine request \<and> snd (?gate request rt) = Ok (Granted i))))"
  proof (cases rule: authorize_cases)
    case (refused dc dr)
    then show ?thesis using deny_call_answered [OF refused(3,4)] by (auto simp: asks_def)
  next
    case allowed
    have "r = Ok out \<Longrightarrow> ao_approved_execution_id out = None" for out
      using allowed(4) by (auto simp: allow_call_def record_then_def split: prod.splits sum.splits)
    with allowed show ?thesis using allow_call_answered [OF allowed(4)] by (auto simp: asks_def)
  next
    case (denied why)
    then show ?thesis using deny_call_answered [OF denied(4)] by (auto simp: asks_def APPROVAL_REQUIRED_CODE_def)
  next
    case asked
    note ans = resolve_approval_answered [OF asked(3)]
    have corr: "ao_correlation_id (snd (snd (resolution_outcome request ?corr res))) = Some ?corr" for res
      by (cases rule: resolution_cases [of res]) simp_all
    have out: "ao_allowed (snd (snd (resolution_outcome request ?corr (Some r1)))) \<Longrightarrow>
        ao_approved_execution_id (snd (snd (resolution_outcome request ?corr (Some r1)))) = None \<Longrightarrow> r1 = Exempt"
      "ao_approved_execution_id (snd (snd (resolution_outcome request ?corr (Some r1)))) = Some i \<Longrightarrow> r1 = Granted i"
      for r1 i
      by (cases r1; simp)+
    from asked ans show ?thesis using corr out by (auto simp: asks_def split: option.splits)
  qed (simp add: asks_def)
  then show "mr_approval_service rt' = (if asks iter clients engine request
      then mr_approval_service (fst (?gate request rt)) else mr_approval_service rt)"
    "answered request ts (mr_audit_service rt) (mr_audit_service rt') r"
    "r = Ok out \<Longrightarrow> ao_correlation_id out = Some ?corr"
    "r = Ok out \<Longrightarrow> ao_allowed out \<Longrightarrow> (case ao_approved_execution_id out of
         None \<Rightarrow> evaluate iter engine (auth_evaluation request) = Ok Allow \<or>
           asks iter clients engine request \<and> snd (?gate request rt) = Ok Exempt
       | Some i \<Rightarrow> asks iter clients engine request \<and> snd (?gate request rt) = Ok (Granted i))"
    using rt' by simp_all
qed

lemma authorize_mut_actor:
  assumes "authorize_with_approval_mut ops u x iter fresh t1 t2 new_id t3 clients engine request payload ts rt =
      (rt', Ok out)"
  shows "ao_actor_id out = ri_client_id (aq_identity request)"
proof -
  have res: "ao_actor_id (snd (snd (resolution_outcome request corr res))) = ri_client_id (aq_identity request)" for corr res
    by (cases rule: resolution_cases [of res]) simp_all
  obtain au rt1 where "authorize_request_with_approval x iter fresh clients engine request
      (Some (gate_resolve ops u t1 t2 new_id t3 payload)) ts (mr_audit_service rt, rt) = ((au, rt1), Ok out)"
    using assms by (auto simp: authorize_with_approval_mut_def split: prod.splits)
  then show ?thesis
  proof (cases rule: authorize_cases)
    case asked
    from resolve_approval_answered(3) [OF asked(3) refl] res show ?thesis by auto
  qed (auto simp: deny_call_def allow_call_def record_then_def split: prod.splits sum.splits)
qed

section \<open>The audit trail of a call\<close>

abbreviation server_rows :: "'s server_state \<Rightarrow> audit_event_dto list" where
  "server_rows st \<equiv> au_rows (mr_audit_service (ss_runtime st))"

definition handler_succeeded :: "(mcp_error, call_tool_result \<times> audit_details) result \<Rightarrow> bool" where
  "handler_succeeded hr \<longleftrightarrow> (case hr of Inr (result, _) \<Rightarrow> tr_is_error result \<noteq> Some True | Inl _ \<Rightarrow> False)"

lemmas context_defs = apply_to_def audit_context_new_def ctx_with_origin_def ctx_with_correlation_id_def
  ctx_with_connection_id_def or_keep_def

definition result_ok :: "(mcp_error, call_tool_result) result \<Rightarrow> bool" where
  "result_ok r \<longleftrightarrow> (case r of Inr cr \<Rightarrow> tr_is_error cr \<noteq> Some True | Inl _ \<Rightarrow> False)"

lemma execution_event_simps:
  "ev_outcome (execution_event ax ts fresh call r out d) = (if result_ok r then OutSuccess else OutFailure)"
  "ev_action (execution_event ax ts fresh call r out d) = execution_action (tl_tool_id call) (if result_ok r then OutSuccess else OutFailure)"
  "ev_category (execution_event ax ts fresh call r out d) = CatMcp"
  "ev_actor_id (execution_event ax ts fresh call r out d) = Some (ao_actor_id out)"
  "ev_object_id (execution_event ax ts fresh call r out d) = Some (tl_tool_id call)"
  "ev_connection_id (execution_event ax ts fresh call r out d) = Some (unwrap_or [] (tl_connection_id call))"
  "ev_correlation_id (execution_event ax ts fresh call r out d) = Some (unwrap_or fresh (ao_correlation_id out))"
  "ev_ts_ms (execution_event ax ts fresh call r out d) = ts"
  by (simp_all add: result_ok_def execution_event_def build_execution_event_def event_builder_defs context_defs Let_def
      split: sum.splits)

text \<open>The row an execution leaves.\<close>

definition execution_row ::
  "tool_call \<Rightarrow> int \<Rightarrow> string \<Rightarrow> string option \<Rightarrow> bool \<Rightarrow> audit_event_dto \<Rightarrow> bool" where
  "execution_row call ts actor corr ok row \<longleftrightarrow>
    dt_action row = Some (execution_action (tl_tool_id call) (if ok then OutSuccess else OutFailure)) \<and>
    dt_outcome row = Some (if ok then ''success'' else ''failure'') \<and>
    dt_actor_id row = actor \<and> dt_object_id row = Some (tl_tool_id call) \<and>
    dt_connection_id row = Some (unwrap_or [] (tl_connection_id call)) \<and>
    dt_created_at_epoch_ms row = ts \<and> dt_correlation_id row = corr"

lemma finish_call_outcome:
  assumes "finish_call ax ts fresh call out hr st = (st', r)" and "au_enabled (mr_audit_service (ss_runtime st))"
  shows "(server_rows st' = server_rows st \<and> (\<exists>m. r = Err (internal_error m))) \<or>
    (\<exists>row. server_rows st' = server_rows st @ [row] \<and>
       execution_row call ts (ao_actor_id out) (Some (unwrap_or fresh (ao_correlation_id out))) (handler_succeeded hr) row \<and>
       r = and_then hr (\<lambda>(result, _). Ok result))"
proof -
  obtain result details where hr: "(case hr of Inr (result, details) \<Rightarrow> (Ok result, details)
      | Inl e \<Rightarrow> (Err e, audit_details_default)) = (result, details)" by fastforce
  then have result: "result = and_then hr (\<lambda>(result, _). Ok result)"
    and ok: "handler_succeeded hr = result_ok result"
    by (auto simp: handler_succeeded_def result_ok_def split: sum.splits prod.splits)
  obtain au r' where rec: "audit_record ax (execution_event ax ts fresh call result out details)
      (mr_audit_service (ss_runtime st)) = (au, r')" by fastforce
  with assms(1) hr have st': "st' = st\<lparr>ss_runtime := (ss_runtime st)\<lparr>mr_audit_service := au\<rparr>\<rparr>"
    and r: "r = (case r' of Inl e \<Rightarrow> Err (internal_error (''Execution audit error: '' @ audit_error_display e))
      | Inr _ \<Rightarrow> result)"
    by (auto simp: finish_call_def audit_execution_with_details_def Let_def split: sum.splits prod.splits)
  from rec show ?thesis
  proof (cases rule: audit_record_cases)
    case (stored i created d m ev')
    then have "execution_row call ts (ao_actor_id out) (Some (unwrap_or fresh (ao_correlation_id out)))
        (handler_succeeded hr) (dto_of_append i created (append_of_event ev'))"
      by (simp add: execution_row_def ok dto_of_append_def append_of_event_def execution_event_simps)
    with stored st' r result show ?thesis by auto
  qed (use assms(2) st' r in auto)
qed

text \<open>
  C9. A tool call leaves its trail. A call that is refused does not run its handler and
  changes nothing more. A call that runs has first left a row that it was authorized;
  after the handler it leaves a row with the same correlation id, for the same client,
  tool and connection, with the action of the tool's kind and the handler's outcome,
  and answers what the handler answered; only if that row cannot be written the answer
  is an internal error instead.
\<close>

theorem tool_call_audited:
  assumes "authorize_and_execute_audited ops x ax hx dr end_ms fresh call meanwhile st = (st', r)"
    and "authorize_call ops x ax hx dr call st = (st1, a)" and "meanwhile st1 = (st2, hr)"
    and "au_enabled (mr_audit_service (ss_runtime st))" and "au_enabled (mr_audit_service (ss_runtime st2))"
  shows "case a of
      Inl e \<Rightarrow> st' = st1 \<and> r = Err e
    | Inr out \<Rightarrow>
        (\<exists>row. server_rows st1 = server_rows st @ [row] \<and> dt_action row = Some ''mcp_authorize'' \<and>
          dt_outcome row = Some ''success'' \<and> dt_actor_id row = ss_client_id st \<and>
          dt_object_id row = Some (tl_tool_id call) \<and> dt_correlation_id row = Some (dr_correlation_id dr)) \<and>
        ((server_rows st' = server_rows st2 \<and> (\<exists>m. r = Err (internal_error m))) \<or>
         (\<exists>row. server_rows st' = server_rows st2 @ [row] \<and>
            execution_row call end_ms (ss_client_id st) (Some (dr_correlation_id dr)) (handler_succeeded hr) row \<and>
            r = and_then hr (\<lambda>(result, _). Ok result)))"
proof (cases a)
  case (Inl e)
  then show ?thesis using assms(1,2) by (simp add: authorize_and_execute_audited_def)
next
  case (Inr out)
  let ?req = "auth_request x dr call st"
  have out: "call_outcome ops x ax hx dr call st = (st1, Ok out)" "ao_allowed out"
    using assms(2) Inr by (auto simp: authorize_call_def and_then_eq_Ok map_err_def split: prod.splits sum.splits if_splits)
  then obtain clients rt' where auth: "authorize_with_approval_mut ops (se_uuid x) ax (hx_ids hx) (dr_correlation_id dr)
      (dr_consume_ms dr) (dr_request_ms dr) (dr_new_id dr) (dr_created_ms dr) clients (call_engine hx (ss_runtime st))
      ?req (tl_arguments call) (dr_now_ms dr) (ss_runtime st) = (rt', Ok out)"
    and st1: "st1 = st\<lparr>ss_runtime := rt'\<rparr>"
    by (auto simp: call_outcome_def map_err_def split: sum.splits prod.splits)
  have req: "ri_client_id (aq_identity ?req) = ss_client_id st" "aq_correlation_id ?req = Some (dr_correlation_id dr)"
    "aq_tool_id ?req = tl_tool_id call"
    by (simp_all add: auth_request_def)
  have corr: "ao_correlation_id out = Some (dr_correlation_id dr)" "ao_actor_id out = ss_client_id st"
    using authorize_mut_summary(3) [OF auth refl] authorize_mut_actor [OF auth] req by simp_all
  have "\<exists>row. server_rows st1 = server_rows st @ [row] \<and> answer_row ?req (dr_now_ms dr) out row"
    using authorize_mut_summary(2) [OF auth] assms(4) st1 by (auto simp: answered_def)
  then have "\<exists>row. server_rows st1 = server_rows st @ [row] \<and> dt_action row = Some ''mcp_authorize'' \<and>
      dt_outcome row = Some ''success'' \<and> dt_actor_id row = ss_client_id st \<and>
      dt_object_id row = Some (tl_tool_id call) \<and> dt_correlation_id row = Some (dr_correlation_id dr)"
    using out(2) corr req by (auto simp: answer_row_def audited_outcome_def MCP_AUTHORIZE_def)
  moreover have "finish_call ax end_ms fresh call out hr st2 = (st', r)"
    using assms(1-3) Inr by (simp add: authorize_and_execute_audited_def)
  from finish_call_outcome [OF this assms(5)] corr
  have "(server_rows st' = server_rows st2 \<and> (\<exists>m. r = Err (internal_error m))) \<or>
      (\<exists>row. server_rows st' = server_rows st2 @ [row] \<and>
         execution_row call end_ms (ss_client_id st) (Some (dr_correlation_id dr)) (handler_succeeded hr) row \<and>
         r = and_then hr (\<lambda>(result, _). Ok result))"
    by simp
  ultimately show ?thesis using Inr by simp
qed

text \<open>A call that runs, on the server just started.\<close>

definition sample_server_ext :: server_ext where
  "sample_server_ext = \<lparr>se_uuid = sample_uuid_ext, se_read_stored_flag = (\<lambda>_ _. Ok None)\<rparr>"

definition sample_call :: tool_call where
  "sample_call = \<lparr>tl_tool_id = ''list_connections'', tl_connection_id = None, tl_classification = Metadata,
     tl_arguments = JObject []\<rparr>"

definition sample_draws :: call_draws where
  "sample_draws = \<lparr>dr_correlation_id = ''c'', dr_consume_ms = 5, dr_request_ms = 5, dr_new_id = 8, dr_created_ms = 5,
     dr_now_ms = 5\<rparr>"

lemma sample_fields:
  "dr_correlation_id sample_draws = ''c''" "dr_consume_ms sample_draws = 5" "dr_request_ms sample_draws = 5"
  "dr_new_id sample_draws = 8" "dr_created_ms sample_draws = 5" "dr_now_ms sample_draws = 5"
  "hx_ids sample_orders = rev" "se_uuid sample_server_ext = sample_uuid_ext" "tl_arguments sample_call = JObject []"
  by (simp_all add: sample_draws_def sample_orders_def sample_server_ext_def sample_call_def)

lemma sample_call_outcome:
  "\<exists>st st1 out. sample_start = Ok st \<and>
     call_outcome in_memory_ops x steady_audit_ext sample_orders sample_draws sample_call st = (st1, Ok out) \<and>
     ao_allowed out \<and> ao_approved_execution_id out = None \<and>
     evaluate (hx_ids sample_orders) (call_engine sample_orders (ss_runtime st))
       (auth_evaluation (auth_request x sample_draws sample_call st)) = Ok Allow \<and>
     au_enabled (mr_audit_service (ss_runtime st)) \<and> au_enabled (mr_audit_service (ss_runtime st1))"
proof -
  obtain st where st: "sample_start = Ok st" "ss_client_id st = ''agent''"
    "mr_trusted_clients (ss_runtime st) =
       [(''agent'', \<lparr>td_id = ''agent'', td_name = ''Agent'', td_issuer = None, td_active = True\<rparr>)]"
    "mr_audit_service (ss_runtime st) = audit_service_new []" "as_store (mr_approval_service (ss_runtime st)) = []"
    using sample_start_runtime by auto
  let ?req = "auth_request x sample_draws sample_call st"
  let ?engine = "call_engine sample_orders (ss_runtime st)"
  let ?gate = "gate_resolve in_memory_ops (se_uuid x) 5 5 8 5 (JObject [])"
  obtain clients where clients: "call_clients sample_orders (ss_runtime st) = Ok clients"
    and trusted: "\<exists>c. evaluate_client clients \<lparr>ci_client_id = ''agent'', ci_issuer = None\<rparr> = Trusted c"
    by (auto simp: call_clients_def rt_list_trusted_clients_def sample_orders_def st(3) trusted_client_registry_new_def
        trusted_client_of_dto_def evaluate_client_def client_matches_def split: prod.splits)
  have req: "ri_client_id (aq_identity ?req) = ''agent''" "aq_tool_id ?req = ''list_connections''"
    "auth_evaluation ?req = sample_listing" "refusal clients ?req = None"
    using trusted by (auto simp: auth_request_def st(2) sample_call_def sample_listing_def unwrap_or_def refusal_def
        pre_checks_def less_execution_classification_def)
  have allow: "evaluate rev ?engine (auth_evaluation ?req) = Ok Allow"
  proof -
    obtain st' where "sample_start = Ok st'"
      "evaluate (hx_ids sample_orders) (call_engine sample_orders (ss_runtime st')) sample_listing = Ok Allow"
      using sample_start_allows by blast
    moreover from this(1) have "st' = st" unfolding st(1) by (rule Inr_inject [symmetric])
    ultimately show ?thesis unfolding req(3) by (simp add: sample_orders_def)
  qed
  have gate: "\<exists>res. snd (?gate ?req (ss_runtime st)) = Ok res"
    by (simp add: gate_resolve_def req(2) APPROVAL_QUEUE_TOOLS_def consume_approved_execution_mut_def
        svc_consume_approved_def in_memory_ops_def consume_approved_def st(5) request_execution_mut_def
        handler_request_execution_def svc_request_execution_def create_pending_def Let_def)
  have "roles_known ?engine (auth_evaluation ?req)"
    using allow evaluate_missing_role [of ?engine "auth_evaluation ?req" rev] by fastforce
  then have "\<exists>out. snd (authorize_request_with_approval steady_audit_ext rev ''c'' clients ?engine ?req (Some ?gate) 5
      (mr_audit_service (ss_runtime st), ss_runtime st)) = Ok out"
    using gate by (intro authorize_total steady_audit_ext_laws hash_order_rev)
      (auto simp: req trim_eq_Nil_iff is_whitespace_def)
  then obtain au g out where auth: "authorize_request_with_approval steady_audit_ext rev ''c'' clients ?engine ?req
      (Some ?gate) 5 (mr_audit_service (ss_runtime st), ss_runtime st) = ((au, g), Ok out)"
    by (metis surj_pair prod.collapse)
  then have "ao_allowed out \<and> ao_approved_execution_id out = None \<and> au_enabled au"
  proof (cases rule: authorize_cases)
    case allowed
    from allow_call_answered [OF allowed(4)] allowed(4) show ?thesis
      by (auto simp: answered_def st(4) audit_service_new_def allow_call_def record_then_def split: if_splits prod.splits sum.splits)
  qed (simp_all add: req(4) allow)
  moreover have "call_outcome in_memory_ops x steady_audit_ext sample_orders sample_draws sample_call st =
      (st\<lparr>ss_runtime := g\<lparr>mr_audit_service := au\<rparr>\<rparr>, Ok out)"
    using auth by (simp add: call_outcome_def clients authorize_with_approval_mut_def sample_fields)
  ultimately show ?thesis using st(1,4) allow by (auto simp: audit_service_new_def sample_fields)
qed

lemma sample_call_allowed:
  "\<exists>st st1 out. sample_start = Ok st \<and>
     authorize_call in_memory_ops sample_server_ext steady_audit_ext sample_orders sample_draws sample_call st =
       (st1, Ok out) \<and>
     au_enabled (mr_audit_service (ss_runtime st)) \<and> au_enabled (mr_audit_service (ss_runtime st1))"
  using sample_call_outcome [of sample_server_ext] by (fastforce simp: authorize_call_def)

theorem tool_call_audited_witness:
  "\<exists>st st1 out row. sample_start = Ok st \<and>
     authorize_call in_memory_ops sample_server_ext steady_audit_ext sample_orders sample_draws sample_call st =
       (st1, Ok out) \<and>
     server_rows st1 = server_rows st @ [row] \<and> dt_outcome row = Some ''success'' \<and> dt_correlation_id row = Some ''c''"
proof -
  obtain st st1 out where call: "sample_start = Ok st"
    "authorize_call in_memory_ops sample_server_ext steady_audit_ext sample_orders sample_draws sample_call st =
       (st1, Ok out)"
    "au_enabled (mr_audit_service (ss_runtime st))" "au_enabled (mr_audit_service (ss_runtime st1))"
    using sample_call_allowed by blast
  let ?meanwhile = "\<lambda>st. (st, Ok (\<lparr>tr_content = [], tr_is_error = None\<rparr>, audit_details_default))"
  obtain st' r where "authorize_and_execute_audited in_memory_ops sample_server_ext steady_audit_ext sample_orders
      sample_draws 6 ''f'' sample_call ?meanwhile st = (st', r)" by fastforce
  from tool_call_audited [OF this call(2) refl call(3,4)] have
    "\<exists>row. server_rows st1 = server_rows st @ [row] \<and> dt_outcome row = Some ''success'' \<and>
       dt_correlation_id row = Some ''c''"
    by (auto simp: sample_draws_def)
  with call(1,2) show ?thesis by blast
qed

end
