(* ===== verification/Approval_Tools.thy ===== *)
theory Approval_Tools
  imports Mcp_Server
begin

text \<open>
  The approval tools of the MCP server (\<^verbatim>\<open>dbflux_mcp_server/src/tools/approval.rs\<close>): what an
  agent sees of the queue of pending executions and what it can do to it. Each tool goes
  through the middleware of \<open>Mcp_Server\<close>; its handler is the function of the server state
  passed to it. \<open>pretty\<close> is the printer of \<^verbatim>\<open>serde_json\<close>. Lemmas: an agent can queue
  and look, and neither approve nor reject.
\<close>

section \<open>Classes of the tools\<close>

definition classify_tool :: "string \<Rightarrow> execution_classification option" where
  "classify_tool tool_id =
    (if tool_id \<in> {''list_connections'', ''connect'', ''disconnect'', ''list_databases'', ''list_schemas'',
                    ''list_tables'', ''list_collections'', ''describe_object'', ''get_connection_info'', ''list_scripts''}
     then Some Metadata
     else if tool_id \<in> {''select_data'', ''count_records'', ''aggregate_data'', ''explain_query'', ''preview_mutation'',
                         ''get_script'', ''query_audit_logs'', ''get_audit_entry'', ''export_audit_logs''}
     then Some Read
     else if tool_id \<in> {''insert_record'', ''update_records'', ''upsert_record'', ''create_script'', ''update_script''}
     then Some Write
     else if tool_id \<in> {''delete_records'', ''truncate_table''}
     then Some Destructive
     else if tool_id \<in> {''create_table'', ''create_index'', ''create_type'', ''delete_script''}
     then Some Admin
     else if tool_id \<in> {''alter_table'', ''execute_script'', ''drop_table'', ''drop_database'', ''drop_index''}
     then Some AdminDestructive
     else None)"

definition request_execution_classification :: "string \<Rightarrow> (string, execution_classification) result" where
  "request_execution_classification tool_id =
    and_then (ok_or (''Unsupported tool for approval request: '' @ tool_id) (classify_tool tool_id))
      (\<lambda>target_classification. Ok (classification_max Admin target_classification))"

section \<open>What the tools answer\<close>

definition to_json_content :: "(json \<Rightarrow> (string, string) result) \<Rightarrow> json \<Rightarrow> (mcp_error, content_block) result" where
  "to_json_content pretty v =
    map_err (\<lambda>e. internal_error (''Failed to serialize response: '' @ e)) (and_then (pretty v) (\<lambda>s. Ok (ContentText s)))"

definition json_answer :: "(json \<Rightarrow> (string, string) result) \<Rightarrow> json \<Rightarrow> (mcp_error, call_tool_result) result" where
  "json_answer pretty response = and_then (to_json_content pretty response) (\<lambda>c. Ok (call_success [c]))"

text \<open>The serialized forms of a plan and of a pending execution.\<close>

fun classification_snake :: "execution_classification \<Rightarrow> string" where
  "classification_snake Metadata = ''metadata''"
| "classification_snake Read = ''read''"
| "classification_snake Write = ''write''"
| "classification_snake Destructive = ''destructive''"
| "classification_snake Admin = ''admin''"
| "classification_snake AdminSafe = ''admin_safe''"
| "classification_snake AdminDestructive = ''admin_destructive''"

fun pending_status_snake :: "pending_status \<Rightarrow> string" where
  "pending_status_snake Pending = ''pending''"
| "pending_status_snake Approved = ''approved''"
| "pending_status_snake Rejected = ''rejected''"
| "pending_status_snake Consumed = ''consumed''"

definition plan_json :: "execution_plan \<Rightarrow> json" where
  "plan_json plan = JObject (obj_of
    [(''connection_id'', JString (ep_connection_id plan)), (''actor_id'', JString (ep_actor_id plan)),
     (''tool_id'', JString (ep_tool_id plan)),
     (''classification'', JString (classification_snake (ep_classification plan))),
     (''payload'', ep_payload plan)])"

definition pending_json :: "uuid_ext \<Rightarrow> pending_execution \<Rightarrow> json" where
  "pending_json u e = JObject (obj_of
    ([(''id'', JString (ux_to_string u (pe_id e))), (''status'', JString (pending_status_snake (pe_status e))),
      (''plan'', plan_json (pe_plan e)), (''created_at'', JNumber (show_int (pe_created_at e))),
      (''expires_at'', case pe_expires_at e of Some t \<Rightarrow> JNumber (show_int t) | None \<Rightarrow> JNull)] @
     (case pe_rejection_reason e of Some why \<Rightarrow> [(''rejection_reason'', JString why)] | None \<Rightarrow> [])))"

text \<open>The serialization of a pending execution does not fail, so \<open>ok()\<close> keeps it.\<close>

definition pending_execution_status_response :: "uuid_ext \<Rightarrow> pending_execution \<Rightarrow> int \<Rightarrow> json option" where
  "pending_execution_status_response u e now_ms =
    (if pe_status e = Pending \<and> is_none_or (pe_expires_at e) (\<lambda>expires. expires > now_ms)
     then Some (pending_json u e)
     else if pe_status e = Rejected
     then Some (JObject (obj_of
       [(''pending_id'', JString (ux_to_string u (pe_id e))), (''status'', JString ''rejected''),
        (''tool_id'', JString (ep_tool_id (pe_plan e))), (''connection_id'', JString (ep_connection_id (pe_plan e))),
        (''reason'', case pe_rejection_reason e of Some why \<Rightarrow> JString why | None \<Rightarrow> JNull),
        (''message'', JString (''A person rejected this execution in DBFlux. It will not run. '' @
           ''Repeating the identical call queues a new request.''))]))
     else None)"

definition DEFAULT_REJECTION_REASON :: string where "DEFAULT_REJECTION_REASON = ''rejected by approver''"

definition effective_rejection_reason :: "string option \<Rightarrow> string" where
  "effective_rejection_reason reason = unwrap_or DEFAULT_REJECTION_REASON reason"

section \<open>Requesting\<close>

record request_execution_params =
  rp_tool_id :: string
  rp_connection_id :: string
  rp_params :: json

definition request_plan :: "string \<Rightarrow> execution_classification \<Rightarrow> request_execution_params \<Rightarrow> execution_plan" where
  "request_plan client_id classification params =
    \<lparr>ep_connection_id = rp_connection_id params, ep_actor_id = client_id, ep_tool_id = rp_tool_id params,
     ep_classification = classification, ep_payload = rp_params params\<rparr>"

text \<open>The handler: \<open>t1\<close>, \<open>new_id\<close> and \<open>t2\<close> are what queueing takes.\<close>

definition request_handler ::
  "'s pending_store_ops \<Rightarrow> uuid_ext \<Rightarrow> (json \<Rightarrow> (string, string) result) \<Rightarrow> int \<Rightarrow> uuid \<Rightarrow> int \<Rightarrow>
   execution_classification \<Rightarrow> request_execution_params \<Rightarrow> 's server_state \<Rightarrow>
   's server_state \<times> (mcp_error, call_tool_result) result" where
  "request_handler ops u pretty t1 new_id t2 classification params st =
    (let plan = request_plan (ss_client_id st) classification params;
         (runtime', r) = request_execution_mut ops u t1 new_id t2 plan (ss_runtime st)
     in (st\<lparr>ss_runtime := runtime'\<rparr>,
         and_then (map_err (\<lambda>e. internal_error (governance_error_display e)) r) (\<lambda>pending.
           json_answer pretty (JObject (obj_of
             [(''pending_id'', JString (su_id pending)), (''status'', JString ''pending''),
              (''classification'', JString (classification_debug classification)),
              (''message'', JString ''Execution request created. Awaiting approval.'')])))))"

text \<open>
  The draws of a served call: those of the middleware, the time of its second half and an
  identifier for an outcome without correlation id.
\<close>

record served =
  sv_ext :: server_ext
  sv_audit :: audit_ext
  sv_orders :: hash_orders
  sv_draws :: call_draws
  sv_end_ms :: int
  sv_fresh_id :: string
  sv_arguments :: json

definition serve ::
  "'s pending_store_ops \<Rightarrow> served \<Rightarrow> string \<Rightarrow> string option \<Rightarrow> execution_classification \<Rightarrow>
   ('s server_state \<Rightarrow> 's server_state \<times> (mcp_error, call_tool_result) result) \<Rightarrow>
   's server_state \<Rightarrow> 's server_state \<times> (mcp_error, call_tool_result) result" where
  "serve ops c tool_id connection_id classification handler st =
    authorize_and_execute ops (sv_ext c) (sv_audit c) (sv_orders c) (sv_draws c) (sv_end_ms c) (sv_fresh_id c)
      \<lparr>tl_tool_id = tool_id, tl_connection_id = connection_id, tl_classification = classification,
       tl_arguments = sv_arguments c\<rparr> handler st"

definition request_execution ::
  "'s pending_store_ops \<Rightarrow> served \<Rightarrow> (json \<Rightarrow> (string, string) result) \<Rightarrow> int \<Rightarrow> uuid \<Rightarrow> int \<Rightarrow>
   request_execution_params \<Rightarrow> 's server_state \<Rightarrow> 's server_state \<times> (mcp_error, call_tool_result) result" where
  "request_execution ops c pretty t1 new_id t2 params st =
    (case map_err invalid_params (request_execution_classification (rp_tool_id params)) of
       Inl e \<Rightarrow> (st, Err e)
     | Inr classification \<Rightarrow>
         serve ops c ''request_execution'' (Some (rp_connection_id params)) classification
           (request_handler ops (se_uuid (sv_ext c)) pretty t1 new_id t2 classification params) st)"

section \<open>Looking\<close>

definition list_pending_handler ::
  "'s pending_store_ops \<Rightarrow> uuid_ext \<Rightarrow> (json \<Rightarrow> (string, string) result) \<Rightarrow> int \<Rightarrow> string option \<Rightarrow>
   's server_state \<Rightarrow> (mcp_error, call_tool_result) result" where
  "list_pending_handler ops u pretty now actor_id st =
    and_then (map_err (\<lambda>e. internal_error (approval_error_display u e))
        (svc_list_pending ops now (mr_approval_service (ss_runtime st)))) (\<lambda>pending_list.
      let filtered = (case actor_id of
            Some actor \<Rightarrow> filter (\<lambda>p. ep_actor_id (pe_plan p) = actor) pending_list
          | None \<Rightarrow> pending_list)
      in json_answer pretty (JObject (obj_of
           [(''pending_executions'', JArray (map (pending_json u) filtered)),
            (''count'', JNumber (show_int (int (length filtered))))])))"

definition list_pending_executions ::
  "'s pending_store_ops \<Rightarrow> served \<Rightarrow> (json \<Rightarrow> (string, string) result) \<Rightarrow> int \<Rightarrow> string option \<Rightarrow>
   's server_state \<Rightarrow> 's server_state \<times> (mcp_error, call_tool_result) result" where
  "list_pending_executions ops c pretty now actor_id st =
    serve ops c ''list_pending_executions'' None Read
      (\<lambda>st1. (st1, list_pending_handler ops (se_uuid (sv_ext c)) pretty now actor_id st1)) st"

definition parse_pending_id :: "uuid_ext \<Rightarrow> string \<Rightarrow> (mcp_error, uuid) result" where
  "parse_pending_id u pending_id = ok_or (invalid_params ''Invalid pending_id format'') (ux_parse_str u pending_id)"

definition pending_not_found :: "uuid_ext \<Rightarrow> uuid \<Rightarrow> mcp_error" where
  "pending_not_found u i = invalid_params (''Pending execution not found: '' @ ux_to_string u i)"

definition get_pending_handler ::
  "'s pending_store_ops \<Rightarrow> uuid_ext \<Rightarrow> (json \<Rightarrow> (string, string) result) \<Rightarrow> int \<Rightarrow> uuid \<Rightarrow>
   's server_state \<Rightarrow> (mcp_error, call_tool_result) result" where
  "get_pending_handler ops u pretty now pending_id st =
    and_then (map_err (\<lambda>e. internal_error (approval_error_display u e))
        (svc_get_execution ops pending_id (mr_approval_service (ss_runtime st)))) (\<lambda>execution.
      case Option.bind execution (\<lambda>e. pending_execution_status_response u e now) of
        Some response \<Rightarrow> json_answer pretty response
      | None \<Rightarrow> Err (pending_not_found u pending_id))"

definition get_pending_execution ::
  "'s pending_store_ops \<Rightarrow> served \<Rightarrow> (json \<Rightarrow> (string, string) result) \<Rightarrow> int \<Rightarrow> string \<Rightarrow>
   's server_state \<Rightarrow> 's server_state \<times> (mcp_error, call_tool_result) result" where
  "get_pending_execution ops c pretty now pending_id st =
    (case parse_pending_id (se_uuid (sv_ext c)) pending_id of
       Inl e \<Rightarrow> (st, Err e)
     | Inr i \<Rightarrow>
         serve ops c ''get_pending_execution'' None Read
           (\<lambda>st1. (st1, get_pending_handler ops (se_uuid (sv_ext c)) pretty now i st1)) st)"

section \<open>Resolving\<close>

text \<open>
  The handlers behind the two tools that are always denied: \<open>t0\<close> is the clock of the
  listing, the others are those of the resolution.
\<close>

definition approve_handler ::
  "'s pending_store_ops \<Rightarrow> uuid_ext \<Rightarrow> audit_ext \<Rightarrow> (json \<Rightarrow> (string, string) result) \<Rightarrow> int \<Rightarrow> int \<Rightarrow> int \<Rightarrow> int \<Rightarrow>
   uuid \<Rightarrow> 's server_state \<Rightarrow> 's server_state \<times> (mcp_error, call_tool_result) result" where
  "approve_handler ops u ax pretty t0 t1 ts t2 pending_id st =
    (case and_then (map_err (\<lambda>e. internal_error (approval_error_display u e))
              (svc_list_pending ops t0 (mr_approval_service (ss_runtime st)))) (\<lambda>pendings.
            ok_or (pending_not_found u pending_id)
              (map_option pe_plan (find (\<lambda>p. pe_id p = pending_id) pendings))) of
       Inl e \<Rightarrow> (st, Err e)
     | Inr replay_plan \<Rightarrow>
         (let (runtime', r) = approve_pending_execution_with_origin_mut ops u ax t1 ts t2
                (ux_to_string u pending_id) (ss_client_id st) origin_mcp (ss_runtime st)
          in (st\<lparr>ss_runtime := runtime'\<rparr>,
              and_then (map_err (\<lambda>e. invalid_params (governance_error_display e)) r) (\<lambda>_.
                json_answer pretty (JObject (obj_of
                  [(''approved'', JBool True), (''pending_id'', JString (ux_to_string u pending_id)),
                   (''status'', JString ''approved''),
                   (''replay_plan'', JObject (obj_of
                     [(''tool_id'', JString (ep_tool_id replay_plan)),
                      (''connection_id'', JString (ep_connection_id replay_plan)),
                      (''params'', ep_payload replay_plan)])),
                   (''message'', JString (''Execution approved. Call tool '' @ quoted (ep_tool_id replay_plan) @
                      '' with the provided params to execute.''))]))))))"

definition approve_execution ::
  "'s pending_store_ops \<Rightarrow> served \<Rightarrow> (json \<Rightarrow> (string, string) result) \<Rightarrow> int \<Rightarrow> int \<Rightarrow> int \<Rightarrow> int \<Rightarrow> string \<Rightarrow>
   's server_state \<Rightarrow> 's server_state \<times> (mcp_error, call_tool_result) result" where
  "approve_execution ops c pretty t0 t1 ts t2 pending_id st =
    (case parse_pending_id (se_uuid (sv_ext c)) pending_id of
       Inl e \<Rightarrow> (st, Err e)
     | Inr i \<Rightarrow>
         serve ops c ''approve_execution'' None Admin
           (approve_handler ops (se_uuid (sv_ext c)) (sv_audit c) pretty t0 t1 ts t2 i) st)"

definition reject_handler ::
  "'s pending_store_ops \<Rightarrow> uuid_ext \<Rightarrow> audit_ext \<Rightarrow> (json \<Rightarrow> (string, string) result) \<Rightarrow> int \<Rightarrow> int \<Rightarrow> int \<Rightarrow>
   uuid \<Rightarrow> string \<Rightarrow> 's server_state \<Rightarrow> 's server_state \<times> (mcp_error, call_tool_result) result" where
  "reject_handler ops u ax pretty t1 ts t2 pending_id rejection_reason st =
    (let (runtime', r) = reject_pending_execution_with_origin_mut ops u ax t1 ts t2
           (ux_to_string u pending_id) (ss_client_id st) (Some rejection_reason) origin_mcp (ss_runtime st)
     in (st\<lparr>ss_runtime := runtime'\<rparr>,
         and_then (map_err (\<lambda>e. invalid_params (governance_error_display e)) r) (\<lambda>_.
           json_answer pretty (JObject (obj_of
             [(''rejected'', JBool True), (''pending_id'', JString (ux_to_string u pending_id)),
              (''reason'', JString rejection_reason)])))))"

definition reject_execution ::
  "'s pending_store_ops \<Rightarrow> served \<Rightarrow> (json \<Rightarrow> (string, string) result) \<Rightarrow> int \<Rightarrow> int \<Rightarrow> int \<Rightarrow> string \<Rightarrow>
   string option \<Rightarrow> 's server_state \<Rightarrow> 's server_state \<times> (mcp_error, call_tool_result) result" where
  "reject_execution ops c pretty t1 ts t2 pending_id reason st =
    (case parse_pending_id (se_uuid (sv_ext c)) pending_id of
       Inl e \<Rightarrow> (st, Err e)
     | Inr i \<Rightarrow>
         serve ops c ''reject_execution'' None Admin
           (reject_handler ops (se_uuid (sv_ext c)) (sv_audit c) pretty t1 ts t2 i (effective_rejection_reason reason)) st)"

section \<open>An agent cannot resolve what it asked for\<close>

text \<open>What the middleware lets through is never one of the tools kept for a person.\<close>

lemma human_only_refused:
  assumes "aq_tool_id request \<in> set HUMAN_ONLY_APPROVAL_TOOLS"
  shows "refusal clients request \<noteq> None"
  using assms by (auto simp: refusal_def pre_checks_def HUMAN_ONLY_APPROVAL_TOOLS_def)

lemma authorize_human_only:
  assumes "authorize_with_approval_mut ops u x iter fresh t1 t2 new_id t3 clients engine request payload ts rt = (rt', r)"
    and "aq_tool_id request \<in> set HUMAN_ONLY_APPROVAL_TOOLS"
  shows "\<exists>au. rt' = rt\<lparr>mr_audit_service := au\<rparr>" and "r = Ok out \<Longrightarrow> \<not> ao_allowed out"
proof -
  obtain au rt1 where eq: "authorize_request_with_approval x iter fresh clients engine request
      (Some (gate_resolve ops u t1 t2 new_id t3 payload)) ts (mr_audit_service rt, rt) = ((au, rt1), r)"
    and rt': "rt' = rt1\<lparr>mr_audit_service := au\<rparr>"
    using assms(1) by (auto simp: authorize_with_approval_mut_def split: prod.splits)
  from eq have "rt1 = rt \<and> (r = Ok out \<longrightarrow> \<not> ao_allowed out)"
    by (cases rule: authorize_cases)
       (use human_only_refused [OF assms(2), of clients] in \<open>auto dest: deny_call_answered(2)\<close>)
  with rt' show "\<exists>au. rt' = rt\<lparr>mr_audit_service := au\<rparr>" and "r = Ok out \<Longrightarrow> \<not> ao_allowed out" by blast+
qed

lemma serve_human_only:
  assumes "tool_id \<in> set HUMAN_ONLY_APPROVAL_TOOLS"
  shows "\<exists>au e. serve ops c tool_id conn cl handler st = (st\<lparr>ss_runtime := (ss_runtime st)\<lparr>mr_audit_service := au\<rparr>\<rparr>, Err e)"
proof -
  let ?call = "\<lparr>tl_tool_id = tool_id, tl_connection_id = conn, tl_classification = cl, tl_arguments = sv_arguments c\<rparr>"
  let ?req = "auth_request (sv_ext c) (sv_draws c) ?call st"
  obtain clients where clients: "call_clients (sv_orders c) (ss_runtime st) = Ok clients"
    by (simp add: call_clients_def rt_list_trusted_clients_def)
  obtain rt' r where auth: "authorize_with_approval_mut ops (se_uuid (sv_ext c)) (sv_audit c) (hx_ids (sv_orders c))
      (dr_correlation_id (sv_draws c)) (dr_consume_ms (sv_draws c)) (dr_request_ms (sv_draws c)) (dr_new_id (sv_draws c))
      (dr_created_ms (sv_draws c)) clients (call_engine (sv_orders c) (ss_runtime st)) ?req (sv_arguments c)
      (dr_now_ms (sv_draws c)) (ss_runtime st) = (rt', r)" by fastforce
  have "aq_tool_id ?req \<in> set HUMAN_ONLY_APPROVAL_TOOLS" using assms by (simp add: auth_request_def)
  note denied = authorize_human_only [OF auth this]
  from denied(1) obtain au where "rt' = (ss_runtime st)\<lparr>mr_audit_service := au\<rparr>" by blast
  with auth denied(2) show ?thesis
    by (cases r) (auto simp: serve_def authorize_and_execute_def authorize_and_execute_audited_def authorize_call_def
      call_outcome_def clients map_err_def and_then_def Let_def)
qed

text \<open>
  C7. No call of an agent resolves a pending execution. Whatever the policies, the
  connection, the client and the state of the queue, \<open>approve_execution\<close> and
  \<open>reject_execution\<close> answer with an error, and the only thing of the server that they can
  change is its audit log: the queue, the configuration and the notifications stay as
  they were.
\<close>

theorem agents_cannot_resolve:
  "(\<exists>au e. approve_execution ops c pretty t0 t1 ts t2 pending_id st =
      (st\<lparr>ss_runtime := (ss_runtime st)\<lparr>mr_audit_service := au\<rparr>\<rparr>, Err e)) \<and>
   (\<exists>au e. reject_execution ops c pretty t1 ts t2 pending_id reason st =
      (st\<lparr>ss_runtime := (ss_runtime st)\<lparr>mr_audit_service := au\<rparr>\<rparr>, Err e))"
proof (cases "parse_pending_id (se_uuid (sv_ext c)) pending_id")
  case (Inl e)
  then show ?thesis
    by (intro conjI exI [of _ "mr_audit_service (ss_runtime st)"] exI [of _ e])
       (simp_all add: approve_execution_def reject_execution_def)
next
  case (Inr i)
  have "''approve_execution'' \<in> set HUMAN_ONLY_APPROVAL_TOOLS" "''reject_execution'' \<in> set HUMAN_ONLY_APPROVAL_TOOLS"
    by (simp_all add: HUMAN_ONLY_APPROVAL_TOOLS_def)
  from this [THEN serve_human_only] Inr show ?thesis
    unfolding approve_execution_def reject_execution_def by (simp only: sum.case) blast
qed

end
