(* ===== verification/Server_Runs.thy ===== *)
theory Server_Runs
  imports Approval_Tools
begin

text \<open>
  Runs of the MCP server: calls of the agent in two halves, resolutions by a person,
  changes of the configuration, and the purge when an application starts on the same
  store, in any order. The application that a person uses shares the store of pending
  executions and the audit table with the server, so its resolutions are steps on the
  same state. What happens is kept as a list of events. Lemmas: the run over the SQLite
  table is the run over the in-memory store, entry by entry; and in every run a tool ran
  only when the policies allowed it, or asked and a person had approved that very call,
  once for each approval.
\<close>

section \<open>Steps\<close>

datatype config_op =
    UpsertClient trusted_client_dto
  | DeleteClient string
  | UpsertRole policy_role_dto
  | DeleteRole string
  | UpsertPolicy tool_policy_dto
  | DeletePolicy string
  | SaveAssignment connection_policy_assignment_dto
  | ClearAll

fun apply_config :: "config_op \<Rightarrow> 's mcp_runtime \<Rightarrow> 's mcp_runtime" where
  "apply_config (UpsertClient c) rt = fst (upsert_trusted_client_mut c rt)"
| "apply_config (DeleteClient i) rt = fst (delete_trusted_client_mut i rt)"
| "apply_config (UpsertRole r) rt = fst (upsert_role_mut r rt)"
| "apply_config (DeleteRole i) rt = fst (delete_role_mut i rt)"
| "apply_config (UpsertPolicy p) rt = fst (upsert_policy_mut p rt)"
| "apply_config (DeletePolicy i) rt = fst (delete_policy_mut i rt)"
| "apply_config (SaveAssignment a) rt = fst (save_connection_policy_assignment_mut a rt)"
| "apply_config ClearAll rt = rt_clear rt"

text \<open>
  A call carries the read of the stored flag at its time, and what it draws. The handler of
  \<open>request_execution\<close> is the one that changes the queue itself; it runs between the two
  halves of its call.
\<close>

datatype server_step =
    StepCall "string \<Rightarrow> string \<Rightarrow> (string, bool option) result" hash_orders call_draws tool_call
  | StepFinish int string tool_call authorization_outcome "(mcp_error, call_tool_result \<times> audit_details) result"
  | StepRequest "json \<Rightarrow> (string, string) result" int uuid int execution_classification request_execution_params
  | StepApprove int int int string string event_origin
  | StepReject int int int string string "string option" event_origin
  | StepPurge int
  | StepConfig config_op

text \<open>
  A tool ran for a plan, with the decision of the policies and the approval it used; a
  call was queued; a person's approval or rejection took effect.
\<close>

datatype server_event =
    Ran execution_plan "(policy_engine_error, policy_decision) result" "string option"
  | QueuedFor execution_plan string
  | PersonApproved string string
  | PersonRejected string string

definition queue_events ::
  "execution_plan \<Rightarrow> (authorization_error, approval_resolution) result \<Rightarrow> server_event list" where
  "queue_events plan r = (case r of Inr (Queued i) \<Rightarrow> [QueuedFor plan i] | _ \<Rightarrow> [])"

definition run_events ::
  "execution_plan \<Rightarrow> (policy_engine_error, policy_decision) result \<Rightarrow> ('e, authorization_outcome) result \<Rightarrow>
   server_event list" where
  "run_events plan decision r =
    (case r of
       Inr out \<Rightarrow> if ao_allowed out then [Ran plan decision (ao_approved_execution_id out)] else []
     | Inl _ \<Rightarrow> [])"

definition exec_call ::
  "'s pending_store_ops \<Rightarrow> server_ext \<Rightarrow> audit_ext \<Rightarrow> hash_orders \<Rightarrow> call_draws \<Rightarrow> tool_call \<Rightarrow> 's server_state \<Rightarrow>
   's server_state \<times> server_event list" where
  "exec_call ops x ax hx dr call st =
    (let rt = ss_runtime st;
         req = auth_request x dr call st;
         plan = gate_plan (tl_arguments call) req;
         (st', r) = call_outcome ops x ax hx dr call st;
         asked = (case call_clients hx rt of
           Inl _ \<Rightarrow> False
         | Inr clients \<Rightarrow> asks (hx_ids hx) clients (call_engine hx rt) req);
         resolution = snd (gate_resolve ops (se_uuid x) (dr_consume_ms dr) (dr_request_ms dr) (dr_new_id dr)
           (dr_created_ms dr) (tl_arguments call) req rt)
     in (st', (if asked then queue_events plan resolution else []) @
          run_events plan (evaluate (hx_ids hx) (call_engine hx rt) (auth_evaluation req)) r))"

definition exec_request ::
  "'s pending_store_ops \<Rightarrow> uuid_ext \<Rightarrow> (json \<Rightarrow> (string, string) result) \<Rightarrow> int \<Rightarrow> uuid \<Rightarrow> int \<Rightarrow>
   execution_classification \<Rightarrow> request_execution_params \<Rightarrow> 's server_state \<Rightarrow> 's server_state \<times> server_event list" where
  "exec_request ops u pretty t1 new_id t2 classification params st =
    (let plan = request_plan (ss_client_id st) classification params
     in (fst (request_handler ops u pretty t1 new_id t2 classification params st),
         case snd (request_execution_mut ops u t1 new_id t2 plan (ss_runtime st)) of
           Inl _ \<Rightarrow> []
         | Inr pending \<Rightarrow> [QueuedFor plan (su_id pending)]))"

definition resolved_events :: "uuid_ext \<Rightarrow> (string \<Rightarrow> server_event) \<Rightarrow> string \<Rightarrow> ('e, 'a) result \<Rightarrow> server_event list" where
  "resolved_events u ev pending_id r =
    (case (ux_parse_str u pending_id, r) of (Some i, Inr _) \<Rightarrow> [ev (ux_to_string u i)] | _ \<Rightarrow> [])"

text \<open>
  An approval takes effect in the queue even when its audit record then fails, so the
  event follows the queue; a rejection that is not recorded changes nothing.
\<close>

definition exec_approve_step ::
  "'s pending_store_ops \<Rightarrow> uuid_ext \<Rightarrow> audit_ext \<Rightarrow> int \<Rightarrow> int \<Rightarrow> int \<Rightarrow> string \<Rightarrow> string \<Rightarrow> event_origin \<Rightarrow>
   's server_state \<Rightarrow> 's server_state \<times> server_event list" where
  "exec_approve_step ops u ax t1 ts t2 pending_id actor origin st =
    (let rt = ss_runtime st;
         (rt', _) = approve_pending_execution_with_origin_mut ops u ax t1 ts t2 pending_id actor origin rt
     in (st\<lparr>ss_runtime := rt'\<rparr>,
         case handler_get_pending_execution ops u t1 pending_id (mr_approval_service rt) of
           Inl _ \<Rightarrow> []
         | Inr _ \<Rightarrow> resolved_events u (PersonApproved actor) pending_id
             (snd (handler_approve_execution ops u t2 pending_id (mr_approval_service rt)))))"

definition exec_reject_step ::
  "'s pending_store_ops \<Rightarrow> uuid_ext \<Rightarrow> audit_ext \<Rightarrow> int \<Rightarrow> int \<Rightarrow> int \<Rightarrow> string \<Rightarrow> string \<Rightarrow> string option \<Rightarrow>
   event_origin \<Rightarrow> 's server_state \<Rightarrow> 's server_state \<times> server_event list" where
  "exec_reject_step ops u ax t1 ts t2 pending_id actor why origin st =
    (let (rt', r) = reject_pending_execution_with_origin_mut ops u ax t1 ts t2 pending_id actor why origin (ss_runtime st)
     in (st\<lparr>ss_runtime := rt'\<rparr>, resolved_events u (PersonRejected actor) pending_id r))"

fun server_exec ::
  "'s pending_store_ops \<Rightarrow> uuid_ext \<Rightarrow> audit_ext \<Rightarrow> server_step \<Rightarrow> 's server_state \<Rightarrow>
   's server_state \<times> server_event list" where
  "server_exec ops u ax (StepCall flag hx dr call) st =
    exec_call ops \<lparr>se_uuid = u, se_read_stored_flag = flag\<rparr> ax hx dr call st"
| "server_exec ops u ax (StepFinish ts fresh call out hr) st = (fst (finish_call ax ts fresh call out hr st), [])"
| "server_exec ops u ax (StepRequest pretty t1 new_id t2 classification params) st =
    exec_request ops u pretty t1 new_id t2 classification params st"
| "server_exec ops u ax (StepApprove t1 ts t2 pending_id actor origin) st =
    exec_approve_step ops u ax t1 ts t2 pending_id actor origin st"
| "server_exec ops u ax (StepReject t1 ts t2 pending_id actor why origin) st =
    exec_reject_step ops u ax t1 ts t2 pending_id actor why origin st"
| "server_exec ops u ax (StepPurge now) st =
    (st\<lparr>ss_runtime := (ss_runtime st)\<lparr>mr_approval_service :=
       fst (svc_purge_terminal_and_expired ops now (mr_approval_service (ss_runtime st)))\<rparr>\<rparr>, [])"
| "server_exec ops u ax (StepConfig op) st = (st\<lparr>ss_runtime := apply_config op (ss_runtime st)\<rparr>, [])"

fun server_run ::
  "'s pending_store_ops \<Rightarrow> uuid_ext \<Rightarrow> audit_ext \<Rightarrow> server_step list \<Rightarrow> 's server_state \<Rightarrow>
   's server_state \<times> server_event list" where
  "server_run ops u ax [] st = (st, [])"
| "server_run ops u ax (step # steps) st =
    (let (st1, ev) = server_exec ops u ax step st; (st2, evs) = server_run ops u ax steps st1 in (st2, ev @ evs))"

text \<open>The identifiers the calls of a run draw.\<close>

fun step_ids :: "server_step \<Rightarrow> uuid list" where
  "step_ids (StepCall _ _ dr _) = [dr_new_id dr]"
| "step_ids (StepRequest _ _ new_id _ _ _) = [new_id]"
| "step_ids _ = []"

abbreviation queue_of :: "'s server_state \<Rightarrow> 's approval_service" where
  "queue_of st \<equiv> mr_approval_service (ss_runtime st)"

section \<open>What each step does to the queue\<close>

lemma apply_config_queue [simp]: "mr_approval_service (apply_config op rt) = mr_approval_service rt"
  by (cases op) (simp_all add: config_op_defs)

lemma finish_call_queue [simp]: "queue_of (fst (finish_call ax ts fresh call out hr st)) = queue_of st"
  by (simp add: finish_call_def audit_execution_with_details_def Let_def split: prod.splits sum.splits)

lemma record_audit_queue:
  "record_audit_event x event rt = (rt', r) \<Longrightarrow> mr_approval_service rt' = mr_approval_service rt"
  by (auto simp: record_audit_event_def push_event_def Let_def split: sum.splits prod.splits if_splits)

lemma approve_queue:
  "mr_approval_service (fst (approve_pending_execution_with_origin_mut ops u ax t1 ts t2 pending_id actor origin rt)) =
    (case handler_get_pending_execution ops u t1 pending_id (mr_approval_service rt) of
       Inl _ \<Rightarrow> mr_approval_service rt
     | Inr _ \<Rightarrow> fst (handler_approve_execution ops u t2 pending_id (mr_approval_service rt)))"
  by (auto simp: approve_pending_execution_with_origin_mut_def push_event_def Let_def
      split: sum.splits prod.splits dest: record_audit_queue)

lemma reject_queue:
  assumes "reject_pending_execution_with_origin_mut ops u ax t1 ts t2 pending_id actor why origin rt = (rt', r)"
  defines "rejected \<equiv> handler_reject_execution ops u t2 pending_id (normalize_rejection_reason why) (mr_approval_service rt)"
  shows "mr_approval_service rt' = mr_approval_service rt \<and> (\<exists>e. r = Err e) \<or>
    mr_approval_service rt' = fst rejected \<and> ((\<exists>a. r = Ok a) \<longleftrightarrow> (\<exists>a. snd rejected = Ok a))"
  using assms
  by (auto simp: reject_pending_execution_with_origin_mut_def push_event_def Let_def
      split: sum.splits prod.splits dest!: record_audit_queue)

section \<open>The story of an entry\<close>

definition used_approval :: "server_event list \<Rightarrow> string \<Rightarrow> bool" where
  "used_approval evs s \<longleftrightarrow> (\<exists>plan d. Ran plan d (Some s) \<in> set evs)"

definition rejected_by :: "server_event list \<Rightarrow> string \<Rightarrow> bool" where
  "rejected_by evs s \<longleftrightarrow> (\<exists>actor. PersonRejected actor s \<in> set evs)"

definition queued_then_approved :: "server_event list \<Rightarrow> execution_plan \<Rightarrow> string \<Rightarrow> bool" where
  "queued_then_approved evs plan s \<longleftrightarrow>
    (\<exists>k m actor. k < m \<and> m < length evs \<and> evs ! k = QueuedFor plan s \<and> evs ! m = PersonApproved actor s)"

text \<open>What the events so far say of an entry of the queue.\<close>

definition entry_story :: "server_event list \<Rightarrow> pending_execution \<Rightarrow> string \<Rightarrow> bool" where
  "entry_story evs e s \<longleftrightarrow>
    (pe_status e = Pending \<longrightarrow> QueuedFor (pe_plan e) s \<in> set evs) \<and>
    (pe_status e = Approved \<longrightarrow> queued_then_approved evs (pe_plan e) s) \<and>
    (pe_status e \<in> {Pending, Approved} \<longrightarrow> \<not> used_approval evs s \<and> \<not> rejected_by evs s)"

text \<open>When a tool may run, after the events before.\<close>

fun run_allowed :: "server_event list \<Rightarrow> server_event \<Rightarrow> bool" where
  "run_allowed before (Ran plan d None) \<longleftrightarrow>
    ep_tool_id plan \<notin> set HUMAN_ONLY_APPROVAL_TOOLS \<and>
    (d = Ok Allow \<or> d = Ok RequireApproval \<and> ep_tool_id plan \<in> set APPROVAL_QUEUE_TOOLS)"
| "run_allowed before (Ran plan d (Some s)) \<longleftrightarrow>
    ep_tool_id plan \<notin> set HUMAN_ONLY_APPROVAL_TOOLS \<and> d = Ok RequireApproval \<and> \<not> used_approval before s \<and> \<not> rejected_by before s \<and>
    (\<exists>queued. approval_matches_plan queued plan \<and> queued_then_approved before queued s)"
| "run_allowed before _ \<longleftrightarrow> True"

fun runs_allowed :: "server_event list \<Rightarrow> server_event list \<Rightarrow> bool" where
  "runs_allowed before [] \<longleftrightarrow> True"
| "runs_allowed before (e # es) \<longleftrightarrow> run_allowed before e \<and> runs_allowed (before @ [e]) es"

fun about :: "server_event \<Rightarrow> string option" where
  "about (Ran _ _ s) = s"
| "about (QueuedFor _ s) = Some s"
| "about (PersonApproved _ s) = Some s"
| "about (PersonRejected _ s) = Some s"

definition server_inv ::
  "('s \<Rightarrow> uuid \<rightharpoonup> pending_execution) \<Rightarrow> ('s \<Rightarrow> bool) \<Rightarrow> (uuid \<Rightarrow> string) \<Rightarrow> uuid set \<Rightarrow> server_event list \<Rightarrow>
   's approval_service \<Rightarrow> bool" where
  "server_inv view sinv str used evs sv \<longleftrightarrow>
    sinv (as_store sv) \<and> runs_allowed [] evs \<and>
    (\<forall>i e. view (as_store sv) i = Some e \<longrightarrow> i \<in> used \<and> entry_story evs e (str i)) \<and>
    (\<forall>e\<in>set evs. \<forall>s. about e = Some s \<longrightarrow> s \<in> str ` used)"

lemma runs_allowed_append:
  "runs_allowed before (xs @ ys) \<longleftrightarrow> runs_allowed before xs \<and> runs_allowed (before @ xs) ys"
  by (induction xs arbitrary: before) auto

lemma runs_allowed_nth:
  "runs_allowed before es \<Longrightarrow> n < length es \<Longrightarrow> run_allowed (before @ take n es) (es ! n)"
proof (induction es arbitrary: before n)
  case (Cons e es)
  then show ?case using Cons.IH [of "before @ [e]" "n - 1"] by (cases n) auto
qed simp

lemma queued_then_approved_mono: "queued_then_approved evs plan s \<Longrightarrow> queued_then_approved (evs @ ev) plan s"
proof -
  assume "queued_then_approved evs plan s"
  then obtain k m actor where "k < m" "m < length evs" "evs ! k = QueuedFor plan s" "evs ! m = PersonApproved actor s"
    by (auto simp: queued_then_approved_def)
  then show ?thesis
    unfolding queued_then_approved_def
    by (intro exI [of _ k] exI [of _ m] exI [of _ actor]) (simp add: nth_append)
qed

lemma queued_now_approved:
  "QueuedFor plan s \<in> set evs \<Longrightarrow> queued_then_approved (evs @ [PersonApproved actor s]) plan s"
proof -
  assume "QueuedFor plan s \<in> set evs"
  then obtain k where "k < length evs" "evs ! k = QueuedFor plan s" by (auto simp: in_set_conv_nth)
  then show ?thesis
    unfolding queued_then_approved_def
    by (intro exI [of _ k] exI [of _ "length evs"] exI [of _ actor]) (simp add: nth_append)
qed

text \<open>Events about other entries do not change a story.\<close>

lemma entry_story_append:
  assumes "entry_story evs e s" and "\<forall>v\<in>set ev. about v \<noteq> Some s"
  shows "entry_story (evs @ ev) e s"
proof -
  have "\<not> used_approval ev s" "\<not> rejected_by ev s"
    using assms(2) by (fastforce simp: used_approval_def rejected_by_def)+
  then have "used_approval (evs @ ev) s = used_approval evs s" "rejected_by (evs @ ev) s = rejected_by evs s"
    by (auto simp: used_approval_def rejected_by_def)
  with assms(1) show ?thesis by (auto simp: entry_story_def queued_then_approved_mono)
qed

lemma server_inv_update:
  assumes inv: "server_inv view sinv str used evs sv" and "inj str" and "sinv (as_store sv')"
    and "\<And>j e. view (as_store sv') j = Some e \<Longrightarrow> j \<noteq> i \<Longrightarrow> view (as_store sv) j = Some e"
    and "\<And>e. view (as_store sv') i = Some e \<Longrightarrow> entry_story (evs @ ev) e (str i)"
    and "\<forall>v\<in>set ev. about v = None \<or> about v = Some (str i)" and "runs_allowed evs ev" and "i \<in> used'" and "used \<subseteq> used'"
  shows "server_inv view sinv str used' (evs @ ev) sv'"
  unfolding server_inv_def
proof (intro conjI allI impI ballI)
  show "sinv (as_store sv')" by fact
  show "runs_allowed [] (evs @ ev)" using inv assms(7) by (simp add: server_inv_def runs_allowed_append)
next
  fix j e
  assume e: "view (as_store sv') j = Some e"
  show "j \<in> used'"
    using e inv assms(4,8,9) by (cases "j = i") (auto simp: server_inv_def)
  show "entry_story (evs @ ev) e (str j)"
  proof (cases "j = i")
    case False
    with e assms(4) inv have "entry_story evs e (str j)" by (auto simp: server_inv_def)
    moreover have "\<forall>v\<in>set ev. about v \<noteq> Some (str j)" using assms(2,6) False by (metis injD option.distinct(1) option.inject)
    ultimately show ?thesis by (rule entry_story_append)
  qed (use e assms(5) in simp)
next
  fix v s
  assume "v \<in> set (evs @ ev)" "about v = Some s"
  with inv assms(6,8,9) show "s \<in> str ` used'" by (fastforce simp: server_inv_def)
qed

text \<open>A step that queues one entry.\<close>

lemma server_inv_queued:
  assumes inv: "server_inv view sinv str used evs sv" and inj: "inj str" and fresh: "i \<notin> used"
    and "sinv (as_store sv')" and "view (as_store sv') = (view (as_store sv))(i \<mapsto> e)"
    and "pe_status e = Pending" and ev: "ev = [QueuedFor (pe_plan e) (str i)]"
  shows "server_inv view sinv str (insert i used) (evs @ ev) sv'"
proof -
  have "str i \<notin> str ` used" using inj fresh by (auto dest: injD)
  then have "\<not> used_approval evs (str i)" "\<not> rejected_by evs (str i)"
    using inv by (fastforce simp: server_inv_def used_approval_def rejected_by_def)+
  then have "entry_story (evs @ ev) e (str i)"
    using assms(6) by (auto simp: ev entry_story_def used_approval_def rejected_by_def)
  with assms show ?thesis by (intro server_inv_update [OF inv inj, where i = i]) (auto split: if_splits)
qed

text \<open>A step that changes no entry and names none.\<close>

lemma server_inv_quiet:
  assumes "server_inv view sinv str used evs sv" and "sinv (as_store sv')"
    and "\<And>j e. view (as_store sv') j = Some e \<Longrightarrow> view (as_store sv) j = Some e"
    and "\<forall>v\<in>set ev. about v = None" and "runs_allowed evs ev" and "used \<subseteq> used'"
  shows "server_inv view sinv str used' (evs @ ev) sv'"
proof -
  have "entry_story (evs @ ev) e (str j)" "j \<in> used" if "view (as_store sv') j = Some e" for j e
    using assms(1) assms(3) [OF that] assms(4) by (auto simp: server_inv_def intro: entry_story_append)
  moreover have "s \<in> str ` used'" if "v \<in> set (evs @ ev)" "about v = Some s" for v s
  proof -
    have "s \<in> str ` used" using assms(1,4) that by (auto simp: server_inv_def)
    then show ?thesis using assms(6) by blast
  qed
  ultimately show ?thesis
    using assms(1,2,5,6) unfolding server_inv_def runs_allowed_append by (simp add: subset_iff)
qed

section \<open>The steps on a store that meets the contract\<close>

context pending_store
begin

lemma gate_effect:
  assumes "sinv (as_store (mr_approval_service rt))" and "view (as_store (mr_approval_service rt)) new_id = None"
    and "gate_resolve ops u t1 t2 new_id t3 payload request rt = (rt', r)"
  shows "sinv (as_store (mr_approval_service rt')) \<and>
    (let s = as_store (mr_approval_service rt); s' = as_store (mr_approval_service rt'); plan = gate_plan payload request
     in (r = Ok Exempt \<and> aq_tool_id request \<in> set APPROVAL_QUEUE_TOOLS \<and> view s' = view s) \<or>
        (\<exists>e. view s (pe_id e) = Some e \<and> consumable t1 plan e \<and> r = Ok (Granted (ux_to_string u (pe_id e))) \<and>
           view s' = (view s)(pe_id e \<mapsto> e\<lparr>pe_status := Consumed\<rparr>)) \<or>
        (\<exists>e. pe_status e = Pending \<and> pe_plan e = plan \<and> r = Ok (Queued (ux_to_string u new_id)) \<and>
           view s' = (view s)(new_id \<mapsto> e)))"
proof (cases "aq_tool_id request \<in> set APPROVAL_QUEUE_TOOLS")
  case True
  with assms show ?thesis by (simp add: gate_resolve_def Let_def)
next
  case False
  let ?plan = "gate_plan payload request"
  have consumed: "sinv (as_store (mr_approval_service (fst (consume_approved_execution_mut ops u t1 ?plan rt))))"
    using consume_some [OF assms(1), of t1 ?plan] consume_none [OF assms(1), of t1 ?plan]
    by (fastforce simp: consume_approved_execution_mut_def svc_consume_approved_def push_event_def)
  show ?thesis
  proof (cases "\<exists>e\<in>ran (view (as_store (mr_approval_service rt))). consumable t1 ?plan e")
    case True
    with gate_resolve_spec [OF assms False] obtain e where
      "view (as_store (mr_approval_service rt)) (pe_id e) = Some e" "consumable t1 ?plan e"
      "r = Ok (Granted (ux_to_string u (pe_id e)))"
      "view (as_store (mr_approval_service rt')) =
         (view (as_store (mr_approval_service rt)))(pe_id e \<mapsto> e\<lparr>pe_status := Consumed\<rparr>)"
      by (auto simp: Let_def)
    moreover from this(3) assms(3) False consumed have "sinv (as_store (mr_approval_service rt'))"
      by (auto simp: gate_resolve_def Let_def split: prod.splits sum.splits option.splits)
    ultimately show ?thesis by (auto simp: Let_def)
  next
    case none: False
    obtain rt1 where 1: "consume_approved_execution_mut ops u t1 ?plan rt = (rt1, Ok None)"
      "sinv (as_store (mr_approval_service rt1))"
      "view (as_store (mr_approval_service rt1)) = view (as_store (mr_approval_service rt))"
      using consume_mut_spec [OF assms(1), of u t1 ?plan] none by (metis surj_pair)
    have "sinv (as_store (mr_approval_service (fst (request_execution_mut ops u t2 new_id t3 ?plan rt1))))"
      using create_ok [OF 1(2), of new_id t3 ?plan "Some (wrap_i64 (t2 + as_ttl_ms (mr_approval_service rt1)))"]
        assms(2) 1(3)
      by (auto simp: request_execution_mut_def handler_request_execution_def svc_request_execution_def push_event_def)
    with 1 assms(3) False have "sinv (as_store (mr_approval_service rt'))"
      by (auto simp: gate_resolve_def Let_def split: prod.splits sum.splits)
    moreover let ?e = "\<lparr>pe_id = new_id, pe_status = Pending, pe_plan = ?plan, pe_created_at = t3,
        pe_expires_at = Some (wrap_i64 (t2 + as_ttl_ms (mr_approval_service rt))), pe_rejection_reason = None\<rparr>"
    have "r = Ok (Queued (ux_to_string u new_id))"
      "view (as_store (mr_approval_service rt')) = (view (as_store (mr_approval_service rt)))(new_id \<mapsto> ?e)"
      using gate_resolve_spec [OF assms False] none by (simp_all add: Let_def)
    ultimately show ?thesis unfolding Let_def by (intro conjI disjI2 exI [of _ ?e]) simp_all
  qed
qed

lemma exec_call_inv:
  assumes inv: "server_inv view sinv (ux_to_string u) used evs (queue_of st)" and inj: "inj (ux_to_string u)"
    and fresh: "dr_new_id dr \<notin> used" and x: "se_uuid x = u"
    and "exec_call ops x ax hx dr call st = (st', ev)"
  shows "server_inv view sinv (ux_to_string u) (insert (dr_new_id dr) used) (evs @ ev) (queue_of st')"
proof -
  let ?rt = "ss_runtime st"
  let ?req = "auth_request x dr call st"
  let ?plan = "gate_plan (tl_arguments call) ?req"
  let ?d = "evaluate (hx_ids hx) (call_engine hx ?rt) (auth_evaluation ?req)"
  obtain clients where clients: "call_clients hx ?rt = Ok clients"
    by (simp add: call_clients_def rt_list_trusted_clients_def)
  let ?asked = "asks (hx_ids hx) clients (call_engine hx ?rt) ?req"
  obtain rt' r where auth: "authorize_with_approval_mut ops u ax (hx_ids hx) (dr_correlation_id dr)
      (dr_consume_ms dr) (dr_request_ms dr) (dr_new_id dr) (dr_created_ms dr) clients (call_engine hx ?rt)
      ?req (tl_arguments call) (dr_now_ms dr) ?rt = (rt', r)" by fastforce
  obtain g res where gate: "gate_resolve ops u (dr_consume_ms dr) (dr_request_ms dr) (dr_new_id dr)
      (dr_created_ms dr) (tl_arguments call) ?req ?rt = (g, res)" by fastforce
  have st': "queue_of st' = mr_approval_service rt'"
    and ev: "ev = (if ?asked then queue_events ?plan res else []) @ run_events ?plan ?d r"
    using assms(5) auth gate x
    by (auto simp: exec_call_def call_outcome_def clients run_events_def map_err_def Let_def split: sum.splits)
  have queue: "queue_of st' = (if ?asked then mr_approval_service g else queue_of st)"
    using authorize_mut_summary(1) [OF auth] gate st' by simp
  have human: "run_events ?plan ?d r = [] \<or> ep_tool_id ?plan \<notin> set HUMAN_ONLY_APPROVAL_TOOLS"
    using authorize_human_only(2) [OF auth] by (auto simp: run_events_def gate_plan_def split: sum.splits)
  have ran: "run_events ?plan ?d r = [] \<or>
      (run_events ?plan ?d r = [Ran ?plan ?d None] \<and> (?d = Ok Allow \<or> ?asked \<and> res = Ok Exempt)) \<or>
      (\<exists>i. run_events ?plan ?d r = [Ran ?plan ?d (Some i)] \<and> ?asked \<and> res = Ok (Granted i))"
  proof (cases "\<exists>out. r = Ok out \<and> ao_allowed out")
    case True
    then obtain out where "r = Ok out" "ao_allowed out" by blast
    with authorize_mut_summary(4) [OF auth this] gate show ?thesis
      by (auto simp: run_events_def split: option.splits)
  qed (auto simp: run_events_def split: sum.splits)
  have sinv: "sinv (as_store (queue_of st))" using inv by (simp add: server_inv_def)
  show ?thesis
  proof (cases ?asked)
    case False
    with ran human ev queue sinv show ?thesis by (intro server_inv_quiet [OF inv]) auto
  next
    case asked: True
    then have d: "?d = Ok RequireApproval" by (simp add: asks_def)
    have "view (as_store (queue_of st)) (dr_new_id dr) = None"
      using inv fresh by (cases "view (as_store (queue_of st)) (dr_new_id dr)") (auto simp: server_inv_def)
    note effect = gate_effect [OF sinv this gate, unfolded Let_def]
    from effect consider (exempt) "res = Ok Exempt" "aq_tool_id ?req \<in> set APPROVAL_QUEUE_TOOLS"
        "view (as_store (mr_approval_service g)) = view (as_store (queue_of st))"
      | (granted) e where "view (as_store (queue_of st)) (pe_id e) = Some e" "consumable (dr_consume_ms dr) ?plan e"
        "res = Ok (Granted (ux_to_string u (pe_id e)))"
        "view (as_store (mr_approval_service g)) =
          (view (as_store (queue_of st)))(pe_id e \<mapsto> e\<lparr>pe_status := Consumed\<rparr>)"
      | (queued) e where "pe_status e = Pending" "pe_plan e = ?plan" "res = Ok (Queued (ux_to_string u (dr_new_id dr)))"
        "view (as_store (mr_approval_service g)) = (view (as_store (queue_of st)))(dr_new_id dr \<mapsto> e)"
      by blast
    then show ?thesis
    proof cases
      case exempt
      with ran human ev queue asked effect d show ?thesis
        by (intro server_inv_quiet [OF inv]) (auto simp: queue_events_def gate_plan_def)
    next
      case (granted e)
      let ?s = "ux_to_string u (pe_id e)"
      have "ev = [] \<or> ev = [Ran ?plan ?d (Some ?s)] \<and> ep_tool_id ?plan \<notin> set HUMAN_ONLY_APPROVAL_TOOLS"
        using ran human ev asked granted(3) d by (auto simp: queue_events_def)
      moreover have "pe_status e = Approved" "approval_matches_plan (pe_plan e) ?plan"
        using granted(2) by (auto simp: consumable_def)
      with inv granted(1) have "pe_id e \<in> used"
        "ep_tool_id ?plan \<notin> set HUMAN_ONLY_APPROVAL_TOOLS \<Longrightarrow> run_allowed evs (Ran ?plan ?d (Some ?s))"
        by (auto simp: server_inv_def entry_story_def d)
      ultimately show ?thesis
        using queue asked effect granted(4)
        by (intro server_inv_update [OF inv inj, where i = "pe_id e"]) (auto simp: entry_story_def split: if_splits)
    next
      case (queued e)
      have "ev = [QueuedFor ?plan (ux_to_string u (dr_new_id dr))]"
        using ran ev asked queued(3) d by (auto simp: queue_events_def)
      with queue asked effect queued show ?thesis
        by (intro server_inv_queued [OF inv inj fresh, where e = e]) auto
    qed
  qed
qed

lemma exec_request_inv:
  assumes inv: "server_inv view sinv (ux_to_string u) used evs (queue_of st)" and inj: "inj (ux_to_string u)"
    and fresh: "new_id \<notin> used" and "exec_request ops u pretty t1 new_id t2 cl params st = (st', ev)"
  shows "server_inv view sinv (ux_to_string u) (insert new_id used) (evs @ ev) (queue_of st')"
proof -
  have sinv: "sinv (as_store (queue_of st))" using inv by (simp add: server_inv_def)
  have none: "view (as_store (queue_of st)) new_id = None"
    using inv fresh by (cases "view (as_store (queue_of st)) new_id") (auto simp: server_inv_def)
  let ?plan = "request_plan (ss_client_id st) cl params"
  let ?ex = "Some (wrap_i64 (t1 + as_ttl_ms (queue_of st)))"
  let ?e = "\<lparr>pe_id = new_id, pe_status = Pending, pe_plan = ?plan, pe_created_at = t2, pe_expires_at = ?ex,
    pe_rejection_reason = None\<rparr>"
  from create_ok [OF sinv none, of t2 ?plan ?ex] obtain s' where s':
    "op_create_pending ops new_id t2 ?plan ?ex (as_store (queue_of st)) = (s', Ok ?e)" "sinv s'"
    "view s' = (view (as_store (queue_of st)))(new_id \<mapsto> ?e)" by blast
  then have "ev = [QueuedFor ?plan (ux_to_string u new_id)]" "as_store (queue_of st') = s'"
    using assms(4)
    by (auto simp: exec_request_def request_handler_def request_execution_mut_def handler_request_execution_def
        svc_request_execution_def pending_summary_def Let_def)
  with s' show ?thesis by (intro server_inv_queued [OF inv inj fresh, where e = ?e]) auto
qed

text \<open>A resolution that takes effect changes one pending entry; one that does not changes nothing.\<close>

lemma resolution_inv:
  assumes inv: "server_inv view sinv (ux_to_string u) used evs sv" and inj: "inj (ux_to_string u)"
    and e: "view (as_store sv) i = Some e" "pe_status e = Pending"
    and e': "view (as_store sv') = (view (as_store sv))(i \<mapsto> e')" "pe_plan e' = pe_plan e" and "sinv (as_store sv')"
    and ev: "ev = [PersonApproved actor (ux_to_string u i)] \<and> pe_status e' = Approved \<or>
      ev = [PersonRejected actor (ux_to_string u i)] \<and> pe_status e' = Rejected"
  shows "server_inv view sinv (ux_to_string u) used (evs @ ev) sv'"
proof -
  have "i \<in> used" "entry_story evs e (ux_to_string u i)" using inv e(1) by (auto simp: server_inv_def)
  then have queued: "QueuedFor (pe_plan e) (ux_to_string u i) \<in> set evs"
    "\<not> used_approval evs (ux_to_string u i)" "\<not> rejected_by evs (ux_to_string u i)"
    using e(2) by (auto simp: entry_story_def)
  have "entry_story (evs @ ev) e' (ux_to_string u i)"
    using ev
  proof
    assume a: "ev = [PersonApproved actor (ux_to_string u i)] \<and> pe_status e' = Approved"
    with queued queued_now_approved [OF queued(1)] e'(2) show ?thesis
      by (auto simp: entry_story_def used_approval_def rejected_by_def)
  qed (simp add: entry_story_def)
  with \<open>i \<in> used\<close> assms show ?thesis
    by (intro server_inv_update [OF inv inj, where i = i]) (auto split: if_splits)
qed

lemma exec_approve_inv:
  assumes inv: "server_inv view sinv (ux_to_string u) used evs (queue_of st)" and inj: "inj (ux_to_string u)"
    and "exec_approve_step ops u ax t1 ts t2 pending_id actor origin st = (st', ev)"
  shows "server_inv view sinv (ux_to_string u) used (evs @ ev) (queue_of st')"
proof -
  have sinv: "sinv (as_store (queue_of st))" using inv by (simp add: server_inv_def)
  have queue: "queue_of st' = (case handler_get_pending_execution ops u t1 pending_id (queue_of st) of
      Inl _ \<Rightarrow> queue_of st | Inr _ \<Rightarrow> fst (handler_approve_execution ops u t2 pending_id (queue_of st)))"
    and ev: "ev = (case handler_get_pending_execution ops u t1 pending_id (queue_of st) of Inl _ \<Rightarrow> []
      | Inr _ \<Rightarrow> resolved_events u (PersonApproved actor) pending_id
          (snd (handler_approve_execution ops u t2 pending_id (queue_of st))))"
    using assms(3) approve_queue [of ops u ax t1 ts t2 pending_id actor origin "ss_runtime st"]
    by (auto simp: exec_approve_step_def Let_def split: prod.splits)
  show ?thesis
  proof (cases "(\<exists>p. handler_get_pending_execution ops u t1 pending_id (queue_of st) = Ok p) \<and>
      (\<exists>i e. ux_parse_str u pending_id = Some i \<and> view (as_store (queue_of st)) i = Some e \<and>
        pe_status e = Pending \<and> unexpired t2 e)")
    case True
    then obtain i e where i: "ux_parse_str u pending_id = Some i" "view (as_store (queue_of st)) i = Some e"
      "pe_status e = Pending" "unexpired t2 e" by blast
    from approve_spec [OF sinv, of t2 i] i obtain s' where
      "svc_approve ops t2 i (queue_of st) = ((queue_of st)\<lparr>as_store := s'\<rparr>,
         Ok \<lparr>ae_pending = e\<lparr>pe_status := Approved\<rparr>, ae_replay_plan = pe_plan e\<rparr>)"
      "sinv s'" "view s' = (view (as_store (queue_of st)))(i \<mapsto> e\<lparr>pe_status := Approved\<rparr>)"
      by auto
    with queue ev True i(1) show ?thesis
      by (intro resolution_inv [OF inv inj i(2,3), where e' = "e\<lparr>pe_status := Approved\<rparr>" and actor = actor])
        (auto simp: handler_approve_execution_def resolved_events_def)
  next
    case False
    have "queue_of st' = queue_of st \<and> ev = []"
    proof (cases "ux_parse_str u pending_id")
      case (Some i)
      with False approve_spec [OF sinv, of t2 i] queue ev show ?thesis
        by (auto simp: handler_approve_execution_def resolved_events_def split: sum.splits option.splits if_splits)
    qed (use queue ev in \<open>auto simp: handler_approve_execution_def resolved_events_def split: sum.splits\<close>)
    with inv show ?thesis by simp
  qed
qed

lemma exec_reject_inv:
  assumes inv: "server_inv view sinv (ux_to_string u) used evs (queue_of st)" and inj: "inj (ux_to_string u)"
    and "exec_reject_step ops u ax t1 ts t2 pending_id actor why origin st = (st', ev)"
  shows "server_inv view sinv (ux_to_string u) used (evs @ ev) (queue_of st')"
proof -
  have sinv: "sinv (as_store (queue_of st))" using inv by (simp add: server_inv_def)
  let ?why = "normalize_rejection_reason why"
  let ?rejected = "handler_reject_execution ops u t2 pending_id ?why (queue_of st)"
  obtain rt' r where r: "reject_pending_execution_with_origin_mut ops u ax t1 ts t2 pending_id actor why origin
      (ss_runtime st) = (rt', r)" by fastforce
  with assms(3) have st': "queue_of st' = mr_approval_service rt'"
    and ev: "ev = resolved_events u (PersonRejected actor) pending_id r"
    by (auto simp: exec_reject_step_def)
  from reject_queue [OF r] consider (none) "queue_of st' = queue_of st" "ev = []"
    | (tried) "queue_of st' = fst ?rejected" "(\<exists>a. r = Ok a) \<longleftrightarrow> (\<exists>a. snd ?rejected = Ok a)"
    using st' ev by (auto simp: resolved_events_def split: option.splits)
  then show ?thesis
  proof cases
    case none
    with inv show ?thesis by simp
  next
    case tried
    show ?thesis
    proof (cases "\<exists>i e. ux_parse_str u pending_id = Some i \<and> view (as_store (queue_of st)) i = Some e \<and>
        pe_status e = Pending \<and> unexpired t2 e")
      case True
      then obtain i e where i: "ux_parse_str u pending_id = Some i" "view (as_store (queue_of st)) i = Some e"
        "pe_status e = Pending" "unexpired t2 e" by blast
      let ?e' = "e\<lparr>pe_status := Rejected, pe_rejection_reason := normalize_rejection_reason ?why\<rparr>"
      from reject_spec [OF sinv, of t2 i ?why] i obtain s' where
        "svc_reject ops t2 i ?why (queue_of st) = ((queue_of st)\<lparr>as_store := s'\<rparr>, Ok \<lparr>re_pending = ?e'\<rparr>)"
        "sinv s'" "view s' = (view (as_store (queue_of st)))(i \<mapsto> ?e')"
        by (auto simp: Let_def)
      moreover from this(1) i(1) tried(2) have "\<exists>a. r = Ok a" by (simp add: handler_reject_execution_def)
      ultimately show ?thesis
        using tried(1) ev i(1)
        by (intro resolution_inv [OF inv inj i(2,3), where e' = ?e' and actor = actor])
          (auto simp: handler_reject_execution_def resolved_events_def)
    next
      case False
      have "queue_of st' = queue_of st \<and> ev = []"
      proof (cases "ux_parse_str u pending_id")
        case (Some i)
        with False reject_spec [OF sinv, of t2 i ?why] tried ev show ?thesis
          by (cases r) (auto simp: handler_reject_execution_def resolved_events_def split: option.splits if_splits)
      qed (use tried ev in \<open>auto simp: handler_reject_execution_def resolved_events_def\<close>)
      with inv show ?thesis by simp
    qed
  qed
qed

lemma server_exec_inv:
  assumes inv: "server_inv view sinv (ux_to_string u) used evs (queue_of st)" and inj: "inj (ux_to_string u)"
    and fresh: "set (step_ids step) \<inter> used = {}" and exec: "server_exec ops u ax step st = (st', ev)"
  shows "server_inv view sinv (ux_to_string u) (set (step_ids step) \<union> used) (evs @ ev) (queue_of st')"
proof (cases step)
  case (StepCall flag hx dr call)
  with assms show ?thesis
    by (auto intro!: exec_call_inv [where x = "\<lparr>se_uuid = u, se_read_stored_flag = flag\<rparr>"])
next
  case (StepRequest pretty t1 new_id t2 cl params)
  with assms show ?thesis by (auto intro: exec_request_inv)
next
  case (StepApprove t1 ts t2 pending_id actor origin)
  with assms show ?thesis by (auto intro: exec_approve_inv)
next
  case (StepReject t1 ts t2 pending_id actor why origin)
  with assms show ?thesis by (auto intro: exec_reject_inv)
next
  case (StepPurge now)
  have sinv: "sinv (as_store (queue_of st))" using inv by (simp add: server_inv_def)
  from purge_ok [OF sinv, of now] obtain s' n where
    s': "op_purge_terminal_and_expired ops now (as_store (queue_of st)) = (s', Ok n)" "sinv s'"
    "view s' = (\<lambda>i. opt_filter (\<lambda>e. \<not> purged now e) (view (as_store (queue_of st)) i))"
    by blast
  have "view (as_store (queue_of st)) j = Some e" if "view s' j = Some e" for j e
    using that s'(3) by (cases "view (as_store (queue_of st)) j") (auto split: if_splits)
  with StepPurge s' exec show ?thesis
    by (intro server_inv_quiet [OF inv]) (auto simp: svc_purge_terminal_and_expired_def)
qed (use inv exec in auto)

lemma server_run_inv:
  assumes "server_inv view sinv (ux_to_string u) used evs (queue_of st)" and inj: "inj (ux_to_string u)"
    and "distinct (concat (map step_ids steps))" and "set (concat (map step_ids steps)) \<inter> used = {}"
    and "server_run ops u ax steps st = (st', ev)"
  shows "server_inv view sinv (ux_to_string u) (set (concat (map step_ids steps)) \<union> used) (evs @ ev) (queue_of st')"
  using assms(1,3-)
proof (induction steps arbitrary: used evs st st' ev)
  case (Cons step steps)
  obtain st1 ev1 where 1: "server_exec ops u ax step st = (st1, ev1)" by fastforce
  obtain st2 ev2 where 2: "server_run ops u ax steps st1 = (st2, ev2)" by fastforce
  have "server_inv view sinv (ux_to_string u) (set (step_ids step) \<union> used) (evs @ ev1) (queue_of st1)"
    using Cons.prems by (intro server_exec_inv [OF _ inj _ 1]) auto
  from Cons.IH [OF this _ _ 2] Cons.prems 1 2 show ?case by (auto simp: Un_ac)
qed simp

lemma server_run_governed:
  assumes "view (as_store (queue_of st)) = Map.empty" and "sinv (as_store (queue_of st))" and "inj (ux_to_string u)"
    and "distinct (concat (map step_ids steps))"
  shows "runs_allowed [] (snd (server_run ops u ax steps st))"
proof -
  have "server_inv view sinv (ux_to_string u) {} [] (queue_of st)"
    using assms(1,2) by (simp add: server_inv_def)
  from server_run_inv [OF this assms(3,4)] show ?thesis
    by (cases "server_run ops u ax steps st") (auto simp: server_inv_def)
qed

end

section \<open>The same run on another store\<close>

definition enc_runtime :: "('s \<Rightarrow> 't) \<Rightarrow> 's mcp_runtime \<Rightarrow> 't mcp_runtime" where
  "enc_runtime enc rt =
    \<lparr>mr_trusted_clients = mr_trusted_clients rt, mr_roles = mr_roles rt, mr_policies = mr_policies rt,
     mr_connection_policy_assignments = mr_connection_policy_assignments rt,
     mr_approval_service = enc_service enc (mr_approval_service rt), mr_audit_service = mr_audit_service rt,
     mr_pending_events = mr_pending_events rt, mr_mcp_enabled = mr_mcp_enabled rt\<rparr>"

definition enc_server :: "('s \<Rightarrow> 't) \<Rightarrow> 's server_state \<Rightarrow> 't server_state" where
  "enc_server enc st =
    \<lparr>ss_client_id = ss_client_id st, ss_runtime = enc_runtime enc (ss_runtime st), ss_profiles = ss_profiles st,
     ss_mcp_enabled_by_default = ss_mcp_enabled_by_default st, ss_profile_store_path = ss_profile_store_path st\<rparr>"

text \<open>Everything but the approval service is the same, and what leaves it alone commutes with the encoding.\<close>

lemma enc_runtime_simps [simp]:
  "mr_trusted_clients (enc_runtime enc rt) = mr_trusted_clients rt"
  "mr_roles (enc_runtime enc rt) = mr_roles rt"
  "mr_policies (enc_runtime enc rt) = mr_policies rt"
  "mr_connection_policy_assignments (enc_runtime enc rt) = mr_connection_policy_assignments rt"
  "mr_approval_service (enc_runtime enc rt) = enc_service enc (mr_approval_service rt)"
  "mr_audit_service (enc_runtime enc rt) = mr_audit_service rt"
  "mr_pending_events (enc_runtime enc rt) = mr_pending_events rt"
  "mr_mcp_enabled (enc_runtime enc rt) = mr_mcp_enabled rt"
  "(enc_runtime enc rt)\<lparr>mr_approval_service := enc_service enc sv\<rparr> = enc_runtime enc (rt\<lparr>mr_approval_service := sv\<rparr>)"
  "(enc_runtime enc rt)\<lparr>mr_audit_service := au\<rparr> = enc_runtime enc (rt\<lparr>mr_audit_service := au\<rparr>)"
  "push_event e (enc_runtime enc rt) = enc_runtime enc (push_event e rt)"
  "apply_config op (enc_runtime enc rt) = enc_runtime enc (apply_config op rt)"
  by (simp_all add: enc_runtime_def push_event_def)
     (cases op; simp add: enc_runtime_def push_event_def config_op_defs Let_def)

lemma enc_server_simps [simp]:
  "ss_client_id (enc_server enc st) = ss_client_id st"
  "ss_runtime (enc_server enc st) = enc_runtime enc (ss_runtime st)"
  "ss_profiles (enc_server enc st) = ss_profiles st"
  "ss_mcp_enabled_by_default (enc_server enc st) = ss_mcp_enabled_by_default st"
  "ss_profile_store_path (enc_server enc st) = ss_profile_store_path st"
  "(enc_server enc st)\<lparr>ss_runtime := enc_runtime enc rt\<rparr> = enc_server enc (st\<lparr>ss_runtime := rt\<rparr>)"
  by (simp_all add: enc_server_def)

lemma record_audit_event_enc:
  "record_audit_event x event (enc_runtime enc rt) = map_prod (enc_runtime enc) id (record_audit_event x event rt)"
  by (simp add: record_audit_event_def Let_def split: prod.splits sum.splits)

lemma call_reads_enc [simp]:
  "call_clients hx (enc_runtime enc rt) = call_clients hx rt"
  "call_engine hx (enc_runtime enc rt) = call_engine hx rt"
  "auth_request x dr call (enc_server enc st) = auth_request x dr call st"
  by (simp_all add: call_clients_def rt_list_trusted_clients_def runtime_engine_def auth_request_def
      policy_assignments_for_engine_def roles_for_engine_def policies_for_engine_def
      is_mcp_enabled_for_connection_def is_read_only_connection_def stored_read_only_flag_def split: option.splits)

lemma finish_call_enc:
  "finish_call ax ts fresh call out hr (enc_server enc st) =
     map_prod (enc_server enc) id (finish_call ax ts fresh call out hr st)"
  by (simp add: finish_call_def audit_execution_with_details_def Let_def split: prod.splits sum.splits)

text \<open>Authorization over two gates that answer alike.\<close>

lemma authorize_request_enc:
  assumes "gate2 request (enc g) = map_prod enc id (gate request g)"
  shows "authorize_request_with_approval x iter fresh clients engine request (Some gate2) ts (au, enc g) =
    map_prod (map_prod id enc) id
      (authorize_request_with_approval x iter fresh clients engine request (Some gate) ts (au, g))"
  unfolding authorize_request_with_approval_def resolve_approval_def Let_def prod.case option.case assms
  by (simp split: prod.splits sum.splits trusted_client_match.splits policy_decision.splits)

text \<open>What a call would queue; the rows of the table must be able to hold it.\<close>

definition call_plan :: "string \<Rightarrow> tool_call \<Rightarrow> execution_plan" where
  "call_plan client_id call =
    \<lparr>ep_connection_id = unwrap_or [] (tl_connection_id call), ep_actor_id = client_id, ep_tool_id = tl_tool_id call,
     ep_classification = tl_classification call, ep_payload = tl_arguments call\<rparr>"

fun step_ok :: "(execution_plan \<Rightarrow> bool) \<Rightarrow> string \<Rightarrow> server_step \<Rightarrow> bool" where
  "step_ok okp client_id (StepCall _ _ _ call) \<longleftrightarrow> okp (call_plan client_id call)"
| "step_ok okp client_id (StepRequest _ _ _ _ classification params) \<longleftrightarrow>
    okp (request_plan client_id classification params)"
| "step_ok okp client_id _ \<longleftrightarrow> True"

lemma server_exec_client: "ss_client_id (fst (server_exec ops u ax step st)) = ss_client_id st"
  by (cases step)
     (simp_all add: exec_call_def call_outcome_def exec_request_def request_handler_def exec_approve_step_def exec_reject_step_def finish_call_def
       audit_execution_with_details_def case_prod_beta Let_def split: sum.splits)

lemma authorize_request_gate:
  "snd (fst (authorize_request_with_approval x iter fresh clients engine request (Some gate) ts (au, g)))
    \<in> {g, fst (gate request g)}"
  unfolding authorize_request_with_approval_def resolve_approval_def Let_def
  by (simp add: case_prod_beta split: sum.splits trusted_client_match.splits policy_decision.splits)

context store_simulation
begin

lemma sim_get_handler:
  assumes "sinv (as_store sv)" and "good (as_store sv)"
  shows "handler_get_pending_execution ops2 u now pending_id (enc_service enc sv) =
    handler_get_pending_execution ops u now pending_id sv"
  using sim_list_pending [OF assms]
  by (simp add: handler_get_pending_execution_def svc_list_pending_def split: option.splits)

lemma sim_approve_handler:
  assumes "sinv (as_store sv)" and "good (as_store sv)"
  shows "handler_approve_execution ops2 u now pending_id (enc_service enc sv) =
      map_prod (enc_service enc) id (handler_approve_execution ops u now pending_id sv)"
    and "good (as_store (fst (handler_approve_execution ops u now pending_id sv)))"
  using sim_approve [OF assms, of now] assms(2)
  by (simp_all add: handler_approve_execution_def case_prod_beta Let_def split: option.splits)

lemma sim_reject_handler:
  assumes "sinv (as_store sv)" and "good (as_store sv)"
  shows "handler_reject_execution ops2 u now pending_id why (enc_service enc sv) =
      map_prod (enc_service enc) id (handler_reject_execution ops u now pending_id why sv)"
    and "good (as_store (fst (handler_reject_execution ops u now pending_id why sv)))"
  using sim_reject [OF assms, of now] assms(2)
  by (simp_all add: handler_reject_execution_def case_prod_beta Let_def split: option.splits)

lemma sim_consume_mut:
  assumes "sinv (as_store (mr_approval_service rt))" and "good (as_store (mr_approval_service rt))"
    and "consume_approved_execution_mut ops u t plan rt = (rt', r)"
  shows "consume_approved_execution_mut ops2 u t plan (enc_runtime enc rt) = (enc_runtime enc rt', r)"
    and "sinv (as_store (mr_approval_service rt'))" and "good (as_store (mr_approval_service rt'))"
    and "r = Ok None \<Longrightarrow> view (as_store (mr_approval_service rt')) = view (as_store (mr_approval_service rt))"
proof -
  let ?s = "as_store (mr_approval_service rt)"
  obtain s1 c where c: "op_consume_approved ops t plan ?s = (s1, c)" by fastforce
  have sim: "op_consume_approved ops2 t plan (enc ?s) = (enc s1, c)" "good s1"
    using sim_consume [OF assms(1,2), of t plan] c by auto
  have s1: "sinv s1" "c = Ok None \<Longrightarrow> view s1 = view ?s"
    using consume_some [OF assms(1), of t plan] consume_none [OF assms(1), of t plan] c
    by (cases "\<exists>e\<in>ran (view ?s). consumable t plan e"; force)+
  from assms(3) c sim s1
  show "consume_approved_execution_mut ops2 u t plan (enc_runtime enc rt) = (enc_runtime enc rt', r)"
    and "sinv (as_store (mr_approval_service rt'))" and "good (as_store (mr_approval_service rt'))"
    and "r = Ok None \<Longrightarrow> view (as_store (mr_approval_service rt')) = view (as_store (mr_approval_service rt))"
    by (auto simp: consume_approved_execution_mut_def svc_consume_approved_def split: sum.splits option.splits)
qed

lemma sim_request_mut:
  assumes "sinv (as_store (mr_approval_service rt))" and "good (as_store (mr_approval_service rt))"
    and "view (as_store (mr_approval_service rt)) new_id = None" and "okp plan"
    and "request_execution_mut ops u t2 new_id t3 plan rt = (rt', r)"
  shows "request_execution_mut ops2 u t2 new_id t3 plan (enc_runtime enc rt) = (enc_runtime enc rt', r)"
    and "good (as_store (mr_approval_service rt'))"
  using sim_create [OF assms(1,2,4,3)] assms(5)
  by (auto simp: request_execution_mut_def handler_request_execution_def svc_request_execution_def
      case_prod_beta Let_def split: sum.splits prod.splits)

lemma sim_gate:
  assumes "sinv (as_store (mr_approval_service rt))" and "good (as_store (mr_approval_service rt))"
    and "view (as_store (mr_approval_service rt)) new_id = None" and "okp (gate_plan payload request)"
  shows "gate_resolve ops2 u t1 t2 new_id t3 payload request (enc_runtime enc rt) =
      map_prod (enc_runtime enc) id (gate_resolve ops u t1 t2 new_id t3 payload request rt)"
    and "good (as_store (mr_approval_service (fst (gate_resolve ops u t1 t2 new_id t3 payload request rt))))"
proof -
  let ?plan = "gate_plan payload request"
  obtain rt1 r1 where 1: "consume_approved_execution_mut ops u t1 ?plan rt = (rt1, r1)" by fastforce
  obtain rt2 r2 where 2: "request_execution_mut ops u t2 new_id t3 ?plan rt1 = (rt2, r2)" by fastforce
  note c = sim_consume_mut [OF assms(1,2) 1]
  have q: "request_execution_mut ops2 u t2 new_id t3 ?plan (enc_runtime enc rt1) = (enc_runtime enc rt2, r2)"
    "good (as_store (mr_approval_service rt2))" if "r1 = Ok None"
    using sim_request_mut [OF c(2,3) _ assms(4) 2] c(4) [OF that] assms(3) by simp_all
  show "gate_resolve ops2 u t1 t2 new_id t3 payload request (enc_runtime enc rt) =
      map_prod (enc_runtime enc) id (gate_resolve ops u t1 t2 new_id t3 payload request rt)"
    and "good (as_store (mr_approval_service (fst (gate_resolve ops u t1 t2 new_id t3 payload request rt))))"
    using 1 2 c q assms(2) by (auto simp: gate_resolve_def Let_def split: sum.splits option.splits)
qed

lemma sim_call:
  assumes "sinv (as_store (queue_of st))" and "good (as_store (queue_of st))"
    and "view (as_store (queue_of st)) (dr_new_id dr) = None"
    and "okp (gate_plan (tl_arguments call) (auth_request x dr call st))"
  shows "exec_call ops2 x ax hx dr call (enc_server enc st) = map_prod (enc_server enc) id (exec_call ops x ax hx dr call st)"
    and "good (as_store (queue_of (fst (exec_call ops x ax hx dr call st))))"
proof -
  let ?req = "auth_request x dr call st"
  let ?gate = "\<lambda>ops. gate_resolve ops (se_uuid x) (dr_consume_ms dr) (dr_request_ms dr) (dr_new_id dr)
    (dr_created_ms dr) (tl_arguments call)"
  note gate = sim_gate [OF assms, of "se_uuid x" "dr_consume_ms dr" "dr_request_ms dr" "dr_created_ms dr"]
  note auth = authorize_request_enc [where gate = "?gate ops" and ?gate2.0 = "?gate ops2" and enc = "enc_runtime enc",
      OF gate(1)]
  have good: "good (as_store (mr_approval_service (snd (fst (authorize_request_with_approval ax (hx_ids hx)
      (dr_correlation_id dr) clients engine ?req (Some (?gate ops)) (dr_now_ms dr) (au, ss_runtime st))))))"
    for clients engine au
    using authorize_request_gate [of ax "hx_ids hx" "dr_correlation_id dr" clients engine ?req "?gate ops"
        "dr_now_ms dr" au "ss_runtime st"] gate(2) assms(2) by auto
  show "exec_call ops2 x ax hx dr call (enc_server enc st) = map_prod (enc_server enc) id (exec_call ops x ax hx dr call st)"
    by (simp add: exec_call_def call_outcome_def authorize_with_approval_mut_def gate(1) auth case_prod_beta Let_def
        split: sum.splits)
  show "good (as_store (queue_of (fst (exec_call ops x ax hx dr call st))))"
    using good assms(2)
    by (simp add: exec_call_def call_outcome_def authorize_with_approval_mut_def case_prod_beta Let_def split: sum.splits)
qed

lemma sim_request_step:
  assumes "sinv (as_store (queue_of st))" and "good (as_store (queue_of st))"
    and "view (as_store (queue_of st)) new_id = None" and "okp (request_plan (ss_client_id st) cl params)"
  shows "exec_request ops2 u pretty t1 new_id t2 cl params (enc_server enc st) =
      map_prod (enc_server enc) id (exec_request ops u pretty t1 new_id t2 cl params st)"
    and "good (as_store (queue_of (fst (exec_request ops u pretty t1 new_id t2 cl params st))))"
proof -
  obtain rt' r where "request_execution_mut ops u t1 new_id t2 (request_plan (ss_client_id st) cl params) (ss_runtime st) =
    (rt', r)" by fastforce
  with sim_request_mut [OF assms this]
  show "exec_request ops2 u pretty t1 new_id t2 cl params (enc_server enc st) =
      map_prod (enc_server enc) id (exec_request ops u pretty t1 new_id t2 cl params st)"
    and "good (as_store (queue_of (fst (exec_request ops u pretty t1 new_id t2 cl params st))))"
    by (simp_all add: exec_request_def request_handler_def Let_def)
qed

lemma sim_approve_step:
  assumes "sinv (as_store (queue_of st))" and "good (as_store (queue_of st))"
  shows "exec_approve_step ops2 u ax t1 ts t2 pending_id actor origin (enc_server enc st) =
      map_prod (enc_server enc) id (exec_approve_step ops u ax t1 ts t2 pending_id actor origin st)"
    and "good (as_store (queue_of (fst (exec_approve_step ops u ax t1 ts t2 pending_id actor origin st))))"
proof -
  show "exec_approve_step ops2 u ax t1 ts t2 pending_id actor origin (enc_server enc st) =
      map_prod (enc_server enc) id (exec_approve_step ops u ax t1 ts t2 pending_id actor origin st)"
    by (simp add: exec_approve_step_def approve_pending_execution_with_origin_mut_def sim_get_handler [OF assms]
        sim_approve_handler(1) [OF assms] record_audit_event_enc case_prod_beta Let_def split: sum.splits)
  show "good (as_store (queue_of (fst (exec_approve_step ops u ax t1 ts t2 pending_id actor origin st))))"
    using approve_queue [of ops u ax t1 ts t2 pending_id actor origin "ss_runtime st"]
      sim_approve_handler(2) [OF assms] assms(2)
    by (simp add: exec_approve_step_def case_prod_beta Let_def split: sum.splits)
qed

lemma sim_reject_step:
  assumes "sinv (as_store (queue_of st))" and "good (as_store (queue_of st))"
  shows "exec_reject_step ops2 u ax t1 ts t2 pending_id actor why origin (enc_server enc st) =
      map_prod (enc_server enc) id (exec_reject_step ops u ax t1 ts t2 pending_id actor why origin st)"
    and "good (as_store (queue_of (fst (exec_reject_step ops u ax t1 ts t2 pending_id actor why origin st))))"
proof -
  show "exec_reject_step ops2 u ax t1 ts t2 pending_id actor why origin (enc_server enc st) =
      map_prod (enc_server enc) id (exec_reject_step ops u ax t1 ts t2 pending_id actor why origin st)"
    by (simp add: exec_reject_step_def reject_pending_execution_with_origin_mut_def sim_get_handler [OF assms]
        sim_reject_handler(1) [OF assms] record_audit_event_enc record_audit_event_frame case_prod_beta Let_def
        split: sum.splits)
  obtain rt' r where r: "reject_pending_execution_with_origin_mut ops u ax t1 ts t2 pending_id actor why origin
      (ss_runtime st) = (rt', r)" by fastforce
  with reject_queue [OF r] sim_reject_handler(2) [OF assms] assms(2)
  show "good (as_store (queue_of (fst (exec_reject_step ops u ax t1 ts t2 pending_id actor why origin st))))"
    by (auto simp: exec_reject_step_def)
qed

lemma sim_server_exec:
  assumes "sinv (as_store (queue_of st))" and "good (as_store (queue_of st))"
    and "\<forall>i\<in>set (step_ids step). view (as_store (queue_of st)) i = None" and "step_ok okp (ss_client_id st) step"
  shows "server_exec ops2 u ax step (enc_server enc st) = map_prod (enc_server enc) id (server_exec ops u ax step st)"
    and "good (as_store (queue_of (fst (server_exec ops u ax step st))))"
proof -
  have "server_exec ops2 u ax step (enc_server enc st) = map_prod (enc_server enc) id (server_exec ops u ax step st) \<and>
    good (as_store (queue_of (fst (server_exec ops u ax step st))))"
  proof (cases step)
    case (StepCall flag hx dr call)
    with assms show ?thesis by (auto simp: sim_call call_plan_def gate_plan_def auth_request_def)
  next
    case (StepRequest pretty t1 new_id t2 cl params)
    with assms show ?thesis by (auto simp: sim_request_step)
  next
    case (StepPurge now)
    with sim_purge [OF assms(1,2), of now] show ?thesis
      by (simp add: svc_purge_terminal_and_expired_def case_prod_beta Let_def)
  qed (use assms in \<open>simp_all add: sim_approve_step sim_reject_step finish_call_enc\<close>)
  then show "server_exec ops2 u ax step (enc_server enc st) = map_prod (enc_server enc) id (server_exec ops u ax step st)"
    and "good (as_store (queue_of (fst (server_exec ops u ax step st))))" by blast+
qed

lemma sim_server_run:
  assumes "server_inv view sinv (ux_to_string u) used evs (queue_of st)" and inj: "inj (ux_to_string u)"
    and "good (as_store (queue_of st))" and "\<forall>step\<in>set steps. step_ok okp (ss_client_id st) step"
    and "distinct (concat (map step_ids steps))" and "set (concat (map step_ids steps)) \<inter> used = {}"
  shows "server_run ops2 u ax steps (enc_server enc st) = map_prod (enc_server enc) id (server_run ops u ax steps st)"
  using assms(1,3-)
proof (induction steps arbitrary: st used evs)
  case (Cons step steps)
  obtain st1 ev1 where 1: "server_exec ops u ax step st = (st1, ev1)" by fastforce
  have fresh: "\<forall>i\<in>set (step_ids step). view (as_store (queue_of st)) i = None"
    using Cons.prems(1,5) by (fastforce simp: server_inv_def)
  have sinv: "sinv (as_store (queue_of st))" using Cons.prems(1) by (simp add: server_inv_def)
  have ok: "step_ok okp (ss_client_id st) step" using Cons.prems(3) by simp
  note sim = sim_server_exec [OF sinv Cons.prems(2) fresh ok, of u ax, unfolded 1]
  have "server_inv view sinv (ux_to_string u) (set (step_ids step) \<union> used) (evs @ ev1) (queue_of st1)"
    using Cons.prems by (intro server_exec_inv [OF _ inj _ 1]) auto
  moreover have "ss_client_id st1 = ss_client_id st" using server_exec_client [of ops u ax step st] 1 by simp
  ultimately have "server_run ops2 u ax steps (enc_server enc st1) =
      map_prod (enc_server enc) id (server_run ops u ax steps st1)"
    using Cons.prems sim(2) by (intro Cons.IH) auto
  with 1 sim(1) show ?case by (simp add: case_prod_beta Let_def)
qed simp

lemma sim_server_governed:
  assumes "view (as_store (queue_of st)) = Map.empty" and "sinv (as_store (queue_of st))"
    and "good (as_store (queue_of st))" and "inj (ux_to_string u)"
    and "\<forall>step\<in>set steps. step_ok okp (ss_client_id st) step" and "distinct (concat (map step_ids steps))"
  shows "runs_allowed [] (snd (server_run ops2 u ax steps (enc_server enc st)))"
proof -
  have "server_inv view sinv (ux_to_string u) {} [] (queue_of st)"
    using assms(1,2) by (simp add: server_inv_def)
  from sim_server_run [OF this assms(4,3,5,6)] server_run_governed [OF assms(1,2,4,6)] show ?thesis by simp
qed

end

section \<open>From start-up on\<close>

text \<open>Loading the configuration leaves the queue as the purge at start left it.\<close>

lemmas keeps_queue = rt_then_keeps [where P = "\<lambda>rt. mr_approval_service rt = sv" for sv]
  upsert_all_keeps [where P = "\<lambda>rt. mr_approval_service rt = sv" for sv]

lemma server_state_new_queue:
  assumes "server_state_new ops u now au store repo order profiles db client = Ok st"
  shows "queue_of st = fst (svc_purge_terminal_and_expired ops now (approval_service_new store))"
    and "ss_client_id st = client"
proof -
  let ?sv = "fst (svc_purge_terminal_and_expired ops now (approval_service_new store))"
  obtain rt g where rt: "load_governance_into_runtime repo order (mcp_runtime_new ops now au store) = (rt, Ok g)"
    and st: "ss_runtime st = load_connection_policy_assignments u profiles (fst (drain_events rt))" "ss_client_id st = client"
    using assms
    by (auto simp: server_state_new_def build_runtime_def and_then_eq_Ok map_err_def split: prod.splits sum.splits)
  have g: "load_governance_settings repo = Ok g"
    using rt by (auto simp: load_governance_into_runtime_def rt_then_def split: prod.splits sum.splits)
  have settings: "mr_approval_service (fst (apply_governance_settings g rt0)) = mr_approval_service rt0" for rt0 :: "'a mcp_runtime"
    unfolding apply_governance_settings_def by (intro keeps_queue) (simp_all add: config_op_defs)
  have "mr_approval_service (fst (load_governance_into_runtime repo order (mcp_runtime_new ops now au store))) = ?sv"
    unfolding load_governance_into_runtime_def g sum.case
    by (intro keeps_queue) (simp_all add: settings config_op_defs mcp_runtime_new_def create_global_assignments_def
        rt_list_trusted_clients_def case_prod_beta Let_def)
  moreover have "mr_approval_service (fold (\<lambda>profile rt. fst (load_profile_assignment u profile rt)) profiles rt0) =
      mr_approval_service rt0" for rt0 :: "'a mcp_runtime"
    by (induction profiles arbitrary: rt0)
       (simp_all add: load_profile_assignment_def config_op_defs Let_def split: option.splits)
  ultimately show "queue_of st = ?sv" "ss_client_id st = client"
    using rt st by (simp_all add: load_connection_policy_assignments_def drain_events_def)
qed

lemma sqlite_start_empty:
  assumes "server_state_new (sqlite_ops x) u now au [] repo order profiles db client = Ok st" and "fault_free x"
  shows "as_store (queue_of st) = []"
  using sq_purge_row_of [OF assms(2), of now "[]"]
  by (simp add: server_state_new_queue(1) [OF assms(1)] svc_purge_terminal_and_expired_def sqlite_ops_def
      approval_service_new_def purge_keeps case_prod_beta)

lemma sqlite_run_governed:
  fixes st :: "pending_row list server_state"
  assumes "uuid_codec x" and "fault_free x" and "\<forall>i. ux_parse_str u (ux_to_string u i) = Some i"
    and "as_store (queue_of st) = []"
    and "\<forall>step\<in>set steps. step_ok (storable x) (ss_client_id st) step" and "distinct (concat (map step_ids steps))"
  shows "runs_allowed [] (snd (server_run (sqlite_ops x) u ax steps st))"
proof -
  let ?st = "enc_server (\<lambda>_. []) st"
  have st: "st = enc_server (map (row_of x)) ?st"
    using assms(4) by (simp add: enc_server_def enc_runtime_def enc_service_def)
  have inj: "inj (ux_to_string u)" using assms(3) by (metis injI option.inject)
  from store_simulation.sim_server_governed [OF sqlite_simulates [OF assms(1,2)], of ?st u steps ax] inj assms(5,6) st
  show ?thesis by (simp add: fun_eq_iff entry_view_def all_storable_def ids_distinct_def)
qed

text \<open>
  C1. Whatever happens to a server that starts on an empty table of pending executions
  (calls of the agent in two halves, requests, resolutions by a person, changes of the
  policies, purges, in any order and number), every tool that ran was let through. It is
  not one of the tools kept for a person. It used no approval, and the policies of that
  moment allowed the call, or asked and the tool is one that only handles the queue. Or it
  used an approval: the policies asked, that entry had been queued for the same actor,
  connection, tool and arguments and approved afterwards, nothing had run on it before,
  and nobody had rejected it. Each call and request draws a new identifier, and the text
  forms of the table can be read back.
\<close>

theorem tools_run_only_governed:
  assumes "uuid_codec x" and "fault_free x" and "\<forall>i. ux_parse_str u (ux_to_string u i) = Some i"
    and "as_store (queue_of st) = []"
    and "\<forall>step\<in>set steps. step_ok (storable x) (ss_client_id st) step" and "distinct (concat (map step_ids steps))"
    and "server_run (sqlite_ops x) u ax steps st = (st', evs)" and "n < length evs" and "evs ! n = Ran plan d granted"
  shows "ep_tool_id plan \<notin> set HUMAN_ONLY_APPROVAL_TOOLS \<and>
    (case granted of
       None \<Rightarrow> d = Ok Allow \<or> d = Ok RequireApproval \<and> ep_tool_id plan \<in> set APPROVAL_QUEUE_TOOLS
     | Some s \<Rightarrow> d = Ok RequireApproval \<and>
         (\<exists>k m queued actor. k < m \<and> m < n \<and> evs ! k = QueuedFor queued s \<and> evs ! m = PersonApproved actor s \<and>
            approval_matches_plan queued plan) \<and>
         (\<forall>j<n. \<forall>plan' d'. evs ! j \<noteq> Ran plan' d' (Some s)) \<and> (\<forall>j<n. \<forall>actor. evs ! j \<noteq> PersonRejected actor s))"
proof -
  have "runs_allowed [] evs" using sqlite_run_governed [OF assms(1-6), of ax] assms(7) by simp
  from runs_allowed_nth [OF this assms(8)] have run: "run_allowed (take n evs) (Ran plan d granted)"
    using assms(9) by simp
  have seen: "e \<in> set (take n evs)" if "j < n" "evs ! j = e" for j e
    using that assms(8) by (auto simp: in_set_conv_nth)
  show ?thesis
  proof (cases granted)
    case (Some s)
    with run obtain queued k m actor where "approval_matches_plan queued plan" "k < m" "m < length (take n evs)"
      "take n evs ! k = QueuedFor queued s" "take n evs ! m = PersonApproved actor s"
      by (auto simp: queued_then_approved_def)
    then have "k < m \<and> m < n \<and> evs ! k = QueuedFor queued s \<and> evs ! m = PersonApproved actor s \<and>
        approval_matches_plan queued plan" using assms(8) by simp
    moreover have "\<not> used_approval (take n evs) s" "\<not> rejected_by (take n evs) s" using run Some by simp_all
    then have "\<forall>j<n. \<forall>plan' d'. evs ! j \<noteq> Ran plan' d' (Some s)" "\<forall>j<n. \<forall>actor. evs ! j \<noteq> PersonRejected actor s"
      unfolding used_approval_def rejected_by_def using seen by blast+
    ultimately show ?thesis using run Some by auto
  qed (use run in simp)
qed

definition sample_run_uuid :: uuid_ext where
  "sample_run_uuid =
    \<lparr>ux_parse_str = (\<lambda>s. Some (word_of_nat (read_nat 0 s))), ux_to_string = (\<lambda>i. show_nat (unat i))\<rparr>"

definition sample_run_ext :: pending_ext where
  "sample_run_ext = sample_ext\<lparr>px_json_to_string := (\<lambda>_. Ok ''{}''), px_json_from_str := (\<lambda>_. Ok (JObject []))\<rparr>"

definition sample_run_steps :: "server_step list" where
  "sample_run_steps = [StepCall (\<lambda>_ _. Ok None) sample_orders sample_draws sample_call, StepPurge 9]"

lemma sample_run_laws:
  "uuid_codec sample_run_ext" "fault_free sample_run_ext"
  "\<forall>i. ux_parse_str sample_run_uuid (ux_to_string sample_run_uuid i) = Some i"
  "\<forall>step\<in>set sample_run_steps. step_ok (storable sample_run_ext) client step"
  "distinct (concat (map step_ids sample_run_steps))"
  using sample_ext_ok(1,2)
  by (simp_all add: uuid_codec_def fault_free_def storable_def sample_run_ext_def sample_run_uuid_def sample_run_steps_def
      call_plan_def sample_call_def sample_ext_def read_show_nat class_names_def)

lemma sample_run_events:
  "\<exists>st :: pending_row list server_state. \<exists>st'. as_store (queue_of st) = [] \<and>
     server_run (sqlite_ops sample_run_ext) sample_run_uuid steady_audit_ext sample_run_steps st =
       (st', [Ran (call_plan ''agent'' sample_call) (Ok Allow) None])"
proof -
  let ?x = "\<lparr>se_uuid = sample_run_uuid, se_read_stored_flag = \<lambda>_ _. Ok None\<rparr>"
  obtain st0 st1 out where call: "sample_start = Ok st0"
    "call_outcome in_memory_ops ?x steady_audit_ext sample_orders sample_draws sample_call st0 = (st1, Ok out)"
    "ao_allowed out" "ao_approved_execution_id out = None"
    "evaluate (hx_ids sample_orders) (call_engine sample_orders (ss_runtime st0))
       (auth_evaluation (auth_request ?x sample_draws sample_call st0)) = Ok Allow"
    using sample_call_outcome [of ?x] by blast
  obtain s where s: "sample_start = Ok s" "ss_client_id s = ''agent''" "as_store (queue_of s) = []"
    using sample_start_runtime by auto
  have "s = st0" using s(1) unfolding call(1) by (rule Inr_inject [symmetric])
  with s have st0: "ss_client_id st0 = ''agent''" "as_store (queue_of st0) = []" by simp_all
  obtain clients where clients: "call_clients sample_orders (ss_runtime st0) = Ok clients"
    by (simp add: call_clients_def rt_list_trusted_clients_def)
  have "gate_plan (tl_arguments sample_call) (auth_request ?x sample_draws sample_call st0) = call_plan ''agent'' sample_call"
    by (simp add: gate_plan_def auth_request_def call_plan_def st0(1))
  with call have "exec_call in_memory_ops ?x steady_audit_ext sample_orders sample_draws sample_call st0 =
      (st1, [Ran (call_plan ''agent'' sample_call) (Ok Allow) None])"
    by (simp add: exec_call_def clients asks_def run_events_def Let_def)
  then obtain st2 where run: "server_run in_memory_ops sample_run_uuid steady_audit_ext sample_run_steps st0 =
      (st2, [Ran (call_plan ''agent'' sample_call) (Ok Allow) None])"
    by (simp add: sample_run_steps_def)
  have inj: "inj (ux_to_string sample_run_uuid)" using sample_run_laws(3) by (metis injI option.inject)
  have "server_inv entry_view ids_distinct (ux_to_string sample_run_uuid) {} [] (queue_of st0)"
    by (simp add: server_inv_def st0(2) entry_view_def ids_distinct_def)
  from store_simulation.sim_server_run [OF sqlite_simulates [OF sample_run_laws(1,2)] this inj _ sample_run_laws(4,5)]
  have "server_run (sqlite_ops sample_run_ext) sample_run_uuid steady_audit_ext sample_run_steps
      (enc_server (map (row_of sample_run_ext)) st0) =
    (enc_server (map (row_of sample_run_ext)) st2, [Ran (call_plan ''agent'' sample_call) (Ok Allow) None])"
    by (simp add: run st0(2) all_storable_def)
  then show ?thesis
    by (intro exI [of _ "enc_server (map (row_of sample_run_ext)) st0"]
        exI [of _ "enc_server (map (row_of sample_run_ext)) st2"]) (simp add: st0(2))
qed

theorem tools_run_only_governed_witness:
  "\<exists>(st :: pending_row list server_state) st' evs. as_store (queue_of st) = [] \<and>
     server_run (sqlite_ops sample_run_ext) sample_run_uuid steady_audit_ext sample_run_steps st = (st', evs) \<and>
     evs ! 0 = Ran (call_plan ''agent'' sample_call) (Ok Allow) None \<and>
     ep_tool_id (call_plan ''agent'' sample_call) \<notin> set HUMAN_ONLY_APPROVAL_TOOLS"
proof -
  obtain st st' where run: "as_store (queue_of (st :: pending_row list server_state)) = []"
    "server_run (sqlite_ops sample_run_ext) sample_run_uuid steady_audit_ext sample_run_steps st =
       (st', [Ran (call_plan ''agent'' sample_call) (Ok Allow) None])"
    using sample_run_events by blast
  from tools_run_only_governed [OF sample_run_laws(1-3) run(1) sample_run_laws(4,5) run(2), of 0]
  have "ep_tool_id (call_plan ''agent'' sample_call) \<notin> set HUMAN_ONLY_APPROVAL_TOOLS" by simp
  with run show ?thesis
    by (intro exI [of _ st] exI [of _ st'] exI [of _ "[Ran (call_plan ''agent'' sample_call) (Ok Allow) None]"]) simp
qed

end
