(* ===== verification/Spec2Isabelle.thy ===== *)
theory Spec2Isabelle
  imports Policy Approval Pending_Sqlite Events Redaction Audit_Store Audit_Service Audit_Export
    Authorization Governance Mcp_Runtime Conn_Tree Tasks Shutdown Dependency_Order Tx_Control Db_Error Edit_Session
    Wire Driver_Rpc Dotenv Mcp_Server Approval_Tools Server_Runs
begin

text \<open>
  Verification of the core of DBFlux, a database client written in Rust: the governance of
  what AI agents may do through its MCP server, the audit log, the sessions and background
  work of the application, and the channel to drivers in their own processes.

  \<^bold>\<open>The program's parts and how they meet.\<close> An agent calls a tool of the MCP server. The
  middleware of the server asks the runtime to authorize the call; authorization checks the
  client, the connection and the policies, and when the policies ask for a person it goes
  to the approval queue, which lives in a SQLite table shared with the application. A
  person approves or rejects there. Every answer is recorded by the audit service, which
  validates, redacts and stores events. The application itself keeps a tree of connections,
  runs background tasks, executes editor statements on isolated sessions, talks to drivers
  over length-prefixed frames, reads secrets from dotenv files, orders tables for a
  migration, and shuts all of this down in phases.

  \<^bold>\<open>Conventions.\<close> A \<open>Result\<close> is a sum (\<open>Err\<close> left), an early return a branch of it. Strings are
  lists of characters up to U+00FF; lengths in bytes count their UTF-8 form. A hash map is
  an association list; where its iteration order reaches the result the order is an
  argument and the theorems hold for every order (\<open>hash_order\<close>). Clocks, drawn identifiers
  and the answers of drivers are arguments. Other crates and services (uuid, serde_json,
  regex, SQLite's failures, the file system) are records of functions; what is relied on of
  them is a named hypothesis, shown satisfiable by a concrete instance in each witness.
  The socket between the client and a driver host carries what is written while both ends
  are open.
  Concurrent code is an interleaving of its atomic steps. Integers that can wrap are kept at
  their width (\<open>wrap_i64\<close>, words).

  \<^bold>\<open>Foundations.\<close>
  \<^item> \<open>Prelude\<close>: results, options, association lists, hash orders; \<open>Rust_Text\<close>: Rust's string
    functions; \<open>Json\<close>: the value type of serde_json with sorted objects.

  \<^bold>\<open>Governance\<close> (\<^verbatim>\<open>src/crates/dbflux_policy\<close>, \<^verbatim>\<open>dbflux_approval\<close>, \<^verbatim>\<open>dbflux_mcp\<close>, \<^verbatim>\<open>dbflux_mcp_server\<close>,
  \<^verbatim>\<open>dbflux_storage/src/pending_executions.rs\<close>).
  \<^item> \<open>Policy\<close>: classes, assignments, roles, \<open>PolicyEngine::evaluate\<close>, trusted clients. The engine
    equals a declarative definition by its reached policies, for every order of its hash set.
  \<^item> \<open>Approval\<close>: pending executions, the in-memory store, \<open>ApprovalService\<close> and its runs. The
    store trait is a record of operations whose contract is the locale \<open>pending_store\<close>,
    interpreted on the in-memory store; over it, every entry is requested, then approved
    and used at most once, or rejected.
  \<^item> \<open>Pending_Sqlite\<close>: the same trait over the rows of the SQLite table. The locale
    \<open>store_simulation\<close> extends the contract; the table simulates the in-memory store run for
    run, and of several processes that race for one approval one gets it.
  \<^item> \<open>Authorization\<close>: identity, tool catalogue, router and the authorization handler with the
    gate as a parameter: when exactly it allows, that each answer leaves one audit row, and
    that well-formed calls are answered.
  \<^item> \<open>Governance\<close>: the exchanged records, conversions, built-in policies and roles, which never
    grant more than a read.
  \<^item> \<open>Mcp_Runtime\<close>: the runtime of \<^verbatim>\<open>dbflux_mcp/src/runtime.rs\<close> with its gate: a call the policies
    ask about runs exactly on a matching approval, which it uses up; a rejection is audited
    before it takes effect; decisions do not depend on hash orders in any reachable runtime.
  \<^item> \<open>Mcp_Server\<close>: start-up from the stored settings, checks on a connection and the middleware
    (\<^verbatim>\<open>state.rs\<close>, \<^verbatim>\<open>governance.rs\<close>): a started server grants what was configured and no more; a
    call that runs leaves its two audit rows.
  \<^item> \<open>Approval_Tools\<close>: the tools of \<^verbatim>\<open>tools/approval.rs\<close>: an agent cannot approve or reject.
  \<^item> \<open>Server_Runs\<close>: any sequence of calls, requests, resolutions, changes of policy and purges
    over the SQLite table: a tool ran only when allowed or approved for that very call, once
    per approval. The run over the table is the run over the in-memory store, by
    \<open>store_simulation\<close>, and the invariant is proved once inside \<open>pending_store\<close>.

  \<^bold>\<open>Audit\<close> (\<^verbatim>\<open>dbflux_core/src/observability\<close>, \<^verbatim>\<open>dbflux_audit\<close>, \<^verbatim>\<open>dbflux_storage/src/repositories/audit.rs\<close>).
  \<^item> \<open>Events\<close>: the event model with its text forms (locale \<open>text_codec\<close>, interpreted on each);
    \<open>Redaction\<close>: passwords of URLs without reserved characters and values under sensitive
    keys have no influence on the redacted text; what precedes a reserved character in a
    password is kept; \<open>Audit_Store\<close>: rows, filters as SQL text with bound values, purging by
    age, which ends, loses no row that is not old and on success has removed exactly the old
    ones, but fails where SQLite has no \<open>DELETE ... LIMIT\<close>; \<open>Audit_Service\<close>: recording is all or nothing with
    bounded details, and query text is hidden when its capture is off; \<open>Audit_Export\<close>: CSV
    and JSON, with a round trip for CSV.

  \<^bold>\<open>Application\<close> (\<^verbatim>\<open>dbflux_core\<close>, \<^verbatim>\<open>dbflux_ui_document\<close>, \<^verbatim>\<open>dbflux_app\<close>, \<^verbatim>\<open>dbflux/src/main.rs\<close>).
  \<^item> \<open>Conn_Tree\<close>: the connection tree and its manager; no run closes a cycle, so every walk
    returns. \<open>Tasks\<close>: task manager, cancel tokens as cells of a heap, slots and the document's
    task runner; ended tasks are final and a new primary task replaces the old one.
    \<open>Shutdown\<close>: coordinator and sequence in every interleaving; one caller starts it, phases
    only advance, and a bounded number of moves ends it whatever the work it waits for does.
    \<open>Dependency_Order\<close>: Kahn's loop and
    Tarjan's components, correct and total. \<open>Tx_Control\<close>: lexer and classification of typed
    transaction control, which fails closed. \<open>Db_Error\<close>: errors of drivers and their texts.
    \<open>Edit_Session\<close>: the generation-guarded session of a document in every interleaving.
    \<open>Dotenv\<close>: secrets come only from private, regular, small files, and written values are
    read back.

  \<^bold>\<open>Out-of-process drivers\<close> (\<^verbatim>\<open>dbflux_ipc\<close>, \<^verbatim>\<open>dbflux_driver_host\<close>, \<^verbatim>\<open>dbflux_driver_ipc\<close>).
  \<^item> \<open>Wire\<close>: frames within the size limit round-trip; versions are negotiated. \<open>Driver_Rpc\<close>: the
    host's loop and the client: no driver use without a handshake, every opened connection
    is closed, and over the bytes of the socket every call gets the answer to its own
    request, or an I/O error where a message exceeds the limit.

  \<^bold>\<open>Bounds and fuel.\<close> \<open>strongconnect\<close> has as fuel the number of nodes: each call visits a new node,
  and it is proved to return. Loops that might not end (\<open>kahn\<close>, \<open>purge_loop\<close>, \<open>climb\<close>,
  \<open>visit\<close>) are partial functions into \<open>option\<close>; that they return is part of the theorems. The
  four polling loops of shutdown are stopped by their deadlines: with a wait of at least the
  poll interval between rounds they make at most 42, 42, 62 and 42 of them, which with the
  moves between them gives the 195 moves after which the sequence has ended. Runs are lists of any length.
  The other recursive functions are total.

  \<^bold>\<open>Not modelled.\<close> The user interface (rendering on a foreign toolkit); the drivers of single
  databases and the tool handlers that call them, whose effects are those of external
  servers (a run takes their results as arguments); the rmcp protocol loop, sockets, SSH,
  cloud SDKs and process start-up; import and export of files in third-party formats;
  embedded interpreters; diagram layout in floating point; opening and migrating the SQLite
  file. SQL that the code sends to SQLite is modelled as the rows it matches. The manifest
  lists these parts with their reasons.
\<close>

end
